(* ===== verification/Tarjan.thy ===== *)
theory Tarjan
imports Prelude
begin

text \<open>
  The strongly connected components of the caller-to-callee graph: \<open>_tarjan\<close> of
  \<open>analysis/interprocedural.py\<close>.  The state record holds the variables the nested function
  \<open>visit\<close> shares with its parent; the Python stack list is kept with its top first.  The first
  argument of \<^theory_text>\<open>visit\<close> is the number of nested calls the interpreter still allows
  (\<open>sys.getrecursionlimit\<close>): running out is Python's \<open>RecursionError\<close>.  The adjacency argument
  is \<open>sorted(adjacency.get(node, ()))\<close>.

  The invariant of the depth-first search and the correctness proof follow: with a recursion
  budget of at least the number of nodes the function returns, its components are exactly the
  strongly connected components, and they come out callees first.
\<close>

section \<open>The algorithm\<close>

record 'a tarjan_state =
  dfs_index :: nat
  stack :: "'a list"
  on_stack :: "'a set"
  indexes :: "'a \<rightharpoonup> nat"
  lows :: "'a \<rightharpoonup> nat"
  sccs :: "'a list list"

definition tarjan_init :: "'a tarjan_state" where
  "tarjan_init = \<lparr>dfs_index = 0, stack = [], on_stack = {}, indexes = Map.empty, lows = Map.empty,
     sccs = []\<rparr>"

definition enter :: "'a \<Rightarrow> 'a tarjan_state \<Rightarrow> 'a tarjan_state" where
  "enter node st = st\<lparr>indexes := (indexes st)(node \<mapsto> dfs_index st), lows := (lows st)(node \<mapsto> dfs_index st),
     dfs_index := dfs_index st + 1, stack := node # stack st, on_stack := insert node (on_stack st)\<rparr>"

definition lower :: "'a \<Rightarrow> nat \<Rightarrow> 'a tarjan_state \<Rightarrow> 'a tarjan_state result" where
  "lower node v st = (case lows st node of None \<Rightarrow> Inl KeyError
     | Some l \<Rightarrow> Inr (st\<lparr>lows := (lows st)(node \<mapsto> min l v)\<rparr>))"

text \<open>The \<open>while True\<close> loop that pops one component off the stack.\<close>

fun pop_component :: "'a \<Rightarrow> 'a list \<Rightarrow> ('a list \<times> 'a list) result" where
  "pop_component node [] = Inl IndexError"
| "pop_component node (m # ms) =
     (if m = node then Inr ([m], ms)
      else rbind (pop_component node ms) (\<lambda>(c, rest). Inr (m # c, rest)))"

definition finish_visit :: "'a::linorder \<Rightarrow> 'a tarjan_state \<Rightarrow> 'a tarjan_state result" where
  "finish_visit node st =
     (case (lows st node, indexes st node) of
        (Some l, Some i) \<Rightarrow>
          (if l \<noteq> i then Inr st
           else rbind (pop_component node (stack st)) (\<lambda>(c, rest).
             Inr (st\<lparr>stack := rest, on_stack := on_stack st - set c, sccs := sccs st @ [sort c]\<rparr>)))
      | _ \<Rightarrow> Inl KeyError)"

declare rbind_cong [fundef_cong]

fun visit :: "nat \<Rightarrow> ('a::linorder \<Rightarrow> 'a list) \<Rightarrow> 'a \<Rightarrow> 'a tarjan_state \<Rightarrow> 'a tarjan_state result"
and visit_targets ::
  "nat \<Rightarrow> ('a::linorder \<Rightarrow> 'a list) \<Rightarrow> 'a \<Rightarrow> 'a list \<Rightarrow> 'a tarjan_state \<Rightarrow> 'a tarjan_state result" where
  "visit 0 adj node st = Inl RecursionError"
| "visit (Suc n) adj node st =
     rbind (visit_targets n adj node (adj node) (enter node st)) (finish_visit node)"
| "visit_targets n adj node [] st = Inr st"
| "visit_targets n adj node (t # ts) st =
     (case indexes st t of
        None \<Rightarrow>
          rbind (visit n adj t st) (\<lambda>st1.
            case lows st1 t of
              None \<Rightarrow> Inl KeyError
            | Some lt \<Rightarrow> rbind (lower node lt st1) (visit_targets n adj node ts))
      | Some it \<Rightarrow>
          (if t \<in> on_stack st then rbind (lower node it st) (visit_targets n adj node ts)
           else visit_targets n adj node ts st))"

definition tarjan :: "nat \<Rightarrow> 'a::linorder list \<Rightarrow> ('a \<Rightarrow> 'a list) \<Rightarrow> 'a list list result" where
  "tarjan depth nodes adj =
     rbind (rfold (\<lambda>node st. if indexes st node = None then visit depth adj node st else Inr st)
              (sort nodes) tarjan_init)
       (\<lambda>st. Inr (sccs st))"

section \<open>The invariant\<close>

definition edges :: "('a \<Rightarrow> 'a list) \<Rightarrow> ('a \<times> 'a) set" where
  "edges adj = {(x, y). y \<in> set (adj x)}"

definition idx :: "'a tarjan_state \<Rightarrow> 'a \<Rightarrow> nat" where
  "idx st x = the (indexes st x)"

abbreviation visited :: "'a tarjan_state \<Rightarrow> 'a set" where
  "visited st \<equiv> dom (indexes st)"

abbreviation emitted_nodes :: "'a list list \<Rightarrow> 'a set" where
  "emitted_nodes rs \<equiv> set (concat rs)"

text \<open>
  A list of components is well formed when they are disjoint, each is sorted, non-empty and
  mutually reachable, and an edge leads from a component to itself or to an earlier one.
\<close>

definition callees_first :: "('a \<Rightarrow> 'a list) \<Rightarrow> 'a list list \<Rightarrow> bool" where
  "callees_first adj rs \<longleftrightarrow>
     (\<forall>i < length rs. \<forall>x \<in> set (rs ! i). \<forall>y \<in> set (adj x). \<exists>j \<le> i. y \<in> set (rs ! j))"

definition sccs_ok :: "('a::linorder \<Rightarrow> 'a list) \<Rightarrow> 'a list list \<Rightarrow> bool" where
  "sccs_ok adj rs \<longleftrightarrow>
     distinct (concat rs) \<and> callees_first adj rs \<and>
     (\<forall>c \<in> set rs. c \<noteq> [] \<and> sorted c \<and> (\<forall>x \<in> set c. \<forall>y \<in> set c. (x, y) \<in> (edges adj)\<^sup>*))"

definition tarjan_inv :: "('a::linorder \<Rightarrow> 'a list) \<Rightarrow> 'a list \<Rightarrow> 'a tarjan_state \<Rightarrow> bool" where
  "tarjan_inv adj gs st \<longleftrightarrow>
     on_stack st = set (stack st) \<and>
     sorted_wrt (\<lambda>x y. idx st y < idx st x) (stack st) \<and>
     (\<forall>x \<in> visited st. idx st x < dfs_index st) \<and>
     visited st = set (stack st) \<union> emitted_nodes (sccs st) \<and>
     set (stack st) \<inter> emitted_nodes (sccs st) = {} \<and>
     set gs \<subseteq> set (stack st) \<and>
     (\<forall>x \<in> set (stack st) - set gs. set (adj x) \<subseteq> visited st) \<and>
     (\<forall>x \<in> set (stack st). \<exists>g \<in> set gs. idx st g \<le> idx st x \<and> (x, g) \<in> (edges adj)\<^sup>*) \<and>
     (\<forall>g \<in> set gs. \<forall>y \<in> set (stack st). idx st g \<le> idx st y \<longrightarrow> (g, y) \<in> (edges adj)\<^sup>*) \<and>
     sccs_ok adj (sccs st)"

definition extends :: "'a tarjan_state \<Rightarrow> 'a tarjan_state \<Rightarrow> bool" where
  "extends st st' \<longleftrightarrow>
     indexes st \<subseteq>\<^sub>m indexes st' \<and>
     (\<forall>x \<in> visited st. lows st' x = lows st x) \<and>
     dfs_index st \<le> dfs_index st' \<and>
     (\<forall>x \<in> visited st' - visited st. dfs_index st \<le> idx st' x)"

text \<open>
  What holds inside the loop of \<open>visit v\<close>: \<open>gs\<close> are the nodes whose visit is still open,
  \<open>st0\<close> the state before \<open>v\<close> was entered, \<open>ts\<close> the targets still to come.
\<close>

definition loop_inv ::
  "('a::linorder \<Rightarrow> 'a list) \<Rightarrow> 'a list \<Rightarrow> 'a \<Rightarrow> 'a tarjan_state \<Rightarrow> 'a list \<Rightarrow> 'a tarjan_state \<Rightarrow> bool" where
  "loop_inv adj gs v st0 ts st \<longleftrightarrow>
     tarjan_inv adj gs st0 \<and> v \<notin> visited st0 \<and> (\<forall>g \<in> set gs. (g, v) \<in> (edges adj)\<^sup>*) \<and>
     extends st0 st \<and> indexes st v = Some (dfs_index st0) \<and> dfs_index st0 < dfs_index st \<and>
     (\<exists>new. stack st = new @ v # stack st0) \<and>
     tarjan_inv adj (v # gs) st \<and> set ts \<subseteq> set (adj v) \<and>
     (\<forall>y \<in> set (adj v). y \<in> visited st \<or> y \<in> set ts) \<and>
     (\<exists>l. lows st v = Some l \<and> l \<le> dfs_index st0 \<and>
        (\<exists>y \<in> set (stack st). idx st y = l \<and> (v, y) \<in> (edges adj)\<^sup>*) \<and>
        (\<forall>x \<in> set (stack st) - set (stack st0). \<forall>y \<in> set (adj x).
           y \<in> set (stack st0) \<longrightarrow> l \<le> idx st y \<or> x = v \<and> y \<in> set ts))"

definition visit_post ::
  "('a::linorder \<Rightarrow> 'a list) \<Rightarrow> 'a list \<Rightarrow> 'a \<Rightarrow> 'a tarjan_state \<Rightarrow> 'a tarjan_state \<Rightarrow> bool" where
  "visit_post adj gs v st st' \<longleftrightarrow>
     tarjan_inv adj gs st' \<and> extends st st' \<and> v \<in> visited st' \<and>
     (\<exists>new l. stack st' = new @ stack st \<and> lows st' v = Some l \<and>
        (if new = [] then dfs_index st \<le> l
         else (\<exists>y \<in> set (stack st). idx st y = l \<and> (v, y) \<in> (edges adj)\<^sup>*) \<and>
              (\<forall>x \<in> set new. \<forall>y \<in> set (adj x). y \<in> set (stack st) \<longrightarrow> l \<le> idx st y)))"

subsection \<open>Facts about the invariant\<close>

lemma extends_refl [simp]: "extends st st"
  by (simp add: extends_def)

lemma extends_idx: "extends st st' \<Longrightarrow> x \<in> visited st \<Longrightarrow> idx st' x = idx st x"
  by (auto simp: extends_def idx_def map_le_def dom_def)

lemma extends_visited: "extends st st' \<Longrightarrow> visited st \<subseteq> visited st'"
  by (auto simp: extends_def dest: map_le_implies_dom_le)

lemma extends_trans:
  assumes "extends a b" "extends b c" shows "extends a c"
proof -
  have "dfs_index a \<le> idx c x" if "x \<in> visited c - visited a" for x
  proof (cases "x \<in> visited b")
    case True
    then have "idx c x = idx b x" using assms(2) by (rule extends_idx [rotated])
    then show ?thesis using True that assms(1) by (auto simp: extends_def)
  next
    case False
    then have "dfs_index b \<le> idx c x" using that assms(2) by (auto simp: extends_def)
    then show ?thesis using assms(1) by (auto simp: extends_def)
  qed
  moreover have "visited a \<subseteq> visited b" using assms(1) by (rule extends_visited)
  moreover have "indexes a \<subseteq>\<^sub>m indexes c" using assms by (auto simp: extends_def intro: map_le_trans)
  moreover have "\<forall>x \<in> visited a. lows c x = lows a x"
    using assms \<open>visited a \<subseteq> visited b\<close> unfolding extends_def by (metis subsetD)
  ultimately show ?thesis using assms by (auto simp: extends_def)
qed

lemma tarjan_inv_lows [simp]: "tarjan_inv adj gs (st\<lparr>lows := m\<rparr>) = tarjan_inv adj gs st"
  by (simp add: tarjan_inv_def idx_def)

lemma idx_lows [simp]: "idx (st\<lparr>lows := m\<rparr>) = idx st"
  by (simp add: idx_def fun_eq_iff)

lemma tarjan_invD:
  assumes "tarjan_inv adj gs st"
  shows "on_stack st = set (stack st)"
    and "sorted_wrt (\<lambda>x y. idx st y < idx st x) (stack st)"
    and "\<forall>x \<in> visited st. idx st x < dfs_index st"
    and "visited st = set (stack st) \<union> emitted_nodes (sccs st)"
    and "set (stack st) \<inter> emitted_nodes (sccs st) = {}"
    and "set gs \<subseteq> set (stack st)"
    and "\<forall>x \<in> set (stack st) - set gs. set (adj x) \<subseteq> visited st"
    and "\<forall>x \<in> set (stack st). \<exists>g \<in> set gs. idx st g \<le> idx st x \<and> (x, g) \<in> (edges adj)\<^sup>*"
    and "\<forall>g \<in> set gs. \<forall>y \<in> set (stack st). idx st g \<le> idx st y \<longrightarrow> (g, y) \<in> (edges adj)\<^sup>*"
    and "sccs_ok adj (sccs st)"
  using assms unfolding tarjan_inv_def by - (elim conjE, assumption)+

lemma tarjan_inv_stack_visited: "tarjan_inv adj gs st \<Longrightarrow> set (stack st) \<subseteq> visited st"
  using tarjan_invD(4) [of adj gs st] by blast

lemma tarjan_inv_distinct: "tarjan_inv adj gs st \<Longrightarrow> distinct (stack st)"
proof -
  have "sorted_wrt (\<lambda>x y. f y < (f x :: nat)) xs \<Longrightarrow> distinct xs" for f :: "'a \<Rightarrow> nat" and xs
    by (induction xs) auto
  then show "tarjan_inv adj gs st \<Longrightarrow> distinct (stack st)" by (auto simp: tarjan_inv_def)
qed

lemma tarjan_init_inv: "tarjan_inv adj [] tarjan_init"
  by (simp add: tarjan_inv_def tarjan_init_def sccs_ok_def callees_first_def)

lemma edge_reach: "y \<in> set (adj x) \<Longrightarrow> (x, y) \<in> (edges adj)\<^sup>*"
  by (auto simp: edges_def)

lemma callees_firstD:
  assumes "callees_first adj rs" "i < length rs" "x \<in> set (rs ! i)" "y \<in> set (adj x)"
  obtains j where "j \<le> i" "y \<in> set (rs ! j)"
  using assms unfolding callees_first_def by blast

lemma sccs_okD:
  assumes "sccs_ok adj rs"
  shows "distinct (concat rs)" and "callees_first adj rs"
    and "\<And>c. c \<in> set rs \<Longrightarrow> c \<noteq> [] \<and> sorted c"
    and "\<And>c x y. c \<in> set rs \<Longrightarrow> x \<in> set c \<Longrightarrow> y \<in> set c \<Longrightarrow> (x, y) \<in> (edges adj)\<^sup>*"
  using assms unfolding sccs_ok_def by blast+

lemma callees_first_closed:
  assumes "callees_first adj rs" "x \<in> emitted_nodes rs" "(x, y) \<in> (edges adj)\<^sup>*"
  shows "y \<in> emitted_nodes rs"
  using assms(3,2)
proof (induction rule: rtrancl_induct)
  case (step y z)
  then obtain c where "c \<in> set rs" "y \<in> set c" by auto
  then obtain i where "i < length rs" "y \<in> set (rs ! i)"
    unfolding in_set_conv_nth [of c] by auto
  moreover have "z \<in> set (adj y)" using step by (simp add: edges_def)
  ultimately obtain j where "j \<le> i" "z \<in> set (rs ! j)"
    using assms(1) unfolding callees_first_def by blast
  then show ?case using \<open>i < length rs\<close> by (auto intro!: bexI [of _ "rs ! j"])
qed

lemma pop_component_split:
  "v \<notin> set new \<Longrightarrow> pop_component v (new @ v # rest) = Inr (new @ [v], rest)"
  by (induction new) auto


section \<open>Steps of the search\<close>

lemma idx_enter: "idx (enter v st) x = (if x = v then dfs_index st else idx st x)"
  by (simp add: enter_def idx_def)

lemma enter_simps [simp]:
  "visited (enter v st) = insert v (visited st)" "dfs_index (enter v st) = Suc (dfs_index st)"
  "stack (enter v st) = v # stack st" "on_stack (enter v st) = insert v (on_stack st)"
  "sccs (enter v st) = sccs st" "lows (enter v st) = (lows st)(v \<mapsto> dfs_index st)"
  "indexes (enter v st) = (indexes st)(v \<mapsto> dfs_index st)"
  by (simp_all add: enter_def)

lemma enter_extends: "v \<notin> visited st \<Longrightarrow> extends st (enter v st)"
  by (auto simp: extends_def idx_enter map_le_def)

lemma enter_inv:
  assumes "tarjan_inv adj gs st" "v \<notin> visited st" "\<forall>g \<in> set gs. (g, v) \<in> (edges adj)\<^sup>*"
  shows "tarjan_inv adj (v # gs) (enter v st)"
proof -
  have fresh: "v \<notin> set (stack st)" using assms(1,2) by (auto simp: tarjan_inv_def)
  have lt: "\<forall>x \<in> set (stack st). idx st x < dfs_index st"
    using assms(1) by (auto simp: tarjan_inv_def)
  have sub: "set gs \<subseteq> set (stack st)" using assms(1) by (simp add: tarjan_inv_def)
  have "sorted_wrt (\<lambda>x y. idx (enter v st) y < idx (enter v st) x) (stack st)"
  proof (rule sorted_wrt_mono_rel [of _ "\<lambda>x y. idx st y < idx st x"])
    show "sorted_wrt (\<lambda>x y. idx st y < idx st x) (stack st)"
      using assms(1) by (simp add: tarjan_inv_def)
  qed (use fresh in \<open>auto simp: idx_enter\<close>)
  moreover have "\<forall>g \<in> set (v # gs). \<forall>y \<in> set (v # stack st).
      idx (enter v st) g \<le> idx (enter v st) y \<longrightarrow> (g, y) \<in> (edges adj)\<^sup>*"
    using tarjan_invD(9) [OF assms(1)] assms(3) lt fresh sub by (auto simp: idx_enter not_le [symmetric])
  moreover have "\<forall>x \<in> set (v # stack st). \<exists>g \<in> set (v # gs).
      idx (enter v st) g \<le> idx (enter v st) x \<and> (x, g) \<in> (edges adj)\<^sup>*"
    using tarjan_invD(8) [OF assms(1)] fresh sub by (fastforce simp: idx_enter)
  moreover have "\<forall>x \<in> visited (enter v st). idx (enter v st) x < dfs_index (enter v st)"
    using tarjan_invD(3) [OF assms(1)] by (auto simp: idx_enter less_Suc_eq)
  moreover have "v \<notin> emitted_nodes (sccs st)" using assms(2) tarjan_invD(4) [OF assms(1)] by auto
  moreover have "\<forall>y \<in> set (stack st). idx (enter v st) y < idx (enter v st) v"
    using lt fresh by (auto simp: idx_enter)
  moreover have "\<forall>x \<in> set (v # stack st) - set (v # gs). set (adj x) \<subseteq> insert v (visited st)"
    using tarjan_invD(7) [OF assms(1)] by auto
  ultimately show ?thesis
    unfolding tarjan_inv_def using tarjan_invD(1,4,5,6,10) [OF assms(1)] fresh by auto
qed

lemma enter_loop_inv:
  assumes "tarjan_inv adj gs st" "v \<notin> visited st" "\<forall>g \<in> set gs. (g, v) \<in> (edges adj)\<^sup>*"
  shows "loop_inv adj gs v st (adj v) (enter v st)"
proof -
  have "\<forall>x \<in> set (stack (enter v st)) - set (stack st). x = v"
    by auto
  moreover have "idx (enter v st) v = dfs_index st" by (simp add: idx_enter)
  ultimately show ?thesis
    unfolding loop_inv_def
    using enter_inv [OF assms] enter_extends [OF assms(2)] assms by auto
qed

text \<open>Consequences of \<^const>\<open>loop_inv\<close> used by every step.\<close>

lemma loop_invD:
  assumes "loop_inv adj gs v st0 ts st"
  shows "tarjan_inv adj gs st0" and "v \<notin> visited st0" and "\<forall>g \<in> set gs. (g, v) \<in> (edges adj)\<^sup>*"
    and "extends st0 st" and "indexes st v = Some (dfs_index st0)" and "dfs_index st0 < dfs_index st"
    and "\<exists>new. stack st = new @ v # stack st0"
    and "tarjan_inv adj (v # gs) st" and "set ts \<subseteq> set (adj v)"
    and "\<forall>y \<in> set (adj v). y \<in> visited st \<or> y \<in> set ts"
  using assms unfolding loop_inv_def by - (elim conjE, assumption)+

lemma loop_inv_low:
  assumes "loop_inv adj gs v st0 ts st" "lows st v = Some l"
  shows "l \<le> dfs_index st0"
    and "\<exists>y \<in> set (stack st). idx st y = l \<and> (v, y) \<in> (edges adj)\<^sup>*"
    and "\<forall>x \<in> set (stack st) - set (stack st0). \<forall>y \<in> set (adj x).
           y \<in> set (stack st0) \<longrightarrow> l \<le> idx st y \<or> x = v \<and> y \<in> set ts"
proof -
  obtain k where k: "lows st v = Some k \<and> k \<le> dfs_index st0 \<and>
        (\<exists>y \<in> set (stack st). idx st y = k \<and> (v, y) \<in> (edges adj)\<^sup>*) \<and>
        (\<forall>x \<in> set (stack st) - set (stack st0). \<forall>y \<in> set (adj x).
           y \<in> set (stack st0) \<longrightarrow> k \<le> idx st y \<or> x = v \<and> y \<in> set ts)"
    using assms(1) unfolding loop_inv_def by (elim conjE exE) blast
  then have "k = l" using assms(2) by simp
  with k show "l \<le> dfs_index st0"
    and "\<exists>y \<in> set (stack st). idx st y = l \<and> (v, y) \<in> (edges adj)\<^sup>*"
    and "\<forall>x \<in> set (stack st) - set (stack st0). \<forall>y \<in> set (adj x).
           y \<in> set (stack st0) \<longrightarrow> l \<le> idx st y \<or> x = v \<and> y \<in> set ts"
    by - (elim conjE, simp)+
qed

lemma loop_inv_low_ex: "loop_inv adj gs v st0 ts st \<Longrightarrow> \<exists>l. lows st v = Some l"
  unfolding loop_inv_def by (elim conjE exE) blast

lemma loop_invI:
  assumes "loop_inv adj gs v st0 ts' st'" "extends st0 st" "indexes st v = Some (dfs_index st0)"
    "dfs_index st0 < dfs_index st" "\<exists>new. stack st = new @ v # stack st0" "tarjan_inv adj (v # gs) st"
    "set ts \<subseteq> set (adj v)" "\<forall>y \<in> set (adj v). y \<in> visited st \<or> y \<in> set ts"
    "lows st v = Some l" "l \<le> dfs_index st0"
    "\<exists>y \<in> set (stack st). idx st y = l \<and> (v, y) \<in> (edges adj)\<^sup>*"
    "\<And>x y. x \<in> set (stack st) \<Longrightarrow> x \<notin> set (stack st0) \<Longrightarrow> y \<in> set (adj x) \<Longrightarrow>
       y \<in> set (stack st0) \<Longrightarrow> l \<le> idx st y \<or> x = v \<and> y \<in> set ts"
  shows "loop_inv adj gs v st0 ts st"
proof -
  have "\<exists>l. lows st v = Some l \<and> l \<le> dfs_index st0 \<and>
        (\<exists>y \<in> set (stack st). idx st y = l \<and> (v, y) \<in> (edges adj)\<^sup>*) \<and>
        (\<forall>x \<in> set (stack st) - set (stack st0). \<forall>y \<in> set (adj x).
           y \<in> set (stack st0) \<longrightarrow> l \<le> idx st y \<or> x = v \<and> y \<in> set ts)"
    using assms(9-12) by (intro exI [of _ l] conjI ballI impI) auto
  with assms(2-8) loop_invD(1,2,3) [OF assms(1)] show ?thesis
    unfolding loop_inv_def by (intro conjI)
qed

lemma loop_inv_facts:
  assumes "loop_inv adj gs v st0 ts st"
  shows "set (stack st0) \<subseteq> visited st0" "set (stack st0) \<subseteq> set (stack st)"
    "set gs \<subseteq> set (stack st0)" "idx st v = dfs_index st0" "v \<notin> set (stack st0)" "v \<in> set (stack st)"
proof -
  show a: "set (stack st0) \<subseteq> visited st0"
    by (rule tarjan_inv_stack_visited [OF loop_invD(1) [OF assms]])
  show "v \<notin> set (stack st0)" using a loop_invD(2) [OF assms] by blast
  show "set (stack st0) \<subseteq> set (stack st)" "v \<in> set (stack st)"
    using loop_invD(7) [OF assms] by auto
  show "set gs \<subseteq> set (stack st0)" by (rule tarjan_invD(6) [OF loop_invD(1) [OF assms]])
  show "idx st v = dfs_index st0" using loop_invD(5) [OF assms] by (simp add: idx_def)
qed

lemma loop_inv_idx_old:
  assumes "loop_inv adj gs v st0 ts st" "x \<in> set (stack st0)"
  shows "idx st x = idx st0 x" "idx st x < dfs_index st0"
proof -
  have x: "x \<in> visited st0" using loop_inv_facts(1) [OF assms(1)] assms(2) by blast
  show "idx st x = idx st0 x" using loop_invD(4) [OF assms(1)] x by (rule extends_idx)
  then show "idx st x < dfs_index st0" using tarjan_invD(3) [OF loop_invD(1) [OF assms(1)]] x by simp
qed

lemma loop_inv_idx_new:
  assumes "loop_inv adj gs v st0 ts st" "x \<in> set (stack st)" "x \<notin> set (stack st0)"
  shows "dfs_index st0 \<le> idx st x"
proof -
  obtain new where new: "stack st = new @ v # stack st0"
    using loop_invD(7) [OF assms(1)] by auto
  then have "\<forall>x \<in> set new. idx st v < idx st x"
    using tarjan_invD(2) [OF loop_invD(8) [OF assms(1)]] by (simp add: sorted_wrt_append)
  then show ?thesis using assms(2,3) new loop_inv_facts(4) [OF assms(1)] by auto
qed

lemma lower_Some: "lows st v = Some l \<Longrightarrow> lower v k st = Inr (st\<lparr>lows := (lows st)(v \<mapsto> min l k)\<rparr>)"
  by (simp add: lower_def)

lemma extends_lows: "extends st0 st \<Longrightarrow> v \<notin> visited st0 \<Longrightarrow> extends st0 (st\<lparr>lows := (lows st)(v \<mapsto> k)\<rparr>)"
  by (auto simp: extends_def)

text \<open>A target that was visited before: on the stack, or in a finished component.\<close>

lemma loop_inv_on_stack:
  assumes inv: "loop_inv adj gs v st0 (t # ts) st" and "indexes st t = Some it" "t \<in> on_stack st"
    and low: "lows st v = Some l"
  shows "loop_inv adj gs v st0 ts (st\<lparr>lows := (lows st)(v \<mapsto> min l it)\<rparr>)" (is "loop_inv _ _ _ _ _ ?st")
proof (rule loop_invI [OF inv])
  have t: "t \<in> set (stack st)" "idx st t = it" "t \<in> set (adj v)"
    using assms(2,3) tarjan_invD(1) [OF loop_invD(8) [OF inv]] loop_invD(9) [OF inv]
    by (auto simp: idx_def)
  show "\<exists>y \<in> set (stack ?st). idx ?st y = min l it \<and> (v, y) \<in> (edges adj)\<^sup>*"
    using loop_inv_low(2) [OF inv low] t edge_reach [of t adj v] by (auto simp: min_def)
  show "min l it \<le> idx ?st y \<or> x = v \<and> y \<in> set ts"
    if "x \<in> set (stack ?st)" "x \<notin> set (stack st0)" "y \<in> set (adj x)" "y \<in> set (stack st0)" for x y
  proof -
    have "l \<le> idx st y \<or> x = v \<and> y \<in> set (t # ts)"
      using loop_inv_low(3) [OF inv low] that by simp
    then show ?thesis using t(2) by auto
  qed
  show "\<forall>y \<in> set (adj v). y \<in> visited ?st \<or> y \<in> set ts"
    using loop_invD(10) [OF inv] assms(2) by auto
  show "extends st0 ?st" by (rule extends_lows [OF loop_invD(4,2) [OF inv]])
qed (use loop_invD [OF inv] loop_inv_low(1) [OF inv low] in auto)

lemma loop_inv_finished:
  assumes inv: "loop_inv adj gs v st0 (t # ts) st" and "indexes st t = Some it" "t \<notin> on_stack st"
  shows "loop_inv adj gs v st0 ts st"
proof -
  obtain l where low: "lows st v = Some l" using loop_inv_low_ex [OF inv] ..
  have t: "t \<notin> set (stack st0)"
    using assms(3) tarjan_invD(1) [OF loop_invD(8) [OF inv]] loop_inv_facts(2) [OF inv] by auto
  show ?thesis
  proof (rule loop_invI [OF inv _ _ _ _ _ _ _ low])
    show "l \<le> idx st y \<or> x = v \<and> y \<in> set ts"
      if "x \<in> set (stack st)" "x \<notin> set (stack st0)" "y \<in> set (adj x)" "y \<in> set (stack st0)" for x y
      using loop_inv_low(3) [OF inv low] that t by auto
    show "\<forall>y \<in> set (adj v). y \<in> visited st \<or> y \<in> set ts"
      using loop_invD(10) [OF inv] assms(2) by auto
  qed (use loop_invD [OF inv] loop_inv_low [OF inv low] in auto)
qed

text \<open>A target visited by a nested call.\<close>

lemma loop_inv_nested:
  assumes inv: "loop_inv adj gs v st0 (t # ts) st" and fresh: "indexes st t = None"
    and post: "visit_post adj (v # gs) t st st1" and low: "lows st v = Some l" and lt: "lows st1 t = Some lt"
  shows "loop_inv adj gs v st0 ts (st1\<lparr>lows := (lows st1)(v \<mapsto> min l lt)\<rparr>)" (is "loop_inv _ _ _ _ _ ?st")
proof (rule loop_invI [OF inv])
  obtain new1 where new1: "stack st1 = new1 @ stack st"
    and n1: "if new1 = [] then dfs_index st \<le> lt
         else (\<exists>y \<in> set (stack st). idx st y = lt \<and> (t, y) \<in> (edges adj)\<^sup>*) \<and>
              (\<forall>x \<in> set new1. \<forall>y \<in> set (adj x). y \<in> set (stack st) \<longrightarrow> lt \<le> idx st y)"
    using post lt unfolding visit_post_def by auto
  have ext: "extends st st1" and inv1: "tarjan_inv adj (v # gs) st1" and t1: "t \<in> visited st1"
    using post unfolding visit_post_def by auto
  have same: "idx st1 x = idx st x" if "x \<in> set (stack st)" for x
    using extends_idx [OF ext] tarjan_inv_stack_visited [OF loop_invD(8) [OF inv]] that by blast
  have vt: "(v, t) \<in> (edges adj)\<^sup>*" using loop_invD(9) [OF inv] edge_reach [of t adj v] by auto
  have vs: "v \<in> visited st" using loop_invD(5) [OF inv] by auto
  show "\<exists>y \<in> set (stack ?st). idx ?st y = min l lt \<and> (v, y) \<in> (edges adj)\<^sup>*"
  proof (cases "l \<le> lt")
    case True
    then show ?thesis using loop_inv_low(2) [OF inv low] same new1 by (auto simp: min_def)
  next
    case False
    then have "lt < dfs_index st" using loop_inv_low(1) [OF inv low] loop_invD(6) [OF inv] by simp
    then obtain y where "y \<in> set (stack st)" "idx st y = lt" "(t, y) \<in> (edges adj)\<^sup>*"
      using n1 by (auto split: if_splits)
    then show ?thesis using False same new1 rtrancl_trans [OF vt] by (auto simp: min_def)
  qed
  show "min l lt \<le> idx ?st y \<or> x = v \<and> y \<in> set ts"
    if xy: "x \<in> set (stack ?st)" "x \<notin> set (stack st0)" "y \<in> set (adj x)" "y \<in> set (stack st0)" for x y
  proof -
    have y: "y \<in> set (stack st)" "y \<noteq> t"
      using loop_inv_facts(2) [OF inv] xy(4) fresh
        tarjan_inv_stack_visited [OF loop_invD(8) [OF inv]] by auto
    show ?thesis
    proof (cases "x \<in> set (stack st)")
      case True
      then have "l \<le> idx st y \<or> x = v \<and> y \<in> set (t # ts)"
        using loop_inv_low(3) [OF inv low] xy by simp
      then show ?thesis using y same by auto
    next
      case False
      then have "x \<in> set new1" "new1 \<noteq> []" using xy(1) new1 by auto
      then have "lt \<le> idx st y" using n1 xy(3) y by auto
      then show ?thesis using same y by auto
    qed
  qed
  show "\<forall>y \<in> set (adj v). y \<in> visited ?st \<or> y \<in> set ts"
    using loop_invD(10) [OF inv] extends_visited [OF ext] t1 by auto
  show "extends st0 ?st"
    by (rule extends_lows [OF extends_trans [OF loop_invD(4) [OF inv] ext] loop_invD(2) [OF inv]])
  show "indexes ?st v = Some (dfs_index st0)"
    using loop_invD(5) [OF inv] ext vs by (auto simp: extends_def map_le_def)
  show "dfs_index st0 < dfs_index ?st" using loop_invD(6) [OF inv] ext by (simp add: extends_def)
  show "\<exists>new. stack ?st = new @ v # stack st0"
  proof -
    obtain new where "stack st = new @ v # stack st0" using loop_invD(7) [OF inv] by blast
    then have "stack ?st = (new1 @ new) @ v # stack st0" using new1 by simp
    then show ?thesis by blast
  qed
qed (use loop_invD [OF inv] loop_inv_low(1) [OF inv low] post in \<open>auto simp: visit_post_def\<close>)


section \<open>Closing a visit\<close>

lemma scc_pop:
  assumes inv: "loop_inv adj gs v st0 [] st" and low: "lows st v = Some (dfs_index st0)"
    and new: "stack st = new @ v # stack st0"
  shows "\<And>x y. x \<in> set (new @ [v]) \<Longrightarrow> y \<in> set (adj x) \<Longrightarrow> y \<in> set (new @ [v]) \<union> emitted_nodes (sccs st)"
    and "\<And>x y. x \<in> set (new @ [v]) \<Longrightarrow> y \<in> set (new @ [v]) \<Longrightarrow> (x, y) \<in> (edges adj)\<^sup>*"
proof -
  let ?c = "set (new @ [v])"
  note st = tarjan_invD [OF loop_invD(8) [OF inv]]
  have dist: "distinct (stack st)" by (rule tarjan_inv_distinct [OF loop_invD(8) [OF inv]])
  have cf: "callees_first adj (sccs st)" using st(10) by (simp add: sccs_ok_def)
  have gs: "set gs \<inter> ?c = {}" using loop_inv_facts(3,5) [OF inv] dist new by auto
  show closed: "y \<in> ?c \<union> emitted_nodes (sccs st)" if x: "x \<in> ?c" and y: "y \<in> set (adj x)" for x y
  proof -
    have "y \<in> visited st"
    proof (cases "x = v")
      case True
      then show ?thesis using loop_invD(10) [OF inv] y by auto
    next
      case False
      then show ?thesis using st(7) x y new gs by auto
    qed
    moreover have "y \<notin> set (stack st0)"
    proof
      assume old: "y \<in> set (stack st0)"
      have "x \<notin> set (stack st0)" "x \<in> set (stack st)" using x new dist by auto
      then have "dfs_index st0 \<le> idx st y" using loop_inv_low(3) [OF inv low] y old by auto
      then show False using loop_inv_idx_old [OF inv old] by simp
    qed
    ultimately show ?thesis using st(4) new by auto
  qed
  have stay: "z \<in> ?c \<union> emitted_nodes (sccs st)" if "(x, z) \<in> (edges adj)\<^sup>*" "x \<in> ?c" for x z
    using that
  proof (induction rule: rtrancl_induct)
    case (step y z)
    then have "z \<in> set (adj y)" by (simp add: edges_def)
    then show ?case using step closed callees_first_closed [OF cf] edge_reach by blast
  qed auto
  have root: "(x, v) \<in> (edges adj)\<^sup>*" if x: "x \<in> ?c" for x
  proof -
    have "x \<in> set (stack st)" using x new by auto
    then obtain g where g: "g \<in> set (v # gs)" "(x, g) \<in> (edges adj)\<^sup>*" using st(8) by blast
    have "g \<in> ?c \<union> emitted_nodes (sccs st)" by (rule stay [OF g(2) x])
    moreover have "g \<in> set (stack st)" using g(1) st(6) by blast
    ultimately have "g \<in> ?c" using st(5) by blast
    then show ?thesis using g gs by auto
  qed
  have "(v, y) \<in> (edges adj)\<^sup>*" if "y \<in> ?c" for y
  proof -
    have "y \<in> set (stack st)" "y \<notin> set (stack st0)" using that new dist by auto
    then show ?thesis using st(9) loop_inv_idx_new [OF inv] loop_inv_facts(4) [OF inv] by auto
  qed
  then show "(x, y) \<in> (edges adj)\<^sup>*" if "x \<in> ?c" "y \<in> ?c" for x y
    using rtrancl_trans [OF root] that by simp
qed

lemma sccs_ok_snoc:
  assumes "sccs_ok adj rs" "distinct c" "c \<noteq> []" "set c \<inter> emitted_nodes rs = {}"
    and "\<And>x y. x \<in> set c \<Longrightarrow> y \<in> set (adj x) \<Longrightarrow> y \<in> set c \<union> emitted_nodes rs"
    and "\<And>x y. x \<in> set c \<Longrightarrow> y \<in> set c \<Longrightarrow> (x, y) \<in> (edges adj)\<^sup>*"
  shows "sccs_ok adj (rs @ [sort c])"
proof -
  have "callees_first adj (rs @ [sort c])"
    unfolding callees_first_def
  proof (intro allI impI ballI)
    fix i x y assume i: "i < length (rs @ [sort c])" and x: "x \<in> set ((rs @ [sort c]) ! i)"
      and y: "y \<in> set (adj x)"
    show "\<exists>j \<le> i. y \<in> set ((rs @ [sort c]) ! j)"
    proof (cases "i < length rs")
      case True
      then obtain j where "j \<le> i" "y \<in> set (rs ! j)"
        using callees_firstD [OF sccs_okD(2) [OF assms(1)] True] x y by (auto simp: nth_append)
      then show ?thesis using True by (auto simp: nth_append intro!: exI [of _ j])
    next
      case False
      then have ii: "i = length rs" "x \<in> set c" using i x by (auto simp: nth_append)
      then consider "y \<in> set c" | d where "d \<in> set rs" "y \<in> set d" using assms(5) y by auto
      then show ?thesis
      proof cases
        case 1
        then have "y \<in> set ((rs @ [sort c]) ! length rs)" by simp
        then show ?thesis using ii(1) by blast
      next
        case 2
        then obtain j where "j < length rs" "d = rs ! j" by (auto simp: in_set_conv_nth)
        then have "j \<le> i" "y \<in> set ((rs @ [sort c]) ! j)" using ii 2 by (auto simp: nth_append)
        then show ?thesis by blast
      qed
    qed
  qed
  then show ?thesis using assms by (auto simp: sccs_ok_def)
qed

lemma finish_root:
  assumes inv: "loop_inv adj gs v st0 [] st" and low: "lows st v = Some (dfs_index st0)"
  shows "\<exists>st'. finish_visit v st = Inr st' \<and> visit_post adj gs v st0 st' \<and> visited st' = visited st"
proof -
  obtain new where new: "stack st = new @ v # stack st0" using loop_invD(7) [OF inv] by blast
  note st = tarjan_invD [OF loop_invD(8) [OF inv]]
  note st0 = tarjan_invD [OF loop_invD(1) [OF inv]]
  note ext = loop_invD(4) [OF inv]
  have dist: "distinct (stack st)" by (rule tarjan_inv_distinct [OF loop_invD(8) [OF inv]])
  then have "v \<notin> set new" using new by auto
  then have pop: "pop_component v (stack st) = Inr (new @ [v], stack st0)"
    using new pop_component_split by simp
  define st' where "st' = st\<lparr>stack := stack st0, on_stack := on_stack st - set (new @ [v]),
     sccs := sccs st @ [sort (new @ [v])]\<rparr>"
  have idx': "idx st' = idx st" by (simp add: st'_def idx_def fun_eq_iff)
  have same: "idx st x = idx st0 x" if "x \<in> set (stack st0)" for x
    by (rule loop_inv_idx_old(1) [OF inv that])
  have fin: "finish_visit v st = Inr st'"
    using low loop_invD(5) [OF inv] pop by (simp add: finish_visit_def st'_def)
  have ok: "sccs_ok adj (sccs st @ [sort (new @ [v])])"
  proof (rule sccs_ok_snoc [OF st(10)])
    show "set (new @ [v]) \<inter> emitted_nodes (sccs st) = {}" using st(5) new by auto
  qed (use dist new scc_pop [OF inv low new] in auto)
  have "sorted_wrt (\<lambda>x y. idx st y < idx st x) (stack st0)"
    using st(2) new by (simp add: sorted_wrt_append)
  moreover have "\<forall>x \<in> set (stack st0). \<exists>g \<in> set gs. idx st g \<le> idx st x \<and> (x, g) \<in> (edges adj)\<^sup>*"
    using st0(6,8) same by (metis subsetD)
  moreover have "\<forall>g \<in> set gs. \<forall>y \<in> set (stack st0). idx st g \<le> idx st y \<longrightarrow> (g, y) \<in> (edges adj)\<^sup>*"
    using st0(6,9) same by (metis subsetD)
  moreover have "\<forall>x \<in> set (stack st0) - set gs. set (adj x) \<subseteq> visited st"
    using st0(7) extends_visited [OF ext] by blast
  moreover have "set (stack st0) \<inter> emitted_nodes (sccs st @ [sort (new @ [v])]) = {}"
    using st(5) new dist by auto
  moreover have "on_stack st - set (new @ [v]) = set (stack st0)" using st(1) new dist by auto
  moreover have "visited st = set (stack st0) \<union> emitted_nodes (sccs st @ [sort (new @ [v])])"
    using st(4) new by auto
  ultimately have "tarjan_inv adj gs st'"
    unfolding tarjan_inv_def idx' using st(3) st0(6) ok by (simp add: st'_def)
  moreover have "extends st0 st'" using ext idx' by (auto simp: extends_def st'_def)
  ultimately have "visit_post adj gs v st0 st'"
    using loop_invD(5) [OF inv] low by (auto simp: visit_post_def st'_def)
  with fin show ?thesis by (auto simp: st'_def)
qed

lemma finish_inner:
  assumes inv: "loop_inv adj gs v st0 [] st" and low: "lows st v = Some l" "l < dfs_index st0"
  shows "finish_visit v st = Inr st" "visit_post adj gs v st0 st"
proof -
  obtain new where new: "stack st = new @ v # stack st0" using loop_invD(7) [OF inv] by blast
  note st = tarjan_invD [OF loop_invD(8) [OF inv]]
  have dist: "distinct (stack st)" by (rule tarjan_inv_distinct [OF loop_invD(8) [OF inv]])
  show "finish_visit v st = Inr st"
    using low loop_invD(5) [OF inv] by (simp add: finish_visit_def)
  obtain y where y: "y \<in> set (stack st)" "idx st y = l" "(v, y) \<in> (edges adj)\<^sup>*"
    using loop_inv_low(2) [OF inv low(1)] by blast
  then have y0: "y \<in> set (stack st0)" using loop_inv_idx_new [OF inv] low(2) by force
  obtain g where g: "g \<in> set gs" "idx st g \<le> l" "(v, g) \<in> (edges adj)\<^sup>*"
  proof -
    obtain g where "g \<in> set (v # gs)" "idx st g \<le> idx st y" "(y, g) \<in> (edges adj)\<^sup>*"
      using st(8) y(1) by blast
    moreover then have "g \<noteq> v" using y(2) low(2) loop_inv_facts(4) [OF inv] by auto
    ultimately show ?thesis using that y rtrancl_trans by (metis set_ConsD)
  qed
  have "\<exists>g \<in> set gs. idx st g \<le> idx st x \<and> (x, g) \<in> (edges adj)\<^sup>*" if x: "x \<in> set (stack st)" for x
  proof -
    obtain h where h: "h \<in> set (v # gs)" "idx st h \<le> idx st x" "(x, h) \<in> (edges adj)\<^sup>*"
      using st(8) x by blast
    show ?thesis
    proof (cases "h = v")
      case True
      then have "idx st g \<le> idx st x" "(x, g) \<in> (edges adj)\<^sup>*"
        using g h low(2) loop_inv_facts(4) [OF inv] by (auto intro: rtrancl_trans)
      then show ?thesis using g(1) by blast
    qed (use h in auto)
  qed
  moreover have "\<forall>x \<in> set (stack st) - set gs. set (adj x) \<subseteq> visited st"
    using st(7) loop_invD(10) [OF inv] by auto
  moreover have "set gs \<subseteq> set (stack st)" using loop_inv_facts(2,3) [OF inv] by blast
  ultimately have "tarjan_inv adj gs st"
    unfolding tarjan_inv_def using st(1-5,9,10) by simp
  moreover have "\<exists>y \<in> set (stack st0). idx st0 y = l \<and> (v, y) \<in> (edges adj)\<^sup>*"
    using y y0 loop_inv_idx_old(1) [OF inv y0] by auto
  moreover have "\<forall>x \<in> set (new @ [v]). \<forall>y \<in> set (adj x). y \<in> set (stack st0) \<longrightarrow> l \<le> idx st0 y"
  proof (intro ballI impI)
    fix x z assume xz: "x \<in> set (new @ [v])" "z \<in> set (adj x)" "z \<in> set (stack st0)"
    then have "x \<in> set (stack st) - set (stack st0)" using new dist by auto
    then have "l \<le> idx st z" using loop_inv_low(3) [OF inv low(1)] xz(2,3) by fastforce
    then show "l \<le> idx st0 z" using loop_inv_idx_old(1) [OF inv xz(3)] by simp
  qed
  ultimately show "visit_post adj gs v st0 st"
    unfolding visit_post_def using loop_invD(4,5) [OF inv] low(1) new
    by (intro conjI exI [of _ "new @ [v]"] exI [of _ l]) auto
qed

lemma finish_ok:
  assumes inv: "loop_inv adj gs v st0 [] st"
  shows "\<exists>st'. finish_visit v st = Inr st' \<and> visit_post adj gs v st0 st' \<and> visited st' = visited st"
proof -
  obtain l where low: "lows st v = Some l" using loop_inv_low_ex [OF inv] ..
  show ?thesis
  proof (cases "l = dfs_index st0")
    case True
    with low show ?thesis using finish_root [OF inv] by simp
  next
    case False
    then have "l < dfs_index st0" using loop_inv_low(1) [OF inv low] by simp
    then show ?thesis using finish_inner [OF inv low] by auto
  qed
qed


section \<open>Total correctness\<close>

text \<open>
  The interface the search needs from its graph: a finite set of nodes that the adjacency does
  not leave.
\<close>

locale finite_digraph =
  fixes adj :: "'a::linorder \<Rightarrow> 'a list" and nodes :: "'a set"
  assumes finite_nodes: "finite nodes"
    and adj_closed: "x \<in> nodes \<Longrightarrow> set (adj x) \<subseteq> nodes"
begin

lemma unvisited_mono: "A \<subseteq> B \<Longrightarrow> card (nodes - B) \<le> card (nodes - A)"
  using finite_nodes by (intro card_mono) auto

lemma visit_targets_total:
  assumes visit: "\<And>gs t st. tarjan_inv adj gs st \<Longrightarrow> t \<notin> visited st \<Longrightarrow>
      \<forall>g \<in> set gs. (g, t) \<in> (edges adj)\<^sup>* \<Longrightarrow> visited st \<subseteq> nodes \<Longrightarrow> t \<in> nodes \<Longrightarrow>
      card (nodes - visited st) \<le> n \<Longrightarrow>
      \<exists>st'. visit n adj t st = Inr st' \<and> visit_post adj gs t st st' \<and> visited st' \<subseteq> nodes"
    and v: "v \<in> nodes"
  shows "loop_inv adj gs v st0 ts st \<Longrightarrow> visited st \<subseteq> nodes \<Longrightarrow> card (nodes - visited st) \<le> n \<Longrightarrow>
      \<exists>st'. visit_targets n adj v ts st = Inr st' \<and> loop_inv adj gs v st0 [] st' \<and> visited st' \<subseteq> nodes"
proof (induction ts arbitrary: st)
  case (Cons t ts)
  note inv = Cons.prems(1)
  obtain l where low: "lows st v = Some l" using loop_inv_low_ex [OF inv] ..
  have t: "t \<in> nodes" "t \<in> set (adj v)" using loop_invD(9) [OF inv] adj_closed [OF v] by auto
  show ?case
  proof (cases "indexes st t")
    case None
    have reach: "\<forall>g \<in> set (v # gs). (g, t) \<in> (edges adj)\<^sup>*"
      using loop_invD(3) [OF inv] edge_reach [of t adj v] t(2) by (auto intro: rtrancl_trans)
    obtain st1 where st1: "visit n adj t st = Inr st1" "visit_post adj (v # gs) t st st1"
      "visited st1 \<subseteq> nodes"
      using visit [OF loop_invD(8) [OF inv] _ reach Cons.prems(2) t(1) Cons.prems(3)] None by auto
    then obtain lt where lt: "lows st1 t = Some lt" by (auto simp: visit_post_def)
    have ext: "extends st st1" using st1(2) by (simp add: visit_post_def)
    have "v \<in> visited st" using loop_invD(5) [OF inv] by auto
    then have low1: "lows st1 v = Some l" using low ext unfolding extends_def by metis
    have "card (nodes - visited st1) \<le> n"
      using unvisited_mono [OF extends_visited [OF ext]] Cons.prems(3) by simp
    then show ?thesis
      using Cons.IH [OF loop_inv_nested [OF inv None st1(2) low lt]] st1(1,3) None lt lower_Some [OF low1]
      by simp
  next
    case (Some it)
    show ?thesis
    proof (cases "t \<in> on_stack st")
      case True
      then show ?thesis
        using Cons.IH [OF loop_inv_on_stack [OF inv Some True low]] Cons.prems Some lower_Some [OF low]
        by simp
    next
      case False
      then show ?thesis
        using Cons.IH [OF loop_inv_finished [OF inv Some False]] Cons.prems Some by simp
    qed
  qed
qed simp

lemma visit_total:
  "tarjan_inv adj gs st \<Longrightarrow> v \<notin> visited st \<Longrightarrow> \<forall>g \<in> set gs. (g, v) \<in> (edges adj)\<^sup>* \<Longrightarrow>
   visited st \<subseteq> nodes \<Longrightarrow> v \<in> nodes \<Longrightarrow> card (nodes - visited st) \<le> n \<Longrightarrow>
   \<exists>st'. visit n adj v st = Inr st' \<and> visit_post adj gs v st st' \<and> visited st' \<subseteq> nodes"
proof (induction n arbitrary: gs v st)
  case 0
  then have "nodes - visited st = {}" using finite_nodes by simp
  with 0 show ?case by auto
next
  case (Suc n)
  have "nodes - visited (enter v st) = (nodes - visited st) - {v}" by auto
  then have "card (nodes - visited (enter v st)) \<le> n"
    using Suc.prems finite_nodes by (simp add: card_Diff_singleton)
  moreover have "visited (enter v st) \<subseteq> nodes" using Suc.prems(4,5) by simp
  ultimately obtain st1 where st1: "visit_targets n adj v (adj v) (enter v st) = Inr st1"
    "loop_inv adj gs v st [] st1" "visited st1 \<subseteq> nodes"
    using visit_targets_total [OF Suc.IH Suc.prems(5) enter_loop_inv [OF Suc.prems(1-3)]] by blast
  obtain st2 where "finish_visit v st1 = Inr st2" "visit_post adj gs v st st2" "visited st2 = visited st1"
    using finish_ok [OF st1(2)] by blast
  with st1 show ?case by (intro exI [of _ st2]) simp
qed

lemma tarjan_fold_total:
  assumes "set xs \<subseteq> nodes" "card nodes \<le> depth" "tarjan_inv adj [] st" "visited st \<subseteq> nodes"
  shows "\<exists>st'. rfold (\<lambda>node st. if indexes st node = None then visit depth adj node st else Inr st) xs st
           = Inr st' \<and> tarjan_inv adj [] st' \<and> visited st' \<subseteq> nodes \<and> visited st \<union> set xs \<subseteq> visited st'"
  using assms
proof (induction xs arbitrary: st)
  case (Cons x xs)
  have "card (nodes - visited st) \<le> depth"
    using unvisited_mono [of "{}" "visited st"] Cons.prems(2) by simp
  then obtain st1 where st1: "(if indexes st x = None then visit depth adj x st else Inr st) = Inr st1"
    "tarjan_inv adj [] st1" "visited st1 \<subseteq> nodes" "insert x (visited st) \<subseteq> visited st1"
  proof (cases "indexes st x = None")
    case True
    then obtain st' where "visit depth adj x st = Inr st'" "visit_post adj [] x st st'" "visited st' \<subseteq> nodes"
      using visit_total [of "[]" st x depth] Cons.prems \<open>card (nodes - visited st) \<le> depth\<close> by auto
    moreover then have "visited st \<subseteq> visited st'"
      unfolding visit_post_def by (blast dest: extends_visited)
    ultimately show ?thesis using that [of st'] True by (auto simp: visit_post_def)
  next
    case False
    then obtain y where "indexes st x = Some y" by auto
    then show ?thesis using that [of st] Cons.prems by auto
  qed
  have "set xs \<subseteq> nodes" using Cons.prems(1) by simp
  then obtain st2 where st2: "rfold (\<lambda>node st. if indexes st node = None then visit depth adj node st else Inr st)
      xs st1 = Inr st2" "tarjan_inv adj [] st2" "visited st2 \<subseteq> nodes" "visited st1 \<union> set xs \<subseteq> visited st2"
    using Cons.IH [OF _ Cons.prems(2) st1(2,3)] by blast
  moreover have "visited st \<union> set (x # xs) \<subseteq> visited st2" using st1(4) st2(4) by (simp only: list.set) blast
  ultimately show ?case by (intro exI [of _ st2] conjI) (simp_all only: rfold.simps st1(1) rbind_simps)
qed simp

text \<open>
  With a recursion budget of at least the number of nodes, \<^const>\<open>tarjan\<close> returns a well-formed
  list of components that covers the nodes exactly.
\<close>

lemma tarjan_total:
  assumes "set ns = nodes" "card nodes \<le> depth"
  shows "\<exists>rs. tarjan depth ns adj = Inr rs \<and> sccs_ok adj rs \<and> emitted_nodes rs = nodes"
proof -
  obtain st where st: "rfold (\<lambda>node st. if indexes st node = None then visit depth adj node st else Inr st)
       (sort ns) tarjan_init = Inr st" "tarjan_inv adj [] st" "visited st \<subseteq> nodes" "nodes \<subseteq> visited st"
    using tarjan_fold_total [of "sort ns" depth tarjan_init] assms tarjan_init_inv
    by (auto simp: tarjan_init_def)
  then have "stack st = []" using tarjan_invD(8) [OF st(2)] by (cases "stack st") auto
  then show ?thesis using st tarjan_invD(4,10) [OF st(2)] by (simp add: tarjan_def)
qed

end

lemma distinct_concat_nth:
  "distinct (concat rs) \<Longrightarrow> i < length rs \<Longrightarrow> k < length rs \<Longrightarrow> i \<noteq> k \<Longrightarrow>
   set (rs ! i) \<inter> set (rs ! k) = {}"
proof (induction rs arbitrary: i k)
  case (Cons r rs)
  have "set (rs ! j) \<inter> set r = {}" if "j < length rs" for j
  proof -
    have "set (rs ! j) \<subseteq> \<Union> (set ` set rs)" using nth_mem [OF that] by blast
    then show ?thesis using Cons.prems(1) by auto
  qed
  then show ?case using Cons by (cases i; cases k) (auto simp: Int_commute)
qed simp

text \<open>
  A well-formed component is a strongly connected component: exactly the nodes its members reach
  and are reached from.
\<close>

lemma sccs_ok_component:
  assumes ok: "sccs_ok adj rs" and c: "c \<in> set rs" "x \<in> set c"
  shows "set c = {y. (x, y) \<in> (edges adj)\<^sup>* \<and> (y, x) \<in> (edges adj)\<^sup>*}"
proof (intro equalityI subsetI CollectI)
  fix y assume "y \<in> set c"
  then show "(x, y) \<in> (edges adj)\<^sup>* \<and> (y, x) \<in> (edges adj)\<^sup>*" using sccs_okD(4) [OF ok c(1)] c by blast
next
  fix y assume y: "y \<in> {y. (x, y) \<in> (edges adj)\<^sup>* \<and> (y, x) \<in> (edges adj)\<^sup>*}"
  have down: "\<exists>j \<le> i. b \<in> set (rs ! j)"
    if "(a, b) \<in> (edges adj)\<^sup>*" "i < length rs" "a \<in> set (rs ! i)" for a b i
    using that
  proof (induction rule: rtrancl_induct)
    case (step b d)
    then obtain j where j: "j \<le> i" "b \<in> set (rs ! j)" by blast
    have "d \<in> set (adj b)" using step.hyps by (simp add: edges_def)
    then obtain k where "k \<le> j" "d \<in> set (rs ! k)"
      using callees_firstD [OF sccs_okD(2) [OF ok] _ j(2)] j(1) step.prems by (metis le_less_trans)
    then show ?case using j(1) le_trans by blast
  qed blast
  obtain i where i: "i < length rs" "rs ! i = c" using c(1) by (auto simp: in_set_conv_nth)
  obtain j where j: "j \<le> i" "y \<in> set (rs ! j)" using down [of x y i] y i c by auto
  then obtain k where k: "k \<le> j" "x \<in> set (rs ! k)" using down [of y x j] y i by auto
  have "k = i"
  proof (rule ccontr)
    assume "k \<noteq> i"
    then have "set (rs ! k) \<inter> set (rs ! i) = {}"
      using k j i by (intro distinct_concat_nth [OF sccs_okD(1) [OF ok]]) auto
    then show False using k(2) c(2) i(2) by auto
  qed
  then show "y \<in> set c" using j k i by auto
qed

end
