(* ===== verification/Models.thy ===== *)
theory Models
imports Complex_Main Prelude
begin

text \<open>
  The transport-neutral domain types of \<open>models.py\<close>: the string enumerations, the frozen
  dataclasses as records and the \<open>__post_init__\<close> validation of each as a function from the
  record as constructed to the normalised record or the \<open>ValueError\<close> it raises.

  Every provenance-carrying dataclass extends the record \<open>fact\<close>, which holds the four fields
  they all have (\<open>id\<close>, \<open>translation_unit_id\<close>, \<open>build_configuration_id\<close>, \<open>build_variant\<close>).
  A \<open>Path\<close> inside a span is its text.  A JSON value (\<open>Mapping[str, Any]\<close> metadata) is a
  \<open>json\<close>; a Python float is a \<open>pyfloat\<close>, whose finite values are rationals.
\<close>

section \<open>Values\<close>

datatype pyfloat = Finite rat | Infinite bool | NaN

datatype json =
    JNull
  | JBool bool
  | JInt int
  | JFloat pyfloat
  | JStr string
  | JArr "json list"
  | JObj "(string \<times> json) list"

text \<open>Python's \<open>0.0 <= x <= 1.0\<close>: false on a NaN and on the infinities.\<close>

definition in_unit_interval :: "pyfloat \<Rightarrow> bool" where
  "in_unit_interval x = (case x of Finite q \<Rightarrow> 0 \<le> q \<and> q \<le> 1 | _ \<Rightarrow> False)"

section \<open>Enumerations\<close>

datatype index_profile = PROFILE_FULL | PROFILE_NAVIGATION

datatype symbol_kind =
    SYM_FILE | SYM_FUNCTION | SYM_METHOD | SYM_CLASS | SYM_STRUCT | SYM_ENUM | SYM_NAMESPACE
  | SYM_VARIABLE | SYM_TYPE_ALIAS | SYM_MACRO | SYM_UNKNOWN

datatype graph_relation =
    REL_CONTAINS | REL_REFERENCES | REL_CALLS | REL_INHERITS | REL_OVERRIDES | REL_USES_TYPE
  | REL_INCLUDES | REL_INSTANTIATES | REL_SPECIALIZES | REL_GENERATED_BY_MACRO

datatype graph_direction = OUTGOING | INCOMING | BOTH

datatype occurrence_kind =
    OCC_DECLARATION | OCC_DEFINITION | OCC_REFERENCE | OCC_CALL | OCC_TYPE | OCC_MACRO_EXPANSION

datatype cfg_block_role = ROLE_NORMAL | ROLE_ENTRY | ROLE_NORMAL_EXIT | ROLE_EXCEPTIONAL_EXIT

datatype cfg_edge_kind =
    EDGE_FALLTHROUGH | EDGE_TRUE | EDGE_FALSE | EDGE_CASE | EDGE_DEFAULT | EDGE_LOOP_BACK
  | EDGE_BREAK | EDGE_CONTINUE | EDGE_RETURN | EDGE_GOTO | EDGE_EXCEPTION

datatype call_dispatch_kind =
    CALL_DIRECT | CALL_CONSTRUCTOR | CALL_VIRTUAL | CALL_DEVIRTUALIZED | CALL_LAMBDA
  | CALL_GENERIC_LAMBDA | CALL_FUNCTOR | CALL_DEPENDENT_TEMPLATE | CALL_UNRESOLVED_INDIRECT

datatype call_target_certainty = TARGET_CERTAIN | TARGET_POSSIBLE

datatype memory_location_kind =
    LOC_LOCAL | LOC_PARAMETER | LOC_GLOBAL | LOC_RETURN | LOC_DEREFERENCE | LOC_FIELD | LOC_UNKNOWN

datatype data_access_kind =
    ACC_PARAMETER_DEFINITION | ACC_INITIALIZATION | ACC_ASSIGNMENT | ACC_COMPOUND_ASSIGNMENT
  | ACC_INCREMENT | ACC_DECREMENT | ACC_CALL_RETURN | ACC_UNKNOWN_CLOBBER | ACC_READ
  | ACC_CALL_ARGUMENT | ACC_RETURN_VALUE | ACC_CONDITION

datatype data_flow_relation =
    FLOW_REACHING_DEFINITION | FLOW_OVERWRITES | FLOW_MUST_ALIAS | FLOW_MAY_ALIAS

datatype data_flow_certainty = POSSIBLE | CERTAIN

datatype summary_effect_kind = EFFECT_READ | EFFECT_WRITE | EFFECT_ESCAPE

datatype summary_return_origin_kind =
    ORIGIN_LOCATION | ORIGIN_CALL_RESULT | ORIGIN_CONSTANT | ORIGIN_UNKNOWN

datatype interprocedural_flow_kind = ARGUMENT_TO_PARAMETER | RETURN_TO_CALLER | WRITEBACK

text \<open>The \<open>StrEnum\<close> values, as written to the analyzer protocol and to the database.\<close>

primrec index_profile_value :: "index_profile \<Rightarrow> string" where
  "index_profile_value PROFILE_FULL = ''full''"
| "index_profile_value PROFILE_NAVIGATION = ''navigation''"

primrec symbol_kind_value :: "symbol_kind \<Rightarrow> string" where
  "symbol_kind_value SYM_FILE = ''file''"
| "symbol_kind_value SYM_FUNCTION = ''function''"
| "symbol_kind_value SYM_METHOD = ''method''"
| "symbol_kind_value SYM_CLASS = ''class''"
| "symbol_kind_value SYM_STRUCT = ''struct''"
| "symbol_kind_value SYM_ENUM = ''enum''"
| "symbol_kind_value SYM_NAMESPACE = ''namespace''"
| "symbol_kind_value SYM_VARIABLE = ''variable''"
| "symbol_kind_value SYM_TYPE_ALIAS = ''type_alias''"
| "symbol_kind_value SYM_MACRO = ''macro''"
| "symbol_kind_value SYM_UNKNOWN = ''unknown''"

primrec graph_relation_value :: "graph_relation \<Rightarrow> string" where
  "graph_relation_value REL_CONTAINS = ''contains''"
| "graph_relation_value REL_REFERENCES = ''references''"
| "graph_relation_value REL_CALLS = ''calls''"
| "graph_relation_value REL_INHERITS = ''inherits''"
| "graph_relation_value REL_OVERRIDES = ''overrides''"
| "graph_relation_value REL_USES_TYPE = ''uses_type''"
| "graph_relation_value REL_INCLUDES = ''includes''"
| "graph_relation_value REL_INSTANTIATES = ''instantiates''"
| "graph_relation_value REL_SPECIALIZES = ''specializes''"
| "graph_relation_value REL_GENERATED_BY_MACRO = ''generated_by_macro''"

primrec occurrence_kind_value :: "occurrence_kind \<Rightarrow> string" where
  "occurrence_kind_value OCC_DECLARATION = ''declaration''"
| "occurrence_kind_value OCC_DEFINITION = ''definition''"
| "occurrence_kind_value OCC_REFERENCE = ''reference''"
| "occurrence_kind_value OCC_CALL = ''call''"
| "occurrence_kind_value OCC_TYPE = ''type''"
| "occurrence_kind_value OCC_MACRO_EXPANSION = ''macro_expansion''"

primrec cfg_block_role_value :: "cfg_block_role \<Rightarrow> string" where
  "cfg_block_role_value ROLE_NORMAL = ''normal''"
| "cfg_block_role_value ROLE_ENTRY = ''entry''"
| "cfg_block_role_value ROLE_NORMAL_EXIT = ''normal_exit''"
| "cfg_block_role_value ROLE_EXCEPTIONAL_EXIT = ''exceptional_exit''"

primrec cfg_edge_kind_value :: "cfg_edge_kind \<Rightarrow> string" where
  "cfg_edge_kind_value EDGE_FALLTHROUGH = ''fallthrough''"
| "cfg_edge_kind_value EDGE_TRUE = ''true''"
| "cfg_edge_kind_value EDGE_FALSE = ''false''"
| "cfg_edge_kind_value EDGE_CASE = ''case''"
| "cfg_edge_kind_value EDGE_DEFAULT = ''default''"
| "cfg_edge_kind_value EDGE_LOOP_BACK = ''loop_back''"
| "cfg_edge_kind_value EDGE_BREAK = ''break''"
| "cfg_edge_kind_value EDGE_CONTINUE = ''continue''"
| "cfg_edge_kind_value EDGE_RETURN = ''return''"
| "cfg_edge_kind_value EDGE_GOTO = ''goto''"
| "cfg_edge_kind_value EDGE_EXCEPTION = ''exception''"

primrec call_dispatch_kind_value :: "call_dispatch_kind \<Rightarrow> string" where
  "call_dispatch_kind_value CALL_DIRECT = ''direct''"
| "call_dispatch_kind_value CALL_CONSTRUCTOR = ''constructor''"
| "call_dispatch_kind_value CALL_VIRTUAL = ''virtual''"
| "call_dispatch_kind_value CALL_DEVIRTUALIZED = ''devirtualized''"
| "call_dispatch_kind_value CALL_LAMBDA = ''lambda''"
| "call_dispatch_kind_value CALL_GENERIC_LAMBDA = ''generic_lambda''"
| "call_dispatch_kind_value CALL_FUNCTOR = ''functor''"
| "call_dispatch_kind_value CALL_DEPENDENT_TEMPLATE = ''dependent_template''"
| "call_dispatch_kind_value CALL_UNRESOLVED_INDIRECT = ''unresolved_indirect''"

primrec call_target_certainty_value :: "call_target_certainty \<Rightarrow> string" where
  "call_target_certainty_value TARGET_CERTAIN = ''certain''"
| "call_target_certainty_value TARGET_POSSIBLE = ''possible''"

primrec memory_location_kind_value :: "memory_location_kind \<Rightarrow> string" where
  "memory_location_kind_value LOC_LOCAL = ''local''"
| "memory_location_kind_value LOC_PARAMETER = ''parameter''"
| "memory_location_kind_value LOC_GLOBAL = ''global''"
| "memory_location_kind_value LOC_RETURN = ''return''"
| "memory_location_kind_value LOC_DEREFERENCE = ''dereference''"
| "memory_location_kind_value LOC_FIELD = ''field''"
| "memory_location_kind_value LOC_UNKNOWN = ''unknown''"

primrec data_access_kind_value :: "data_access_kind \<Rightarrow> string" where
  "data_access_kind_value ACC_PARAMETER_DEFINITION = ''parameter_definition''"
| "data_access_kind_value ACC_INITIALIZATION = ''initialization''"
| "data_access_kind_value ACC_ASSIGNMENT = ''assignment''"
| "data_access_kind_value ACC_COMPOUND_ASSIGNMENT = ''compound_assignment''"
| "data_access_kind_value ACC_INCREMENT = ''increment''"
| "data_access_kind_value ACC_DECREMENT = ''decrement''"
| "data_access_kind_value ACC_CALL_RETURN = ''call_return''"
| "data_access_kind_value ACC_UNKNOWN_CLOBBER = ''unknown_clobber''"
| "data_access_kind_value ACC_READ = ''read''"
| "data_access_kind_value ACC_CALL_ARGUMENT = ''call_argument''"
| "data_access_kind_value ACC_RETURN_VALUE = ''return_value''"
| "data_access_kind_value ACC_CONDITION = ''condition''"

primrec data_flow_relation_value :: "data_flow_relation \<Rightarrow> string" where
  "data_flow_relation_value FLOW_REACHING_DEFINITION = ''reaching_definition''"
| "data_flow_relation_value FLOW_OVERWRITES = ''overwrites''"
| "data_flow_relation_value FLOW_MUST_ALIAS = ''must_alias''"
| "data_flow_relation_value FLOW_MAY_ALIAS = ''may_alias''"

primrec data_flow_certainty_value :: "data_flow_certainty \<Rightarrow> string" where
  "data_flow_certainty_value CERTAIN = ''certain''"
| "data_flow_certainty_value POSSIBLE = ''possible''"

primrec summary_effect_kind_value :: "summary_effect_kind \<Rightarrow> string" where
  "summary_effect_kind_value EFFECT_READ = ''read''"
| "summary_effect_kind_value EFFECT_WRITE = ''write''"
| "summary_effect_kind_value EFFECT_ESCAPE = ''escape''"

primrec summary_return_origin_kind_value :: "summary_return_origin_kind \<Rightarrow> string" where
  "summary_return_origin_kind_value ORIGIN_LOCATION = ''location''"
| "summary_return_origin_kind_value ORIGIN_CALL_RESULT = ''call_result''"
| "summary_return_origin_kind_value ORIGIN_CONSTANT = ''constant''"
| "summary_return_origin_kind_value ORIGIN_UNKNOWN = ''unknown''"

primrec interprocedural_flow_kind_value :: "interprocedural_flow_kind \<Rightarrow> string" where
  "interprocedural_flow_kind_value ARGUMENT_TO_PARAMETER = ''argument_to_parameter''"
| "interprocedural_flow_kind_value RETURN_TO_CALLER = ''return_to_caller''"
| "interprocedural_flow_kind_value WRITEBACK = ''writeback''"

text \<open>
  \<open>Kind(value)\<close>: the member with that value, or a \<open>ValueError\<close>.  The contract of a string
  enumeration, its members listed without omission and its values distinct, is a locale that
  every enumeration of the model interprets.
\<close>

definition enum_parse :: "'e list \<Rightarrow> ('e \<Rightarrow> string) \<Rightarrow> string \<Rightarrow> 'e result" where
  "enum_parse members value s =
     (case find (\<lambda>e. value e = s) members of
        Some e \<Rightarrow> Inr e
      | None \<Rightarrow> Inl (ValueError ''is not a valid member''))"

locale str_enum =
  fixes members :: "'e list" and enum_value :: "'e \<Rightarrow> string"
  assumes all_members: "e \<in> set members"
    and distinct_values: "distinct (map enum_value members)"
begin

lemma value_inj: "enum_value e = enum_value e' \<Longrightarrow> e = e'"
  using distinct_values all_members by (metis distinct_map inj_onD)

lemma parse_value: "enum_parse members enum_value (enum_value e) = Inr e"
proof -
  have "find (\<lambda>e'. enum_value e' = enum_value e) ms = Some e" if "e \<in> set ms" for ms
    using that by (induction ms) (auto dest: value_inj)
  from this [OF all_members] show ?thesis by (simp add: enum_parse_def)
qed

lemma value_parse: "enum_parse members enum_value s = Inr e \<longleftrightarrow> enum_value e = s"
proof
  assume "enum_parse members enum_value s = Inr e"
  then show "enum_value e = s"
    by (auto simp: enum_parse_def find_Some_iff split: option.splits)
next
  assume "enum_value e = s"
  then show "enum_parse members enum_value s = Inr e" using parse_value [of e] by simp
qed

end

definition index_profile_members :: "index_profile list" where
  "index_profile_members =
     [PROFILE_FULL, PROFILE_NAVIGATION]"

definition symbol_kind_members :: "symbol_kind list" where
  "symbol_kind_members =
     [SYM_FILE, SYM_FUNCTION, SYM_METHOD, SYM_CLASS, SYM_STRUCT, SYM_ENUM, SYM_NAMESPACE,
      SYM_VARIABLE, SYM_TYPE_ALIAS, SYM_MACRO, SYM_UNKNOWN]"

definition graph_relation_members :: "graph_relation list" where
  "graph_relation_members =
     [REL_CONTAINS, REL_REFERENCES, REL_CALLS, REL_INHERITS, REL_OVERRIDES, REL_USES_TYPE,
      REL_INCLUDES, REL_INSTANTIATES, REL_SPECIALIZES, REL_GENERATED_BY_MACRO]"

definition occurrence_kind_members :: "occurrence_kind list" where
  "occurrence_kind_members =
     [OCC_DECLARATION, OCC_DEFINITION, OCC_REFERENCE, OCC_CALL, OCC_TYPE, OCC_MACRO_EXPANSION]"

definition cfg_block_role_members :: "cfg_block_role list" where
  "cfg_block_role_members =
     [ROLE_NORMAL, ROLE_ENTRY, ROLE_NORMAL_EXIT, ROLE_EXCEPTIONAL_EXIT]"

definition cfg_edge_kind_members :: "cfg_edge_kind list" where
  "cfg_edge_kind_members =
     [EDGE_FALLTHROUGH, EDGE_TRUE, EDGE_FALSE, EDGE_CASE, EDGE_DEFAULT, EDGE_LOOP_BACK,
      EDGE_BREAK, EDGE_CONTINUE, EDGE_RETURN, EDGE_GOTO, EDGE_EXCEPTION]"

definition call_dispatch_kind_members :: "call_dispatch_kind list" where
  "call_dispatch_kind_members =
     [CALL_DIRECT, CALL_CONSTRUCTOR, CALL_VIRTUAL, CALL_DEVIRTUALIZED, CALL_LAMBDA,
      CALL_GENERIC_LAMBDA, CALL_FUNCTOR, CALL_DEPENDENT_TEMPLATE,
      CALL_UNRESOLVED_INDIRECT]"

definition call_target_certainty_members :: "call_target_certainty list" where
  "call_target_certainty_members =
     [TARGET_CERTAIN, TARGET_POSSIBLE]"

definition memory_location_kind_members :: "memory_location_kind list" where
  "memory_location_kind_members =
     [LOC_LOCAL, LOC_PARAMETER, LOC_GLOBAL, LOC_RETURN, LOC_DEREFERENCE, LOC_FIELD, LOC_UNKNOWN]"

definition data_access_kind_members :: "data_access_kind list" where
  "data_access_kind_members =
     [ACC_PARAMETER_DEFINITION, ACC_INITIALIZATION, ACC_ASSIGNMENT,
      ACC_COMPOUND_ASSIGNMENT, ACC_INCREMENT, ACC_DECREMENT, ACC_CALL_RETURN,
      ACC_UNKNOWN_CLOBBER, ACC_READ, ACC_CALL_ARGUMENT, ACC_RETURN_VALUE, ACC_CONDITION]"

definition data_flow_relation_members :: "data_flow_relation list" where
  "data_flow_relation_members =
     [FLOW_REACHING_DEFINITION, FLOW_OVERWRITES, FLOW_MUST_ALIAS, FLOW_MAY_ALIAS]"

definition data_flow_certainty_members :: "data_flow_certainty list" where
  "data_flow_certainty_members =
     [CERTAIN, POSSIBLE]"

definition summary_effect_kind_members :: "summary_effect_kind list" where
  "summary_effect_kind_members =
     [EFFECT_READ, EFFECT_WRITE, EFFECT_ESCAPE]"

definition summary_return_origin_kind_members :: "summary_return_origin_kind list" where
  "summary_return_origin_kind_members =
     [ORIGIN_LOCATION, ORIGIN_CALL_RESULT, ORIGIN_CONSTANT, ORIGIN_UNKNOWN]"

definition interprocedural_flow_kind_members :: "interprocedural_flow_kind list" where
  "interprocedural_flow_kind_members =
     [ARGUMENT_TO_PARAMETER, RETURN_TO_CALLER, WRITEBACK]"

interpretation index_profile: str_enum index_profile_members index_profile_value
proof
  show "e \<in> set index_profile_members" for e by (cases e) (simp_all add: index_profile_members_def)
  show "distinct (map index_profile_value index_profile_members)" by code_simp
qed

interpretation symbol_kind: str_enum symbol_kind_members symbol_kind_value
proof
  show "e \<in> set symbol_kind_members" for e by (cases e) (simp_all add: symbol_kind_members_def)
  show "distinct (map symbol_kind_value symbol_kind_members)" by code_simp
qed

interpretation graph_relation: str_enum graph_relation_members graph_relation_value
proof
  show "e \<in> set graph_relation_members" for e by (cases e) (simp_all add: graph_relation_members_def)
  show "distinct (map graph_relation_value graph_relation_members)" by code_simp
qed

interpretation occurrence_kind: str_enum occurrence_kind_members occurrence_kind_value
proof
  show "e \<in> set occurrence_kind_members" for e by (cases e) (simp_all add: occurrence_kind_members_def)
  show "distinct (map occurrence_kind_value occurrence_kind_members)" by code_simp
qed

interpretation cfg_block_role: str_enum cfg_block_role_members cfg_block_role_value
proof
  show "e \<in> set cfg_block_role_members" for e by (cases e) (simp_all add: cfg_block_role_members_def)
  show "distinct (map cfg_block_role_value cfg_block_role_members)" by code_simp
qed

interpretation cfg_edge_kind: str_enum cfg_edge_kind_members cfg_edge_kind_value
proof
  show "e \<in> set cfg_edge_kind_members" for e by (cases e) (simp_all add: cfg_edge_kind_members_def)
  show "distinct (map cfg_edge_kind_value cfg_edge_kind_members)" by code_simp
qed

interpretation call_dispatch_kind: str_enum call_dispatch_kind_members call_dispatch_kind_value
proof
  show "e \<in> set call_dispatch_kind_members" for e by (cases e) (simp_all add: call_dispatch_kind_members_def)
  show "distinct (map call_dispatch_kind_value call_dispatch_kind_members)" by code_simp
qed

interpretation call_target_certainty: str_enum call_target_certainty_members call_target_certainty_value
proof
  show "e \<in> set call_target_certainty_members" for e by (cases e) (simp_all add: call_target_certainty_members_def)
  show "distinct (map call_target_certainty_value call_target_certainty_members)" by code_simp
qed

interpretation memory_location_kind: str_enum memory_location_kind_members memory_location_kind_value
proof
  show "e \<in> set memory_location_kind_members" for e by (cases e) (simp_all add: memory_location_kind_members_def)
  show "distinct (map memory_location_kind_value memory_location_kind_members)" by code_simp
qed

interpretation data_access_kind: str_enum data_access_kind_members data_access_kind_value
proof
  show "e \<in> set data_access_kind_members" for e by (cases e) (simp_all add: data_access_kind_members_def)
  show "distinct (map data_access_kind_value data_access_kind_members)" by code_simp
qed

interpretation data_flow_relation: str_enum data_flow_relation_members data_flow_relation_value
proof
  show "e \<in> set data_flow_relation_members" for e by (cases e) (simp_all add: data_flow_relation_members_def)
  show "distinct (map data_flow_relation_value data_flow_relation_members)" by code_simp
qed

interpretation data_flow_certainty: str_enum data_flow_certainty_members data_flow_certainty_value
proof
  show "e \<in> set data_flow_certainty_members" for e by (cases e) (simp_all add: data_flow_certainty_members_def)
  show "distinct (map data_flow_certainty_value data_flow_certainty_members)" by code_simp
qed

interpretation summary_effect_kind: str_enum summary_effect_kind_members summary_effect_kind_value
proof
  show "e \<in> set summary_effect_kind_members" for e by (cases e) (simp_all add: summary_effect_kind_members_def)
  show "distinct (map summary_effect_kind_value summary_effect_kind_members)" by code_simp
qed

interpretation summary_return_origin_kind: str_enum summary_return_origin_kind_members summary_return_origin_kind_value
proof
  show "e \<in> set summary_return_origin_kind_members" for e by (cases e) (simp_all add: summary_return_origin_kind_members_def)
  show "distinct (map summary_return_origin_kind_value summary_return_origin_kind_members)" by code_simp
qed

interpretation interprocedural_flow_kind: str_enum interprocedural_flow_kind_members interprocedural_flow_kind_value
proof
  show "e \<in> set interprocedural_flow_kind_members" for e by (cases e) (simp_all add: interprocedural_flow_kind_members_def)
  show "distinct (map interprocedural_flow_kind_value interprocedural_flow_kind_members)" by code_simp
qed

section \<open>Source spans\<close>

record source_span =
  span_path :: string
  start_line :: int
  end_line :: int
  start_column :: int
  end_column :: int

definition post_init_source_span :: "source_span \<Rightarrow> source_span result" where
  "post_init_source_span s =
     (if min (min (start_line s) (end_line s)) (min (start_column s) (end_column s)) < 1
      then Inl (ValueError ''source coordinates are one-based and must be positive'')
      else if (end_line s, end_column s) < (start_line s, start_column s)
      then Inl (ValueError ''source span end must not precede its start'')
      else Inr s)"

section \<open>Build scopes\<close>

definition DEFAULT_BUILD_VARIANT :: string where "DEFAULT_BUILD_VARIANT = ''default''"
definition MAX_BUILD_VARIANTS :: nat where "MAX_BUILD_VARIANTS = 16"
definition MAX_BUILD_VARIANT_NAME_CHARS :: nat where "MAX_BUILD_VARIANT_NAME_CHARS = 128"

record build_scope =
  variants :: "string list"

definition post_init_build_scope :: "build_scope \<Rightarrow> build_scope result" where
  "post_init_build_scope s =
     (let normalized = fromkeys (map py_strip (filter (\<lambda>name. \<not> blank name) (variants s))) in
      if normalized = []
      then Inl (ValueError ''build scope must contain at least one variant'')
      else if list_ex (list_ex is_space) normalized
      then Inl (ValueError ''build scope names must not contain whitespace'')
      else if MAX_BUILD_VARIANTS < length normalized
      then Inl (ValueError ''build scope must not exceed 16 variants'')
      else if list_ex (\<lambda>name. MAX_BUILD_VARIANT_NAME_CHARS < length name) normalized
      then Inl (ValueError ''build variant names must not exceed 128 characters'')
      else Inr (s\<lparr>variants := normalized\<rparr>))"

definition build_scope_single :: "string \<Rightarrow> build_scope result" where
  "build_scope_single name = post_init_build_scope \<lparr>variants = [name]\<rparr>"

definition is_union :: "build_scope \<Rightarrow> bool" where
  "is_union s = (1 < length (variants s))"

section \<open>Provenance and the indexed entities\<close>

record build_configuration =
  bc_id :: string
  bc_source_path :: string
  bc_directory :: string
  bc_arguments :: "string list"
  bc_command_hash :: string
  bc_output :: "string option"
  bc_build_variant :: string
  bc_generated_source_roots :: "string list"

record translation_unit =
  tu_id :: string
  tu_build_configuration_id :: string
  tu_source_path :: string
  tu_content_hash :: string
  tu_dependencies :: "(string \<times> string) list"
  tu_diagnostics :: "string list"
  tu_build_variant :: string
  tu_analysis_backend :: string
  tu_advanced_facts_complete :: bool
  tu_index_profile :: index_profile
  tu_navigation_facts_complete :: "bool option"
  tu_cfg_facts_complete :: "bool option"
  tu_data_flow_facts_complete :: "bool option"
  tu_summary_facts_complete :: "bool option"
  tu_analyzer_identity :: string

text \<open>The provenance fields every fact carries.\<close>

record fact =
  fact_id :: string
  translation_unit_id :: string
  build_configuration_id :: string
  build_variant :: string

record code_symbol = fact +
  sym_qualified_name :: string
  sym_kind :: symbol_kind
  sym_span :: source_span
  sym_signature :: string
  sym_documentation :: string
  sym_source_hash :: string
  sym_source_text :: string
  sym_variant_id :: string
  sym_metadata :: "(string \<times> json) list"

definition post_init_code_symbol :: "code_symbol \<Rightarrow> code_symbol result" where
  "post_init_code_symbol s =
     (if blank (fact_id s) then Inl (ValueError ''symbol id must not be empty'')
      else if blank (sym_qualified_name s)
      then Inl (ValueError ''qualified name must not be empty'')
      else Inr s)"

record graph_edge = fact +
  ge_source_id :: string
  ge_target_id :: string
  ge_relation :: graph_relation

record symbol_occurrence = fact +
  occ_symbol_id :: string
  occ_span :: source_span
  occ_kind :: occurrence_kind
  occ_enclosing_symbol_id :: "string option"
  occ_metadata :: "(string \<times> json) list"

definition post_init_symbol_occurrence :: "symbol_occurrence \<Rightarrow> symbol_occurrence result" where
  "post_init_symbol_occurrence s =
     (if blank (fact_id s) then Inl (ValueError ''occurrence id must not be empty'')
      else if blank (occ_symbol_id s)
      then Inl (ValueError ''occurrence symbol id must not be empty'')
      else Inr s)"

text \<open>
  \<open>all(value.strip() for value in ...)\<close>, the identifier guard most constructors share.
\<close>

definition all_present :: "string list \<Rightarrow> bool" where
  "all_present = list_all (\<lambda>v. \<not> blank v)"

section \<open>Control-flow graphs\<close>

record cfg_graph = fact +
  cg_function_symbol_id :: string
  cg_entry_block_id :: string
  cg_normal_exit_block_id :: string
  cg_exceptional_exit_block_id :: "string option"
  cg_clang_major :: int
  cg_fact_schema_version :: int
  cg_build_options :: "(string \<times> json) list"

definition post_init_cfg_graph :: "cfg_graph \<Rightarrow> cfg_graph result" where
  "post_init_cfg_graph g =
     (if \<not> all_present [fact_id g, cg_function_symbol_id g, cg_entry_block_id g,
                        cg_normal_exit_block_id g]
      then Inl (ValueError ''CFG graph identifiers must not be empty'')
      else Inr g)"

record cfg_block = fact +
  cb_graph_id :: string
  cb_index :: int
  cb_role :: cfg_block_role
  cb_reachable :: bool
  cb_terminator_kind :: string
  cb_terminator_text :: string
  cb_terminator_spelling_span :: "source_span option"
  cb_terminator_expansion_span :: "source_span option"
  cb_label_kind :: string
  cb_label_text :: string

definition post_init_cfg_block :: "cfg_block \<Rightarrow> cfg_block result" where
  "post_init_cfg_block b =
     (if blank (fact_id b) \<or> blank (cb_graph_id b)
      then Inl (ValueError ''CFG block identifiers must not be empty'')
      else if cb_index b < 0
      then Inl (ValueError ''CFG block index must be non-negative'')
      else Inr b)"

record cfg_element = fact +
  ce_graph_id :: string
  ce_block_id :: string
  ce_index :: int
  ce_kind :: string
  ce_statement_class :: string
  ce_text :: string
  ce_spelling_span :: "source_span option"
  ce_expansion_span :: "source_span option"
  ce_metadata :: "(string \<times> json) list"

definition post_init_cfg_element :: "cfg_element \<Rightarrow> cfg_element result" where
  "post_init_cfg_element e =
     (if blank (fact_id e) \<or> blank (ce_graph_id e) \<or> blank (ce_block_id e)
      then Inl (ValueError ''CFG element identifiers must not be empty'')
      else if ce_index e < 0 \<or> blank (ce_kind e)
      then Inl (ValueError ''CFG elements require a non-negative index and kind'')
      else Inr e)"

record cfg_edge = fact +
  cd_graph_id :: string
  cd_source_block_id :: string
  cd_target_block_id :: string
  cd_kind :: cfg_edge_kind
  cd_successor_index :: int
  cd_feasible :: bool

definition post_init_cfg_edge :: "cfg_edge \<Rightarrow> cfg_edge result" where
  "post_init_cfg_edge e =
     (if \<not> all_present [fact_id e, cd_graph_id e, cd_source_block_id e, cd_target_block_id e]
      then Inl (ValueError ''CFG edge identifiers must not be empty'')
      else if cd_successor_index e < 0
      then Inl (ValueError ''CFG successor index must be non-negative'')
      else Inr e)"

section \<open>Callsites\<close>

record macro_expansion_frame =
  mf_macro_symbol_id :: string
  mf_name :: string
  mf_spelling_span :: source_span
  mf_expansion_span :: source_span

definition post_init_macro_expansion_frame ::
    "macro_expansion_frame \<Rightarrow> macro_expansion_frame result" where
  "post_init_macro_expansion_frame f =
     (if blank (mf_macro_symbol_id f) \<or> blank (mf_name f)
      then Inl (ValueError ''macro expansion frames require a symbol and name'')
      else Inr f)"

record call_site = fact +
  cs_owner_symbol_id :: string
  cs_dispatch_kind :: call_dispatch_kind
  cs_spelling_span :: "source_span option"
  cs_expansion_span :: source_span
  cs_target_set_complete :: bool
  cs_static_target_symbol_id :: "string option"
  cs_unresolved_reason :: string
  cs_callee_text :: string
  cs_expansion_stack :: "macro_expansion_frame list"

definition post_init_call_site :: "call_site \<Rightarrow> call_site result" where
  "post_init_call_site c =
     (if blank (fact_id c) \<or> blank (cs_owner_symbol_id c)
      then Inl (ValueError ''callsite identifiers must not be empty'')
      else if \<not> cs_target_set_complete c \<and> blank (cs_unresolved_reason c)
      then Inl (ValueError ''incomplete callsites require an unresolved reason'')
      else if cs_target_set_complete c \<and> cs_unresolved_reason c \<noteq> []
      then Inl (ValueError ''complete callsites must not have an unresolved reason'')
      else Inr c)"

record call_target = fact +
  ct_callsite_id :: string
  ct_target_symbol_id :: string
  ct_certainty :: call_target_certainty
  ct_confidence :: pyfloat
  ct_confidence_reason :: string
  ct_derivation :: string
  ct_evidence_span :: source_span

definition post_init_call_target :: "call_target \<Rightarrow> call_target result" where
  "post_init_call_target t =
     (if blank (fact_id t) \<or> blank (ct_callsite_id t) \<or> blank (ct_target_symbol_id t)
      then Inl (ValueError ''call target identifiers must not be empty'')
      else if \<not> in_unit_interval (ct_confidence t)
      then Inl (ValueError ''call target confidence must be between zero and one'')
      else if blank (ct_confidence_reason t) \<or> blank (ct_derivation t)
      then Inl (ValueError ''call targets require confidence and derivation evidence'')
      else Inr t)"

section \<open>Intraprocedural data flow\<close>

record data_flow_analysis = fact +
  df_graph_id :: string
  df_complete :: bool
  df_incomplete_reasons :: "string list"
  df_iteration_count :: int
  df_max_iterations :: int
  df_max_alias_targets :: int
  df_max_access_path_depth :: int
  df_max_locations :: int

text \<open>\<open>tuple(dict.fromkeys(x.strip() for x in xs if x.strip()))\<close>.\<close>

definition strip_unique :: "string list \<Rightarrow> string list" where
  "strip_unique xs = fromkeys (map py_strip (filter (\<lambda>x. \<not> blank x) xs))"

definition post_init_data_flow_analysis :: "data_flow_analysis \<Rightarrow> data_flow_analysis result" where
  "post_init_data_flow_analysis a =
     (if blank (fact_id a) \<or> blank (df_graph_id a)
      then Inl (ValueError ''data-flow analysis identifiers must not be empty'')
      else if df_iteration_count a < 0
      then Inl (ValueError ''data-flow iteration count must be non-negative'')
      else if min (min (df_max_iterations a) (df_max_alias_targets a))
                  (min (df_max_access_path_depth a) (df_max_locations a)) \<le> 0
      then Inl (ValueError ''data-flow limits must be positive'')
      else let reasons = strip_unique (df_incomplete_reasons a) in
        if df_complete a \<and> reasons \<noteq> []
        then Inl (ValueError ''complete data-flow analyses must not contain incomplete reasons'')
        else if \<not> df_complete a \<and> reasons = []
        then Inl (ValueError ''incomplete data-flow analyses require an explicit reason'')
        else Inr (a\<lparr>df_incomplete_reasons := reasons\<rparr>))"

record memory_location = fact +
  ml_analysis_id :: string
  ml_graph_id :: string
  ml_kind :: memory_location_kind
  ml_name :: string
  ml_type_name :: string
  ml_declaration_symbol_id :: "string option"
  ml_base_location_id :: "string option"
  ml_access_path :: "string list"
  ml_is_volatile :: bool
  ml_is_atomic :: bool

text \<open>The truth value of an optional string: \<open>None\<close> and the empty string are false.\<close>

definition truthy :: "string option \<Rightarrow> bool" where
  "truthy v = (v \<noteq> None \<and> v \<noteq> Some [])"

definition post_init_memory_location :: "memory_location \<Rightarrow> memory_location result" where
  "post_init_memory_location l =
     (if blank (fact_id l) \<or> blank (ml_analysis_id l) \<or> blank (ml_graph_id l)
      then Inl (ValueError ''memory location identifiers must not be empty'')
      else if blank (ml_name l)
      then Inl (ValueError ''memory locations require a display name'')
      else if ml_kind l \<in> {LOC_FIELD, LOC_DEREFERENCE} \<and> \<not> truthy (ml_base_location_id l)
      then Inl (ValueError ''field and dereference locations require a base location'')
      else Inr l)"

record data_access = fact +
  da_analysis_id :: string
  da_graph_id :: string
  da_block_id :: string
  da_location_id :: string
  da_kind :: data_access_kind
  da_sequence :: int
  da_cfg_element_id :: "string option"
  da_span :: "source_span option"
  da_expression :: string
  da_pointee_symbol_ids :: "string list"
  da_points_to_complete :: bool

definition post_init_data_access :: "data_access \<Rightarrow> data_access result" where
  "post_init_data_access d =
     (if \<not> all_present [fact_id d, da_analysis_id d, da_graph_id d, da_block_id d,
                        da_location_id d]
      then Inl (ValueError ''data access identifiers must not be empty'')
      else if da_sequence d < 0
      then Inl (ValueError ''data access sequence must be non-negative'')
      else Inr (d\<lparr>da_pointee_symbol_ids := strip_unique (da_pointee_symbol_ids d)\<rparr>))"

record data_flow_evidence = fact +
  de_analysis_id :: string
  de_graph_id :: string
  de_relation :: data_flow_relation
  de_certainty :: data_flow_certainty
  de_reason :: string
  de_source_access_id :: "string option"
  de_target_access_id :: "string option"
  de_source_location_id :: "string option"
  de_target_location_id :: "string option"
  de_evidence_span :: "source_span option"

definition post_init_data_flow_evidence :: "data_flow_evidence \<Rightarrow> data_flow_evidence result" where
  "post_init_data_flow_evidence e =
     (if blank (fact_id e) \<or> blank (de_analysis_id e) \<or> blank (de_graph_id e)
      then Inl (ValueError ''data-flow evidence identifiers must not be empty'')
      else if blank (de_reason e)
      then Inl (ValueError ''data-flow evidence requires a reason'')
      else let access_pair = de_source_access_id e \<noteq> None \<and> de_target_access_id e \<noteq> None;
               location_pair = de_source_location_id e \<noteq> None \<and> de_target_location_id e \<noteq> None
        in if access_pair = location_pair
        then Inl (ValueError ''data-flow evidence requires exactly one access or location pair'')
        else Inr e)"

section \<open>Function summaries\<close>

record function_summary = fact +
  fs_function_symbol_id :: string
  fs_graph_id :: string
  fs_analysis_id :: string
  fs_parameter_modes :: "string list"
  fs_parameter_location_ids :: "string list"
  fs_local_complete :: bool
  fs_local_incomplete_reasons :: "string list"
  fs_complete :: bool
  fs_incomplete_reasons :: "string list"
  fs_recursive :: bool
  fs_iteration_count :: int
  fs_max_scc_iterations :: int
  fs_max_scc_size :: int
  fs_max_summary_effects :: int
  fs_solution_hash :: string

text \<open>\<open>tuple(dict.fromkeys(x for x in xs if x))\<close>.\<close>

definition nonempty_unique :: "string list \<Rightarrow> string list" where
  "nonempty_unique xs = fromkeys (filter (\<lambda>x. x \<noteq> []) xs)"

definition post_init_function_summary :: "function_summary \<Rightarrow> function_summary result" where
  "post_init_function_summary s =
     (if \<not> all_present [fact_id s, fs_function_symbol_id s, fs_graph_id s]
      then Inl (ValueError ''function summary identifiers must not be empty'')
      else if fs_iteration_count s < 0
           \<or> min (fs_max_scc_iterations s) (min (fs_max_scc_size s) (fs_max_summary_effects s)) \<le> 0
      then Inl (ValueError ''function summary limits must be positive'')
      else let local_reasons = nonempty_unique (fs_local_incomplete_reasons s);
               reasons = nonempty_unique (fs_incomplete_reasons s)
        in if fs_local_complete s = (local_reasons \<noteq> [])
        then Inl (ValueError ''local summary completeness and reasons disagree'')
        else if fs_complete s = (reasons \<noteq> [])
        then Inl (ValueError ''summary completeness and reasons disagree'')
        else Inr (s\<lparr>fs_local_incomplete_reasons := local_reasons,
                   fs_incomplete_reasons := reasons\<rparr>))"

record summary_effect = fact +
  se_summary_id :: string
  se_kind :: summary_effect_kind
  se_location_kind :: memory_location_kind
  se_certainty :: data_flow_certainty
  se_reason :: string
  se_parameter_index :: "int option"
  se_access_path :: "string list"
  se_location_id :: "string option"
  se_source_access_id :: "string option"
  se_is_local :: bool
  se_via_callsite_id :: "string option"
  se_target_symbol_id :: "string option"

definition negative_index :: "int option \<Rightarrow> bool" where
  "negative_index i = (case i of None \<Rightarrow> False | Some n \<Rightarrow> n < 0)"

definition post_init_summary_effect :: "summary_effect \<Rightarrow> summary_effect result" where
  "post_init_summary_effect e =
     (if blank (fact_id e) \<or> blank (se_summary_id e) \<or> blank (se_reason e)
      then Inl (ValueError ''summary effects require identifiers and a reason'')
      else if negative_index (se_parameter_index e)
      then Inl (ValueError ''summary parameter indexes must be non-negative'')
      else if \<not> se_is_local e
           \<and> (\<not> truthy (se_via_callsite_id e) \<or> \<not> truthy (se_target_symbol_id e))
      then Inl (ValueError ''propagated summary effects require call-target provenance'')
      else Inr e)"

record summary_return_origin = fact +
  so_summary_id :: string
  so_kind :: summary_return_origin_kind
  so_certainty :: data_flow_certainty
  so_reason :: string
  so_location_kind :: "memory_location_kind option"
  so_parameter_index :: "int option"
  so_access_path :: "string list"
  so_location_id :: "string option"
  so_callsite_id :: "string option"
  so_is_local :: bool
  so_via_callsite_id :: "string option"
  so_target_symbol_id :: "string option"

definition post_init_summary_return_origin ::
    "summary_return_origin \<Rightarrow> summary_return_origin result" where
  "post_init_summary_return_origin r =
     (if blank (fact_id r) \<or> blank (so_summary_id r) \<or> blank (so_reason r)
      then Inl (ValueError ''summary return origins require identifiers and a reason'')
      else if negative_index (so_parameter_index r)
      then Inl (ValueError ''summary parameter indexes must be non-negative'')
      else if so_kind r = ORIGIN_CALL_RESULT \<and> \<not> truthy (so_callsite_id r)
      then Inl (ValueError ''call-result return origins require a callsite'')
      else if \<not> so_is_local r
           \<and> (\<not> truthy (so_via_callsite_id r) \<or> \<not> truthy (so_target_symbol_id r))
      then Inl (ValueError ''propagated return origins require call-target provenance'')
      else Inr r)"

record call_argument_binding = fact +
  ab_caller_summary_id :: string
  ab_callsite_id :: string
  ab_argument_index :: int
  ab_location_id :: "string option"
  ab_location_kind :: memory_location_kind
  ab_parameter_index :: "int option"
  ab_access_path :: "string list"
  ab_writeback_candidate :: bool
  ab_complete :: bool
  ab_incomplete_reason :: string

definition post_init_call_argument_binding ::
    "call_argument_binding \<Rightarrow> call_argument_binding result" where
  "post_init_call_argument_binding b =
     (if \<not> all_present [fact_id b, ab_caller_summary_id b, ab_callsite_id b]
      then Inl (ValueError ''call argument binding identifiers must not be empty'')
      else if ab_argument_index b < 0
      then Inl (ValueError ''call argument indexes must be non-negative'')
      else if negative_index (ab_parameter_index b)
      then Inl (ValueError ''caller parameter indexes must be non-negative'')
      else if ab_complete b = (ab_incomplete_reason b \<noteq> [])
      then Inl (ValueError ''call argument binding completeness and reason disagree'')
      else Inr b)"

record call_result_binding = fact +
  rb_caller_summary_id :: string
  rb_callsite_id :: string
  rb_location_id :: string
  rb_definition_access_id :: string

definition post_init_call_result_binding ::
    "call_result_binding \<Rightarrow> call_result_binding result" where
  "post_init_call_result_binding b =
     (if \<not> all_present [fact_id b, rb_caller_summary_id b, rb_callsite_id b, rb_location_id b,
                        rb_definition_access_id b]
      then Inl (ValueError ''call result binding identifiers must not be empty'')
      else Inr b)"

record interprocedural_flow = fact +
  fl_kind :: interprocedural_flow_kind
  fl_caller_summary_id :: string
  fl_callee_summary_id :: string
  fl_callsite_id :: string
  fl_target_symbol_id :: string
  fl_target_certainty :: call_target_certainty
  fl_certainty :: data_flow_certainty
  fl_reason :: string
  fl_argument_index :: "int option"
  fl_caller_location_id :: "string option"
  fl_callee_location_id :: "string option"
  fl_caller_access_id :: "string option"

definition post_init_interprocedural_flow ::
    "interprocedural_flow \<Rightarrow> interprocedural_flow result" where
  "post_init_interprocedural_flow f =
     (if \<not> all_present [fact_id f, fl_caller_summary_id f, fl_callee_summary_id f,
                        fl_callsite_id f, fl_target_symbol_id f, fl_reason f,
                        translation_unit_id f, build_configuration_id f, build_variant f]
      then Inl (ValueError ''interprocedural flows require identifiers and provenance'')
      else Inr f)"

section \<open>Certainty as an order\<close>

text \<open>
  Evidence is only as certain as its weakest part: \<^const>\<open>POSSIBLE\<close> lies below \<^const>\<open>CERTAIN\<close>,
  so that combining evidence is taking the minimum.
\<close>

instantiation data_flow_certainty :: linorder
begin

definition less_eq_data_flow_certainty :: "data_flow_certainty \<Rightarrow> data_flow_certainty \<Rightarrow> bool" where
  "less_eq_data_flow_certainty a b = (a = POSSIBLE \<or> b = CERTAIN)"

definition less_data_flow_certainty :: "data_flow_certainty \<Rightarrow> data_flow_certainty \<Rightarrow> bool" where
  "less_data_flow_certainty a b = (a = POSSIBLE \<and> b = CERTAIN)"

instance
proof
  fix x y z :: data_flow_certainty
  show "(x < y) = (x \<le> y \<and> \<not> y \<le> x)"
    by (cases x; cases y) (simp_all add: less_eq_data_flow_certainty_def less_data_flow_certainty_def)
  show "x \<le> x"
    by (cases x) (simp_all add: less_eq_data_flow_certainty_def)
  show "x \<le> y \<Longrightarrow> y \<le> z \<Longrightarrow> x \<le> z"
    by (cases x; cases y; cases z) (simp_all add: less_eq_data_flow_certainty_def)
  show "x \<le> y \<Longrightarrow> y \<le> x \<Longrightarrow> x = y"
    by (cases x; cases y) (simp_all add: less_eq_data_flow_certainty_def)
  show "x \<le> y \<or> y \<le> x"
    by (cases x; cases y) (simp_all add: less_eq_data_flow_certainty_def)
qed

end

lemma certainty_le_iff [simp]:
  "POSSIBLE \<le> c" "c \<le> CERTAIN" "CERTAIN \<le> c \<longleftrightarrow> c = CERTAIN" "c \<le> POSSIBLE \<longleftrightarrow> c = POSSIBLE"
  by (cases c; simp add: less_eq_data_flow_certainty_def)+

section \<open>What validation accepts\<close>

lemma all_present_simps [simp]:
  "all_present [] \<longleftrightarrow> True"
  "all_present (x # xs) \<longleftrightarrow> \<not> blank x \<and> all_present xs"
  by (simp_all add: all_present_def)

lemma set_strip_unique: "set (strip_unique xs) = py_strip ` {x \<in> set xs. \<not> blank x}"
  by (simp add: strip_unique_def)

lemma blank_py_strip [simp]: "blank (py_strip x) \<longleftrightarrow> blank x"
  by (simp add: blank_def)

lemma strip_unique_idem [simp]: "strip_unique (strip_unique xs) = strip_unique xs"
proof -
  have "map py_strip (filter (\<lambda>x. \<not> blank x) ys) = ys" if "\<forall>y \<in> set ys. \<not> blank y \<and> py_strip y = y" for ys
    using that by (induction ys) auto
  moreover have "\<forall>y \<in> set (strip_unique xs). \<not> blank y \<and> py_strip y = y"
    by (auto simp: set_strip_unique)
  ultimately have "map py_strip (filter (\<lambda>x. \<not> blank x) (strip_unique xs)) = strip_unique xs"
    by blast
  then show ?thesis
    by (subst strip_unique_def) (simp add: fromkeys_distinct strip_unique_def)
qed

lemma strip_unique_Nil_iff: "strip_unique xs = [] \<longleftrightarrow> (\<forall>x \<in> set xs. blank x)"
  by (auto simp: strip_unique_def filter_empty_conv)

lemma set_nonempty_unique [simp]: "set (nonempty_unique xs) = {x \<in> set xs. x \<noteq> []}"
  by (simp add: nonempty_unique_def)

lemma nonempty_unique_idem [simp]: "nonempty_unique (nonempty_unique xs) = nonempty_unique xs"
proof -
  have "filter (\<lambda>x. x \<noteq> []) (nonempty_unique xs) = nonempty_unique xs"
    by (rule filter_True) (simp add: nonempty_unique_def)
  then show ?thesis by (subst nonempty_unique_def) (simp add: nonempty_unique_def)
qed

lemma nonempty_unique_Nil_iff: "nonempty_unique xs = [] \<longleftrightarrow> (\<forall>x \<in> set xs. x = [])"
  by (auto simp: nonempty_unique_def filter_empty_conv)

lemma post_init_function_summary_Inr:
  "post_init_function_summary s = Inr s' \<longleftrightarrow>
     all_present [fact_id s, fs_function_symbol_id s, fs_graph_id s]
     \<and> 0 \<le> fs_iteration_count s \<and> 0 < fs_max_scc_iterations s \<and> 0 < fs_max_scc_size s
     \<and> 0 < fs_max_summary_effects s
     \<and> (fs_local_complete s \<longleftrightarrow> nonempty_unique (fs_local_incomplete_reasons s) = [])
     \<and> (fs_complete s \<longleftrightarrow> nonempty_unique (fs_incomplete_reasons s) = [])
     \<and> s' = s\<lparr>fs_local_incomplete_reasons := nonempty_unique (fs_local_incomplete_reasons s),
              fs_incomplete_reasons := nonempty_unique (fs_incomplete_reasons s)\<rparr>"
  by (auto simp: post_init_function_summary_def Let_def)

lemma post_init_summary_effect_Inr:
  "post_init_summary_effect e = Inr e' \<longleftrightarrow>
     e' = e \<and> all_present [fact_id e, se_summary_id e, se_reason e]
     \<and> \<not> negative_index (se_parameter_index e)
     \<and> (se_is_local e \<or> truthy (se_via_callsite_id e) \<and> truthy (se_target_symbol_id e))"
  by (auto simp: post_init_summary_effect_def)

lemma post_init_summary_return_origin_Inr:
  "post_init_summary_return_origin r = Inr r' \<longleftrightarrow>
     r' = r \<and> all_present [fact_id r, so_summary_id r, so_reason r]
     \<and> \<not> negative_index (so_parameter_index r)
     \<and> (so_kind r = ORIGIN_CALL_RESULT \<longrightarrow> truthy (so_callsite_id r))
     \<and> (so_is_local r \<or> truthy (so_via_callsite_id r) \<and> truthy (so_target_symbol_id r))"
  by (auto simp: post_init_summary_return_origin_def)

lemma post_init_interprocedural_flow_Inr:
  "post_init_interprocedural_flow f = Inr f' \<longleftrightarrow>
     f' = f \<and> all_present [fact_id f, fl_caller_summary_id f, fl_callee_summary_id f,
       fl_callsite_id f, fl_target_symbol_id f, fl_reason f, translation_unit_id f,
       build_configuration_id f, build_variant f]"
  by (auto simp: post_init_interprocedural_flow_def)

lemma post_init_build_scope_Inr:
  "post_init_build_scope s = Inr s' \<longleftrightarrow>
     (let ns = strip_unique (variants s) in
        s' = s\<lparr>variants := ns\<rparr> \<and> ns \<noteq> [] \<and> length ns \<le> MAX_BUILD_VARIANTS
        \<and> (\<forall>n \<in> set ns. (\<forall>c \<in> set n. \<not> is_space c) \<and> length n \<le> MAX_BUILD_VARIANT_NAME_CHARS))"
  unfolding post_init_build_scope_def strip_unique_def [symmetric] Let_def
  by (auto simp: list_ex_iff not_less not_le)


text \<open>
  The exact set of build scopes: construction succeeds precisely when, after
  trimming, dropping empty names and removing duplicates, between one and sixteen names remain,
  none with inner whitespace or more than 128 characters; the scope then holds exactly those
  names, in their first-occurrence order.
\<close>

theorem build_scope_accepts:
  "post_init_build_scope s = Inr s' \<longleftrightarrow>
     variants s' = fromkeys (map py_strip (filter (\<lambda>n. \<not> blank n) (variants s)))
     \<and> build_scope.more s' = build_scope.more s
     \<and> 1 \<le> length (variants s') \<and> length (variants s') \<le> 16
     \<and> list_all (\<lambda>n. length n \<le> 128 \<and> \<not> list_ex is_space n) (variants s')"
  unfolding post_init_build_scope_Inr Let_def strip_unique_def
  by (cases s; cases s')
    (auto simp: MAX_BUILD_VARIANTS_def MAX_BUILD_VARIANT_NAME_CHARS_def list_all_iff list_ex_iff
      Suc_le_eq)

end
