(* ===== verification/Identity.thy ===== *)
theory Identity
imports Models
begin

text \<open>
  Content-derived identifiers.  Every component names its facts by the SHA-256 of a NUL-delimited
  list of encoded parts: \<open>_id\<close> (analysis/interprocedural.py), \<open>_stable_id\<close> (storage/sqlite.py)
  and \<open>_hash_text\<close> (ingestion/clang.py, native.py, compilation_database.py, deep.py).  The digest
  is the argument \<open>H\<close>, a function from bytes to the hexadecimal digest; no result depends on more
  of it.  The rest, \<open>str()\<close> of the values, the UTF-8 encoding and the framing, is modelled.
\<close>

section \<open>Rendering values: \<open>str()\<close> and \<open>repr()\<close>\<close>

datatype pyval = PNone | PBool bool | PInt int | PStr string | PTuple "pyval list"

definition digit :: "nat \<Rightarrow> char" where
  "digit n = (if n < 10 then char_of (48 + n) else char_of (87 + n))"

fun str_nat :: "nat \<Rightarrow> string" where
  "str_nat n = (if n < 10 then [digit n] else str_nat (n div 10) @ [digit (n mod 10)])"

declare str_nat.simps [simp del]

definition str_int :: "int \<Rightarrow> string" where
  "str_int i = (if i < 0 then CHR ''-'' # str_nat (nat (- i)) else str_nat (nat i))"

text \<open>The characters below 256 that \<open>str.isprintable\<close> accepts.\<close>

definition printable :: "char \<Rightarrow> bool" where
  "printable c = (let n = (of_char c :: nat) in (32 \<le> n \<and> n < 127) \<or> (161 \<le> n \<and> n \<noteq> 173))"

definition repr_char :: "char \<Rightarrow> char \<Rightarrow> string" where
  "repr_char quote c =
     (let n = (of_char c :: nat) in
      if c = quote \<or> c = CHR 0x5C then [CHR 0x5C, c]
      else if n = 9 then [CHR 0x5C, CHR ''t'']
      else if n = 10 then [CHR 0x5C, CHR ''n'']
      else if n = 13 then [CHR 0x5C, CHR ''r'']
      else if printable c then [c]
      else [CHR 0x5C, CHR ''x'', digit (n div 16), digit (n mod 16)])"

definition repr_str :: "string \<Rightarrow> string" where
  "repr_str s =
     (let quote = (if CHR 0x27 \<in> set s \<and> CHR 0x22 \<notin> set s then CHR 0x22 else CHR 0x27)
      in [quote] @ concat (map (repr_char quote) s) @ [quote])"

fun py_repr :: "pyval \<Rightarrow> string" where
  "py_repr PNone = ''None''"
| "py_repr (PBool b) = (if b then ''True'' else ''False'')"
| "py_repr (PInt i) = str_int i"
| "py_repr (PStr s) = repr_str s"
| "py_repr (PTuple vs) =
     (case vs of
        [v] \<Rightarrow> ''('' @ py_repr v @ '',)''
      | _ \<Rightarrow> ''('' @ join '', '' (map py_repr vs) @ '')'')"

definition py_str :: "pyval \<Rightarrow> string" where
  "py_str v = (case v of PStr s \<Rightarrow> s | _ \<Rightarrow> py_repr v)"

definition POpt :: "string option \<Rightarrow> pyval" where
  "POpt v = (case v of None \<Rightarrow> PNone | Some s \<Rightarrow> PStr s)"

definition PIdx :: "int option \<Rightarrow> pyval" where
  "PIdx v = (case v of None \<Rightarrow> PNone | Some i \<Rightarrow> PInt i)"

definition PStrs :: "string list \<Rightarrow> pyval" where
  "PStrs xs = PTuple (map PStr xs)"

section \<open>Encoding and framing\<close>

text \<open>UTF-8 on the code points below 256.\<close>

definition utf8_char :: "char \<Rightarrow> string" where
  "utf8_char c =
     (let n = (of_char c :: nat) in
      if n < 128 then [c] else [char_of (192 + n div 64), char_of (128 + n mod 64)])"

definition utf8 :: "string \<Rightarrow> string" where
  "utf8 s = concat (map utf8_char s)"

text \<open>One \<open>update(part)\<close> and one \<open>update(b"\0")\<close> per part.\<close>

definition fingerprint :: "string list \<Rightarrow> string" where
  "fingerprint parts = concat (map (\<lambda>p. utf8 p @ [CHR 0x00]) parts)"

definition hash_text :: "(string \<Rightarrow> string) \<Rightarrow> string list \<Rightarrow> string" where
  "hash_text H values = H (fingerprint values)"

definition stable_id :: "(string \<Rightarrow> string) \<Rightarrow> string \<Rightarrow> string list \<Rightarrow> string" where
  "stable_id H prefix parts = prefix @ ''_'' @ take 32 (H (fingerprint parts))"

text \<open>\<open>_id\<close> joins the encoded parts and hashes once.\<close>

definition make_id :: "(string \<Rightarrow> string) \<Rightarrow> string \<Rightarrow> pyval list \<Rightarrow> string" where
  "make_id H prefix values =
     prefix @ ''_'' @ take 32 (H (join [CHR 0x00] (map (\<lambda>v. utf8 (py_str v)) values) @ [CHR 0x00]))"

section \<open>Facts\<close>

lemma join_snoc_sep: "ps \<noteq> [] \<Longrightarrow> join sep ps @ sep = concat (map (\<lambda>p. p @ sep) ps)"
  by (induction sep ps rule: join.induct) simp_all

lemma make_id_blank [simp]: "\<not> blank prefix \<Longrightarrow> \<not> blank (make_id H prefix vs)"
  by (simp add: make_id_def)

lemma make_id_nonempty [simp]: "make_id H prefix vs \<noteq> []"
  by (simp add: make_id_def)

lemma stable_id_blank [simp]: "\<not> blank prefix \<Longrightarrow> \<not> blank (stable_id H prefix vs)"
  by (simp add: stable_id_def)

lemma make_id_stable_id:
  "vs \<noteq> [] \<Longrightarrow> make_id H prefix vs = stable_id H prefix (map py_str vs)"
  using join_snoc_sep [of "map (\<lambda>v. utf8 (py_str v)) vs" "[CHR 0x00]"]
  by (simp add: make_id_def stable_id_def fingerprint_def comp_def)

lemma of_char_0 [simp]: "of_char (CHR 0x00) = (0::nat)"
  by simp

lemma utf8_char_bytes:
  "map of_char (utf8_char c) =
     (let n = (of_char c :: nat) in if n < 128 then [n] else [192 + n div 64, 128 + n mod 64])"
proof -
  have "(of_char c :: nat) < 256" by (rule nat_of_char_less_256)
  then have "(of_char c :: nat) div 64 < 4" by (simp add: div_less_iff_less_mult)
  moreover have "(of_char c :: nat) mod 64 < 64" by simp
  ultimately have "(192 + (of_char c :: nat) div 64) mod 256 = 192 + of_char c div 64"
    "(128 + (of_char c :: nat) mod 64) mod 256 = 128 + of_char c mod 64"
    by (intro mod_less, linarith)+
  then show ?thesis by (simp add: utf8_char_def Let_def)
qed

lemma utf8_char_no_nul: "c \<noteq> CHR 0x00 \<Longrightarrow> CHR 0x00 \<notin> set (utf8_char c)"
proof
  assume c: "c \<noteq> CHR 0x00" and "CHR 0x00 \<in> set (utf8_char c)"
  then have "of_char (CHR 0x00) \<in> set (map (of_char :: char \<Rightarrow> nat) (utf8_char c))"
    by (simp only: set_map image_eqI)
  then have "(of_char c :: nat) = of_char (CHR 0x00)"
    unfolding utf8_char_bytes of_char_0 Let_def by (simp split: if_splits)
  with c show False by (simp only: of_char_eq_iff)
qed

lemma utf8_char_prefix:
  assumes "utf8_char c @ x = utf8_char d @ y" shows "c = d \<and> x = y"
proof -
  let ?m = "map (of_char :: char \<Rightarrow> nat)"
  have bytes: "?m (utf8_char c) @ ?m x = ?m (utf8_char d) @ ?m y"
    using assms by (metis map_append)
  have "(of_char c :: nat) = of_char d"
  proof (cases "(of_char c :: nat) < 128"; cases "(of_char d :: nat) < 128")
    assume "\<not> (of_char c :: nat) < 128" "\<not> (of_char d :: nat) < 128"
    then have "(of_char c :: nat) div 64 = of_char d div 64" "(of_char c :: nat) mod 64 = of_char d mod 64"
      using bytes by (simp_all add: utf8_char_bytes Let_def)
    then show ?thesis by (metis div_mult_mod_eq)
  qed (use bytes in \<open>auto simp: utf8_char_bytes Let_def\<close>)
  then have "c = d" by (rule of_char_eqI)
  then show ?thesis using assms by simp
qed

lemma utf8_char_nonempty: "utf8_char c \<noteq> []"
  by (simp add: utf8_char_def Let_def)

lemma utf8_inj: "utf8 s = utf8 t \<longleftrightarrow> s = t"
proof
  show "utf8 s = utf8 t \<Longrightarrow> s = t"
  proof (induction s arbitrary: t)
    case Nil
    then show ?case by (cases t) (simp_all add: utf8_def utf8_char_nonempty)
  next
    case (Cons c s)
    show ?case
    proof (cases t)
      case Nil
      then show ?thesis using Cons.prems by (simp add: utf8_def utf8_char_nonempty)
    next
      case (Cons d t')
      then show ?thesis
        using Cons.prems Cons.IH [of t'] utf8_char_prefix [of c "utf8 s" d "utf8 t'"]
        by (simp add: utf8_def)
    qed
  qed
qed simp

lemma utf8_no_nul: "CHR 0x00 \<notin> set s \<Longrightarrow> CHR 0x00 \<notin> set (utf8 s)"
proof
  assume s: "CHR 0x00 \<notin> set s" and "CHR 0x00 \<in> set (utf8 s)"
  then obtain c where c: "c \<in> set s" "CHR 0x00 \<in> set (utf8_char c)"
    unfolding utf8_def set_concat set_map by (elim UN_E imageE) simp
  then have "c \<noteq> CHR 0x00" using s by metis
  then show False using utf8_char_no_nul c(2) by metis
qed

text \<open>Framed parts are recovered at the delimiters.\<close>

lemma framing_inj:
  assumes "\<forall>p \<in> set ps. d \<notin> set p" "\<forall>q \<in> set qs. d \<notin> set q"
    and "concat (map (\<lambda>p. p @ [d]) ps) = concat (map (\<lambda>p. p @ [d]) qs)"
  shows "ps = qs"
  using assms
proof (induction ps arbitrary: qs)
  case Nil
  then show ?case by (cases qs) simp_all
next
  case (Cons p ps)
  show ?case
  proof (cases qs)
    case Nil
    then show ?thesis using Cons.prems(3) by simp
  next
    case (Cons q qs')
    let ?rest = "\<lambda>ps. concat (map (\<lambda>p. p @ [d]) ps)"
    have eq: "p @ d # ?rest ps = q @ d # ?rest qs'" using Cons.prems(3) \<open>qs = q # qs'\<close> by simp
    have "takeWhile (\<lambda>x. x \<noteq> d) (p @ d # ?rest ps) = p"
      "takeWhile (\<lambda>x. x \<noteq> d) (q @ d # ?rest qs') = q"
      using Cons.prems(1,2) \<open>qs = q # qs'\<close> by (auto simp: takeWhile_append)
    then have "p = q" using eq by metis
    then show ?thesis using eq Cons.IH [of qs'] Cons.prems(1,2) \<open>qs = q # qs'\<close> by simp
  qed
qed

lemma fingerprint_inj:
  assumes "\<forall>p \<in> set ps. CHR 0x00 \<notin> set p" "\<forall>q \<in> set qs. CHR 0x00 \<notin> set q"
  shows "fingerprint ps = fingerprint qs \<longleftrightarrow> ps = qs"
proof
  assume "fingerprint ps = fingerprint qs"
  then have "concat (map (\<lambda>p. p @ [CHR 0x00]) (map utf8 ps))
      = concat (map (\<lambda>p. p @ [CHR 0x00]) (map utf8 qs))"
    by (simp add: fingerprint_def comp_def)
  then have "map utf8 ps = map utf8 qs"
    by (rule framing_inj [rotated 2]) (use assms utf8_no_nul in \<open>unfold set_map, blast+\<close>)
  then show "ps = qs" by (metis inj_map_eq_map injI utf8_inj)
qed simp

end
