(* ===== verification/Interprocedural.thy ===== *)
theory Interprocedural
imports Tarjan Identity
begin

text \<open>
  The summary solver of \<open>analysis/interprocedural.py\<close>: the indexes \<open>_solve_variant\<close> builds, the
  transfer function that propagates callee effects and return origins into a caller, the flow
  recorder, the loop over strongly connected components with its caps, and the streaming mode that
  discards facts once no remaining caller needs them.

  A Python set that is only tested, sorted or counted is the list of its distinct elements; the
  reason sets are HOL sets.  \<open>check_cancelled\<close> is \<open>None\<close>.  The values handed to
  \<open>emit_summary\<close> are collected in the field \<open>emitted\<close>.  The argument \<open>H\<close> is the SHA-256 hex
  digest, \<open>depth\<close> the recursion limit of the interpreter.
\<close>

section \<open>Limits, certainty and the solution\<close>

record interprocedural_limits =
  max_scc_iterations :: int
  max_scc_size :: int
  max_summary_effects :: int

definition post_init_interprocedural_limits ::
    "interprocedural_limits \<Rightarrow> interprocedural_limits result" where
  "post_init_interprocedural_limits l =
     (if min (max_scc_iterations l) (min (max_scc_size l) (max_summary_effects l)) \<le> 0
      then Inl (ValueError ''interprocedural limits must be positive'') else Inr l)"

definition default_limits :: interprocedural_limits where
  "default_limits = \<lparr>max_scc_iterations = 32, max_scc_size = 128, max_summary_effects = 1024\<rparr>"

record interprocedural_solution =
  sol_summaries :: "function_summary list"
  sol_effects :: "summary_effect list"
  sol_return_origins :: "summary_return_origin list"
  sol_flows :: "interprocedural_flow list"

definition certainty :: "call_target_certainty \<Rightarrow> data_flow_certainty \<Rightarrow> data_flow_certainty" where
  "certainty target evidence =
     (if target = TARGET_CERTAIN \<and> evidence = CERTAIN then CERTAIN else POSSIBLE)"

section \<open>Propagating one fact through one call\<close>

type_synonym binding_key = "string \<times> string \<times> int"
type_synonym bindings = "(binding_key \<times> call_argument_binding) list"

text \<open>\<open>evidence if not body_ambiguous else POSSIBLE\<close>.\<close>

definition unless_ambiguous :: "bool \<Rightarrow> data_flow_certainty \<Rightarrow> data_flow_certainty" where
  "unless_ambiguous body_ambiguous c = (if body_ambiguous then POSSIBLE else c)"

definition propagated_effect ::
    "(string \<Rightarrow> string) \<Rightarrow> function_summary \<Rightarrow> call_site \<Rightarrow> call_target \<Rightarrow> summary_effect \<Rightarrow> bool \<Rightarrow>
     memory_location_kind \<Rightarrow> int option \<Rightarrow> string list \<Rightarrow> string option \<Rightarrow> summary_effect" where
  "propagated_effect H caller site target effect body_ambiguous location_kind parameter_index
       access_path location_id =
     \<lparr>fact_id = make_id H ''summary_effect''
        [PStr (fact_id caller), PStr (summary_effect_kind_value (se_kind effect)),
         PStr (memory_location_kind_value location_kind), PIdx parameter_index,
         PStrs access_path, PStr (fact_id site), PStr (ct_target_symbol_id target),
         POpt (se_source_access_id effect)],
      translation_unit_id = translation_unit_id site,
      build_configuration_id = build_configuration_id site,
      build_variant = build_variant site,
      se_summary_id = fact_id caller,
      se_kind = se_kind effect,
      se_location_kind = location_kind,
      se_certainty = certainty (ct_certainty target) (unless_ambiguous body_ambiguous (se_certainty effect)),
      se_reason = ''callee effect propagated through compiler-resolved call target'',
      se_parameter_index = parameter_index,
      se_access_path = access_path,
      se_location_id = location_id,
      se_source_access_id = se_source_access_id effect,
      se_is_local = False,
      se_via_callsite_id = Some (fact_id site),
      se_target_symbol_id = Some (ct_target_symbol_id target)\<rparr>"

definition propagate_effect ::
    "(string \<Rightarrow> string) \<Rightarrow> function_summary \<Rightarrow> call_site \<Rightarrow> call_target \<Rightarrow> summary_effect \<Rightarrow> bindings \<Rightarrow>
     bool \<Rightarrow> summary_effect option result" where
  "propagate_effect H caller site target effect bs body_ambiguous =
     (let build = (\<lambda>kind index path loc.
        rbind (post_init_summary_effect
                 (propagated_effect H caller site target effect body_ambiguous kind index path loc))
          (\<lambda>e. Inr (Some e)))
      in case se_parameter_index effect of
        Some index \<Rightarrow>
          (case map_of bs (fact_id caller, fact_id site, index) of
             None \<Rightarrow> Inr None
           | Some b \<Rightarrow> build (ab_location_kind b) (ab_parameter_index b)
                         (take 8 (ab_access_path b @ se_access_path effect)) (ab_location_id b))
      | None \<Rightarrow>
          (if se_location_kind effect \<notin> {LOC_GLOBAL, LOC_FIELD} then Inr None
           else build (se_location_kind effect) None (se_access_path effect) (se_location_id effect)))"

definition propagated_origin ::
    "(string \<Rightarrow> string) \<Rightarrow> function_summary \<Rightarrow> call_site \<Rightarrow> call_target \<Rightarrow> summary_return_origin \<Rightarrow> bool \<Rightarrow>
     memory_location_kind option \<Rightarrow> int option \<Rightarrow> string list \<Rightarrow> string option \<Rightarrow>
     summary_return_origin" where
  "propagated_origin H caller site target origin body_ambiguous location_kind parameter_index
       access_path location_id =
     \<lparr>fact_id = make_id H ''summary_return''
        [PStr (fact_id caller), PStr (fact_id site), PStr (ct_target_symbol_id target),
         POpt (map_option memory_location_kind_value location_kind), PIdx parameter_index,
         PStrs access_path, POpt location_id],
      translation_unit_id = translation_unit_id site,
      build_configuration_id = build_configuration_id site,
      build_variant = build_variant site,
      so_summary_id = fact_id caller,
      so_kind = (if location_kind \<noteq> None then ORIGIN_LOCATION else ORIGIN_UNKNOWN),
      so_certainty = certainty (ct_certainty target) (unless_ambiguous body_ambiguous (so_certainty origin)),
      so_reason = ''callee return origin propagated through compiler-resolved call target'',
      so_location_kind = location_kind,
      so_parameter_index = parameter_index,
      so_access_path = access_path,
      so_location_id = location_id,
      so_callsite_id = None,
      so_is_local = False,
      so_via_callsite_id = Some (fact_id site),
      so_target_symbol_id = Some (ct_target_symbol_id target)\<rparr>"

definition propagate_origin ::
    "(string \<Rightarrow> string) \<Rightarrow> function_summary \<Rightarrow> call_site \<Rightarrow> call_target \<Rightarrow> summary_return_origin \<Rightarrow>
     bindings \<Rightarrow> bool \<Rightarrow> summary_return_origin result" where
  "propagate_origin H caller site target origin bs body_ambiguous =
     (let build = (\<lambda>kind index path loc. post_init_summary_return_origin
        (propagated_origin H caller site target origin body_ambiguous kind index path loc))
      in case so_parameter_index origin of
        Some index \<Rightarrow>
          (case map_of bs (fact_id caller, fact_id site, index) of
             None \<Rightarrow> build (Some LOC_UNKNOWN) None [] None
           | Some b \<Rightarrow> build (Some (ab_location_kind b)) (ab_parameter_index b)
                         (take 8 (ab_access_path b @ so_access_path origin)) (ab_location_id b))
      | None \<Rightarrow>
          build (so_location_kind origin) None (so_access_path origin) (so_location_id origin))"

definition make_flow ::
    "(string \<Rightarrow> string) \<Rightarrow> interprocedural_flow_kind \<Rightarrow> function_summary \<Rightarrow> function_summary \<Rightarrow>
     call_site \<Rightarrow> call_target \<Rightarrow> data_flow_certainty \<Rightarrow> string \<Rightarrow> int option \<Rightarrow> string option \<Rightarrow>
     string option \<Rightarrow> string option \<Rightarrow> interprocedural_flow result" where
  "make_flow H kind caller callee site target evidence_certainty reason argument_index
       caller_location_id callee_location_id caller_access_id =
     post_init_interprocedural_flow
       \<lparr>fact_id = make_id H ''interprocedural_flow''
          [PStr (interprocedural_flow_kind_value kind), PStr (fact_id caller), PStr (fact_id callee),
           PStr (fact_id site), PStr (ct_target_symbol_id target), PIdx argument_index,
           POpt caller_location_id, POpt callee_location_id, POpt caller_access_id],
        translation_unit_id = translation_unit_id site,
        build_configuration_id = build_configuration_id site,
        build_variant = build_variant site,
        fl_kind = kind,
        fl_caller_summary_id = fact_id caller,
        fl_callee_summary_id = fact_id callee,
        fl_callsite_id = fact_id site,
        fl_target_symbol_id = ct_target_symbol_id target,
        fl_target_certainty = ct_certainty target,
        fl_certainty = certainty (ct_certainty target) evidence_certainty,
        fl_reason = reason,
        fl_argument_index = argument_index,
        fl_caller_location_id = caller_location_id,
        fl_callee_location_id = callee_location_id,
        fl_caller_access_id = caller_access_id\<rparr>"

definition solution_hash ::
    "(string \<Rightarrow> string) \<Rightarrow> summary_effect list \<Rightarrow> summary_return_origin list \<Rightarrow> string list \<Rightarrow> string" where
  "solution_hash H effects origins reasons =
     make_id H ''solution''
       [PTuple (map (\<lambda>e. PTuple [PStr (fact_id e), PStr (data_flow_certainty_value (se_certainty e))]) effects),
        PTuple (map (\<lambda>r. PTuple [PStr (fact_id r), PStr (data_flow_certainty_value (so_certainty r))]) origins),
        PStrs reasons]"

section \<open>The indexes of one build variant\<close>

type_synonym call_edge = "call_site \<times> call_target \<times> function_summary \<times> bool"

record call_index =
  summary_by_id :: "(string \<times> function_summary) list"
  summaries_by_function :: "(string \<times> function_summary list) list"
  sites_by_owner :: "((string \<times> string \<times> string) \<times> call_site list) list"
  targets_by_site :: "(string \<times> call_target list) list"
  bindings_by_pair :: bindings
  result_by_pair :: "((string \<times> string) \<times> call_result_binding) list"

definition owner_key :: "call_site \<Rightarrow> string \<times> string \<times> string" where
  "owner_key site = (cs_owner_symbol_id site, translation_unit_id site, build_configuration_id site)"

definition build_index ::
    "function_summary list \<Rightarrow> call_argument_binding list \<Rightarrow> call_result_binding list \<Rightarrow>
     call_site list \<Rightarrow> call_target list \<Rightarrow> call_index" where
  "build_index summaries bs rbs callsites targets =
     \<lparr>summary_by_id = dict_of (map (\<lambda>s. (fact_id s, s)) summaries),
      summaries_by_function = map (\<lambda>(f, bodies). (f, sort_key fact_id bodies))
        (dict_group (map (\<lambda>s. (fs_function_symbol_id s, s)) summaries)),
      sites_by_owner = dict_group (map (\<lambda>s. (owner_key s, s)) callsites),
      targets_by_site = dict_group (map (\<lambda>t. (ct_callsite_id t, t)) targets),
      bindings_by_pair = dict_of
        (map (\<lambda>b. ((ab_caller_summary_id b, ab_callsite_id b, ab_argument_index b), b)) bs),
      result_by_pair = dict_of (map (\<lambda>b. ((rb_caller_summary_id b, rb_callsite_id b), b)) rbs)\<rparr>"

definition owner_sites :: "'z call_index_scheme \<Rightarrow> function_summary \<Rightarrow> call_site list" where
  "owner_sites ix caller = dict_get (sites_by_owner ix)
     (fs_function_symbol_id caller, translation_unit_id caller, build_configuration_id caller) []"

definition callee_bodies ::
    "'z call_index_scheme \<Rightarrow> function_summary \<Rightarrow> call_target \<Rightarrow> function_summary list \<times> bool" where
  "callee_bodies ix caller target =
     (let candidates = dict_get (summaries_by_function ix) (ct_target_symbol_id target) [];
          same_tu = filter (\<lambda>s. translation_unit_id s = translation_unit_id caller
                              \<and> build_configuration_id s = build_configuration_id caller) candidates;
          selected = (if same_tu \<noteq> [] then same_tu else candidates)
      in (selected, 1 < length selected))"

definition site_targets :: "'z call_index_scheme \<Rightarrow> call_site \<Rightarrow> call_target list" where
  "site_targets ix site = dict_get (targets_by_site ix) (fact_id site) []"

text \<open>The call edges one caller contributes, in the order of the three nested loops.\<close>

definition edges_of :: "'z call_index_scheme \<Rightarrow> function_summary \<Rightarrow> call_edge list" where
  "edges_of ix caller =
     concat (map (\<lambda>site. concat (map (\<lambda>target.
       (let (callees, body_ambiguous) = callee_bodies ix caller target
        in map (\<lambda>callee. (site, target, callee, body_ambiguous)) callees))
       (site_targets ix site))) (owner_sites ix caller))"

definition build_call_edges ::
    "'z call_index_scheme \<Rightarrow> function_summary list \<Rightarrow> (string \<times> call_edge list) list" where
  "build_call_edges ix summaries =
     dict_group (concat (map (\<lambda>caller. map (\<lambda>e. (fact_id caller, e)) (edges_of ix caller)) summaries))"

definition edge_callee :: "call_edge \<Rightarrow> function_summary" where
  "edge_callee e = fst (snd (snd e))"

definition build_adjacency :: "(string \<times> call_edge list) list \<Rightarrow> (string \<times> string list) list" where
  "build_adjacency call_edges_by_caller =
     map (\<lambda>(caller_id, es). (caller_id, fromkeys (map (\<lambda>e. fact_id (edge_callee e)) es)))
       call_edges_by_caller"

text \<open>
  Everything \<open>_solve_variant\<close> computes before the fixed point: the indexes, the call graph, its
  components, the recursive and oversized functions and the local facts of each summary.
\<close>

record solver_context = call_index +
  limits :: interprocedural_limits
  call_edges :: "(string \<times> call_edge list) list"
  adjacency :: "(string \<times> string list) list"
  components :: "string list list"
  recursive_ids :: "string list"
  oversized_ids :: "string list"
  local_effect_map :: "(string \<times> summary_effect list) list"
  local_origin_map :: "(string \<times> summary_return_origin list) list"
  component_by_member :: "(string \<times> nat) list"

definition callee_ids :: "'z solver_context_scheme \<Rightarrow> string \<Rightarrow> string list" where
  "callee_ids cx caller_id = dict_get (adjacency cx) caller_id []"

definition call_graph :: "(string \<times> string list) list \<Rightarrow> string \<Rightarrow> string list" where
  "call_graph adj node = sort (dict_get adj node [])"

definition find_recursive :: "string list list \<Rightarrow> string list \<Rightarrow> (string \<times> string list) list \<Rightarrow> string list" where
  "find_recursive comps nodes adj =
     fromkeys (concat (filter (\<lambda>c. 1 < length c) comps)
               @ filter (\<lambda>node. node \<in> set (dict_get adj node [])) nodes)"

definition find_oversized :: "string list list \<Rightarrow> int \<Rightarrow> string list" where
  "find_oversized comps max_size = fromkeys (concat (filter (\<lambda>c. max_size < int (length c)) comps))"

definition local_map :: "('f fact_scheme \<Rightarrow> string) \<Rightarrow> 'f fact_scheme list \<Rightarrow> function_summary list \<Rightarrow>
    (string \<times> 'f fact_scheme list) list" where
  "local_map summary_id facts summaries =
     (let groups = dict_group (map (\<lambda>x. (summary_id x, x)) facts)
      in dict_of (map (\<lambda>s. (fact_id s, sort_key fact_id (dict_get groups (fact_id s) []))) summaries))"

definition build_context ::
    "nat \<Rightarrow> function_summary list \<Rightarrow> summary_effect list \<Rightarrow> summary_return_origin list \<Rightarrow>
     call_argument_binding list \<Rightarrow> call_result_binding list \<Rightarrow> call_site list \<Rightarrow> call_target list \<Rightarrow>
     interprocedural_limits \<Rightarrow> solver_context result" where
  "build_context depth summaries local_effects local_origins bs rbs callsites targets lims =
     (let ix = build_index summaries bs rbs callsites targets;
          es = build_call_edges ix summaries;
          adj = build_adjacency es;
          nodes = map fst (summary_by_id ix)
      in rbind (tarjan depth nodes (call_graph adj)) (\<lambda>comps.
           Inr (call_index.extend ix
             \<lparr>limits = lims, call_edges = es, adjacency = adj, components = comps,
              recursive_ids = find_recursive comps nodes adj,
              oversized_ids = find_oversized comps (max_scc_size lims),
              local_effect_map = local_map se_summary_id local_effects summaries,
              local_origin_map = local_map so_summary_id local_origins summaries,
              component_by_member = dict_of
                (concat (map (\<lambda>(i, c). map (\<lambda>m. (m, i)) c) (enumerate 0 comps)))\<rparr>)))"

section \<open>The transfer function\<close>

record current_facts =
  current_effects :: "(string \<times> summary_effect list) list"
  current_origins :: "(string \<times> summary_return_origin list) list"
  current_reasons :: "(string \<times> string set) list"

type_synonym solved_facts = "summary_effect list \<times> summary_return_origin list \<times> string set"

record transfer_state =
  tr_reasons :: "string set"
  tr_effects :: "(string \<times> summary_effect) list"
  tr_origins :: "(string \<times> summary_return_origin) list"

definition add_reason :: "bool \<Rightarrow> string \<Rightarrow> string set \<Rightarrow> string set" where
  "add_reason b reason rs = (if b then insert reason rs else rs)"

text \<open>The loop over the parameters of one callee.\<close>

definition binding_reasons ::
    "'z call_index_scheme \<Rightarrow> function_summary \<Rightarrow> call_site \<Rightarrow> function_summary \<Rightarrow> string set \<Rightarrow> string set" where
  "binding_reasons ix caller site callee rs =
     fold (\<lambda>i rs. case map_of (bindings_by_pair ix) (fact_id caller, fact_id site, int i) of
             None \<Rightarrow> insert ''missing_call_argument_binding'' rs
           | Some b \<Rightarrow> add_reason (\<not> ab_complete b) ''incomplete_call_argument_binding'' rs)
       [0..<length (fs_parameter_location_ids callee)] rs"

definition transfer_effect ::
    "(string \<Rightarrow> string) \<Rightarrow> 'z call_index_scheme \<Rightarrow> function_summary \<Rightarrow> call_site \<Rightarrow> call_target \<Rightarrow> bool \<Rightarrow>
     summary_effect \<Rightarrow> transfer_state \<Rightarrow> transfer_state result" where
  "transfer_effect H ix caller site target body_ambiguous effect st =
     rbind (propagate_effect H caller site target effect (bindings_by_pair ix) body_ambiguous)
       (\<lambda>propagated. case propagated of
          None \<Rightarrow> Inr st
        | Some e \<Rightarrow> Inr (st\<lparr>tr_effects := AList.update (fact_id e) e (tr_effects st)\<rparr>))"

definition transfer_origin ::
    "(string \<Rightarrow> string) \<Rightarrow> 'z call_index_scheme \<Rightarrow> function_summary \<Rightarrow> call_site \<Rightarrow> call_target \<Rightarrow> bool \<Rightarrow>
     summary_return_origin \<Rightarrow> transfer_state \<Rightarrow> transfer_state result" where
  "transfer_origin H ix caller site target body_ambiguous origin st =
     rbind (propagate_origin H caller site target origin (bindings_by_pair ix) body_ambiguous)
       (\<lambda>r. Inr (st\<lparr>tr_origins := AList.update (fact_id r) r (tr_origins st)\<rparr>))"

definition awaits_result :: "call_site \<Rightarrow> transfer_state \<Rightarrow> bool" where
  "awaits_result site st = list_ex
     (\<lambda>r. so_kind r = ORIGIN_CALL_RESULT \<and> so_callsite_id r = Some (fact_id site))
     (map snd (tr_origins st))"

definition transfer_callee ::
    "(string \<Rightarrow> string) \<Rightarrow> 'z call_index_scheme \<Rightarrow> 'y current_facts_scheme \<Rightarrow> function_summary \<Rightarrow>
     call_site \<Rightarrow> call_target \<Rightarrow> bool \<Rightarrow> function_summary \<Rightarrow> transfer_state \<Rightarrow> transfer_state result" where
  "transfer_callee H ix cur caller site target body_ambiguous callee st =
     (let rs1 = binding_reasons ix caller site callee (tr_reasons st);
          rs2 = add_reason (dict_get (current_reasons cur) (fact_id callee) {} \<noteq> {})
                  ''callee_summary_incomplete'' rs1
      in rbind (rfold (transfer_effect H ix caller site target body_ambiguous)
                  (dict_get (current_effects cur) (fact_id callee) []) (st\<lparr>tr_reasons := rs2\<rparr>))
           (\<lambda>st1. if awaits_result site st1
                  then rfold (transfer_origin H ix caller site target body_ambiguous)
                         (dict_get (current_origins cur) (fact_id callee) []) st1
                  else Inr st1))"

definition transfer_target ::
    "(string \<Rightarrow> string) \<Rightarrow> 'z call_index_scheme \<Rightarrow> 'y current_facts_scheme \<Rightarrow> function_summary \<Rightarrow>
     call_site \<Rightarrow> call_target \<Rightarrow> transfer_state \<Rightarrow> transfer_state result" where
  "transfer_target H ix cur caller site target st =
     (let (callees, body_ambiguous) = callee_bodies ix caller target;
          rs1 = add_reason (callees = []) ''unknown_or_external_call_target''
                  (add_reason (callees = []) ''external_or_unindexed_callee_body'' (tr_reasons st));
          rs2 = add_reason body_ambiguous ''multiple_callee_body_variants'' rs1
      in rfold (transfer_callee H ix cur caller site target body_ambiguous) callees
           (st\<lparr>tr_reasons := rs2\<rparr>))"

definition transfer_site ::
    "(string \<Rightarrow> string) \<Rightarrow> 'z call_index_scheme \<Rightarrow> 'y current_facts_scheme \<Rightarrow> function_summary \<Rightarrow>
     call_site \<Rightarrow> transfer_state \<Rightarrow> transfer_state result" where
  "transfer_site H ix cur caller site st =
     rfold (transfer_target H ix cur caller site) (site_targets ix site)
       (st\<lparr>tr_reasons := add_reason (\<not> cs_target_set_complete site \<or> site_targets ix site = [])
                          ''unknown_or_external_call_target'' (tr_reasons st)\<rparr>)"

definition transfer_start ::
    "'z solver_context_scheme \<Rightarrow> function_summary \<Rightarrow> transfer_state result" where
  "transfer_start cx caller =
     rbind (dict_index (local_effect_map cx) (fact_id caller)) (\<lambda>es.
     rbind (dict_index (local_origin_map cx) (fact_id caller)) (\<lambda>rs.
       Inr \<lparr>tr_reasons = add_reason (fact_id caller \<in> set (oversized_ids cx)) ''scc_size_cap_exceeded''
               (set (fs_local_incomplete_reasons caller)),
            tr_effects = dict_of (map (\<lambda>e. (fact_id e, e)) es),
            tr_origins = dict_of (map (\<lambda>r. (fact_id r, r)) rs)\<rparr>))"

definition transfer_finish :: "int \<Rightarrow> transfer_state \<Rightarrow> solved_facts" where
  "transfer_finish cap st =
     (let ordered = sort_key fact_id (map snd (tr_effects st));
          exceeded = cap < int (length ordered)
      in (if exceeded then take (nat cap) ordered else ordered,
          sort_key fact_id (map snd (tr_origins st)),
          add_reason exceeded ''summary_effect_cap_exceeded'' (tr_reasons st)))"

definition transfer ::
    "(string \<Rightarrow> string) \<Rightarrow> 'z solver_context_scheme \<Rightarrow> 'y current_facts_scheme \<Rightarrow> function_summary \<Rightarrow>
     solved_facts result" where
  "transfer H cx cur caller =
     rbind (transfer_start cx caller) (\<lambda>st.
     rbind (rfold (transfer_site H cx cur caller) (owner_sites cx caller) st) (\<lambda>st1.
       Inr (transfer_finish (max_summary_effects (limits cx)) st1)))"

section \<open>Recording flows\<close>

text \<open>\<open>xs[i]\<close> with Python's negative indexes.\<close>

definition py_index :: "'a list \<Rightarrow> int \<Rightarrow> 'a result" where
  "py_index xs i =
     (let n = int (length xs) in
      if 0 \<le> i \<and> i < n then Inr (xs ! nat i)
      else if - n \<le> i \<and> i < 0 then Inr (xs ! nat (n + i))
      else Inl IndexError)"

type_synonym flow_dict = "(string \<times> interprocedural_flow) list"

definition put_flow :: "interprocedural_flow result \<Rightarrow> flow_dict \<Rightarrow> flow_dict result" where
  "put_flow r flows = rbind r (\<lambda>flow. Inr (AList.update (fact_id flow) flow flows))"

definition argument_flow ::
    "(string \<Rightarrow> string) \<Rightarrow> 'z call_index_scheme \<Rightarrow> function_summary \<Rightarrow> call_edge \<Rightarrow> nat \<times> string \<Rightarrow>
     flow_dict \<Rightarrow> flow_dict result" where
  "argument_flow H ix caller edge indexed flows =
     (let (site, target, callee, body_ambiguous) = edge; (i, callee_location) = indexed
      in case map_of (bindings_by_pair ix) (fact_id caller, fact_id site, int i) of
           None \<Rightarrow> Inr flows
         | Some b \<Rightarrow> put_flow
             (make_flow H ARGUMENT_TO_PARAMETER caller callee site target
                (if ab_complete b \<and> \<not> body_ambiguous then CERTAIN else POSSIBLE)
                ''caller argument is bound to this concrete callee parameter''
                (Some (int i)) (ab_location_id b) (Some callee_location) None) flows)"

type_synonym writeback_dict =
  "((int \<times> string option) \<times> (summary_effect \<times> call_argument_binding)) list"

text \<open>The guards that select the effects a caller may see written back.\<close>

definition writeback_binding ::
    "'z call_index_scheme \<Rightarrow> function_summary \<Rightarrow> call_site \<Rightarrow> function_summary \<Rightarrow> summary_effect \<Rightarrow>
     (int \<times> call_argument_binding) option result" where
  "writeback_binding ix caller site callee effect =
     (if se_kind effect \<noteq> EFFECT_WRITE then Inr None
      else case se_parameter_index effect of
        None \<Rightarrow> Inr None
      | Some i \<Rightarrow> rbind (py_index (fs_parameter_modes callee) i) (\<lambda>mode.
          if mode \<notin> {''reference'', ''pointer'', ''rvalue_reference''} then Inr None
          else case map_of (bindings_by_pair ix) (fact_id caller, fact_id site, i) of
            None \<Rightarrow> Inr None
          | Some b \<Rightarrow> Inr (if ab_writeback_candidate b then Some (i, b) else None)))"

definition select_writeback ::
    "'z call_index_scheme \<Rightarrow> function_summary \<Rightarrow> call_site \<Rightarrow> function_summary \<Rightarrow> summary_effect \<Rightarrow>
     writeback_dict \<Rightarrow> writeback_dict result" where
  "select_writeback ix caller site callee effect writebacks =
     rbind (writeback_binding ix caller site callee effect) (\<lambda>selected. case selected of
         None \<Rightarrow> Inr writebacks
       | Some (i, b) \<Rightarrow> Inr (AList.update (i, se_location_id effect) (effect, b) writebacks))"

definition writeback_flow ::
    "(string \<Rightarrow> string) \<Rightarrow> function_summary \<Rightarrow> call_edge \<Rightarrow> summary_effect \<times> call_argument_binding \<Rightarrow>
     interprocedural_flow result" where
  "writeback_flow H caller edge winner =
     (let (site, target, callee, body_ambiguous) = edge; (effect, b) = winner
      in make_flow H WRITEBACK caller callee site target
           (if ab_complete b \<and> \<not> body_ambiguous then se_certainty effect else POSSIBLE)
           ''callee parameter side effect may write caller storage''
           (se_parameter_index effect) (ab_location_id b) (se_location_id effect) None)"

definition return_flow ::
    "(string \<Rightarrow> string) \<Rightarrow> function_summary \<Rightarrow> call_edge \<Rightarrow> call_result_binding \<Rightarrow>
     summary_return_origin \<Rightarrow> interprocedural_flow result" where
  "return_flow H caller edge result_binding origin =
     (let (site, target, callee, body_ambiguous) = edge
      in make_flow H RETURN_TO_CALLER caller callee site target
           (unless_ambiguous body_ambiguous (so_certainty origin))
           ''callee return origin reaches the caller's call-result definition''
           None (Some (rb_location_id result_binding)) (so_location_id origin)
           (Some (rb_definition_access_id result_binding)))"

definition record_edge ::
    "(string \<Rightarrow> string) \<Rightarrow> 'z call_index_scheme \<Rightarrow> 'y current_facts_scheme \<Rightarrow> function_summary \<Rightarrow>
     call_edge \<Rightarrow> flow_dict \<Rightarrow> flow_dict result" where
  "record_edge H ix cur caller edge flows =
     (let (site, target, callee, body_ambiguous) = edge in
      rbind (rfold (argument_flow H ix caller edge)
               (enumerate 0 (fs_parameter_location_ids callee)) flows) (\<lambda>flows1.
      rbind (rfold (select_writeback ix caller site callee)
               (dict_get (current_effects cur) (fact_id callee) []) []) (\<lambda>writebacks.
      rbind (rfold (\<lambda>winner. put_flow (writeback_flow H caller edge winner))
               (map snd writebacks) flows1) (\<lambda>flows2.
      case map_of (result_by_pair ix) (fact_id caller, fact_id site) of
        None \<Rightarrow> Inr flows2
      | Some result_binding \<Rightarrow>
          rfold (\<lambda>origin. put_flow (return_flow H caller edge result_binding origin))
            (map snd (dict_of (map (\<lambda>r. (so_location_id r, r))
               (dict_get (current_origins cur) (fact_id callee) [])))) flows2))))"

definition record_flows ::
    "(string \<Rightarrow> string) \<Rightarrow> 'z solver_context_scheme \<Rightarrow> 'y current_facts_scheme \<Rightarrow> function_summary \<Rightarrow>
     flow_dict \<Rightarrow> flow_dict result" where
  "record_flows H cx cur caller flows =
     rfold (record_edge H cx cur caller) (dict_get (call_edges cx) (fact_id caller) []) flows"

section \<open>Solving one component\<close>

type_synonym emitted_summary =
  "function_summary \<times> summary_effect list \<times> summary_return_origin list"

record solver_state = current_facts +
  iteration_counts :: "(string \<times> int) list"
  flows :: flow_dict
  remaining_callers :: "(string \<times> int) list"
  final_summaries :: "function_summary list"
  emitted :: "emitted_summary list"

definition current_of :: "'y current_facts_scheme \<Rightarrow> string \<Rightarrow> solved_facts result" where
  "current_of st k =
     rbind (dict_index (current_effects st) k) (\<lambda>es.
     rbind (dict_index (current_origins st) k) (\<lambda>os.
     rbind (dict_index (current_reasons st) k) (\<lambda>rs. Inr (es, os, rs))))"

definition set_current :: "string \<Rightarrow> solved_facts \<Rightarrow> solver_state \<Rightarrow> solver_state" where
  "set_current k v st =
     (let (es, os, rs) = v in
      st\<lparr>current_effects := AList.update k es (current_effects st),
         current_origins := AList.update k os (current_origins st),
         current_reasons := AList.update k rs (current_reasons st)\<rparr>)"

definition set_count :: "string \<Rightarrow> int \<Rightarrow> solver_state \<Rightarrow> solver_state" where
  "set_count k n st = st\<lparr>iteration_counts := AList.update k n (iteration_counts st)\<rparr>"

text \<open>The shortcut for a function that does not call itself.\<close>

definition solve_singleton ::
    "(string \<Rightarrow> string) \<Rightarrow> 'z solver_context_scheme \<Rightarrow> function_summary \<Rightarrow> solver_state \<Rightarrow>
     solver_state result" where
  "solve_singleton H cx caller st =
     (let cap = max_scc_iterations (limits cx) in
      rbind (transfer H cx st caller) (\<lambda>(next_effects, next_origins, next_reasons).
      rbind (current_of st (fact_id caller)) (\<lambda>old.
        let changed = ((next_effects, next_origins, next_reasons) \<noteq> old);
            reasons = add_reason (changed \<and> cap = 1) ''scc_iteration_cap_exceeded'' next_reasons
        in Inr (set_count (fact_id caller) (if changed \<and> 1 < cap then 2 else 1)
                 (set_current (fact_id caller) (next_effects, next_origins, reasons) st)))))"

text \<open>Python's \<open>all\<close> over a generator that may raise: it stops at the first false element.\<close>

primrec rall :: "('a \<Rightarrow> bool result) \<Rightarrow> 'a list \<Rightarrow> bool result" where
  "rall f [] = Inr True"
| "rall f (x # xs) = rbind (f x) (\<lambda>b. if b then rall f xs else Inr False)"

primrec scc_iterate ::
    "(string \<Rightarrow> string) \<Rightarrow> 'z solver_context_scheme \<Rightarrow> function_summary list \<Rightarrow> int list \<Rightarrow> solver_state \<Rightarrow>
     (bool \<times> solver_state) result" where
  "scc_iterate H cx members [] st = Inr (False, st)"
| "scc_iterate H cx members (k # ks) st =
     rbind (rmap (\<lambda>caller. rbind (transfer H cx st caller) (\<lambda>v. Inr (fact_id caller, v))) members) (\<lambda>kvs.
     let next_values = dict_of kvs in
     rbind (rall (\<lambda>caller. rbind (dict_index next_values (fact_id caller)) (\<lambda>v.
                  rbind (current_of st (fact_id caller)) (\<lambda>old. Inr (v = old)))) members) (\<lambda>converged.
     rbind (rfold (\<lambda>caller st. rbind (dict_index next_values (fact_id caller)) (\<lambda>v.
                  Inr (set_count (fact_id caller) k (set_current (fact_id caller) v st)))) members st) (\<lambda>st'.
       if converged then Inr (True, st') else scc_iterate H cx members ks st')))"

definition flag_unconverged :: "function_summary \<Rightarrow> solver_state \<Rightarrow> solver_state result" where
  "flag_unconverged caller st =
     rbind (dict_index (current_reasons st) (fact_id caller)) (\<lambda>rs.
       Inr (st\<lparr>current_reasons := AList.update (fact_id caller)
                 (insert ''scc_iteration_cap_exceeded'' rs) (current_reasons st)\<rparr>))"

definition solve_recursive ::
    "(string \<Rightarrow> string) \<Rightarrow> 'z solver_context_scheme \<Rightarrow> function_summary list \<Rightarrow> solver_state \<Rightarrow>
     solver_state result" where
  "solve_recursive H cx members st =
     (let oversized = list_ex (\<lambda>m. fact_id m \<in> set (oversized_ids cx)) members;
          iteration_limit = (if oversized then 1 else max_scc_iterations (limits cx))
      in rbind (scc_iterate H cx members (map int [1..<nat iteration_limit + 1]) st) (\<lambda>(converged, st1).
           if \<not> converged \<and> \<not> oversized then rfold flag_unconverged members st1 else Inr st1))"

definition is_singleton_call :: "'z solver_context_scheme \<Rightarrow> function_summary list \<Rightarrow> bool" where
  "is_singleton_call cx members =
     (case members of [m] \<Rightarrow> fact_id m \<notin> set (callee_ids cx (fact_id m)) | _ \<Rightarrow> False)"

definition solve_component ::
    "(string \<Rightarrow> string) \<Rightarrow> 'z solver_context_scheme \<Rightarrow> function_summary list \<Rightarrow> solver_state \<Rightarrow>
     solver_state result" where
  "solve_component H cx members st =
     (if is_singleton_call cx members then solve_singleton H cx (hd members) st
      else solve_recursive H cx members st)"

definition solved_summary ::
    "(string \<Rightarrow> string) \<Rightarrow> 'z solver_context_scheme \<Rightarrow> function_summary \<Rightarrow> int \<Rightarrow> solved_facts \<Rightarrow>
     function_summary" where
  "solved_summary H cx summary count v =
     (let (es, os, rs) = v; reasons = sorted_list_of_set rs in
      summary\<lparr>fs_complete := (reasons = []),
              fs_incomplete_reasons := reasons,
              fs_recursive := (fact_id summary \<in> set (recursive_ids cx)),
              fs_iteration_count := count,
              fs_max_scc_iterations := max_scc_iterations (limits cx),
              fs_max_scc_size := max_scc_size (limits cx),
              fs_max_summary_effects := max_summary_effects (limits cx),
              fs_solution_hash := solution_hash H es os reasons\<rparr>)"

definition finish_summary ::
    "(string \<Rightarrow> string) \<Rightarrow> 'z solver_context_scheme \<Rightarrow> function_summary \<Rightarrow> solver_state \<Rightarrow>
     solver_state result" where
  "finish_summary H cx summary st =
     rbind (record_flows H cx st summary (flows st)) (\<lambda>fl.
     rbind (current_of st (fact_id summary)) (\<lambda>(es, os, rs).
     rbind (post_init_function_summary
              (solved_summary H cx summary (dict_get (iteration_counts st) (fact_id summary) 0) (es, os, rs)))
       (\<lambda>solved. Inr (st\<lparr>flows := fl, final_summaries := final_summaries st @ [solved],
                         emitted := emitted st @ [(solved, es, os)]\<rparr>))))"

section \<open>Streaming\<close>

definition drop_facts :: "string \<Rightarrow> solver_state \<Rightarrow> solver_state" where
  "drop_facts k st = st\<lparr>current_effects := AList.delete k (current_effects st),
     current_origins := AList.delete k (current_origins st),
     current_reasons := AList.delete k (current_reasons st)\<rparr>"

definition release_callee ::
    "'z solver_context_scheme \<Rightarrow> nat \<Rightarrow> string \<Rightarrow> solver_state \<Rightarrow> solver_state result" where
  "release_callee cx component_index callee_id st =
     rbind (dict_index (component_by_member cx) callee_id) (\<lambda>i.
       if i = component_index then Inr st
       else let n = dict_get (remaining_callers st) callee_id 0 - 1;
                st1 = st\<lparr>remaining_callers := AList.update callee_id n (remaining_callers st)\<rparr>
            in Inr (if n = 0 then drop_facts callee_id st1 else st1))"

definition release_component ::
    "'z solver_context_scheme \<Rightarrow> nat \<Rightarrow> string list \<Rightarrow> function_summary list \<Rightarrow> solver_state \<Rightarrow>
     solver_state result" where
  "release_component cx component_index component members st =
     rbind (rfold (\<lambda>caller. rfold (release_callee cx component_index) (callee_ids cx (fact_id caller)))
              members st)
       (\<lambda>st1. Inr (fold (\<lambda>m st. if dict_get (remaining_callers st) m 0 = 0 then drop_facts m st else st)
                     component st1))"

definition count_callers :: "'z solver_context_scheme \<Rightarrow> (string \<times> int) list result" where
  "count_callers cx =
     rfold (\<lambda>(caller_id, callees). rfold (\<lambda>callee_id d.
         rbind (dict_index (component_by_member cx) caller_id) (\<lambda>i.
         rbind (dict_index (component_by_member cx) callee_id) (\<lambda>j.
           Inr (if i \<noteq> j then AList.update callee_id (dict_get d callee_id 0 + 1) d else d)))) callees)
       (adjacency cx) []"

section \<open>One variant and all variants\<close>

definition process_component ::
    "(string \<Rightarrow> string) \<Rightarrow> 'z solver_context_scheme \<Rightarrow> bool \<Rightarrow> nat \<times> string list \<Rightarrow> solver_state \<Rightarrow>
     solver_state result" where
  "process_component H cx retain indexed st =
     (let (component_index, component) = indexed in
      rbind (rmap (dict_index (summary_by_id cx)) component) (\<lambda>members.
      rbind (solve_component H cx members st) (\<lambda>st1.
      rbind (rfold (finish_summary H cx) members st1) (\<lambda>st2.
        if retain then Inr st2 else release_component cx component_index component members st2))))"

definition initial_state :: "'z solver_context_scheme \<Rightarrow> function_summary list \<Rightarrow> (string \<times> int) list \<Rightarrow>
    solver_state" where
  "initial_state cx summaries remaining =
     \<lparr>current_effects = local_effect_map cx,
      current_origins = local_origin_map cx,
      current_reasons = dict_of (map (\<lambda>s. (fact_id s, set (fs_local_incomplete_reasons s))) summaries),
      iteration_counts = [], flows = [], remaining_callers = remaining,
      final_summaries = [], emitted = []\<rparr>"

definition facts_by_key :: "(string \<times> 'f list) list \<Rightarrow> 'f list result" where
  "facts_by_key d = rbind (rmap (dict_index d) (sort (map fst d))) (\<lambda>xss. Inr (concat xss))"

definition solve_variant ::
    "(string \<Rightarrow> string) \<Rightarrow> nat \<Rightarrow> function_summary list \<Rightarrow> summary_effect list \<Rightarrow>
     summary_return_origin list \<Rightarrow> call_argument_binding list \<Rightarrow> call_result_binding list \<Rightarrow>
     call_site list \<Rightarrow> call_target list \<Rightarrow> interprocedural_limits \<Rightarrow> bool \<Rightarrow> bool \<Rightarrow>
     (interprocedural_solution \<times> emitted_summary list) result" where
  "solve_variant H depth summaries local_effects local_origins bs rbs callsites targets lims emitting retain =
     (if \<not> retain \<and> \<not> emitting
      then Inl (ValueError ''discarding solved facts requires a summary emitter'')
      else
        rbind (build_context depth summaries local_effects local_origins bs rbs callsites targets lims) (\<lambda>cx.
        rbind (count_callers cx) (\<lambda>remaining.
        rbind (rfold (process_component H cx retain) (enumerate 0 (components cx))
                 (initial_state cx summaries remaining)) (\<lambda>st.
        rbind (if retain then facts_by_key (current_effects st) else Inr []) (\<lambda>es.
        rbind (if retain then facts_by_key (current_origins st) else Inr []) (\<lambda>os.
          Inr (\<lparr>sol_summaries = sort_key fact_id (final_summaries st), sol_effects = es,
                sol_return_origins = os, sol_flows = sort_key fact_id (map snd (flows st))\<rparr>,
               if emitting then emitted st else [])))))))"

definition in_variant :: "string \<Rightarrow> 'f fact_scheme list \<Rightarrow> 'f fact_scheme list" where
  "in_variant v xs = filter (\<lambda>x. build_variant x = v) xs"

definition solve_interprocedural ::
    "(string \<Rightarrow> string) \<Rightarrow> nat \<Rightarrow> function_summary list \<Rightarrow> summary_effect list \<Rightarrow>
     summary_return_origin list \<Rightarrow> call_argument_binding list \<Rightarrow> call_result_binding list \<Rightarrow>
     call_site list \<Rightarrow> call_target list \<Rightarrow> interprocedural_limits \<Rightarrow> bool \<Rightarrow> bool \<Rightarrow>
     (interprocedural_solution \<times> emitted_summary list) result" where
  "solve_interprocedural H depth summaries local_effects local_origins bs rbs callsites targets lims
       emitting retain =
     rbind (rfold (\<lambda>v (sol, trace).
         rbind (solve_variant H depth (in_variant v summaries) (in_variant v local_effects)
                  (in_variant v local_origins) (in_variant v bs) (in_variant v rbs)
                  (in_variant v callsites) (in_variant v targets) lims emitting retain) (\<lambda>(s, tr).
           Inr (\<lparr>sol_summaries = sol_summaries sol @ sol_summaries s,
                 sol_effects = sol_effects sol @ sol_effects s,
                 sol_return_origins = sol_return_origins sol @ sol_return_origins s,
                 sol_flows = sol_flows sol @ sol_flows s\<rparr>, trace @ tr)))
       (sort (remdups (map build_variant summaries)))
       (\<lparr>sol_summaries = [], sol_effects = [], sol_return_origins = [], sol_flows = []\<rparr>, []))
     (\<lambda>(sol, trace).
       Inr (\<lparr>sol_summaries = sort_key fact_id (sol_summaries sol),
             sol_effects = sort_key fact_id (sol_effects sol),
             sol_return_origins = sort_key fact_id (sol_return_origins sol),
             sol_flows = sort_key fact_id (sol_flows sol)\<rparr>, trace))"

end
