(* ===== verification/SolverProofs.thy ===== *)
theory SolverProofs
imports Interprocedural
begin

text \<open>
  What the summary solver guarantees.  First the transfer function: it reads only the current
  facts of the callees it calls, and a caller without reasons has every target resolved, bound and
  complete.  Then the component loop, the fixed point it leaves behind, and the streaming mode.
\<close>

section \<open>Generic facts\<close>

lemma update_update [simp]: "AList.update k v (AList.update k w d) = AList.update k v d"
  by (induction d) auto

lemma update_same: "map_of d k = Some v \<Longrightarrow> AList.update k v d = d"
  by (induction d) auto

lemma delete_eq_filter: "AList.delete k d = filter (\<lambda>(k', _). k \<noteq> k') d"
  by (simp add: AList.delete_eq split_beta)

lemma map_of_delete: "map_of (AList.delete k d) k' = (if k = k' then None else map_of d k')"
  by (simp add: delete_conv')

text \<open>
  A loop whose steps only move up in a preorder: every element had its turn in between.
\<close>

lemma rfold_mono:
  assumes "rfold f xs s = Inr s'" and "\<And>s. R s s" and "\<And>a b c. R a b \<Longrightarrow> R b c \<Longrightarrow> R a c"
    and "\<And>x s s'. x \<in> set xs \<Longrightarrow> f x s = Inr s' \<Longrightarrow> R s s'"
  shows "R s s'"
proof -
  have "R s s \<longrightarrow> R s s'"
    by (rule rfold_preserves [OF assms(1), where P = "\<lambda>t. R s s \<longrightarrow> R s t"]) (use assms(2-4) in blast)+
  then show ?thesis using assms(2) by blast
qed

lemma rfold_turn:
  assumes "rfold f xs s = Inr s'" "x \<in> set xs"
    and refl: "\<And>s. R s s" and trans: "\<And>a b c. R a b \<Longrightarrow> R b c \<Longrightarrow> R a c"
    and step: "\<And>x s s'. x \<in> set xs \<Longrightarrow> f x s = Inr s' \<Longrightarrow> R s s'"
  shows "\<exists>a b. R s a \<and> f x a = Inr b \<and> R b s'"
proof -
  obtain ys zs where xs: "xs = ys @ x # zs" using assms(2) by (metis split_list)
  obtain a b where ab: "rfold f ys s = Inr a" "f x a = Inr b" "rfold f zs b = Inr s'"
    using assms(1) unfolding xs by (auto simp: rfold_append rbind_eq_Inr)
  have "R s a" by (rule rfold_mono [OF ab(1) refl trans]) (use step xs in auto)
  moreover have "R b s'" by (rule rfold_mono [OF ab(3) refl trans]) (use step xs in auto)
  ultimately show ?thesis using ab(2) by blast
qed

section \<open>The transfer function reads only its callees\<close>

definition called_ids :: "'z call_index_scheme \<Rightarrow> function_summary \<Rightarrow> string set" where
  "called_ids ix caller = (\<lambda>e. fact_id (edge_callee e)) ` set (edges_of ix caller)"

definition same_facts :: "'y current_facts_scheme \<Rightarrow> 'x current_facts_scheme \<Rightarrow> string \<Rightarrow> bool" where
  "same_facts cur cur' k \<longleftrightarrow>
     map_of (current_effects cur) k = map_of (current_effects cur') k
     \<and> map_of (current_origins cur) k = map_of (current_origins cur') k
     \<and> map_of (current_reasons cur) k = map_of (current_reasons cur') k"

lemma same_facts_refl [simp]: "same_facts cur cur k"
  by (simp add: same_facts_def)

lemma same_facts_get:
  assumes "same_facts cur cur' k"
  shows "dict_get (current_effects cur) k x = dict_get (current_effects cur') k x"
    and "dict_get (current_origins cur) k y = dict_get (current_origins cur') k y"
    and "dict_get (current_reasons cur) k z = dict_get (current_reasons cur') k z"
  using assms by (simp_all add: same_facts_def dict_get_def)

lemma edges_of_iff:
  "(site, target, callee, amb) \<in> set (edges_of ix caller) \<longleftrightarrow>
     site \<in> set (owner_sites ix caller) \<and> target \<in> set (site_targets ix site)
     \<and> callee \<in> set (fst (callee_bodies ix caller target)) \<and> amb = snd (callee_bodies ix caller target)"
  by (auto simp: edges_of_def split_beta)

lemma called_idsI:
  "site \<in> set (owner_sites ix caller) \<Longrightarrow> target \<in> set (site_targets ix site) \<Longrightarrow>
   callee \<in> set (fst (callee_bodies ix caller target)) \<Longrightarrow> fact_id callee \<in> called_ids ix caller"
  unfolding called_ids_def by (rule image_eqI [where x = "(site, target, callee, _)"])
    (auto simp: edge_callee_def edges_of_iff)

lemma transfer_callee_cong:
  assumes "same_facts cur cur' (fact_id callee)"
  shows "transfer_callee H ix cur caller site target amb callee st
     = transfer_callee H ix cur' caller site target amb callee st"
  unfolding transfer_callee_def same_facts_get [OF assms] ..

lemma transfer_cong:
  assumes same: "\<And>k. k \<in> called_ids (cx :: 'z solver_context_scheme) caller \<Longrightarrow> same_facts cur cur' k"
  shows "transfer H cx cur caller = transfer H cx cur' caller"
proof -
  have "transfer_target H cx cur caller site target st = transfer_target H cx cur' caller site target st"
    if "site \<in> set (owner_sites cx caller)" "target \<in> set (site_targets cx site)" for site target st
    unfolding transfer_target_def Let_def split_beta
    by (rule rfold_cong_on, rule transfer_callee_cong, rule same, rule called_idsI [OF that])
  then have "transfer_site H cx cur caller site st = transfer_site H cx cur' caller site st"
    if "site \<in> set (owner_sites cx caller)" for site st
    using that unfolding transfer_site_def by (intro rfold_cong_on)
  then have "rfold (transfer_site H cx cur caller) (owner_sites cx caller) st
      = rfold (transfer_site H cx cur' caller) (owner_sites cx caller) st" for st
    by (intro rfold_cong_on)
  then show ?thesis by (simp add: transfer_def)
qed

section \<open>The singleton shortcut\<close>

lemma set_current_update [simp]:
  "current_effects (set_current k v st) = AList.update k (fst v) (current_effects st)"
  "current_origins (set_current k v st) = AList.update k (fst (snd v)) (current_origins st)"
  "current_reasons (set_current k v st) = AList.update k (snd (snd v)) (current_reasons st)"
  "iteration_counts (set_current k v st) = iteration_counts st"
  "flows (set_current k v st) = flows st"
  "remaining_callers (set_current k v st) = remaining_callers st"
  "final_summaries (set_current k v st) = final_summaries st"
  "emitted (set_current k v st) = emitted st"
  by (simp_all add: set_current_def split_beta)

lemma set_count_update [simp]:
  "current_effects (set_count k n st) = current_effects st"
  "current_origins (set_count k n st) = current_origins st"
  "current_reasons (set_count k n st) = current_reasons st"
  "iteration_counts (set_count k n st) = AList.update k n (iteration_counts st)"
  "flows (set_count k n st) = flows st"
  "remaining_callers (set_count k n st) = remaining_callers st"
  "final_summaries (set_count k n st) = final_summaries st"
  "emitted (set_count k n st) = emitted st"
  by (simp_all add: set_count_def)

lemma current_of_Inr:
  "current_of st k = Inr v \<longleftrightarrow>
     map_of (current_effects st) k = Some (fst v) \<and> map_of (current_origins st) k = Some (fst (snd v))
     \<and> map_of (current_reasons st) k = Some (snd (snd v))"
  by (cases v) (auto simp: current_of_def rbind_eq_Inr)

lemma current_of_set [simp]: "current_of (set_count k n (set_current k v st)) k = Inr v"
  by (simp add: current_of_Inr)

lemma current_of_set_other [simp]:
  "k \<noteq> k' \<Longrightarrow> current_of (set_count k n (set_current k v st)) k' = current_of st k'"
  by (simp add: current_of_def dict_index_def map_of_update_other)

lemma set_current_twice [simp]:
  "set_count k n (set_current k v (set_count k m (set_current k w st)))
     = set_count k n (set_current k v st)"
  by (simp add: set_current_def set_count_def split_beta)

lemma same_facts_set: "k \<noteq> k' \<Longrightarrow> same_facts (set_count k n (set_current k v st)) st k'"
  by (simp add: same_facts_def map_of_update_other)

lemma same_facts_sym: "same_facts a b k \<Longrightarrow> same_facts b a k"
  by (simp add: same_facts_def)

lemma same_facts_trans: "same_facts a b k \<Longrightarrow> same_facts b c k \<Longrightarrow> same_facts a c k"
  by (simp add: same_facts_def)

text \<open>One pass over a single member.\<close>

lemma scc_iterate_single:
  "scc_iterate H cx [m] (k # ks) st =
     rbind (transfer H cx st m) (\<lambda>v. rbind (current_of st (fact_id m)) (\<lambda>old.
       let st' = set_count (fact_id m) k (set_current (fact_id m) v st) in
       if v = old then Inr (True, st') else scc_iterate H cx [m] ks st'))"
proof (cases "transfer H cx st m")
  case (Inr v)
  then show ?thesis
    by (cases "current_of st (fact_id m)") (auto simp: dict_of_def dict_index_def Let_def)
qed simp

lemma upt_one: "0 < n \<Longrightarrow> [Suc 0..<Suc n] = Suc 0 # [2..<Suc n]"
  by (simp add: upt_conv_Cons numeral_2_eq_2 del: upt_Suc scc_iterate.simps(2))

lemma upt_two: "1 < n \<Longrightarrow> [Suc 0..<Suc n] = Suc 0 # 2 # [3..<Suc n]"
  by (simp add: upt_conv_Cons numeral_2_eq_2 numeral_3_eq_3 del: upt_Suc scc_iterate.simps(2))

text \<open>The shortcut computes what the generic loop computes, errors and iteration count included.\<close>

lemma singleton_generic:
  assumes acyclic: "fact_id caller \<notin> called_ids (cx :: solver_context) caller"
    and size: "fact_id caller \<notin> set (oversized_ids cx)"
    and cap: "1 \<le> max_scc_iterations (limits cx)"
  shows "solve_singleton H cx caller st = solve_recursive H cx [caller] st"
proof (cases "transfer H cx st caller")
  case (Inl e)
  show ?thesis using Inl size cap
    by (simp add: solve_singleton_def solve_recursive_def scc_iterate_single upt_one del: upt_Suc scc_iterate.simps(2))
next
  case (Inr v)
  let ?id = "fact_id caller" let ?n = "nat (max_scc_iterations (limits cx))"
  let ?st = "\<lambda>k. set_count ?id k (set_current ?id v st)"
  have again: "transfer H cx (?st k) caller = Inr v" for k
    using transfer_cong [of cx caller "?st k" st H] acyclic same_facts_set [of ?id] Inr by metis
  show ?thesis
  proof (cases "current_of st ?id")
    case (Inl e)
    show ?thesis using Inl Inr size cap
      by (simp add: solve_singleton_def solve_recursive_def scc_iterate_single upt_one split_beta
          del: upt_Suc scc_iterate.simps(2))
  next
    case old: (Inr w)
    obtain es os rs where v: "v = (es, os, rs)" by (cases v)
    note facts = Inr [unfolded v] old size again [unfolded v]
    note unfold = solve_singleton_def solve_recursive_def scc_iterate_single add_reason_def
    show ?thesis
    proof (cases "max_scc_iterations (limits cx) = 1"; cases "w = (es, os, rs)")
      assume "max_scc_iterations (limits cx) = 1" "w = (es, os, rs)"
      then show ?thesis using facts by (simp add: unfold del: scc_iterate.simps(2))
    next
      assume "max_scc_iterations (limits cx) = 1" and ne: "w \<noteq> (es, os, rs)"
      then show ?thesis using ne [symmetric] facts
        by (simp add: unfold flag_unconverged_def set_count_def set_current_def dict_index_def
            del: scc_iterate.simps(2))
    next
      assume "max_scc_iterations (limits cx) \<noteq> 1" "w = (es, os, rs)"
      then show ?thesis using cap facts
        by (simp add: unfold upt_two del: upt_Suc scc_iterate.simps(2))
    next
      assume "max_scc_iterations (limits cx) \<noteq> 1" and ne: "w \<noteq> (es, os, rs)"
      then show ?thesis using ne [symmetric] cap facts
        by (simp add: unfold upt_two del: upt_Suc scc_iterate.simps(2))
    qed
  qed
qed

section \<open>What a transfer without reasons has accounted for\<close>

definition grows :: "transfer_state \<Rightarrow> transfer_state \<Rightarrow> bool" where
  "grows st st' \<longleftrightarrow> tr_reasons st \<subseteq> tr_reasons st'
     \<and> fst ` set (tr_effects st) \<subseteq> fst ` set (tr_effects st')
     \<and> fst ` set (tr_origins st) \<subseteq> fst ` set (tr_origins st')"

lemma grows_refl: "grows st st"
  by (simp add: grows_def)

lemma grows_trans: "grows a b \<Longrightarrow> grows b c \<Longrightarrow> grows a c"
  unfolding grows_def by (metis subset_trans)

lemma grows_reasons: "grows a b \<Longrightarrow> tr_reasons b = {} \<Longrightarrow> tr_reasons a = {}"
  by (auto simp: grows_def)

lemma add_reason_mono: "rs \<subseteq> add_reason b r rs"
  by (auto simp: add_reason_def)

lemma add_reason_empty:
  "add_reason b r rs = {} \<longleftrightarrow> \<not> b \<and> rs = {}" "{} = add_reason b r rs \<longleftrightarrow> \<not> b \<and> rs = {}"
  by (auto simp: add_reason_def)

lemma grows_add_reasons: "rs \<supseteq> tr_reasons st \<Longrightarrow> grows st (st\<lparr>tr_reasons := rs\<rparr>)"
  by (simp add: grows_def)

lemma fold_subset: "(\<And>x s. x \<in> set xs \<Longrightarrow> s \<subseteq> f x s) \<Longrightarrow> s \<subseteq> fold f xs s"
  by (induction xs arbitrary: s) (simp, fastforce)

lemma binding_reasons_mono: "rs \<subseteq> binding_reasons ix caller site callee rs"
  unfolding binding_reasons_def
  by (rule fold_subset) (auto simp: add_reason_def split: option.split)

definition params_bound ::
    "'z call_index_scheme \<Rightarrow> function_summary \<Rightarrow> call_site \<Rightarrow> function_summary \<Rightarrow> bool" where
  "params_bound ix caller site callee = list_all
     (\<lambda>i. case map_of (bindings_by_pair ix) (fact_id caller, fact_id site, int i) of
            None \<Rightarrow> False | Some b \<Rightarrow> ab_complete b)
     [0..<length (fs_parameter_location_ids callee)]"

lemma binding_reasons_empty:
  "binding_reasons ix caller site callee rs = {} \<Longrightarrow> params_bound ix caller site callee \<and> rs = {}"
proof -
  let ?f = "\<lambda>i rs. case map_of (bindings_by_pair ix) (fact_id caller, fact_id site, int i) of
             None \<Rightarrow> insert ''missing_call_argument_binding'' rs
           | Some b \<Rightarrow> add_reason (\<not> ab_complete b) ''incomplete_call_argument_binding'' rs"
  have "list_all (\<lambda>i. case map_of (bindings_by_pair ix) (fact_id caller, fact_id site, int i) of
            None \<Rightarrow> False | Some b \<Rightarrow> ab_complete b) is \<and> rs = {}"
    if "fold ?f is rs = {}" for "is" rs
    using that
  proof (induction "is" arbitrary: rs)
    case (Cons i "is")
    then have "fold ?f is (?f i rs) = {}" by simp
    with Cons.IH [of "?f i rs"] show ?case by (auto simp: add_reason_empty split: option.splits)
  qed simp
  then show "binding_reasons ix caller site callee rs = {} \<Longrightarrow>
      params_bound ix caller site callee \<and> rs = {}"
    unfolding binding_reasons_def params_bound_def by blast
qed

lemma grows_update:
  "grows st (st\<lparr>tr_effects := AList.update k e (tr_effects st)\<rparr>)"
  "grows st (st\<lparr>tr_origins := AList.update k r (tr_origins st)\<rparr>)"
  by (simp_all add: grows_def subset_insertI)

lemma transfer_effect_grows:
  "transfer_effect H ix caller site target amb e st = Inr st' \<Longrightarrow> grows st st'"
  by (auto simp: transfer_effect_def rbind_eq_Inr grows_update grows_refl split: option.splits)

lemma transfer_origin_grows:
  "transfer_origin H ix caller site target amb r st = Inr st' \<Longrightarrow> grows st st'"
  by (auto simp: transfer_origin_def rbind_eq_Inr grows_update)

lemma grows_fold:
  "rfold f xs s = Inr s' \<Longrightarrow> (\<And>x s s'. x \<in> set xs \<Longrightarrow> f x s = Inr s' \<Longrightarrow> grows s s') \<Longrightarrow> grows s s'"
  by (rule rfold_mono [where R = grows, OF _ grows_refl grows_trans])

lemma grows_turn:
  "rfold f xs s = Inr s' \<Longrightarrow> x \<in> set xs \<Longrightarrow>
   (\<And>x s s'. x \<in> set xs \<Longrightarrow> f x s = Inr s' \<Longrightarrow> grows s s') \<Longrightarrow>
   \<exists>a b. grows s a \<and> f x a = Inr b \<and> grows b s'"
  by (rule rfold_turn [where R = grows, OF _ _ grows_refl grows_trans])

lemma transfer_callee_cases:
  assumes "transfer_callee H ix cur caller site target amb callee st = Inr st'"
  obtains rs st1 where
    "rs = add_reason (dict_get (current_reasons cur) (fact_id callee) {} \<noteq> {})
            ''callee_summary_incomplete'' (binding_reasons ix caller site callee (tr_reasons st))"
    "rfold (transfer_effect H ix caller site target amb)
       (dict_get (current_effects cur) (fact_id callee) []) (st\<lparr>tr_reasons := rs\<rparr>) = Inr st1"
    "grows (st\<lparr>tr_reasons := rs\<rparr>) st1" "grows st1 st'" "tr_reasons st \<subseteq> rs"
proof -
  let ?rs = "add_reason (dict_get (current_reasons cur) (fact_id callee) {} \<noteq> {})
            ''callee_summary_incomplete'' (binding_reasons ix caller site callee (tr_reasons st))"
  obtain st1 where st1: "rfold (transfer_effect H ix caller site target amb)
       (dict_get (current_effects cur) (fact_id callee) []) (st\<lparr>tr_reasons := ?rs\<rparr>) = Inr st1"
    and rest: "(if awaits_result site st1
                  then rfold (transfer_origin H ix caller site target amb)
                         (dict_get (current_origins cur) (fact_id callee) []) st1
                  else Inr st1) = Inr st'"
    using assms unfolding transfer_callee_def Let_def rbind_eq_Inr by blast
  have "grows st1 st'"
    using rest by (auto simp: grows_refl intro: grows_fold transfer_origin_grows split: if_splits)
  moreover have "grows (st\<lparr>tr_reasons := ?rs\<rparr>) st1"
    by (rule grows_fold [OF st1]) (rule transfer_effect_grows)
  moreover have "tr_reasons st \<subseteq> ?rs"
    using binding_reasons_mono add_reason_mono by (rule subset_trans)
  ultimately show ?thesis using that st1 by blast
qed

lemma transfer_callee_grows:
  "transfer_callee H ix cur caller site target amb callee st = Inr st' \<Longrightarrow> grows st st'"
  by (erule transfer_callee_cases) (blast intro: grows_trans grows_add_reasons)

lemma transfer_target_cases:
  assumes "transfer_target H ix cur caller site target st = Inr st'"
  obtains rs where
    "rs = add_reason (snd (callee_bodies ix caller target)) ''multiple_callee_body_variants''
            (add_reason (fst (callee_bodies ix caller target) = []) ''unknown_or_external_call_target''
              (add_reason (fst (callee_bodies ix caller target) = [])
                 ''external_or_unindexed_callee_body'' (tr_reasons st)))"
    "rfold (transfer_callee H ix cur caller site target (snd (callee_bodies ix caller target)))
       (fst (callee_bodies ix caller target)) (st\<lparr>tr_reasons := rs\<rparr>) = Inr st'"
    "grows st (st\<lparr>tr_reasons := rs\<rparr>)" "grows (st\<lparr>tr_reasons := rs\<rparr>) st'"
proof -
  let ?rs = "add_reason (snd (callee_bodies ix caller target)) ''multiple_callee_body_variants''
            (add_reason (fst (callee_bodies ix caller target) = []) ''unknown_or_external_call_target''
              (add_reason (fst (callee_bodies ix caller target) = [])
                 ''external_or_unindexed_callee_body'' (tr_reasons st)))"
  have run: "rfold (transfer_callee H ix cur caller site target (snd (callee_bodies ix caller target)))
       (fst (callee_bodies ix caller target)) (st\<lparr>tr_reasons := ?rs\<rparr>) = Inr st'"
    using assms unfolding transfer_target_def Let_def split_beta .
  have "grows (st\<lparr>tr_reasons := ?rs\<rparr>) st'"
    by (rule grows_fold [OF run]) (rule transfer_callee_grows)
  moreover have "tr_reasons st \<subseteq> ?rs"
    using add_reason_mono by (meson subset_trans)
  ultimately show ?thesis using that [OF refl run] grows_add_reasons [of st ?rs] by simp
qed

lemma transfer_target_grows:
  "transfer_target H ix cur caller site target st = Inr st' \<Longrightarrow> grows st st'"
  by (erule transfer_target_cases) (blast intro: grows_trans)

lemma transfer_site_cases:
  assumes "transfer_site H ix cur caller site st = Inr st'"
  obtains rs where
    "rs = add_reason (\<not> cs_target_set_complete site \<or> site_targets ix site = [])
            ''unknown_or_external_call_target'' (tr_reasons st)"
    "rfold (transfer_target H ix cur caller site) (site_targets ix site) (st\<lparr>tr_reasons := rs\<rparr>) = Inr st'"
    "grows st (st\<lparr>tr_reasons := rs\<rparr>)" "grows (st\<lparr>tr_reasons := rs\<rparr>) st'"
proof -
  let ?rs = "add_reason (\<not> cs_target_set_complete site \<or> site_targets ix site = [])
            ''unknown_or_external_call_target'' (tr_reasons st)"
  have run: "rfold (transfer_target H ix cur caller site) (site_targets ix site)
      (st\<lparr>tr_reasons := ?rs\<rparr>) = Inr st'"
    using assms unfolding transfer_site_def .
  have "grows (st\<lparr>tr_reasons := ?rs\<rparr>) st'"
    by (rule grows_fold [OF run]) (rule transfer_target_grows)
  then show ?thesis using that [OF refl run] grows_add_reasons [OF add_reason_mono] by simp
qed

lemma transfer_site_grows:
  "transfer_site H ix cur caller site st = Inr st' \<Longrightarrow> grows st st'"
  by (erule transfer_site_cases) (blast intro: grows_trans)

text \<open>The keys of a fact dictionary are the identifiers of its values.\<close>

definition keyed_effects :: "transfer_state \<Rightarrow> bool" where
  "keyed_effects st \<longleftrightarrow> (\<forall>(k, e) \<in> set (tr_effects st). k = fact_id e)"

lemma set_update_subset: "set (AList.update k v d) \<subseteq> insert (k, v) (set d)"
  by (induction d) auto

lemma keyed_effects_update:
  "keyed_effects st \<Longrightarrow> keyed_effects (st\<lparr>tr_effects := AList.update (fact_id e) e (tr_effects st)\<rparr>)"
  using set_update_subset [of "fact_id e" e "tr_effects st"] unfolding keyed_effects_def by auto

lemma keyed_effects_more [simp]:
  "keyed_effects (st\<lparr>tr_reasons := rs\<rparr>) = keyed_effects st"
  "keyed_effects (st\<lparr>tr_origins := os\<rparr>) = keyed_effects st"
  by (simp_all add: keyed_effects_def)

text \<open>
  A property of the transfer state that adding a reason, an effect or an origin keeps is kept by
  the whole loop over the callsites.
\<close>

definition transfer_closed :: "(transfer_state \<Rightarrow> bool) \<Rightarrow> bool" where
  "transfer_closed P \<longleftrightarrow>
     (\<forall>st r. P st \<longrightarrow> P (st\<lparr>tr_reasons := insert r (tr_reasons st)\<rparr>))
     \<and> (\<forall>st e. P st \<longrightarrow> P (st\<lparr>tr_effects := AList.update (fact_id e) e (tr_effects st)\<rparr>))
     \<and> (\<forall>st r. P st \<longrightarrow> P (st\<lparr>tr_origins := AList.update (fact_id r) r (tr_origins st)\<rparr>))"

lemma closed_insert:
  "transfer_closed P \<Longrightarrow> P (st\<lparr>tr_reasons := rs\<rparr>) \<Longrightarrow> P (st\<lparr>tr_reasons := insert r rs\<rparr>)"
  unfolding transfer_closed_def
  by (drule conjunct1, drule spec [of _ "st\<lparr>tr_reasons := rs\<rparr>"], drule spec [of _ r]) simp

lemma closed_add_reason:
  "transfer_closed P \<Longrightarrow> P (st\<lparr>tr_reasons := rs\<rparr>) \<Longrightarrow> P (st\<lparr>tr_reasons := add_reason b r rs\<rparr>)"
  by (auto simp: add_reason_def intro: closed_insert)

lemma closed_binding_reasons:
  assumes "transfer_closed P" "P (st\<lparr>tr_reasons := rs\<rparr>)"
  shows "P (st\<lparr>tr_reasons := binding_reasons ix caller site callee rs\<rparr>)"
proof -
  let ?f = "\<lambda>i rs. case map_of (bindings_by_pair ix) (fact_id caller, fact_id site, int i) of
             None \<Rightarrow> insert ''missing_call_argument_binding'' rs
           | Some b \<Rightarrow> add_reason (\<not> ab_complete b) ''incomplete_call_argument_binding'' rs"
  have "P (st\<lparr>tr_reasons := fold ?f is rs\<rparr>)" for "is"
    using assms(2)
  proof (induction "is" arbitrary: rs)
    case (Cons i "is")
    have "P (st\<lparr>tr_reasons := ?f i rs\<rparr>)"
      using closed_insert [OF assms(1) Cons.prems] closed_add_reason [OF assms(1) Cons.prems]
      by (simp split: option.split)
    then show ?case using Cons.IH by simp
  qed simp
  then show ?thesis by (simp add: binding_reasons_def)
qed

lemma transfer_callee_closed:
  assumes P: "transfer_closed P"
    and run: "transfer_callee H ix cur caller site target amb callee st = Inr st'" and "P st"
  shows "P st'"
proof -
  have effects: "P b" if "rfold (transfer_effect H ix caller site target amb) xs a = Inr b" "P a" for xs a b
    using that by (rule rfold_preserves)
      (use P in \<open>auto simp: transfer_effect_def rbind_eq_Inr transfer_closed_def split: option.splits\<close>)
  have origins: "P b" if "rfold (transfer_origin H ix caller site target amb) xs a = Inr b" "P a" for xs a b
    using that by (rule rfold_preserves)
      (use P in \<open>auto simp: transfer_origin_def rbind_eq_Inr transfer_closed_def\<close>)
  have "P (st\<lparr>tr_reasons := tr_reasons st\<rparr>)" using \<open>P st\<close> by simp
  from closed_add_reason [OF P closed_binding_reasons [OF P this, of ix caller site callee]] show ?thesis
    using run by (auto simp: transfer_callee_def Let_def rbind_eq_Inr dest!: effects origins split: if_splits)
qed

lemma transfer_target_closed:
  assumes P: "transfer_closed P" and run: "transfer_target H ix cur caller site target st = Inr st'" and "P st"
  shows "P st'"
proof -
  have "P (st\<lparr>tr_reasons := tr_reasons st\<rparr>)" using \<open>P st\<close> by simp
  note start = closed_add_reason [OF P closed_add_reason [OF P closed_add_reason [OF P this]]]
  show ?thesis using run unfolding transfer_target_def Let_def split_beta
    by (rule rfold_preserves) (rule start, rule transfer_callee_closed [OF P])
qed

lemma transfer_site_closed:
  assumes P: "transfer_closed P" and run: "transfer_site H ix cur caller site st = Inr st'" and "P st"
  shows "P st'"
proof -
  have "P (st\<lparr>tr_reasons := tr_reasons st\<rparr>)" using \<open>P st\<close> by simp
  note start = closed_add_reason [OF P this]
  show ?thesis using run unfolding transfer_site_def
    by (rule rfold_preserves) (rule start, rule transfer_target_closed [OF P])
qed

lemma keyed_effects_closed: "transfer_closed keyed_effects"
  by (simp add: transfer_closed_def keyed_effects_update)

lemma finite_reasons_closed: "transfer_closed (\<lambda>st. finite (tr_reasons st))"
  by (simp add: transfer_closed_def)

lemma transfer_start_keyed: "transfer_start cx caller = Inr st \<Longrightarrow> keyed_effects st"
proof -
  have "\<forall>(k, e) \<in> set (dict_of (map (\<lambda>e. (fact_id e, e)) es)). k = fact_id e"
    for es :: "summary_effect list"
  proof -
    have aux: "\<forall>(k, e) \<in> set (fold (\<lambda>(k, v) d. AList.update k v d) (map (\<lambda>e. (fact_id e, e)) es) d). k = fact_id e"
      if "\<forall>(k, e) \<in> set d. k = fact_id e" for d :: "(string \<times> summary_effect) list"
      using that
    proof (induction es arbitrary: d)
      case (Cons e es)
      have "\<forall>(k, e) \<in> set (AList.update (fact_id e) e d). k = fact_id e"
        using set_update_subset [of "fact_id e" e d] Cons.prems by auto
      from Cons.IH [OF this] show ?case by simp
    qed simp
    show ?thesis unfolding dict_of_def by (rule aux) simp
  qed
  then show "transfer_start cx caller = Inr st \<Longrightarrow> keyed_effects st"
    by (fastforce simp: transfer_start_def rbind_eq_Inr keyed_effects_def)
qed

definition edge_accounted ::
    "(string \<Rightarrow> string) \<Rightarrow> 'z call_index_scheme \<Rightarrow> function_summary \<Rightarrow> summary_effect list \<Rightarrow>
     call_edge \<Rightarrow> summary_effect list \<Rightarrow> bool" where
  "edge_accounted H ix caller caller_effects edge callee_effects =
     (let (site, target, callee, body_ambiguous) = edge in
      \<not> body_ambiguous \<and> params_bound ix caller site callee \<and>
      list_all (\<lambda>e. case propagate_effect H caller site target e (bindings_by_pair ix) body_ambiguous of
                      Inl _ \<Rightarrow> False
                    | Inr None \<Rightarrow> True
                    | Inr (Some p) \<Rightarrow> fact_id p \<in> fact_id ` set caller_effects) callee_effects)"

definition sites_resolved :: "'z call_index_scheme \<Rightarrow> function_summary \<Rightarrow> bool" where
  "sites_resolved ix caller = list_all (\<lambda>site.
     cs_target_set_complete site \<and> site_targets ix site \<noteq> []
     \<and> list_all (\<lambda>target. length (fst (callee_bodies ix caller target)) = 1) (site_targets ix site))
   (owner_sites ix caller)"

lemma transfer_run:
  assumes "transfer H cx cur caller = Inr (es, os, rs)"
  obtains st st' where "transfer_start cx caller = Inr st"
    "rfold (transfer_site H cx cur caller) (owner_sites cx caller) st = Inr st'" "grows st st'"
    "transfer_finish (max_summary_effects (limits cx)) st' = (es, os, rs)" "keyed_effects st'"
proof -
  obtain st st' where run: "transfer_start cx caller = Inr st"
    "rfold (transfer_site H cx cur caller) (owner_sites cx caller) st = Inr st'"
    "transfer_finish (max_summary_effects (limits cx)) st' = (es, os, rs)"
    using assms by (auto simp: transfer_def rbind_eq_Inr)
  have "grows st st'" by (rule grows_fold [OF run(2)]) (rule transfer_site_grows)
  moreover have "keyed_effects st'"
    by (rule rfold_preserves [OF run(2), where P = keyed_effects])
      (use transfer_start_keyed [OF run(1)] transfer_site_closed [OF keyed_effects_closed] in blast)+
  ultimately show ?thesis using that run by blast
qed

lemma transfer_finite:
  assumes "transfer H cx cur caller = Inr (es, os, rs)" shows "finite rs"
proof -
  obtain st st' where s: "transfer_start cx caller = Inr st"
    "rfold (transfer_site H cx cur caller) (owner_sites cx caller) st = Inr st'"
    "transfer_finish (max_summary_effects (limits cx)) st' = (es, os, rs)"
    using assms by (rule transfer_run)
  have "finite (tr_reasons st')"
    by (rule rfold_preserves [OF s(2), where P = "\<lambda>st. finite (tr_reasons st)"])
      (use s(1) transfer_site_closed [OF finite_reasons_closed] in
        \<open>auto simp: transfer_start_def rbind_eq_Inr add_reason_def\<close>)
  then show ?thesis using s(3) by (auto simp: transfer_finish_def Let_def add_reason_def)
qed

lemma transfer_cap:
  assumes "transfer H cx cur caller = Inr (es, os, rs)" "0 \<le> max_summary_effects (limits cx)"
  shows "int (length es) \<le> max_summary_effects (limits cx)"
proof -
  obtain st st' where
    "transfer_finish (max_summary_effects (limits cx)) st' = (es, os, rs)"
    using assms(1) by (rule transfer_run)
  then show ?thesis using assms(2) by (auto simp: transfer_finish_def Let_def split: if_splits)
qed

lemma transfer_finish_complete:
  assumes "transfer_finish cap st = (es, os, {})"
  shows "tr_reasons st = {}" "fact_id ` set es = fact_id ` snd ` set (tr_effects st)"
    "int (length es) \<le> cap"
  using assms by (force simp: transfer_finish_def Let_def add_reason_def image_image split: if_splits)+

text \<open>The turn of one call edge inside a transfer that ends without reasons.\<close>

lemma transfer_turns:
  "rfold (transfer_site H ix cur caller) sites st = Inr st' \<Longrightarrow> site \<in> set sites \<Longrightarrow>
   \<exists>a b. grows st a \<and> transfer_site H ix cur caller site a = Inr b \<and> grows b st'"
  "rfold (transfer_target H ix cur caller site) targets st = Inr st' \<Longrightarrow> target \<in> set targets \<Longrightarrow>
   \<exists>a b. grows st a \<and> transfer_target H ix cur caller site target a = Inr b \<and> grows b st'"
  "rfold (transfer_callee H ix cur caller site target amb) callees st = Inr st' \<Longrightarrow>
   callee \<in> set callees \<Longrightarrow>
   \<exists>a b. grows st a \<and> transfer_callee H ix cur caller site target amb callee a = Inr b \<and> grows b st'"
  "rfold (transfer_effect H ix caller site target amb) effects st = Inr st' \<Longrightarrow> e \<in> set effects \<Longrightarrow>
   \<exists>a b. grows st a \<and> transfer_effect H ix caller site target amb e a = Inr b \<and> grows b st'"
  by (erule (1) grows_turn, erule transfer_site_grows transfer_target_grows transfer_callee_grows
      transfer_effect_grows)+

lemma transfer_edge_turn:
  assumes run: "rfold (transfer_site H cx cur caller) (owner_sites cx caller) st = Inr st'"
    and none: "tr_reasons st' = {}" and edge: "(site, target, callee, amb) \<in> set (edges_of cx caller)"
  shows "\<exists>a b. transfer_callee H cx cur caller site target amb callee a = Inr b \<and> grows b st'"
proof -
  note e = edge [unfolded edges_of_iff]
  obtain a b where site: "transfer_site H cx cur caller site a = Inr b" "grows b st'"
    using transfer_turns(1) [OF run] e by blast
  obtain rs where "rfold (transfer_target H cx cur caller site) (site_targets cx site) (a\<lparr>tr_reasons := rs\<rparr>) = Inr b"
    using site(1) by (rule transfer_site_cases)
  then obtain c d where target: "transfer_target H cx cur caller site target c = Inr d" "grows d b"
    using transfer_turns(2) e by blast
  obtain rs' where "rfold (transfer_callee H cx cur caller site target (snd (callee_bodies cx caller target)))
       (fst (callee_bodies cx caller target)) (c\<lparr>tr_reasons := rs'\<rparr>) = Inr d"
    using target(1) by (rule transfer_target_cases)
  then obtain f g where "transfer_callee H cx cur caller site target amb callee f = Inr g" "grows g d"
    using transfer_turns(3) e by blast
  then show ?thesis using target(2) site(2) by (blast intro: grows_trans)
qed

lemma transfer_callee_accounts:
  assumes turn: "transfer_callee H cx cur caller site target amb callee a = Inr b" "grows b st"
    and none: "tr_reasons st = {}" and keyed: "keyed_effects st"
  shows "params_bound cx caller site callee"
    and "dict_get (current_reasons cur) (fact_id callee) {} = {}"
    and "e \<in> set (dict_get (current_effects cur) (fact_id callee) []) \<Longrightarrow>
      \<exists>p. propagate_effect H caller site target e (bindings_by_pair cx) amb = Inr p
        \<and> (\<forall>q. p = Some q \<longrightarrow> fact_id q \<in> fact_id ` snd ` set (tr_effects st))"
proof -
  obtain rs st1 where s: "rs = add_reason (dict_get (current_reasons cur) (fact_id callee) {} \<noteq> {})
            ''callee_summary_incomplete'' (binding_reasons cx caller site callee (tr_reasons a))"
    "rfold (transfer_effect H cx caller site target amb)
       (dict_get (current_effects cur) (fact_id callee) []) (a\<lparr>tr_reasons := rs\<rparr>) = Inr st1"
    "grows (a\<lparr>tr_reasons := rs\<rparr>) st1" "grows st1 b" "tr_reasons a \<subseteq> rs"
    using turn(1) by (rule transfer_callee_cases)
  have up: "grows st1 st" using s(4) turn(2) by (rule grows_trans)
  have "rs = {}" using grows_reasons [OF grows_trans [OF s(3) up] none] by simp
  then show "params_bound cx caller site callee"
    and "dict_get (current_reasons cur) (fact_id callee) {} = {}"
    using s(1) binding_reasons_empty [of cx caller site callee "tr_reasons a"]
    by (simp_all add: add_reason_empty)
  show "\<exists>p. propagate_effect H caller site target e (bindings_by_pair cx) amb = Inr p
        \<and> (\<forall>q. p = Some q \<longrightarrow> fact_id q \<in> fact_id ` snd ` set (tr_effects st))"
    if e: "e \<in> set (dict_get (current_effects cur) (fact_id callee) [])"
  proof -
    obtain c d where cd: "transfer_effect H cx caller site target amb e c = Inr d" "grows d st1"
      using transfer_turns(4) [OF s(2) e] by blast
    then obtain p where p: "propagate_effect H caller site target e (bindings_by_pair cx) amb = Inr p"
      by (auto simp: transfer_effect_def rbind_eq_Inr)
    have "fact_id q \<in> fact_id ` snd ` set (tr_effects st)" if "p = Some q" for q
    proof -
      have "fact_id q \<in> fst ` set (tr_effects d)" using cd(1) p that by (auto simp: transfer_effect_def)
      then have "fact_id q \<in> fst ` set (tr_effects st)"
        using grows_trans [OF cd(2) up] by (auto simp: grows_def)
      then show ?thesis using keyed by (force simp: keyed_effects_def)
    qed
    with p show ?thesis by blast
  qed
qed

lemma transfer_accounts_edge:
  assumes run: "transfer H cx cur caller = Inr (es, os, {})"
    and edge: "(site, target, callee, amb) \<in> set (edges_of cx caller)"
  shows "params_bound cx caller site callee"
    and "dict_get (current_reasons cur) (fact_id callee) {} = {}"
    and "e \<in> set (dict_get (current_effects cur) (fact_id callee) []) \<Longrightarrow>
      \<exists>p. propagate_effect H caller site target e (bindings_by_pair cx) amb = Inr p
        \<and> (\<forall>q. p = Some q \<longrightarrow> fact_id q \<in> fact_id ` set es)"
proof -
  obtain st st' where s: "rfold (transfer_site H cx cur caller) (owner_sites cx caller) st = Inr st'"
    "transfer_finish (max_summary_effects (limits cx)) st' = (es, os, {})" "keyed_effects st'"
    using run by (rule transfer_run)
  note fin = transfer_finish_complete [OF s(2)]
  obtain a b where "transfer_callee H cx cur caller site target amb callee a = Inr b" "grows b st'"
    using transfer_edge_turn [OF s(1) fin(1) edge] by blast
  note acc = transfer_callee_accounts [OF this fin(1) s(3)]
  show "params_bound cx caller site callee" "dict_get (current_reasons cur) (fact_id callee) {} = {}"
    by (fact acc)+
  show "e \<in> set (dict_get (current_effects cur) (fact_id callee) []) \<Longrightarrow>
      \<exists>p. propagate_effect H caller site target e (bindings_by_pair cx) amb = Inr p
        \<and> (\<forall>q. p = Some q \<longrightarrow> fact_id q \<in> fact_id ` set es)"
    using acc(3) unfolding fin(2) .
qed

lemma transfer_resolves_sites:
  assumes "transfer H cx cur caller = Inr (es, os, {})"
  shows "sites_resolved cx caller" "fs_local_incomplete_reasons caller = []"
    "fact_id caller \<notin> set (oversized_ids cx)" "int (length es) \<le> max_summary_effects (limits cx)"
proof -
  obtain st st' where s: "transfer_start cx caller = Inr st"
    "rfold (transfer_site H cx cur caller) (owner_sites cx caller) st = Inr st'" "grows st st'"
    "transfer_finish (max_summary_effects (limits cx)) st' = (es, os, {})"
    using assms by (rule transfer_run)
  note fin = transfer_finish_complete [OF s(4)]
  show "int (length es) \<le> max_summary_effects (limits cx)" by (fact fin(3))
  have "tr_reasons st = {}" using grows_reasons [OF s(3) fin(1)] .
  then show "fs_local_incomplete_reasons caller = []" "fact_id caller \<notin> set (oversized_ids cx)"
    using s(1) by (auto simp: transfer_start_def rbind_eq_Inr add_reason_empty)
  have "cs_target_set_complete site \<and> site_targets cx site \<noteq> []
      \<and> (\<forall>target \<in> set (site_targets cx site). length (fst (callee_bodies cx caller target)) = 1)"
    if site: "site \<in> set (owner_sites cx caller)" for site
  proof -
    obtain a b where ab: "transfer_site H cx cur caller site a = Inr b" "grows b st'"
      using transfer_turns(1) [OF s(2) site] by blast
    obtain rs where rs: "rs = add_reason (\<not> cs_target_set_complete site \<or> site_targets cx site = [])
            ''unknown_or_external_call_target'' (tr_reasons a)"
      "rfold (transfer_target H cx cur caller site) (site_targets cx site) (a\<lparr>tr_reasons := rs\<rparr>) = Inr b"
      "grows (a\<lparr>tr_reasons := rs\<rparr>) b" using ab(1) by (rule transfer_site_cases)
    have "rs = {}" using grows_reasons [OF grows_trans [OF rs(3) ab(2)] fin(1)] by simp
    moreover have "length (fst (callee_bodies cx caller target)) = 1"
      if target: "target \<in> set (site_targets cx site)" for target
    proof -
      obtain c d where cd: "transfer_target H cx cur caller site target c = Inr d" "grows d b"
        using transfer_turns(2) [OF rs(2) target] by blast
      obtain rs' where "rs' = add_reason (snd (callee_bodies cx caller target)) ''multiple_callee_body_variants''
            (add_reason (fst (callee_bodies cx caller target) = []) ''unknown_or_external_call_target''
              (add_reason (fst (callee_bodies cx caller target) = [])
                 ''external_or_unindexed_callee_body'' (tr_reasons c)))"
        "grows (c\<lparr>tr_reasons := rs'\<rparr>) d" using cd(1) by (rule transfer_target_cases)
      moreover from this have "rs' = {}"
        using grows_reasons [OF grows_trans [OF _ grows_trans [OF cd(2) ab(2)]] fin(1)] by fastforce
      ultimately have "fst (callee_bodies cx caller target) \<noteq> []" "\<not> snd (callee_bodies cx caller target)"
        by (auto simp: add_reason_empty)
      then show ?thesis by (cases "fst (callee_bodies cx caller target)")
        (auto simp: callee_bodies_def Let_def split: if_splits)
    qed
    ultimately show ?thesis using rs(1) by (auto simp: add_reason_empty)
  qed
  then show "sites_resolved cx caller" by (auto simp: sites_resolved_def list_all_iff)
qed

end
