(* ===== verification/CallGraph.thy ===== *)
theory CallGraph
imports SolverProofs
begin

text \<open>
  The call graph of one build variant: the callee bodies an edge leads to are summaries of the
  variant, so the graph is a finite digraph in the sense of the component algorithm, and the
  context \<open>_solve_variant\<close> builds is well formed.
\<close>

lemma dict_get_map_snd:
  "dict_get (map (\<lambda>(k, v). (k, f v)) d) k (f x) = f (dict_get d k x)"
  by (simp add: dict_get_def map_of_map split: option.splits)

lemma dict_get_sort_groups:
  "dict_get (map (\<lambda>(k, v). (k, sort_key f v)) d) k [] = sort_key f (dict_get d k [])"
  using dict_get_map_snd [of "sort_key f" d k "[]"] by simp

lemma candidates_eq:
  "dict_get (summaries_by_function (build_index summaries bs rbs callsites targets)) f []
     = sort_key fact_id (filter (\<lambda>s. fs_function_symbol_id s = f) summaries)"
  by (simp add: build_index_def dict_get_sort_groups filter_map comp_def)

lemma owner_sites_eq:
  "owner_sites (build_index summaries bs rbs callsites targets) caller =
     filter (\<lambda>s. owner_key s = (fs_function_symbol_id caller, translation_unit_id caller,
                                build_configuration_id caller)) callsites"
  by (simp add: owner_sites_def build_index_def filter_map comp_def)

lemma site_targets_eq:
  "site_targets (build_index summaries bs rbs callsites targets) site =
     filter (\<lambda>t. ct_callsite_id t = fact_id site) targets"
  by (simp add: site_targets_def build_index_def filter_map comp_def)

lemma callee_bodies_subset:
  "set (fst (callee_bodies (build_index summaries bs rbs callsites targets) caller target))
     \<subseteq> {s \<in> set summaries. fs_function_symbol_id s = ct_target_symbol_id target}"
  by (auto simp: callee_bodies_def candidates_eq Let_def)

lemma called_ids_subset:
  "called_ids (build_index summaries bs rbs callsites targets) caller \<subseteq> fact_id ` set summaries"
  by (auto simp: called_ids_def edge_callee_def edges_of_def split_beta
      dest!: subsetD [OF callee_bodies_subset])

lemma map_of_summary_by_id:
  assumes "distinct (map fact_id summaries)"
  shows "map_of (summary_by_id (build_index summaries bs rbs callsites targets)) k = Some s
    \<longleftrightarrow> s \<in> set summaries \<and> fact_id s = k"
proof -
  have d: "distinct (map fst (map (\<lambda>s. (fact_id s, s)) summaries))"
    using assms by (simp add: comp_def)
  show ?thesis
    unfolding build_index_def call_index.simps dict_of_distinct [OF d] map_of_Some_iff_set [OF d] by auto
qed

lemma adjacency_get:
  "set (dict_get (build_adjacency es) k []) = (\<lambda>e. fact_id (edge_callee e)) ` set (dict_get es k [])"
  using dict_get_map_snd [of "\<lambda>es. fromkeys (map (\<lambda>e. fact_id (edge_callee e)) es)" es k "[]"]
  by (simp add: build_adjacency_def)

lemma call_edges_get:
  "dict_get (build_call_edges ix summaries) k [] =
     concat (map (edges_of ix) (filter (\<lambda>s. fact_id s = k) summaries))"
proof -
  have "map snd (filter (\<lambda>kv. fst kv = k)
          (concat (map (\<lambda>caller. map (\<lambda>e. (fact_id caller, e)) (edges_of ix caller)) ss)))
     = concat (map (edges_of ix) (filter (\<lambda>s. fact_id s = k) ss))" for ss
    by (induction ss) (auto simp: filter_map comp_def)
  then show ?thesis by (simp add: build_call_edges_def)
qed

lemma call_edges_of_summary:
  assumes "distinct (map fact_id summaries)" "s \<in> set summaries"
  shows "dict_get (build_call_edges ix summaries) (fact_id s) [] = edges_of ix s"
proof -
  have "filter (\<lambda>t. fact_id t = fact_id s) summaries = [s]"
    using assms
  proof (induction summaries)
    case (Cons t ts)
    show ?case
    proof (cases "t = s")
      case True
      then have "\<forall>x \<in> set ts. fact_id x \<noteq> fact_id s" using Cons.prems(1) by (metis distinct.simps(2) image_eqI list.map(2) set_map)
      then show ?thesis using True by simp
    next
      case False
      then have "fact_id t \<noteq> fact_id s" using Cons.prems by (auto simp: image_iff)
      then show ?thesis using Cons False by simp
    qed
  qed simp
  then show ?thesis by (simp add: call_edges_get)
qed

text \<open>The call graph as \<open>_tarjan\<close> receives it.\<close>

definition variant_graph ::
    "function_summary list \<Rightarrow> call_argument_binding list \<Rightarrow> call_result_binding list \<Rightarrow>
     call_site list \<Rightarrow> call_target list \<Rightarrow> string \<Rightarrow> string list" where
  "variant_graph summaries bs rbs callsites targets =
     call_graph (build_adjacency
       (build_call_edges (build_index summaries bs rbs callsites targets) summaries))"

lemma variant_graph_closed:
  "set (variant_graph summaries bs rbs callsites targets k) \<subseteq> fact_id ` set summaries"
  using called_ids_subset [of summaries bs rbs callsites targets]
  by (auto simp: variant_graph_def call_graph_def adjacency_get call_edges_get called_ids_def)

interpretation call_digraph: finite_digraph
  "variant_graph summaries bs rbs callsites targets" "fact_id ` set summaries"
  for summaries bs rbs callsites targets
  by unfold_locales (auto intro: subsetD [OF variant_graph_closed])

section \<open>Well-formed contexts\<close>

definition context_ok :: "solver_context \<Rightarrow> function_summary list \<Rightarrow> bool" where
  "context_ok cx summaries \<longleftrightarrow>
     distinct (map fact_id summaries)
     \<and> (\<forall>k s. map_of (summary_by_id cx) k = Some s \<longleftrightarrow> s \<in> set summaries \<and> fact_id s = k)
     \<and> (\<forall>s \<in> set summaries. set (callee_ids cx (fact_id s)) = called_ids cx s
          \<and> dict_get (call_edges cx) (fact_id s) [] = edges_of cx s)
     \<and> (\<forall>s. called_ids cx s \<subseteq> fact_id ` set summaries)
     \<and> sccs_ok (call_graph (adjacency cx)) (components cx)
     \<and> set (concat (components cx)) = fact_id ` set summaries
     \<and> (\<forall>i < length (components cx). \<forall>k \<in> set (components cx ! i).
          map_of (component_by_member cx) k = Some i)
     \<and> distinct (map fst (adjacency cx)) \<and> fst ` set (adjacency cx) \<subseteq> fact_id ` set summaries
     \<and> (\<forall>k. set (callee_ids cx k) \<subseteq> fact_id ` set summaries)
     \<and> (\<forall>c \<in> set (components cx). \<forall>k \<in> set c.
          k \<in> set (oversized_ids cx) \<longleftrightarrow> max_scc_size (limits cx) < int (length c))"

lemma context_okD:
  assumes "context_ok cx summaries"
  shows "distinct (map fact_id summaries)"
    and "map_of (summary_by_id cx) k = Some s \<longleftrightarrow> s \<in> set summaries \<and> fact_id s = k"
    and "s \<in> set summaries \<Longrightarrow> set (callee_ids cx (fact_id s)) = called_ids cx s"
    and "s \<in> set summaries \<Longrightarrow> dict_get (call_edges cx) (fact_id s) [] = edges_of cx s"
    and "called_ids cx s \<subseteq> fact_id ` set summaries"
    and "sccs_ok (call_graph (adjacency cx)) (components cx)"
    and "set (concat (components cx)) = fact_id ` set summaries"
    and "c \<in> set (components cx) \<Longrightarrow> k \<in> set c \<Longrightarrow>
      k \<in> set (oversized_ids cx) \<longleftrightarrow> max_scc_size (limits cx) < int (length c)"
    and "i < length (components cx) \<Longrightarrow> k \<in> set (components cx ! i) \<Longrightarrow>
      map_of (component_by_member cx) k = Some i"
    and "distinct (map fst (adjacency cx))"
    and "fst ` set (adjacency cx) \<subseteq> fact_id ` set summaries"
    and "set (callee_ids cx k) \<subseteq> fact_id ` set summaries"
proof -
  note parts = assms [unfolded context_ok_def]
  show "distinct (map fact_id summaries)" using parts by (elim conjE)
  show "map_of (summary_by_id cx) k = Some s \<longleftrightarrow> s \<in> set summaries \<and> fact_id s = k"
    using parts by (elim conjE) (erule allE)+
  show "s \<in> set summaries \<Longrightarrow> set (callee_ids cx (fact_id s)) = called_ids cx s"
    "s \<in> set summaries \<Longrightarrow> dict_get (call_edges cx) (fact_id s) [] = edges_of cx s"
    using parts by simp_all
  show "called_ids cx s \<subseteq> fact_id ` set summaries" using parts by (elim conjE) (erule allE)
  show "sccs_ok (call_graph (adjacency cx)) (components cx)" using parts by (elim conjE)
  show "set (concat (components cx)) = fact_id ` set summaries" using parts by (elim conjE)
  show "c \<in> set (components cx) \<Longrightarrow> k \<in> set c \<Longrightarrow>
      k \<in> set (oversized_ids cx) \<longleftrightarrow> max_scc_size (limits cx) < int (length c)"
    using parts by simp
  show "i < length (components cx) \<Longrightarrow> k \<in> set (components cx ! i) \<Longrightarrow>
      map_of (component_by_member cx) k = Some i"
    using parts by simp
  show "distinct (map fst (adjacency cx))" using parts by (elim conjE)
  show "fst ` set (adjacency cx) \<subseteq> fact_id ` set summaries" using parts by (elim conjE)
  show "set (callee_ids cx k) \<subseteq> fact_id ` set summaries" using parts by (elim conjE) (erule allE)
qed

text \<open>The position of every member, as \<open>component_by_member\<close> records it.\<close>

lemma map_of_positions:
  assumes "distinct (concat cs)" "i < length cs" "k \<in> set (cs ! i)"
  shows "map_of (dict_of (concat (map (\<lambda>(i, c). map (\<lambda>m. (m, i)) c) (enumerate 0 cs)))) k = Some i"
proof -
  let ?ps = "concat (map (\<lambda>(i, c). map (\<lambda>m. (m, i)) c) (enumerate 0 cs))"
  have "map fst (concat (map (\<lambda>(i, c). map (\<lambda>m. (m, i)) c) (enumerate n cs))) = concat cs" for n
    by (induction cs arbitrary: n) (auto simp: comp_def)
  then have d: "distinct (map fst ?ps)" using assms(1) by simp
  have "(i, cs ! i) \<in> set (enumerate 0 cs)" using assms(2) by (simp add: in_set_enumerate_eq)
  then have "(k, i) \<in> set ?ps" using assms(3) by force
  then show ?thesis unfolding dict_of_distinct [OF d] by (rule map_of_is_SomeI [OF d])
qed

lemma find_oversized_iff:
  assumes "distinct (concat cs)" "c \<in> set cs" "k \<in> set c"
  shows "k \<in> set (find_oversized cs n) \<longleftrightarrow> n < int (length c)"
proof -
  have unique: "c' = c" if "c' \<in> set cs" "k \<in> set c'" for c'
  proof -
    obtain i j where "i < length cs" "cs ! i = c'" "j < length cs" "cs ! j = c"
      using \<open>c' \<in> set cs\<close> assms(2) by (metis in_set_conv_nth)
    then show ?thesis
      using distinct_concat_nth [OF assms(1), of i j] that(2) assms(3) by (cases "i = j") auto
  qed
  have "k \<in> set (find_oversized cs n) \<longleftrightarrow> (\<exists>c' \<in> set cs. n < int (length c') \<and> k \<in> set c')"
    by (auto simp: find_oversized_def)
  then show ?thesis using unique assms(2,3) by blast
qed

lemma edges_of_extend [simp]: "edges_of (call_index.extend ix z) s = edges_of ix s"
  by (simp add: edges_of_def owner_sites_def callee_bodies_def site_targets_def call_index.extend_def)

lemma called_ids_extend [simp]: "called_ids (call_index.extend ix z) s = called_ids ix s"
  by (simp add: called_ids_def)

lemma index_of_extend [simp]:
  "bindings_by_pair (call_index.extend ix z) = bindings_by_pair ix"
  "owner_sites (call_index.extend ix z) s = owner_sites ix s"
  "site_targets (call_index.extend ix z) site = site_targets ix site"
  "callee_bodies (call_index.extend ix z) s target = callee_bodies ix s target"
  by (simp_all add: call_index.extend_def owner_sites_def site_targets_def callee_bodies_def)

lemma accounting_extend [simp]:
  "params_bound (call_index.extend ix z) s site callee = params_bound ix s site callee"
  "edge_accounted H (call_index.extend ix z) s es edge ces = edge_accounted H ix s es edge ces"
  "sites_resolved (call_index.extend ix z) s = sites_resolved ix s"
  by (simp_all add: params_bound_def edge_accounted_def sites_resolved_def)

lemma build_context_ok:
  assumes distinct: "distinct (map fact_id summaries)" and depth: "length summaries \<le> depth"
  shows "\<exists>cx. build_context depth summaries les los bs rbs callsites targets lims = Inr cx
    \<and> context_ok cx summaries \<and> limits cx = lims
    \<and> (\<exists>z. cx = call_index.extend (build_index summaries bs rbs callsites targets) z)
    \<and> local_effect_map cx = local_map se_summary_id les summaries
    \<and> local_origin_map cx = local_map so_summary_id los summaries"
proof -
  let ?ix = "build_index summaries bs rbs callsites targets"
  let ?es = "build_call_edges ?ix summaries"
  let ?adj = "build_adjacency ?es"
  have nodes: "set (map fst (summary_by_id ?ix)) = fact_id ` set summaries"
    by (simp add: build_index_def fst_set_dict_of image_image)
  have "card (fact_id ` set summaries) \<le> depth"
    using depth card_image_le [of "set summaries" fact_id] card_length [of summaries] by simp
  then obtain comps where comps: "tarjan depth (map fst (summary_by_id ?ix)) (call_graph ?adj) = Inr comps"
    "sccs_ok (call_graph ?adj) comps" "set (concat comps) = fact_id ` set summaries"
    using call_digraph.tarjan_total [where bs = bs and rbs = rbs and callsites = callsites
        and targets = targets, OF nodes] unfolding variant_graph_def by blast
  define cx where "cx = call_index.extend ?ix
     \<lparr>limits = lims, call_edges = ?es, adjacency = ?adj, components = comps,
      recursive_ids = find_recursive comps (map fst (summary_by_id ?ix)) ?adj,
      oversized_ids = find_oversized comps (max_scc_size lims),
      local_effect_map = local_map se_summary_id les summaries,
      local_origin_map = local_map so_summary_id los summaries,
      component_by_member = dict_of (concat (map (\<lambda>(i, c). map (\<lambda>m. (m, i)) c) (enumerate 0 comps)))\<rparr>"
  have run: "build_context depth summaries les los bs rbs callsites targets lims = Inr cx"
    using comps(1) by (simp add: build_context_def Let_def cx_def)
  have fields: "limits cx = lims" "call_edges cx = ?es" "adjacency cx = ?adj" "components cx = comps"
    "oversized_ids cx = find_oversized comps (max_scc_size lims)"
    "local_effect_map cx = local_map se_summary_id les summaries"
    "local_origin_map cx = local_map so_summary_id los summaries"
    "summary_by_id cx = summary_by_id ?ix"
    by (simp_all add: cx_def call_index.extend_def)
  have pos: "component_by_member cx =
      dict_of (concat (map (\<lambda>(i, c). map (\<lambda>m. (m, i)) c) (enumerate 0 comps)))"
    by (simp add: cx_def call_index.extend_def)
  have "map fst ?adj = map fst ?es" by (simp add: build_adjacency_def comp_def split_beta)
  moreover have "fst ` set ?es \<subseteq> fact_id ` set summaries"
    unfolding build_call_edges_def fst_set_dict_group by auto
  moreover have "distinct (map fst ?es)"
    unfolding build_call_edges_def by (rule distinct_dict_group)
  ultimately have keys: "distinct (map fst ?adj)" "fst ` set ?adj \<subseteq> fact_id ` set summaries"
    by (metis, metis set_map)
  have closed: "set (callee_ids cx k) \<subseteq> fact_id ` set summaries" for k
    using variant_graph_closed [of summaries bs rbs callsites targets k]
    by (simp add: callee_ids_def fields variant_graph_def call_graph_def)
  have edges: "edges_of cx s = edges_of ?ix s" "called_ids cx s = called_ids ?ix s" for s
    by (simp_all only: cx_def edges_of_extend called_ids_extend)
  have "set (callee_ids cx (fact_id s)) = called_ids ?ix s" if "s \<in> set summaries" for s
    using call_edges_of_summary [OF distinct that, of ?ix]
    by (simp add: callee_ids_def fields adjacency_get called_ids_def)
  then have "context_ok cx summaries"
    unfolding context_ok_def fields edges pos
    using keys closed map_of_positions [OF sccs_okD(1) [OF comps(2)]] distinct map_of_summary_by_id [OF distinct] called_ids_subset comps(2,3)
      find_oversized_iff [OF sccs_okD(1) [OF comps(2)]] call_edges_of_summary [OF distinct]
    by (intro conjI allI ballI) simp_all
  then show ?thesis using run fields cx_def by blast
qed

end
