(* ===== verification/SolverLoop.thy ===== *)
theory SolverLoop
imports CallGraph
begin

text \<open>
  The component loop of the summary solver: what one component leaves behind, and the invariant
  over the components already processed.  A function whose reasons end up empty is at a fixed
  point of the transfer function, and so are its callees.
\<close>

lemma distinct_concat_elem: "distinct (concat cs) \<Longrightarrow> c \<in> set cs \<Longrightarrow> distinct c"
  by (induction cs) auto

lemma list_all2_in1: "list_all2 P xs ys \<Longrightarrow> x \<in> set xs \<Longrightarrow> \<exists>y \<in> set ys. P x y"
  by (induction rule: list_all2_induct) auto

lemma list_all2_in2: "list_all2 P xs ys \<Longrightarrow> y \<in> set ys \<Longrightarrow> \<exists>x \<in> set xs. P x y"
  by (induction rule: list_all2_induct) auto

section \<open>Frames\<close>

text \<open>Only the facts of the functions in \<open>S\<close> differ between two solver states.\<close>

definition frame :: "string set \<Rightarrow> solver_state \<Rightarrow> solver_state \<Rightarrow> bool" where
  "frame S st st' \<longleftrightarrow> (\<forall>k. k \<notin> S \<longrightarrow> same_facts st' st k)
     \<and> flows st' = flows st \<and> remaining_callers st' = remaining_callers st
     \<and> final_summaries st' = final_summaries st \<and> emitted st' = emitted st"

lemma frame_refl [simp]: "frame S st st"
  by (simp add: frame_def)

lemma frame_trans: "frame S a b \<Longrightarrow> frame S b c \<Longrightarrow> frame S a c"
  unfolding frame_def by (metis same_facts_trans)

lemma frame_mono: "frame S a b \<Longrightarrow> S \<subseteq> T \<Longrightarrow> frame T a b"
  by (auto simp: frame_def)

lemma frame_set: "frame {k} st (set_count k n (set_current k v st))"
  by (auto simp: frame_def intro: same_facts_set)

lemma current_of_same: "same_facts st st' k \<Longrightarrow> current_of st k = current_of st' k"
  by (simp add: current_of_def same_facts_def dict_index_def)

lemma frame_current: "frame S st st' \<Longrightarrow> k \<notin> S \<Longrightarrow> current_of st' k = current_of st k"
  by (rule current_of_same) (simp add: frame_def)

lemma same_facts_current_of:
  "current_of a k = Inr v \<Longrightarrow> current_of b k = Inr v \<Longrightarrow> same_facts a b k"
  by (simp add: same_facts_def current_of_Inr)

section \<open>Iterating one component\<close>

abbreviation member_ids :: "function_summary list \<Rightarrow> string set" where
  "member_ids members \<equiv> fact_id ` set members"

lemma assign_spec:
  assumes "rfold (\<lambda>caller st. rbind (dict_index nv (fact_id caller)) (\<lambda>v.
             Inr (set_count (fact_id caller) k (set_current (fact_id caller) v st)))) members st = Inr st'"
    and "distinct (map fact_id members)"
  shows "frame (member_ids members) st st'
    \<and> (\<forall>m \<in> set members. \<exists>v. map_of nv (fact_id m) = Some v \<and> current_of st' (fact_id m) = Inr v)"
  using assms
proof (induction members arbitrary: st)
  case (Cons m ms)
  then obtain v where v: "map_of nv (fact_id m) = Some v"
    and rest: "rfold (\<lambda>caller st. rbind (dict_index nv (fact_id caller)) (\<lambda>v.
             Inr (set_count (fact_id caller) k (set_current (fact_id caller) v st)))) ms
       (set_count (fact_id m) k (set_current (fact_id m) v st)) = Inr st'"
    by (auto simp: rbind_eq_Inr)
  have d: "distinct (map fact_id ms)" "fact_id m \<notin> member_ids ms" using Cons.prems(2) by auto
  note ih = Cons.IH [OF rest d(1)]
  have "frame (member_ids (m # ms)) st st'"
    by (rule frame_trans [OF frame_mono [OF frame_set] frame_mono [OF conjunct1 [OF ih]]]) auto
  moreover have "current_of st' (fact_id m) = Inr v"
    using frame_current [OF conjunct1 [OF ih] d(2)] by simp
  ultimately show ?case using ih v by (metis set_ConsD)
qed simp

lemma rmap_keyed:
  assumes "rmap (\<lambda>caller. rbind (f caller) (\<lambda>v. Inr (fact_id caller, v))) members = Inr kvs"
    and "distinct (map fact_id members)"
  shows "map fst kvs = map fact_id members"
    and "\<And>m. m \<in> set members \<Longrightarrow> \<exists>v. f m = Inr v \<and> map_of (dict_of kvs) (fact_id m) = Some v"
proof -
  have all2: "list_all2 (\<lambda>m kv. fst kv = fact_id m \<and> f m = Inr (snd kv)) members kvs"
    using assms(1) unfolding rmap_Inr_iff by (rule list_all2_mono) (auto simp: rbind_eq_Inr)
  then show keys: "map fst kvs = map fact_id members"
    by (induction rule: list_all2_induct) auto
  have "map_of (dict_of kvs) = map_of kvs"
    using assms(2) keys by (simp add: dict_of_distinct)
  moreover have "\<exists>v. f m = Inr v \<and> map_of kvs (fact_id m) = Some v" if "m \<in> set members" for m
  proof -
    from all2 that obtain kv where kv: "kv \<in> set kvs" "fst kv = fact_id m" "f m = Inr (snd kv)"
      by (induction rule: list_all2_induct) auto
    have "distinct (map fst kvs)" using assms(2) keys by simp
    then have "map_of kvs (fact_id m) = Some (snd kv)"
      using kv(1,2) by (metis map_of_is_SomeI prod.collapse)
    then show ?thesis using kv(3) by blast
  qed
  ultimately show "\<exists>v. f m = Inr v \<and> map_of (dict_of kvs) (fact_id m) = Some v"
    if "m \<in> set members" for m using that by simp
qed

lemma rall_True: "rall f xs = Inr True \<Longrightarrow> x \<in> set xs \<Longrightarrow> f x = Inr True"
  by (induction xs) (auto simp: rbind_eq_Inr split: if_splits)

lemma rall_cong_on: "(\<And>x. x \<in> set xs \<Longrightarrow> f x = g x) \<Longrightarrow> rall f xs = rall g xs"
  by (induction xs) (auto cong: if_cong)

lemma scc_iterate_spec:
  assumes "scc_iterate H cx members ks st = Inr (converged, st')" and "ks \<noteq> []"
    and distinct: "distinct (map fact_id members)"
  shows "frame (member_ids members) st st'
    \<and> (\<forall>m \<in> set members. \<exists>v. current_of st' (fact_id m) = Inr v
         \<and> (\<exists>cur :: solver_state. transfer H cx cur m = Inr v)
         \<and> (converged \<longrightarrow> transfer H cx st' m = Inr v))"
  using assms(1,2)
proof (induction ks arbitrary: st)
  case (Cons k ks)
  obtain kvs conv st1 where
    kvs: "rmap (\<lambda>caller. rbind (transfer H cx st caller) (\<lambda>v. Inr (fact_id caller, v))) members = Inr kvs"
    and conv: "rall (\<lambda>caller. rbind (dict_index (dict_of kvs) (fact_id caller)) (\<lambda>v.
                  rbind (current_of st (fact_id caller)) (\<lambda>old. Inr (v = old)))) members = Inr conv"
    and assign: "rfold (\<lambda>caller st. rbind (dict_index (dict_of kvs) (fact_id caller)) (\<lambda>v.
                  Inr (set_count (fact_id caller) k (set_current (fact_id caller) v st)))) members st = Inr st1"
    and rest: "(if conv then Inr (True, st1) else scc_iterate H cx members ks st1) = Inr (converged, st')"
    using Cons.prems(1) by (auto simp: rbind_eq_Inr Let_def)
  note vals = rmap_keyed(2) [OF kvs distinct]
  note st1 = assign_spec [OF assign distinct]
  have cur: "\<exists>v. current_of st1 (fact_id m) = Inr v \<and> transfer H cx st m = Inr v" if "m \<in> set members" for m
    using st1 vals [OF that] that by fastforce
  show ?case
  proof (cases conv)
    case True
    have same: "same_facts st1 st k" for k
    proof (cases "k \<in> member_ids members")
      case in_members: True
      then obtain m where m: "m \<in> set members" "k = fact_id m" by auto
      obtain v where v: "transfer H cx st m = Inr v" "map_of (dict_of kvs) (fact_id m) = Some v"
        using vals [OF m(1)] by blast
      have "current_of st k = Inr v"
        using rall_True [OF conv [unfolded eqTrueI [OF True]] m(1)] v(2) m(2)
        by (auto simp: rbind_eq_Inr)
      moreover have "current_of st1 k = Inr v" using cur [OF m(1)] v(1) m(2) by auto
      ultimately show ?thesis by (blast intro: same_facts_current_of)
    qed (use st1 in \<open>simp add: frame_def\<close>)
    have "transfer H cx st1 m = transfer H cx st m" for m by (rule transfer_cong) (rule same)
    then show ?thesis using True rest st1 cur by fastforce
  next
    case False
    show ?thesis
    proof (cases "ks = []")
      case True
      then have "\<not> converged" "st' = st1" using rest False by auto
      then show ?thesis using st1 cur by blast
    next
      case more: False
      then have "scc_iterate H cx members ks st1 = Inr (converged, st')" using rest False by simp
      from Cons.IH [OF this more] st1 show ?thesis by (blast intro: frame_trans)
    qed
  qed
qed simp

section \<open>Solving one component\<close>

text \<open>What a solved member is left with: the outcome of a transfer, and a fixed point of it
  whenever no reason remains.\<close>

definition settled ::
    "(string \<Rightarrow> string) \<Rightarrow> solver_context \<Rightarrow> solver_state \<Rightarrow> function_summary \<Rightarrow> bool" where
  "settled H cx st m \<longleftrightarrow> (\<exists>es os rs. current_of st (fact_id m) = Inr (es, os, rs)
     \<and> (\<exists>(cur :: solver_state) rs0. transfer H cx cur m = Inr (es, os, rs0) \<and> rs0 \<subseteq> rs) \<and> finite rs
     \<and> (rs = {} \<longrightarrow> transfer H cx st m = Inr (es, os, rs)))"

lemma flag_spec:
  assumes "rfold flag_unconverged members st = Inr st'" "distinct (map fact_id members)"
    and "\<forall>m \<in> set members. current_of st (fact_id m) = Inr (w m)"
  shows "frame (member_ids members) st st' \<and> (\<forall>m \<in> set members. current_of st' (fact_id m)
     = Inr (fst (w m), fst (snd (w m)), insert ''scc_iteration_cap_exceeded'' (snd (snd (w m)))))"
  using assms
proof (induction members arbitrary: st)
  case (Cons m ms)
  let ?rs = "insert ''scc_iteration_cap_exceeded'' (snd (snd (w m)))"
  let ?st = "st\<lparr>current_reasons := AList.update (fact_id m) ?rs (current_reasons st)\<rparr>"
  have wm: "current_of st (fact_id m) = Inr (w m)" using Cons.prems(3) by simp
  then have "flag_unconverged m st = Inr ?st"
    by (simp add: flag_unconverged_def current_of_Inr dict_index_def)
  then have rest: "rfold flag_unconverged ms ?st = Inr st'" using Cons.prems(1) by simp
  have step: "frame {fact_id m} st ?st"
    by (auto simp: frame_def same_facts_def map_of_update_other)
  have d: "distinct (map fact_id ms)" "fact_id m \<notin> member_ids ms" using Cons.prems(2) by auto
  have "\<forall>k \<in> set ms. current_of ?st (fact_id k) = Inr (w k)"
  proof
    fix k assume k: "k \<in> set ms"
    then have "fact_id k \<notin> {fact_id m}" using d(2) by (metis image_eqI singletonD)
    then show "current_of ?st (fact_id k) = Inr (w k)"
      using frame_current [OF step] Cons.prems(3) k by simp
  qed
  note ih = Cons.IH [OF rest d(1) this]
  have "current_of ?st (fact_id m) = Inr (fst (w m), fst (snd (w m)), ?rs)"
    using wm by (simp add: current_of_Inr)
  then have "current_of st' (fact_id m) = Inr (fst (w m), fst (snd (w m)), ?rs)"
    using frame_current [OF conjunct1 [OF ih] d(2)] by simp
  moreover have "frame (member_ids (m # ms)) st st'"
    by (rule frame_trans [OF frame_mono [OF step] frame_mono [OF conjunct1 [OF ih]]]) auto
  ultimately show ?case using ih by simp
qed simp

lemma solve_recursive_spec:
  assumes run: "solve_recursive H cx members st = Inr st'"
    and distinct: "distinct (map fact_id members)" and cap: "1 \<le> max_scc_iterations (limits cx)"
    and all_or_none: "\<And>m. m \<in> set members \<Longrightarrow>
      fact_id m \<in> set (oversized_ids cx) \<longleftrightarrow> list_ex (\<lambda>m. fact_id m \<in> set (oversized_ids cx)) members"
  shows "frame (member_ids members) st st' \<and> (\<forall>m \<in> set members. settled H cx st' m)"
proof -
  let ?big = "list_ex (\<lambda>m. fact_id m \<in> set (oversized_ids cx)) members"
  let ?ks = "map int [1..<nat (if ?big then 1 else max_scc_iterations (limits cx)) + 1]"
  obtain converged st1 where it: "scc_iterate H cx members ?ks st = Inr (converged, st1)"
    and rest: "(if \<not> converged \<and> \<not> ?big then rfold flag_unconverged members st1 else Inr st1) = Inr st'"
    using run by (auto simp: solve_recursive_def rbind_eq_Inr Let_def)
  have "?ks \<noteq> []" using cap by auto
  note spec = scc_iterate_spec [OF it this distinct]
  then have ex: "\<forall>m. \<exists>v. m \<in> set members \<longrightarrow> current_of st1 (fact_id m) = Inr v
         \<and> (\<exists>cur :: solver_state. transfer H cx cur m = Inr v)
         \<and> (converged \<longrightarrow> transfer H cx st1 m = Inr v)" by blast
  from choice [OF ex] obtain w where w: "\<And>m. m \<in> set members \<Longrightarrow> current_of st1 (fact_id m) = Inr (w m)"
    "\<And>m. m \<in> set members \<Longrightarrow> \<exists>cur :: solver_state. transfer H cx cur m = Inr (w m)"
    "\<And>m. m \<in> set members \<Longrightarrow> converged \<Longrightarrow> transfer H cx st1 m = Inr (w m)" by blast
  show ?thesis
  proof (cases "\<not> converged \<and> \<not> ?big")
    case True
    then have flag: "rfold flag_unconverged members st1 = Inr st'" using rest by simp
    have "\<forall>m \<in> set members. current_of st1 (fact_id m) = Inr (w m)" using w(1) by blast
    note f = flag_spec [OF flag distinct this]
    have "settled H cx st' m" if m: "m \<in> set members" for m
    proof -
      obtain es os rs where v: "w m = (es, os, rs)" by (cases "w m")
      obtain cur :: solver_state where cur: "transfer H cx cur m = Inr (es, os, rs)" using w(2) [OF m] v by auto
      show ?thesis unfolding settled_def using conjunct2 [OF f] m v cur transfer_finite [OF cur]
        by (intro exI [of _ es] exI [of _ os] exI [of _ "insert ''scc_iteration_cap_exceeded'' rs"]) auto
    qed
    then show ?thesis using f w(1) spec by (blast intro: frame_trans)
  next
    case False
    then have st': "st' = st1" using rest by (auto split: if_splits)
    have "settled H cx st' m" if m: "m \<in> set members" for m
    proof -
      obtain es os rs where v: "w m = (es, os, rs)" by (cases "w m")
      obtain cur :: solver_state where cur: "transfer H cx cur m = Inr (es, os, rs)" using w(2) [OF m] v by auto
      have "rs \<noteq> {}" if "\<not> converged"
        using False that all_or_none [OF m] cur transfer_resolves_sites(3) by blast
      then show ?thesis using w(1,3) [OF m] v cur st' transfer_finite [OF cur] unfolding settled_def by auto
    qed
    then show ?thesis using spec st' by blast
  qed
qed

text \<open>Either way a component is solved as by the generic loop.\<close>

lemma solve_component_generic:
  assumes ctx: "context_ok cx summaries" and c: "map fact_id members \<in> set (components cx)"
    and members: "set members \<subseteq> set summaries"
    and lims: "1 \<le> max_scc_iterations (limits cx)" "1 \<le> max_scc_size (limits cx)"
  shows "solve_component H cx members st = solve_recursive H cx members st"
proof (cases "is_singleton_call cx members")
  case True
  then obtain m where m: "members = [m]" "fact_id m \<notin> set (callee_ids cx (fact_id m))"
    by (auto simp: is_singleton_call_def split: list.splits)
  have "fact_id m \<notin> called_ids cx m" using m members context_okD(3) [OF ctx, of m] by simp
  moreover have "fact_id m \<notin> set (oversized_ids cx)"
    using context_okD(8) [OF ctx c, of "fact_id m"] m(1) lims(2) by simp
  ultimately have "solve_singleton H cx m st = solve_recursive H cx [m] st"
    by (rule singleton_generic [OF _ _ lims(1)])
  then show ?thesis using True m(1) by (simp add: solve_component_def)
qed (simp add: solve_component_def)

lemma solve_component_spec:
  assumes ctx: "context_ok cx summaries" and c: "map fact_id members \<in> set (components cx)"
    and members: "set members \<subseteq> set summaries"
    and lims: "1 \<le> max_scc_iterations (limits cx)" "1 \<le> max_scc_size (limits cx)"
    and run: "solve_component H cx members st = Inr st'"
  shows "frame (member_ids members) st st' \<and> (\<forall>m \<in> set members. settled H cx st' m)"
proof (rule solve_recursive_spec)
  show "solve_recursive H cx members st = Inr st'"
    using run solve_component_generic [OF ctx c members lims] by simp
  show "distinct (map fact_id members)"
    using sccs_okD(1) [OF context_okD(6) [OF ctx]] c by (rule distinct_concat_elem)
  show "fact_id m \<in> set (oversized_ids cx) \<longleftrightarrow> list_ex (\<lambda>m. fact_id m \<in> set (oversized_ids cx)) members"
    if "m \<in> set members" for m
    using context_okD(8) [OF ctx c] that by (auto simp: list_ex_iff)
qed (fact lims)

section \<open>Emitting the members\<close>

text \<open>One emitted record: the summary, its facts and the flag derived from its reasons.\<close>

definition emits ::
    "(string \<Rightarrow> string) \<Rightarrow> solver_context \<Rightarrow> solver_state \<Rightarrow> function_summary \<Rightarrow> emitted_summary \<Rightarrow> bool" where
  "emits H cx st s rec \<longleftrightarrow> (\<exists>solved es os rs count. rec = (solved, es, os)
     \<and> current_of st (fact_id s) = Inr (es, os, rs)
     \<and> post_init_function_summary (solved_summary H cx s count (es, os, rs)) = Inr solved)"

lemma finish_summary_spec:
  assumes "finish_summary H cx s st = Inr st'"
  shows "(\<forall>k. same_facts st' st k) \<and> (\<exists>rec. emitted st' = emitted st @ [rec] \<and> emits H cx st s rec)
    \<and> remaining_callers st' = remaining_callers st"
proof -
  obtain fl es os rs solved where rec: "current_of st (fact_id s) = Inr (es, os, rs)"
    "post_init_function_summary
       (solved_summary H cx s (dict_get (iteration_counts st) (fact_id s) 0) (es, os, rs)) = Inr solved"
    and st': "st' = st\<lparr>flows := fl, final_summaries := final_summaries st @ [solved],
       emitted := emitted st @ [(solved, es, os)]\<rparr>"
    using assms by (auto simp: finish_summary_def rbind_eq_Inr)
  have "same_facts st' st k" for k by (simp add: same_facts_def st')
  moreover have "\<exists>rec. emitted st' = emitted st @ [rec] \<and> emits H cx st s rec"
    using rec unfolding emits_def by (auto simp: st')
  moreover have "remaining_callers st' = remaining_callers st" by (simp add: st')
  ultimately show ?thesis by blast
qed

lemma emits_same: "(\<And>k. same_facts st' st k) \<Longrightarrow> emits H cx st' s rec \<longleftrightarrow> emits H cx st s rec"
  using current_of_same [of st' st "fact_id s"] by (simp add: emits_def)

lemma finish_all_spec:
  assumes "rfold (finish_summary H cx) members st = Inr st'"
  shows "(\<forall>k. same_facts st' st k) \<and> remaining_callers st' = remaining_callers st
    \<and> (\<exists>recs. emitted st' = emitted st @ recs \<and> list_all2 (emits H cx st) members recs)"
  using assms
proof (induction members arbitrary: st)
  case (Cons m ms)
  then obtain st1 where st1: "finish_summary H cx m st = Inr st1"
    "rfold (finish_summary H cx) ms st1 = Inr st'" by (auto simp: rbind_eq_Inr)
  note one = finish_summary_spec [OF st1(1)] and more = Cons.IH [OF st1(2)]
  have same: "same_facts st1 st k" for k using one by blast
  have "emits H cx st1 = emits H cx st" using emits_same [OF same] by blast
  with one more show ?case using same_facts_trans by fastforce
next
  case Nil
  have "same_facts st' st k" for k using Nil by simp
  with Nil show ?case by auto
qed

section \<open>The invariant over the processed components\<close>

definition solved_inv ::
    "(string \<Rightarrow> string) \<Rightarrow> solver_context \<Rightarrow> function_summary list \<Rightarrow> string set \<Rightarrow> solver_state \<Rightarrow> bool" where
  "solved_inv H cx summaries processed st \<longleftrightarrow>
     (\<forall>s \<in> set summaries. fact_id s \<in> processed \<longrightarrow>
        settled H cx st s \<and> (\<exists>rec \<in> set (emitted st). emits H cx st s rec))
     \<and> (\<forall>rec \<in> set (emitted st). \<exists>s \<in> set summaries. fact_id s \<in> processed \<and> emits H cx st s rec)"

lemma settled_frame:
  assumes "settled H cx st s" "frame S st st'" "fact_id s \<notin> S" "called_ids cx s \<inter> S = {}"
  shows "settled H cx st' s"
proof -
  have "transfer H cx st' s = transfer H cx st s"
    by (rule transfer_cong) (use assms(2,4) in \<open>auto simp: frame_def\<close>)
  then show ?thesis using assms(1) frame_current [OF assms(2,3)] by (simp add: settled_def)
qed

lemma settled_same: "(\<And>k. same_facts st' st k) \<Longrightarrow> settled H cx st s \<Longrightarrow> settled H cx st' s"
  using current_of_same [of st' st "fact_id s"] transfer_cong [of cx s st' st H]
  by (simp add: settled_def)

lemma solved_inv_step:
  assumes inv: "solved_inv H cx summaries processed st" and ctx: "context_ok cx summaries"
    and c: "c \<in> set (components cx)" and new: "set c \<inter> processed = {}"
    and closed: "\<And>s. s \<in> set summaries \<Longrightarrow> fact_id s \<in> processed \<Longrightarrow> called_ids cx s \<subseteq> processed"
    and lims: "1 \<le> max_scc_iterations (limits cx)" "1 \<le> max_scc_size (limits cx)"
    and run: "process_component H cx True (i, c) st = Inr st'"
  shows "solved_inv H cx summaries (processed \<union> set c) st'"
proof -
  obtain members st1 where members: "rmap (dict_index (summary_by_id cx)) c = Inr members"
    and solve: "solve_component H cx members st = Inr st1"
    and finish: "rfold (finish_summary H cx) members st1 = Inr st'"
    using run by (auto simp: process_component_def rbind_eq_Inr)
  have m: "list_all2 (\<lambda>k s. s \<in> set summaries \<and> fact_id s = k) c members"
    using members context_okD(2) [OF ctx] by (simp add: rmap_Inr_iff)
  then have ids: "map fact_id members = c" "set members \<subseteq> set summaries"
    by (induction rule: list_all2_induct) auto
  have spec: "frame (set c) st st1" "\<And>m. m \<in> set members \<Longrightarrow> settled H cx st1 m"
    using solve_component_spec [OF ctx _ ids(2) lims solve] c ids(1) by auto
  obtain recs where fin: "\<And>k. same_facts st' st1 k" "emitted st' = emitted st1 @ recs"
    "list_all2 (emits H cx st1) members recs" using finish_all_spec [OF finish] by blast
  have em: "emitted st' = emitted st @ recs" using fin(2) spec(1) by (simp add: frame_def)
  have emits1: "emits H cx st' s = emits H cx st1 s" for s
    using emits_same [OF fin(1)] by (intro ext)
  have old: "settled H cx st' s \<and> emits H cx st' s = emits H cx st s"
    if "s \<in> set summaries" "fact_id s \<in> processed" for s
  proof -
    have "fact_id s \<notin> set c" "called_ids cx s \<inter> set c = {}" using that closed new by blast+
    moreover have "settled H cx st s" using inv that by (simp add: solved_inv_def)
    ultimately have "settled H cx st1 s" "emits H cx st1 s = emits H cx st s"
      using settled_frame [OF _ spec(1)] frame_current [OF spec(1)] by (auto simp: emits_def)
    then show ?thesis using settled_same [OF fin(1)] emits1 by simp
  qed
  have distinct: "distinct (map fact_id summaries)" using context_okD(1) [OF ctx] .
  have "s \<in> set members" if s: "s \<in> set summaries" "fact_id s \<in> set c" for s
  proof -
    obtain t where "t \<in> set members" "fact_id t = fact_id s" using s(2) ids(1) by (metis image_iff set_map)
    then show ?thesis using distinct s(1) ids(2) by (metis distinct_map inj_onD subsetD)
  qed
  then have new_ok: "settled H cx st' s \<and> (\<exists>rec \<in> set recs. emits H cx st' s rec)"
    if "s \<in> set summaries" "fact_id s \<in> set c" for s
    using that spec(2) settled_same [OF fin(1)] fin(3) emits1 by (metis list_all2_in1)
  have "\<exists>s \<in> set summaries. fact_id s \<in> processed \<union> set c \<and> emits H cx st' s rec"
    if rec: "rec \<in> set (emitted st')" for rec
  proof (cases "rec \<in> set recs")
    case True
    then obtain s where "s \<in> set members" "emits H cx st1 s rec" using fin(3) by (metis list_all2_in2)
    then show ?thesis using ids emits1 by (metis UnI2 image_eqI set_map subsetD)
  next
    case False
    then have "rec \<in> set (emitted st)" using rec em by auto
    then show ?thesis using inv old unfolding solved_inv_def by (metis UnI1)
  qed
  moreover have "settled H cx st' s \<and> (\<exists>rec \<in> set (emitted st'). emits H cx st' s rec)"
    if "s \<in> set summaries" "fact_id s \<in> processed \<union> set c" for s
    using that new_ok old inv em unfolding solved_inv_def by (metis UnE UnI1 UnI2 set_append)
  ultimately show ?thesis unfolding solved_inv_def by blast
qed

section \<open>After the last component\<close>

lemma in_concat_take:
  "x \<in> set (concat (take i cs)) \<longleftrightarrow> (\<exists>j < i. j < length cs \<and> x \<in> set (cs ! j))"
proof -
  have "c \<in> set (take i cs) \<longleftrightarrow> (\<exists>j < i. j < length cs \<and> c = cs ! j)" for c
    by (auto simp: in_set_conv_nth)
  then show ?thesis by auto
qed

lemma components_prefix_closed:
  assumes ctx: "context_ok cx summaries" and s: "s \<in> set summaries" "fact_id s \<in> set (concat (take i (components cx)))"
  shows "called_ids cx s \<subseteq> set (concat (take i (components cx)))"
proof
  fix k assume k: "k \<in> called_ids cx s"
  let ?cs = "components cx"
  obtain j where j: "j < i" "j < length ?cs" "fact_id s \<in> set (?cs ! j)"
    using s(2) unfolding in_concat_take by blast
  have "k \<in> set (call_graph (adjacency cx) (fact_id s))"
    using k context_okD(3) [OF ctx s(1)] by (simp add: call_graph_def callee_ids_def)
  then obtain l where "l \<le> j" "k \<in> set (?cs ! l)"
    using callees_firstD [OF sccs_okD(2) [OF context_okD(6) [OF ctx]] j(2,3)] by blast
  then show "k \<in> set (concat (take i ?cs))" using j unfolding in_concat_take
    by (intro exI [of _ l]) simp
qed

lemma components_new:
  assumes "distinct (concat cs)" "i < length cs"
  shows "set (cs ! i) \<inter> set (concat (take i cs)) = {}"
proof -
  have "concat cs = concat (take i cs) @ cs ! i @ concat (drop (Suc i) cs)"
    using assms(2) by (metis append_take_drop_id concat.simps(2) concat_append id_take_nth_drop)
  then show ?thesis using assms(1) by auto
qed

lemma solved_inv_run:
  assumes ctx: "context_ok cx summaries"
    and lims: "1 \<le> max_scc_iterations (limits cx)" "1 \<le> max_scc_size (limits cx)"
    and run: "rfold (process_component H cx True) (take n (enumerate 0 (components cx)))
                (initial_state cx summaries remaining) = Inr st"
    and n: "n \<le> length (components cx)"
  shows "solved_inv H cx summaries (set (concat (take n (components cx)))) st"
  using run n
proof (induction n arbitrary: st)
  case 0
  then show ?case by (auto simp: solved_inv_def initial_state_def)
next
  case (Suc n)
  let ?cs = "components cx"
  have n: "n < length ?cs" using Suc.prems by simp
  then have snoc: "take (Suc n) (enumerate 0 ?cs) = take n (enumerate 0 ?cs) @ [(n, ?cs ! n)]"
    by (simp add: take_Suc_conv_app_nth nth_enumerate_eq)
  obtain st1 where st1: "rfold (process_component H cx True) (take n (enumerate 0 ?cs))
        (initial_state cx summaries remaining) = Inr st1"
    "process_component H cx True (n, ?cs ! n) st1 = Inr st"
    using Suc.prems(1) by (auto simp: snoc rfold_append rbind_eq_Inr)
  have "solved_inv H cx summaries (set (concat (take n ?cs)) \<union> set (?cs ! n)) st"
  proof (rule solved_inv_step [OF Suc.IH [OF st1(1)] ctx _ _ _ lims st1(2)])
    show "set (?cs ! n) \<inter> set (concat (take n ?cs)) = {}"
      using components_new [OF sccs_okD(1) [OF context_okD(6) [OF ctx]] n] .
    show "s \<in> set summaries \<Longrightarrow> fact_id s \<in> set (concat (take n ?cs)) \<Longrightarrow>
        called_ids cx s \<subseteq> set (concat (take n ?cs))" for s
      by (rule components_prefix_closed [OF ctx])
  qed (use n in simp_all)
  moreover have "set (concat (take (Suc n) ?cs)) = set (concat (take n ?cs)) \<union> set (?cs ! n)"
    using n by (simp add: take_Suc_conv_app_nth Un_commute)
  ultimately show ?case by simp
qed

lemma solved_summary_fields [simp]:
  "fact_id (solved_summary H cx s count (es, os, rs)) = fact_id s"
  "fs_complete (solved_summary H cx s count (es, os, rs)) = (sorted_list_of_set rs = [])"
  by (simp_all add: solved_summary_def Let_def)

lemma emits_complete:
  assumes "emits H cx st s (solved, es, os)" "settled H cx st s"
  shows "fact_id solved = fact_id s"
    and "\<exists>rs. current_of st (fact_id s) = Inr (es, os, rs) \<and> (fs_complete solved \<longleftrightarrow> rs = {})
      \<and> (rs = {} \<longrightarrow> transfer H cx st s = Inr (es, os, {}))"
proof -
  obtain rs count where rs: "current_of st (fact_id s) = Inr (es, os, rs)"
    "post_init_function_summary (solved_summary H cx s count (es, os, rs)) = Inr solved"
    using assms(1) by (auto simp: emits_def)
  have "finite rs" "rs = {} \<longrightarrow> transfer H cx st s = Inr (es, os, {})"
    using assms(2) rs(1) by (auto simp: settled_def)
  then show "fact_id solved = fact_id s"
    "\<exists>rs. current_of st (fact_id s) = Inr (es, os, rs) \<and> (fs_complete solved \<longleftrightarrow> rs = {})
      \<and> (rs = {} \<longrightarrow> transfer H cx st s = Inr (es, os, {}))"
    using rs by (auto simp: post_init_function_summary_Inr)
qed

definition accounted_in ::
    "(string \<Rightarrow> string) \<Rightarrow> 'z call_index_scheme \<Rightarrow> function_summary \<Rightarrow> summary_effect list \<Rightarrow>
     emitted_summary list \<Rightarrow> bool" where
  "accounted_in H ix caller effects trace =
     (fs_local_incomplete_reasons caller = [] \<and> sites_resolved ix caller
      \<and> list_all (\<lambda>edge. list_ex (\<lambda>(callee, callee_effects, _).
            fact_id callee = fact_id (edge_callee edge) \<and> fs_complete callee
            \<and> edge_accounted H ix caller effects edge callee_effects) trace) (edges_of ix caller))"

lemma accounted_in_extend [simp]:
  "accounted_in H (call_index.extend ix z) s es trace = accounted_in H ix s es trace"
  by (simp add: accounted_in_def)

lemma complete_accounted:
  assumes ctx: "context_ok cx summaries" and inv: "solved_inv H cx summaries (fact_id ` set summaries) st"
    and rec: "(solved, es, os) \<in> set (emitted st)" and complete: "fs_complete solved"
  shows "\<exists>caller \<in> set summaries. fact_id caller = fact_id solved
    \<and> accounted_in H cx caller es (emitted st) \<and> int (length es) \<le> max_summary_effects (limits cx)"
proof -
  obtain s where s: "s \<in> set summaries" "emits H cx st s (solved, es, os)"
    using inv rec by (auto simp: solved_inv_def)
  have settled: "settled H cx st t \<and> (\<exists>rec \<in> set (emitted st). emits H cx st t rec)"
    if "t \<in> set summaries" for t using inv that by (auto simp: solved_inv_def)
  have run: "transfer H cx st s = Inr (es, os, {})"
    using emits_complete(2) [OF s(2)] settled [OF s(1)] complete by auto
  note resolved = transfer_resolves_sites [OF run]
  have "\<exists>(callee', ces, cos) \<in> set (emitted st). fact_id callee' = fact_id (edge_callee edge)
      \<and> fs_complete callee' \<and> edge_accounted H cx s es edge ces" if edge: "edge \<in> set (edges_of cx s)" for edge
  proof -
    obtain site target callee amb where e: "edge = (site, target, callee, amb)" by (cases edge)
    note acc = transfer_accounts_edge [OF run edge [unfolded e]]
    have "fact_id callee \<in> fact_id ` set summaries"
      using context_okD(5) [OF ctx, of s] edge by (force simp: called_ids_def e edge_callee_def)
    then obtain t where t: "t \<in> set summaries" "fact_id t = fact_id callee" by auto
    obtain t' ces cos where t': "(t', ces, cos) \<in> set (emitted st)" "emits H cx st t (t', ces, cos)"
      using settled [OF t(1)] by auto
    obtain rs where rs: "fact_id t' = fact_id t" "current_of st (fact_id t) = Inr (ces, cos, rs)"
      "fs_complete t' \<longleftrightarrow> rs = {}"
      using emits_complete [OF t'(2)] settled [OF t(1)] by blast
    have get: "dict_get (current_reasons st) (fact_id callee) {} = rs"
      "dict_get (current_effects st) (fact_id callee) [] = ces"
      using rs(2) t(2) by (simp_all add: current_of_Inr dict_get_Some)
    have "\<not> amb" using resolved(1) edge unfolding e edges_of_iff
      by (fastforce simp: sites_resolved_def list_all_iff callee_bodies_def Let_def split: if_splits)
    moreover have "(case propagate_effect H s site target e (bindings_by_pair cx) amb of
          Inl _ \<Rightarrow> False | Inr None \<Rightarrow> True | Inr (Some p) \<Rightarrow> fact_id p \<in> fact_id ` set es)"
      if "e \<in> set ces" for e
      using acc(3) [unfolded get(2), OF that] by (auto split: option.split)
    ultimately have "edge_accounted H cx s es edge ces"
      using acc(1) by (simp add: e edge_accounted_def list_all_iff)
    then show ?thesis using t'(1) rs t(2) acc(2) get(1) by (force simp: e edge_callee_def)
  qed
  then have "accounted_in H cx s es (emitted st)"
    using resolved by (force simp: accounted_in_def list_all_iff list_ex_iff)
  moreover have "fact_id solved = fact_id s" using emits_complete(1) [OF s(2)] settled [OF s(1)] by blast
  ultimately show ?thesis using s(1) resolved(4) by auto
qed

end
