(* ===== verification/Streaming.thy ===== *)
theory Streaming
imports SolverLoop
begin

text \<open>
  The streaming mode of the solver (\<open>retain_emitted_facts=False\<close>) drops the facts of a function
  once every caller in another component has been solved.  The state it works on agrees with the
  retained one on the live functions, those in a component still to come or called from one, so
  it emits exactly the same records and flows.
\<close>

section \<open>Results up to a relation\<close>

lemma rbind_rel:
  "rel_sum (=) R r r' \<Longrightarrow> (\<And>x y. R x y \<Longrightarrow> rel_sum (=) S (f x) (g y)) \<Longrightarrow>
   rel_sum (=) S (rbind r f) (rbind r' g)"
  by (cases r; cases r') auto

lemma rbind_rel_eq:
  "r = r' \<Longrightarrow> (\<And>x. r' = Inr x \<Longrightarrow> rel_sum (=) S (f x) (g x)) \<Longrightarrow>
   rel_sum (=) S (rbind r f) (rbind r' g)"
  by (cases r') auto

lemma rfold_rel:
  assumes "R s s'" "\<And>x s s'. x \<in> set xs \<Longrightarrow> R s s' \<Longrightarrow> rel_sum (=) R (f x s) (g x s')"
  shows "rel_sum (=) R (rfold f xs s) (rfold g xs s')"
  using assms by (induction xs arbitrary: s s') (auto intro!: rbind_rel [where R = R])

section \<open>States that agree on the live functions\<close>

definition agree :: "string set \<Rightarrow> solver_state \<Rightarrow> solver_state \<Rightarrow> bool" where
  "agree L st st' \<longleftrightarrow> (\<forall>k \<in> L. same_facts st st' k) \<and> iteration_counts st = iteration_counts st'
     \<and> flows st = flows st' \<and> final_summaries st = final_summaries st' \<and> emitted st = emitted st'"

abbreviation agree_result ::
    "string set \<Rightarrow> solver_state result \<Rightarrow> solver_state result \<Rightarrow> bool" where
  "agree_result L \<equiv> rel_sum (=) (agree L)"

lemma agree_facts: "agree L st st' \<Longrightarrow> k \<in> L \<Longrightarrow> same_facts st st' k"
  by (simp add: agree_def)

lemma agree_mono: "agree L st st' \<Longrightarrow> K \<subseteq> L \<Longrightarrow> agree K st st'"
  by (auto simp: agree_def)

lemma agree_current: "agree L st st' \<Longrightarrow> k \<in> L \<Longrightarrow> current_of st k = current_of st' k"
  by (rule current_of_same) (rule agree_facts)

lemma agree_transfer:
  "agree L st st' \<Longrightarrow> called_ids cx m \<subseteq> L \<Longrightarrow> transfer H cx st m = transfer H cx st' m"
  by (rule transfer_cong) (auto dest: agree_facts)

lemma agree_set:
  assumes "agree L st st'"
  shows "agree L (set_count k n (set_current k v st)) (set_count k n (set_current k v st'))"
  using assms by (auto simp: agree_def same_facts_def update_conv')

lemma agree_singleton:
  assumes "agree L st st'" "fact_id m \<in> L" "called_ids cx m \<subseteq> L"
  shows "agree_result L (solve_singleton H cx m st) (solve_singleton H cx m st')"
  unfolding solve_singleton_def Let_def split_beta
  by (rule rbind_rel_eq [OF agree_transfer [OF assms(1,3)]], rule rbind_rel_eq [OF agree_current [OF assms(1,2)]])
    (use assms(1) in \<open>auto intro!: agree_set\<close>)

lemma agree_scc_iterate:
  assumes "agree L st st'" and ids: "fact_id ` set members \<subseteq> L"
    and calls: "\<And>m. m \<in> set members \<Longrightarrow> called_ids cx m \<subseteq> L"
  shows "rel_sum (=) (rel_prod (=) (agree L)) (scc_iterate H cx members ks st) (scc_iterate H cx members ks st')"
  using assms(1)
proof (induction ks arbitrary: st st')
  case (Cons k ks)
  have maps: "rmap (\<lambda>caller. rbind (transfer H cx st caller) (\<lambda>v. Inr (fact_id caller, v))) members
      = rmap (\<lambda>caller. rbind (transfer H cx st' caller) (\<lambda>v. Inr (fact_id caller, v))) members"
    by (rule rmap_cong_on) (simp add: agree_transfer [OF Cons.prems calls])
  have tests: "rall (\<lambda>caller. rbind (dict_index d (fact_id caller)) (\<lambda>v.
                  rbind (current_of st (fact_id caller)) (\<lambda>old. Inr (v = old)))) members
      = rall (\<lambda>caller. rbind (dict_index d (fact_id caller)) (\<lambda>v.
                  rbind (current_of st' (fact_id caller)) (\<lambda>old. Inr (v = old)))) members" for d
    by (rule rall_cong_on) (use ids agree_current [OF Cons.prems] in auto)
  show ?case
    unfolding scc_iterate.simps Let_def
  proof (rule rbind_rel_eq [OF maps], rule rbind_rel_eq [OF tests], rule rbind_rel)
    fix kvs converged
    show "agree_result L
        (rfold (\<lambda>caller st. rbind (dict_index (dict_of kvs) (fact_id caller)) (\<lambda>v.
            Inr (set_count (fact_id caller) k (set_current (fact_id caller) v st)))) members st)
        (rfold (\<lambda>caller st. rbind (dict_index (dict_of kvs) (fact_id caller)) (\<lambda>v.
            Inr (set_count (fact_id caller) k (set_current (fact_id caller) v st)))) members st')"
      by (rule rfold_rel [where R = "agree L", OF Cons.prems], rule rbind_rel_eq [OF refl]) (auto intro: agree_set)
  next
    fix converged s s' assume "agree L s s'"
    then show "rel_sum (=) (rel_prod (=) (agree L))
        (if converged then Inr (True, s) else scc_iterate H cx members ks s)
        (if converged then Inr (True, s') else scc_iterate H cx members ks s')"
      using Cons.IH by simp
  qed
qed (simp add: rel_prod_conv)

lemma agree_flag:
  assumes "agree L st st'" "fact_id m \<in> L"
  shows "agree_result L (flag_unconverged m st) (flag_unconverged m st')"
proof -
  have "map_of (current_reasons st) (fact_id m) = map_of (current_reasons st') (fact_id m)"
    using agree_facts [OF assms] by (simp add: same_facts_def)
  then have "dict_index (current_reasons st) (fact_id m) = dict_index (current_reasons st') (fact_id m)"
    by (simp add: dict_index_def)
  then show ?thesis unfolding flag_unconverged_def
    by (rule rbind_rel_eq) (use assms(1) in \<open>auto simp: agree_def same_facts_def update_conv'\<close>)
qed

lemma agree_component:
  assumes "agree L st st'" and ids: "fact_id ` set members \<subseteq> L"
    and calls: "\<And>m. m \<in> set members \<Longrightarrow> called_ids cx m \<subseteq> L"
  shows "agree_result L (solve_component H cx members st) (solve_component H cx members st')"
proof (cases "is_singleton_call cx members")
  case True
  then obtain m where "members = [m]" by (auto simp: is_singleton_call_def split: list.splits)
  then show ?thesis using True agree_singleton [OF assms(1)] ids calls by (simp add: solve_component_def)
next
  case False
  have "agree_result L (rfold flag_unconverged members a) (rfold flag_unconverged members b)"
    if "agree L a b" for a b
    by (rule rfold_rel [where R = "agree L", OF that]) (use ids agree_flag in blast)
  then have "agree_result L (solve_recursive H cx members st) (solve_recursive H cx members st')"
    unfolding solve_recursive_def Let_def
    by (intro rbind_rel [OF agree_scc_iterate [OF assms]]) auto
  then show ?thesis using False by (simp add: solve_component_def)
qed

section \<open>Emission reads live facts only\<close>

lemma record_flows_agree:
  assumes st: "agree L st st'" and edges: "dict_get (call_edges cx) (fact_id m) [] = edges_of cx m"
    and calls: "called_ids cx m \<subseteq> L"
  shows "record_flows H cx st m fl = record_flows H cx st' m fl"
  unfolding record_flows_def edges
proof (rule rfold_cong_on)
  fix edge f assume "edge \<in> set (edges_of cx m)"
  then have "fact_id (edge_callee edge) \<in> L" using calls by (auto simp: called_ids_def)
  then have same: "same_facts st st' (fact_id (edge_callee edge))" using agree_facts [OF st] by blast
  obtain site target callee amb where e: "edge = (site, target, callee, amb)" by (cases edge)
  show "record_edge H cx st m edge f = record_edge H cx st' m edge f"
    unfolding record_edge_def e Let_def prod.case
      same_facts_get(1,2) [OF same [unfolded e edge_callee_def fst_conv snd_conv]] ..
qed

lemma agree_finish:
  assumes st: "agree L st st'" and edges: "dict_get (call_edges cx) (fact_id m) [] = edges_of cx m"
    and calls: "called_ids cx m \<subseteq> L" and id: "fact_id m \<in> L"
  shows "agree_result L (finish_summary H cx m st) (finish_summary H cx m st')"
proof -
  have eqs: "flows st = flows st'" "iteration_counts st = iteration_counts st'"
    using st by (simp_all add: agree_def)
  show ?thesis unfolding finish_summary_def eqs split_beta
    by (rule rbind_rel_eq [OF record_flows_agree [OF st edges calls]],
        rule rbind_rel_eq [OF agree_current [OF st id]], rule rbind_rel_eq [OF refl])
      (use st in \<open>auto simp: agree_def same_facts_def\<close>)
qed

section \<open>The calls still pending\<close>

text \<open>
  The cross-component calls of the components still to come, in the order their callers are
  released.  \<open>remaining_callers\<close> counts them per callee.
\<close>

definition crosses :: "'z solver_context_scheme \<Rightarrow> string \<Rightarrow> string \<Rightarrow> bool" where
  "crosses cx caller callee \<longleftrightarrow> map_of (component_by_member cx) caller \<noteq> map_of (component_by_member cx) callee"

definition pending :: "'z solver_context_scheme \<Rightarrow> string list \<Rightarrow> (string \<times> string) list" where
  "pending cx callers = concat (map (\<lambda>c. map (\<lambda>k. (c, k)) (filter (crosses cx c) (callee_ids cx c))) callers)"

definition counts :: "(string \<times> string) list \<Rightarrow> (string \<times> int) list \<Rightarrow> bool" where
  "counts ps d \<longleftrightarrow> (\<forall>k. dict_get d k 0 = int (length (filter (\<lambda>p. snd p = k) ps)))"

definition live :: "(string \<times> string) list \<Rightarrow> string list \<Rightarrow> string set" where
  "live ps ids = snd ` set ps \<union> set ids"

lemma pending_simps [simp]:
  "pending cx [] = []"
  "pending cx (c # cs) = map (\<lambda>k. (c, k)) (filter (crosses cx c) (callee_ids cx c)) @ pending cx cs"
  "pending cx (as @ bs) = pending cx as @ pending cx bs"
  by (simp_all add: pending_def)

lemma counts_update:
  "counts ps d \<Longrightarrow> counts (ps @ [(c, k)]) (AList.update k (dict_get d k 0 + 1) d)"
  by (simp add: counts_def)

lemma zero_count: "counts ps d \<Longrightarrow> dict_get d k 0 = 0 \<Longrightarrow> k \<notin> snd ` set ps"
  by (auto simp: counts_def filter_empty_conv)

lemma agree_drop: "agree L st st' \<Longrightarrow> k \<notin> L \<Longrightarrow> agree L st (drop_facts k st')"
  by (auto simp: agree_def drop_facts_def same_facts_def map_of_delete)

lemma remaining_drop [simp]: "remaining_callers (drop_facts k st) = remaining_callers st"
  by (simp add: drop_facts_def)

text \<open>Releasing one call consumes the first pending pair.\<close>

lemma release_callee_cross:
  assumes st: "agree (live ((c, k) # ps) ids) st st'" and n: "counts ((c, k) # ps) (remaining_callers st')"
    and i: "map_of (component_by_member cx) k = Some j" "j \<noteq> i" and old: "k \<notin> set ids"
  shows "\<exists>st2. release_callee cx i k st' = Inr st2 \<and> agree (live ps ids) st st2
    \<and> counts ps (remaining_callers st2)"
proof -
  let ?n = "dict_get (remaining_callers st') k 0 - 1"
  let ?st1 = "st'\<lparr>remaining_callers := AList.update k ?n (remaining_callers st')\<rparr>"
  have counts: "counts ps (remaining_callers ?st1)" using n by (simp add: counts_def)
  have "agree (live ps ids) st ?st1" using st by (auto simp: agree_def live_def same_facts_def)
  moreover have "k \<notin> live ps ids" if "?n = 0"
    using zero_count [OF counts, of k] that old by (simp add: live_def)
  ultimately have ok: "agree (live ps ids) st (if ?n = 0 then drop_facts k ?st1 else ?st1)"
    using agree_drop by auto
  have "remaining_callers (if ?n = 0 then drop_facts k ?st1 else ?st1) = remaining_callers ?st1"
    by (simp only: if_distrib remaining_drop if_cancel)
  moreover have "release_callee cx i k st' = Inr (if ?n = 0 then drop_facts k ?st1 else ?st1)"
    unfolding release_callee_def dict_index_def using i by (simp only: Let_def option.case rbind_simps if_False)
  ultimately show ?thesis using counts ok by metis
qed

lemma release_callees:
  assumes "agree (live (map (\<lambda>k. (c, k)) (filter (crosses cx c) ks) @ ps) ids) st st'"
    and "counts (map (\<lambda>k. (c, k)) (filter (crosses cx c) ks) @ ps) (remaining_callers st')"
    and c: "map_of (component_by_member cx) c = Some i"
    and ks: "\<And>k. k \<in> set ks \<Longrightarrow> \<exists>j. map_of (component_by_member cx) k = Some j \<and> (j \<noteq> i \<longrightarrow> k \<notin> set ids)"
  shows "\<exists>st2. rfold (release_callee cx i) ks st' = Inr st2 \<and> agree (live ps ids) st st2
    \<and> counts ps (remaining_callers st2)"
  using assms(1,2) ks
proof (induction ks arbitrary: st')
  case (Cons k ks)
  let ?rest = "map (\<lambda>k. (c, k)) (filter (crosses cx c) ks) @ ps"
  obtain j where j: "map_of (component_by_member cx) k = Some j" "j \<noteq> i \<longrightarrow> k \<notin> set ids"
    using Cons.prems(3) by force
  obtain st1 where st1: "release_callee cx i k st' = Inr st1" "agree (live ?rest ids) st st1"
    "counts ?rest (remaining_callers st1)"
  proof (cases "j = i")
    case True
    then have "\<not> crosses cx c k" "release_callee cx i k st' = Inr st'"
      using c j by (simp_all add: crosses_def release_callee_def dict_index_def)
    then show ?thesis using Cons.prems(1,2) by (intro that [of st']) simp_all
  next
    case False
    then have "crosses cx c k" using c j by (simp add: crosses_def)
    then show ?thesis
      using release_callee_cross [of c k ?rest ids st st' cx j i] Cons.prems(1,2) j False that by auto
  qed
  then show ?case using Cons.IH [OF st1(2,3)] Cons.prems(3) by simp
qed simp

lemma release_members:
  assumes "agree (live (pending cx (map fact_id members) @ ps) ids) st st'"
    and "counts (pending cx (map fact_id members) @ ps) (remaining_callers st')"
    and "\<And>m. m \<in> set members \<Longrightarrow> map_of (component_by_member cx) (fact_id m) = Some i"
    and "\<And>m k. m \<in> set members \<Longrightarrow> k \<in> set (callee_ids cx (fact_id m)) \<Longrightarrow>
      \<exists>j. map_of (component_by_member cx) k = Some j \<and> (j \<noteq> i \<longrightarrow> k \<notin> set ids)"
  shows "\<exists>st2. rfold (\<lambda>caller. rfold (release_callee cx i) (callee_ids cx (fact_id caller))) members st'
      = Inr st2 \<and> agree (live ps ids) st st2 \<and> counts ps (remaining_callers st2)"
  using assms
proof (induction members arbitrary: st')
  case (Cons m ms)
  have "\<exists>j. map_of (component_by_member cx) k = Some j \<and> (j \<noteq> i \<longrightarrow> k \<notin> set ids)"
    if "k \<in> set (callee_ids cx (fact_id m))" for k using Cons.prems(4) [of m k] that by simp
  note rel = release_callees [where c = "fact_id m" and ks = "callee_ids cx (fact_id m)"
      and ps = "pending cx (map fact_id ms) @ ps" and ids = ids and i = i, OF _ _ _ this]
  obtain st1 where st1: "rfold (release_callee cx i) (callee_ids cx (fact_id m)) st' = Inr st1"
    "agree (live (pending cx (map fact_id ms) @ ps) ids) st st1"
    "counts (pending cx (map fact_id ms) @ ps) (remaining_callers st1)"
    using rel [of st st'] Cons.prems(1,2) Cons.prems(3) [of m] by auto
  have "\<exists>st2. rfold (\<lambda>caller. rfold (release_callee cx i) (callee_ids cx (fact_id caller))) ms st1
      = Inr st2 \<and> agree (live ps ids) st st2 \<and> counts ps (remaining_callers st2)"
    by (rule Cons.IH [OF st1(2,3)]) (use Cons.prems(3,4) in \<open>meson list.set_intros(2)\<close>)+
  then show ?case using st1(1) by simp
qed simp

lemma drop_component:
  assumes "agree (live ps (c @ ids)) st st'" "counts ps (remaining_callers st')" "set c \<inter> set ids = {}"
  shows "agree (live ps ids) st (fold (\<lambda>m st. if dict_get (remaining_callers st) m 0 = 0 then drop_facts m st else st) c st')
    \<and> counts ps (remaining_callers (fold (\<lambda>m st. if dict_get (remaining_callers st) m 0 = 0 then drop_facts m st else st) c st'))"
proof -
  have "agree (live ps ids) st st'" using assms(1) by (rule agree_mono) (auto simp: live_def)
  then show ?thesis using assms(2,3)
  proof (induction c arbitrary: st')
    case (Cons m c)
    let ?st = "if dict_get (remaining_callers st') m 0 = 0 then drop_facts m st' else st'"
    have "m \<notin> live ps ids" if "dict_get (remaining_callers st') m 0 = 0"
      using zero_count [OF Cons.prems(2) that] Cons.prems(3) by (simp add: live_def)
    then have "agree (live ps ids) st ?st" using agree_drop [OF Cons.prems(1)] Cons.prems(1) by simp
    moreover have "counts ps (remaining_callers ?st)" using Cons.prems(2) by simp
    ultimately show ?case using Cons.IH [of ?st] Cons.prems(3) by simp
  qed simp
qed

section \<open>One component in both modes\<close>

definition stream_inv ::
    "'z solver_context_scheme \<Rightarrow> nat \<Rightarrow> solver_state \<Rightarrow> solver_state \<Rightarrow> bool" where
  "stream_inv cx i st st' \<longleftrightarrow>
     (let ids = concat (drop i (components cx)) in
      agree (live (pending cx ids) ids) st st' \<and> counts (pending cx ids) (remaining_callers st'))"

lemma rel_sum_Inr: "rel_sum (=) R (Inr x) r' \<longleftrightarrow> (\<exists>y. r' = Inr y \<and> R x y)"
  by (cases r') auto

lemma solve_component_remaining:
  "frame S st st' \<Longrightarrow> remaining_callers st' = remaining_callers st"
  by (simp add: frame_def)

lemma called_live:
  assumes ctx: "context_ok cx summaries" and m: "m \<in> set summaries" "fact_id m \<in> set c"
    and c: "c = components cx ! i" "i < length (components cx)"
  shows "called_ids cx m \<subseteq> live (pending cx (c @ ids)) (c @ ids)"
proof
  fix k assume k: "k \<in> called_ids cx m"
  show "k \<in> live (pending cx (c @ ids)) (c @ ids)"
  proof (cases "k \<in> set c")
    case False
    have "map_of (component_by_member cx) k \<noteq> Some i"
    proof
      assume at: "map_of (component_by_member cx) k = Some i"
      have "k \<in> set (concat (components cx))" using k context_okD(5,7) [OF ctx] by blast
      then obtain c' where "c' \<in> set (components cx)" "k \<in> set c'" by auto
      then obtain j where "j < length (components cx)" "k \<in> set (components cx ! j)"
        by (metis in_set_conv_nth)
      then show False using context_okD(9) [OF ctx] at False c(1) by force
    qed
    then have "crosses cx (fact_id m) k"
      using context_okD(9) [OF ctx c(2)] m(2) c(1) by (simp add: crosses_def)
    then have "(fact_id m, k) \<in> set (pending cx c)"
      using m k context_okD(3) [OF ctx m(1)] by (force simp: pending_def)
    then show ?thesis by (force simp: live_def)
  qed (simp add: live_def)
qed

lemma position_of_callee:
  assumes ctx: "context_ok cx summaries" and m: "m \<in> set summaries" "fact_id m \<in> set (components cx ! i)"
    and i: "i < length (components cx)" and k: "k \<in> set (callee_ids cx (fact_id m))"
  shows "\<exists>j \<le> i. map_of (component_by_member cx) k = Some j \<and> k \<in> set (components cx ! j)"
proof -
  have "k \<in> set (call_graph (adjacency cx) (fact_id m))" using k by (simp add: call_graph_def callee_ids_def)
  then obtain j where "j \<le> i" "k \<in> set (components cx ! j)"
    using callees_firstD [OF sccs_okD(2) [OF context_okD(6) [OF ctx]] i m(2)] by blast
  then show ?thesis using context_okD(9) [OF ctx] i by auto
qed

lemma members_of_component:
  assumes ctx: "context_ok cx summaries" and c: "c \<in> set (components cx)"
  shows "\<exists>members. rmap (dict_index (summary_by_id cx)) c = Inr members
    \<and> map fact_id members = c \<and> set members \<subseteq> set summaries"
proof -
  have "\<exists>y. dict_index (summary_by_id cx) k = Inr y" if "k \<in> set c" for k
  proof -
    have "k \<in> fact_id ` set summaries" using that c context_okD(7) [OF ctx] by auto
    then show ?thesis using context_okD(2) [OF ctx] by auto
  qed
  then obtain members where members: "rmap (dict_index (summary_by_id cx)) c = Inr members"
    using rmap_total by blast
  then have "list_all2 (\<lambda>k s. s \<in> set summaries \<and> fact_id s = k) c members"
    using context_okD(2) [OF ctx] by (simp add: rmap_Inr_iff)
  then have "map fact_id members = c \<and> set members \<subseteq> set summaries"
    by (induction rule: list_all2_induct) auto
  with members show ?thesis by blast
qed

lemma release_ok:
  assumes ctx: "context_ok cx summaries" and i: "i < length (components cx)"
    and members: "map fact_id members = components cx ! i" "set members \<subseteq> set summaries"
    and L: "L = live (pending cx (concat (drop i (components cx)))) (concat (drop i (components cx)))"
    and st: "agree L st st'" "counts (pending cx (concat (drop i (components cx)))) (remaining_callers st')"
  shows "\<exists>st2. release_component cx i (components cx ! i) members st' = Inr st2 \<and> stream_inv cx (Suc i) st st2"
proof -
  let ?c = "components cx ! i" and ?ids = "concat (drop (Suc i) (components cx))"
  have drop: "concat (drop i (components cx)) = ?c @ ?ids"
    using i by (metis Cons_nth_drop_Suc concat.simps(2))
  have disj: "set (concat (take (Suc i) (components cx))) \<inter> set ?ids = {}"
    using sccs_okD(1) [OF context_okD(6) [OF ctx]]
    by (metis append_take_drop_id concat_append distinct_append)
  have "agree (live (pending cx (map fact_id members) @ pending cx ?ids) (?c @ ?ids)) st st'"
    "counts (pending cx (map fact_id members) @ pending cx ?ids) (remaining_callers st')"
    using st unfolding L drop members(1) by simp_all
  moreover have "map_of (component_by_member cx) (fact_id m) = Some i" if "m \<in> set members" for m
    using context_okD(9) [OF ctx i] members(1) that by (metis image_eqI set_map)
  moreover have "\<exists>j. map_of (component_by_member cx) k = Some j \<and> (j \<noteq> i \<longrightarrow> k \<notin> set (?c @ ?ids))"
    if m: "m \<in> set members" "k \<in> set (callee_ids cx (fact_id m))" for m k
  proof -
    have "m \<in> set summaries" "fact_id m \<in> set ?c" using m members by (auto simp flip: members(1))
    from position_of_callee [OF ctx this i m(2)]
    obtain j where j: "j \<le> i" "map_of (component_by_member cx) k = Some j" "k \<in> set (components cx ! j)" by blast
    have "k \<notin> set ?c" if "j \<noteq> i" using context_okD(9) [OF ctx i, of k] j(2) that by auto
    moreover have "k \<in> set (concat (take (Suc i) (components cx)))"
      unfolding in_concat_take using j(1,3) i by (intro exI [of _ j]) simp
    then have "k \<notin> set ?ids" using disj by blast
    ultimately show ?thesis using j(2) by auto
  qed
  ultimately obtain st1 where st1:
    "rfold (\<lambda>caller. rfold (release_callee cx i) (callee_ids cx (fact_id caller))) members st' = Inr st1"
    "agree (live (pending cx ?ids) (?c @ ?ids)) st st1" "counts (pending cx ?ids) (remaining_callers st1)"
    using release_members [of cx members "pending cx ?ids" "?c @ ?ids" st st' i] by blast
  have "set ?c \<inter> set ?ids = {}"
    using disj i by (auto simp: take_Suc_conv_app_nth)
  from drop_component [OF st1(2,3) this] st1(1) show ?thesis
    by (auto simp: release_component_def stream_inv_def Let_def)
qed

lemma stream_step:
  assumes ctx: "context_ok cx summaries" and i: "i < length (components cx)"
    and lims: "1 \<le> max_scc_iterations (limits cx)" "1 \<le> max_scc_size (limits cx)"
    and inv: "stream_inv cx i st st'"
  shows "rel_sum (=) (stream_inv cx (Suc i)) (process_component H cx True (i, components cx ! i) st)
           (process_component H cx False (i, components cx ! i) st')"
proof -
  let ?c = "components cx ! i"
  define L where "L = live (pending cx (concat (drop i (components cx)))) (concat (drop i (components cx)))"
  have st: "agree L st st'" "counts (pending cx (concat (drop i (components cx)))) (remaining_callers st')"
    using inv by (simp_all add: stream_inv_def L_def Let_def)
  obtain members where members: "rmap (dict_index (summary_by_id cx)) ?c = Inr members"
    "map fact_id members = ?c" "set members \<subseteq> set summaries"
    using members_of_component [OF ctx nth_mem [OF i]] by blast
  have drop: "concat (drop i (components cx)) = ?c @ concat (drop (Suc i) (components cx))"
    using i by (metis Cons_nth_drop_Suc concat.simps(2))
  have ids: "fact_id ` set members \<subseteq> L"
    unfolding L_def drop using members(2) by (auto simp: live_def simp flip: members(2))
  have calls: "called_ids cx m \<subseteq> L" if m: "m \<in> set members" for m
    unfolding L_def drop
    by (rule called_live [OF ctx _ _ refl i]) (use m members(2,3) in \<open>auto simp flip: members(2)\<close>)
  have solve: "agree_result L (solve_component H cx members st) (solve_component H cx members st')"
    by (rule agree_component [OF st(1) ids calls])
  have finish: "agree_result L (rfold (finish_summary H cx) members a) (rfold (finish_summary H cx) members b)"
    if "agree L a b" for a b
    by (rule rfold_rel [where R = "agree L", OF that])
      (use agree_finish context_okD(4) [OF ctx] members(3) calls ids in blast)
  have solved_frame: "remaining_callers b = remaining_callers st'"
    if "solve_component H cx members st' = Inr b" for b
    using solve_component_spec [OF ctx _ members(3) lims that] members(2) nth_mem [OF i]
    by (auto simp: frame_def)
  show ?thesis
    unfolding process_component_def Let_def prod.case members(1) rbind_simps if_True if_False
  proof (cases "solve_component H cx members st")
    case (Inl e)
    then show "rel_sum (=) (stream_inv cx (Suc i))
        (rbind (solve_component H cx members st) (\<lambda>st1. rbind (rfold (finish_summary H cx) members st1) Inr))
        (rbind (solve_component H cx members st') (\<lambda>st1.
           rbind (rfold (finish_summary H cx) members st1) (release_component cx i ?c members)))"
      using solve by (cases "solve_component H cx members st'") auto
  next
    case (Inr a)
    then obtain b where b: "solve_component H cx members st' = Inr b" "agree L a b"
      using solve by (auto simp: rel_sum_Inr)
    show "rel_sum (=) (stream_inv cx (Suc i))
        (rbind (solve_component H cx members st) (\<lambda>st1. rbind (rfold (finish_summary H cx) members st1) Inr))
        (rbind (solve_component H cx members st') (\<lambda>st1.
           rbind (rfold (finish_summary H cx) members st1) (release_component cx i ?c members)))"
    proof (cases "rfold (finish_summary H cx) members a")
      case (Inl e)
      then show ?thesis using finish [OF b(2)] b(1) Inr
        by (cases "rfold (finish_summary H cx) members b") auto
    next
      case (Inr a')
      then obtain b' where b': "rfold (finish_summary H cx) members b = Inr b'" "agree L a' b'"
        using finish [OF b(2)] by (auto simp: rel_sum_Inr)
      have "remaining_callers b' = remaining_callers st'"
        using finish_all_spec [OF b'(1)] solved_frame [OF b(1)] by simp
      then have "\<exists>st2. release_component cx i ?c members b' = Inr st2 \<and> stream_inv cx (Suc i) a' st2"
        using release_ok [OF ctx i members(2,3) L_def b'(2)] st(2) by simp
      then show ?thesis using \<open>solve_component H cx members st = Inr a\<close> Inr b(1) b'(1) by auto
    qed
  qed
qed

section \<open>Both modes over all components\<close>

lemma length_filter_concat:
  "distinct xs \<Longrightarrow> length (filter P (concat (map f xs))) = (\<Sum>x \<in> set xs. length (filter P (f x)))"
  by (induction xs) auto

lemma counts_inner:
  assumes "counts ps d" and "map_of (component_by_member cx) c \<noteq> None"
    and "\<And>k. k \<in> set ks \<Longrightarrow> map_of (component_by_member cx) k \<noteq> None"
  shows "\<exists>d'. rfold (\<lambda>callee_id d.
         rbind (dict_index (component_by_member cx) c) (\<lambda>i.
         rbind (dict_index (component_by_member cx) callee_id) (\<lambda>j.
           Inr (if i \<noteq> j then AList.update callee_id (dict_get d callee_id 0 + 1) d else d)))) ks d = Inr d'
     \<and> counts (ps @ map (\<lambda>k. (c, k)) (filter (crosses cx c) ks)) d'"
  using assms(1,3)
proof (induction ks arbitrary: ps d)
  case (Cons k ks)
  obtain i j where ij: "map_of (component_by_member cx) c = Some i" "map_of (component_by_member cx) k = Some j"
    using assms(2) Cons.prems(2) by fastforce
  have rest: "\<And>k. k \<in> set ks \<Longrightarrow> map_of (component_by_member cx) k \<noteq> None" using Cons.prems(2) by simp
  show ?case
  proof (cases "i = j")
    case True
    then have "\<not> crosses cx c k" using ij by (simp add: crosses_def)
    then show ?thesis using Cons.IH [OF Cons.prems(1) rest] ij True by (simp add: dict_index_def)
  next
    case False
    then have "crosses cx c k" using ij by (simp add: crosses_def)
    then show ?thesis using Cons.IH [OF counts_update [OF Cons.prems(1), of c k] rest] ij False
      by (simp add: dict_index_def)
  qed
qed simp

lemma counts_outer:
  assumes "counts ps d"
    and "\<And>c ks. (c, ks) \<in> set adj \<Longrightarrow> map_of (component_by_member cx) c \<noteq> None"
    and "\<And>c ks k. (c, ks) \<in> set adj \<Longrightarrow> k \<in> set ks \<Longrightarrow> map_of (component_by_member cx) k \<noteq> None"
  shows "\<exists>d'. rfold (\<lambda>(caller_id, callees). rfold (\<lambda>callee_id d.
         rbind (dict_index (component_by_member cx) caller_id) (\<lambda>i.
         rbind (dict_index (component_by_member cx) callee_id) (\<lambda>j.
           Inr (if i \<noteq> j then AList.update callee_id (dict_get d callee_id 0 + 1) d else d)))) callees)
       adj d = Inr d'
     \<and> counts (ps @ concat (map (\<lambda>(c, ks). map (\<lambda>k. (c, k)) (filter (crosses cx c) ks)) adj)) d'"
  using assms
proof (induction adj arbitrary: ps d)
  case (Cons a adj)
  obtain c ks where a: "a = (c, ks)" by (cases a)
  have c: "map_of (component_by_member cx) c \<noteq> None" using Cons.prems(2) [of c ks] a by simp
  have k: "\<And>k. k \<in> set ks \<Longrightarrow> map_of (component_by_member cx) k \<noteq> None"
    using Cons.prems(3) [of c ks] a by simp
  obtain d1 where d1: "rfold (\<lambda>callee_id d.
         rbind (dict_index (component_by_member cx) c) (\<lambda>i.
         rbind (dict_index (component_by_member cx) callee_id) (\<lambda>j.
           Inr (if i \<noteq> j then AList.update callee_id (dict_get d callee_id 0 + 1) d else d)))) ks d = Inr d1"
    "counts (ps @ map (\<lambda>k. (c, k)) (filter (crosses cx c) ks)) d1"
    using counts_inner [OF Cons.prems(1) c k] by blast
  have adj: "\<And>c ks. (c, ks) \<in> set adj \<Longrightarrow> map_of (component_by_member cx) c \<noteq> None"
    "\<And>c ks k. (c, ks) \<in> set adj \<Longrightarrow> k \<in> set ks \<Longrightarrow> map_of (component_by_member cx) k \<noteq> None"
    using Cons.prems(2,3) by (meson list.set_intros(2))+
  from Cons.IH [OF d1(2) adj] show ?case using d1(1) a by (simp add: split_beta)
qed simp

lemma count_callers_ok:
  assumes ctx: "context_ok cx summaries"
  shows "\<exists>d. count_callers cx = Inr d \<and> counts (pending cx (concat (components cx))) d"
proof -
  let ?adj = "adjacency cx" and ?ids = "concat (components cx)"
  let ?pairs = "\<lambda>c. map (\<lambda>k. (c, k)) (filter (crosses cx c) (callee_ids cx c))"
  have placed: "map_of (component_by_member cx) k \<noteq> None" if k: "k \<in> fact_id ` set summaries" for k
  proof -
    obtain c where "c \<in> set (components cx)" "k \<in> set c" using k context_okD(7) [OF ctx] by auto
    then obtain i where "i < length (components cx)" "k \<in> set (components cx ! i)" by (metis in_set_conv_nth)
    then show ?thesis using context_okD(9) [OF ctx] by simp
  qed
  have ks: "callee_ids cx c = ks" if "(c, ks) \<in> set ?adj" for c ks
    using that context_okD(10) [OF ctx] by (simp add: callee_ids_def dict_get_Some)
  have caller: "c \<in> fact_id ` set summaries" if "(c, ks) \<in> set ?adj" for c ks
    using that context_okD(11) [OF ctx] by force
  have start: "counts [] []" by (simp add: counts_def)
  have p1: "map_of (component_by_member cx) c \<noteq> None" if "(c, ks) \<in> set ?adj" for c ks
    using placed [OF caller [OF that]] .
  have p2: "map_of (component_by_member cx) k \<noteq> None" if "(c, ks) \<in> set ?adj" "k \<in> set ks" for c ks k
    using placed [of k] context_okD(12) [OF ctx, of c] ks [OF that(1)] that(2) by blast
  have "\<exists>d. count_callers cx = Inr d
      \<and> counts ([] @ concat (map (\<lambda>(c, ks). map (\<lambda>k. (c, k)) (filter (crosses cx c) ks)) ?adj)) d"
    unfolding count_callers_def by (rule counts_outer [OF start p1 p2])
  then obtain d where d: "count_callers cx = Inr d"
    "counts (concat (map (\<lambda>(c, ks). map (\<lambda>k. (c, k)) (filter (crosses cx c) ks)) ?adj)) d"
    by auto
  have pairs: "map (\<lambda>(c, ks). map (\<lambda>k. (c, k)) (filter (crosses cx c) ks)) ?adj = map ?pairs (map fst ?adj)"
    using ks by auto
  have d': "counts (concat (map ?pairs (map fst ?adj))) d" using d(2) unfolding pairs .
  have none: "?pairs c = []" if "c \<notin> set (map fst ?adj)" for c
    using that by (force simp: callee_ids_def dict_get_def split: option.split dest: map_of_SomeD)
  have "length (filter P (concat (map ?pairs ?ids))) = length (filter P (concat (map ?pairs (map fst ?adj))))"
    for P
  proof -
    let ?n = "\<lambda>c. length (filter P (?pairs c))"
    have "sum ?n (set ?ids) = sum ?n (set (map fst ?adj))"
      by (rule sum.mono_neutral_right) (use none context_okD(7,11) [OF ctx] in auto)
    then show ?thesis
      unfolding length_filter_concat [OF context_okD(10) [OF ctx]]
        length_filter_concat [OF sccs_okD(1) [OF context_okD(6) [OF ctx]]] .
  qed
  then have "counts (pending cx ?ids) d" using d' by (simp add: counts_def pending_def)
  with d(1) show ?thesis by blast
qed

lemma stream_run:
  assumes ctx: "context_ok cx summaries"
    and lims: "1 \<le> max_scc_iterations (limits cx)" "1 \<le> max_scc_size (limits cx)"
    and start: "stream_inv cx 0 s s'" and n: "n \<le> length (components cx)"
  shows "rel_sum (=) (stream_inv cx n)
     (rfold (process_component H cx True) (take n (enumerate 0 (components cx))) s)
     (rfold (process_component H cx False) (take n (enumerate 0 (components cx))) s')"
  using n
proof (induction n)
  case 0
  then show ?case using start by simp
next
  case (Suc n)
  let ?cs = "components cx"
  have snoc: "take (Suc n) (enumerate 0 ?cs) = take n (enumerate 0 ?cs) @ [(n, ?cs ! n)]"
    using Suc.prems by (simp add: take_Suc_conv_app_nth nth_enumerate_eq)
  have last: "rfold f [x] = f x" for f :: "nat \<times> string list \<Rightarrow> solver_state \<Rightarrow> solver_state result" and x
    by (rule ext) (simp add: rbind_def split: sum.split)
  show ?case unfolding snoc rfold_append last
    by (rule rbind_rel [OF Suc.IH]) (use Suc.prems stream_step [OF ctx _ lims] in simp_all)
qed

lemma facts_by_key_total: "\<exists>xs. facts_by_key d = Inr xs"
proof -
  have "\<exists>ys. rmap (dict_index d) (sort (map fst d)) = Inr ys"
    by (rule rmap_total) (use weak_map_of_SomeI in \<open>fastforce simp: dict_index_def split: option.split\<close>)
  then show ?thesis by (auto simp: facts_by_key_def)
qed

text \<open>The retained mode, with the facts it returned left out.\<close>

definition without_facts ::
    "interprocedural_solution \<times> emitted_summary list \<Rightarrow> interprocedural_solution \<times> emitted_summary list" where
  "without_facts r = ((fst r)\<lparr>sol_effects := [], sol_return_origins := []\<rparr>, snd r)"

lemma streaming_variant:
  assumes distinct: "distinct (map fact_id summaries)" and depth: "length summaries \<le> depth"
    and lims: "post_init_interprocedural_limits lims = Inr lims"
  shows "solve_variant H depth summaries les los bs rbs callsites targets lims True False
     = rbind (solve_variant H depth summaries les los bs rbs callsites targets lims True True)
         (\<lambda>r. Inr (without_facts r))"
proof -
  obtain cx where cx: "build_context depth summaries les los bs rbs callsites targets lims = Inr cx"
    "context_ok cx summaries" "limits cx = lims"
    using build_context_ok [OF distinct depth] by blast
  have lims': "1 \<le> max_scc_iterations (limits cx)" "1 \<le> max_scc_size (limits cx)"
    using lims cx(3) by (auto simp: post_init_interprocedural_limits_def split: if_splits)
  obtain d where d: "count_callers cx = Inr d" "counts (pending cx (concat (components cx))) d"
    using count_callers_ok [OF cx(2)] by blast
  let ?init = "initial_state cx summaries d" and ?run = "\<lambda>retain. rfold (process_component H cx retain)
    (enumerate 0 (components cx)) (initial_state cx summaries d)"
  have "stream_inv cx 0 ?init ?init"
    using d(2) by (simp add: stream_inv_def agree_def initial_state_def)
  from stream_run [OF cx(2) lims' this, of "length (components cx)"]
  have rel: "rel_sum (=) (stream_inv cx (length (components cx))) (?run True) (?run False)" by simp
  show ?thesis
  proof (cases "?run True")
    case (Inl e)
    then have "?run False = Inl e" using rel by (cases "?run False") auto
    then show ?thesis using Inl cx(1) d(1) by (simp add: solve_variant_def)
  next
    case (Inr st)
    then obtain st' where st': "?run False = Inr st'" "flows st = flows st'"
      "final_summaries st = final_summaries st'" "emitted st = emitted st'"
      using rel by (auto simp: rel_sum_Inr stream_inv_def agree_def Let_def)
    obtain es os where facts: "facts_by_key (current_effects st) = Inr es"
      "facts_by_key (current_origins st) = Inr os"
      using facts_by_key_total [of "current_effects st"] facts_by_key_total [of "current_origins st"]
      by blast
    then show ?thesis using Inr st' cx(1) d(1) by (simp add: solve_variant_def without_facts_def)
  qed
qed

end
