(* ===== verification/SolverSpec.thy ===== *)
theory SolverSpec
imports Streaming
begin

text \<open>
  The guarantees of \<open>_solve_variant\<close> and \<open>solve_interprocedural\<close> as a caller sees them: what a
  complete summary vouches for, that completeness is inherited along call chains, that streaming
  changes nothing that is emitted, and what the component algorithm returns on the call graph.
\<close>

section \<open>A sample variant\<close>

text \<open>
  Two functions, \<open>f\<close> calling \<open>g\<close>, and one local write of \<open>g\<close> to a global: the concrete input of
  the witnesses.  The digest is constant, which the results allow.
\<close>

definition sample_span :: source_span where
  "sample_span = \<lparr>span_path = ''a.cpp'', start_line = 1, end_line = 1, start_column = 1, end_column = 1\<rparr>"

definition sample_summary :: "string \<Rightarrow> string \<Rightarrow> function_summary" where
  "sample_summary summary_id function_id =
     \<lparr>fact_id = summary_id, translation_unit_id = ''tu'', build_configuration_id = ''bc'',
      build_variant = ''v'', fs_function_symbol_id = function_id, fs_graph_id = ''cfg'',
      fs_analysis_id = ''an'', fs_parameter_modes = [], fs_parameter_location_ids = [],
      fs_local_complete = True, fs_local_incomplete_reasons = [], fs_complete = True,
      fs_incomplete_reasons = [], fs_recursive = False, fs_iteration_count = 0,
      fs_max_scc_iterations = 32, fs_max_scc_size = 128, fs_max_summary_effects = 1024,
      fs_solution_hash = []\<rparr>"

definition sample_summaries :: "function_summary list" where
  "sample_summaries = [sample_summary ''s1'' ''f'', sample_summary ''s2'' ''g'']"

definition sample_effects :: "summary_effect list" where
  "sample_effects =
     [\<lparr>fact_id = ''e'', translation_unit_id = ''tu'', build_configuration_id = ''bc'',
       build_variant = ''v'', se_summary_id = ''s2'', se_kind = EFFECT_WRITE,
       se_location_kind = LOC_GLOBAL, se_certainty = CERTAIN, se_reason = ''assignment'',
       se_parameter_index = None, se_access_path = [], se_location_id = Some ''loc'',
       se_source_access_id = Some ''acc'', se_is_local = True, se_via_callsite_id = None,
       se_target_symbol_id = None\<rparr>]"

definition sample_sites :: "call_site list" where
  "sample_sites =
     [\<lparr>fact_id = ''c'', translation_unit_id = ''tu'', build_configuration_id = ''bc'',
       build_variant = ''v'', cs_owner_symbol_id = ''f'', cs_dispatch_kind = CALL_DIRECT,
       cs_spelling_span = None, cs_expansion_span = sample_span, cs_target_set_complete = True,
       cs_static_target_symbol_id = None, cs_unresolved_reason = [], cs_callee_text = [],
       cs_expansion_stack = []\<rparr>]"

definition sample_targets :: "call_target list" where
  "sample_targets =
     [\<lparr>fact_id = ''t'', translation_unit_id = ''tu'', build_configuration_id = ''bc'',
       build_variant = ''v'', ct_callsite_id = ''c'', ct_target_symbol_id = ''g'',
       ct_certainty = TARGET_CERTAIN, ct_confidence = Finite 1, ct_confidence_reason = ''direct'',
       ct_derivation = ''clang'', ct_evidence_span = sample_span\<rparr>]"

definition sample_variant :: "bool \<Rightarrow> (interprocedural_solution \<times> emitted_summary list) result" where
  "sample_variant retain = solve_variant (\<lambda>_. ''h'') 2 sample_summaries sample_effects [] [] []
     sample_sites sample_targets default_limits True retain"

lemma sample_inputs:
  "distinct (map fact_id sample_summaries)" "length sample_summaries \<le> 2"
  "post_init_interprocedural_limits default_limits = Inr default_limits"
  by code_simp+

lemma sample_variant_runs:
  "\<exists>sol trace solved es os. sample_variant False = Inr (sol, trace) \<and> (solved, es, os) \<in> set trace
     \<and> fact_id solved = ''s1'' \<and> fs_complete solved \<and> map fact_id es = [''summary_effect_h'']"
proof -
  have "case sample_variant False of Inl _ \<Rightarrow> False
    | Inr (_, trace) \<Rightarrow> list_ex (\<lambda>(s, es, _). fact_id s = ''s1'' \<and> fs_complete s
        \<and> map fact_id es = [''summary_effect_h'']) trace"
    by code_simp
  then show ?thesis by (fastforce simp: list_ex_iff split: sum.splits)
qed

section \<open>Complete summaries\<close>

lemma solve_variant_state:
  assumes run: "solve_variant H depth summaries les los bs rbs callsites targets lims True True = Inr (sol, trace)"
    and distinct: "distinct (map fact_id summaries)" and depth: "length summaries \<le> depth"
    and lims: "post_init_interprocedural_limits lims = Inr lims"
  shows "\<exists>cx st z. context_ok cx summaries \<and> limits cx = lims
    \<and> cx = call_index.extend (build_index summaries bs rbs callsites targets) z
    \<and> solved_inv H cx summaries (fact_id ` set summaries) st \<and> trace = emitted st"
proof -
  obtain cx z where cx: "build_context depth summaries les los bs rbs callsites targets lims = Inr cx"
    "context_ok cx summaries" "limits cx = lims"
    "cx = call_index.extend (build_index summaries bs rbs callsites targets) z"
    using build_context_ok [OF distinct depth] by blast
  have lims': "1 \<le> max_scc_iterations (limits cx)" "1 \<le> max_scc_size (limits cx)"
    using lims cx(3) by (auto simp: post_init_interprocedural_limits_def split: if_splits)
  obtain d st where st: "rfold (process_component H cx True) (enumerate 0 (components cx))
      (initial_state cx summaries d) = Inr st" "trace = emitted st"
    using run cx(1) by (auto simp: solve_variant_def rbind_eq_Inr)
  have "solved_inv H cx summaries (set (concat (components cx))) st"
    using solved_inv_run [OF cx(2) lims', of H "length (components cx)"] st(1) by simp
  then show ?thesis using cx(2-4) st(2) context_okD(7) [OF cx(2)] by auto
qed

text \<open>Either mode emits the records of the retained one.\<close>

lemma retained_trace:
  assumes run: "solve_variant H depth summaries les los bs rbs callsites targets lims True retain = Inr (sol, trace)"
    and distinct: "distinct (map fact_id summaries)" and depth: "length summaries \<le> depth"
    and lims: "post_init_interprocedural_limits lims = Inr lims"
  shows "\<exists>sol'. solve_variant H depth summaries les los bs rbs callsites targets lims True True = Inr (sol', trace)"
proof (cases retain)
  case False
  then show ?thesis using run streaming_variant [OF distinct depth lims, of H les los bs rbs callsites targets]
    by (auto simp: rbind_eq_Inr without_facts_def)
qed (use run in auto)

lemma complete_summary_accounts:
  assumes run: "solve_variant H depth summaries les los bs rbs callsites targets lims True retain = Inr (sol, trace)"
    and distinct: "distinct (map fact_id summaries)" and depth: "length summaries \<le> depth"
    and lims: "post_init_interprocedural_limits lims = Inr lims"
    and rec: "(solved, es, os) \<in> set trace" and complete: "fs_complete solved"
  shows "\<exists>caller \<in> set summaries. fact_id caller = fact_id solved
    \<and> accounted_in H (build_index summaries bs rbs callsites targets) caller es trace
    \<and> int (length es) \<le> max_summary_effects lims"
proof -
  obtain sol' where "solve_variant H depth summaries les los bs rbs callsites targets lims True True = Inr (sol', trace)"
    using retained_trace [OF run distinct depth lims] by blast
  then obtain cx st z where cx: "context_ok cx summaries" "limits cx = lims"
    "cx = call_index.extend (build_index summaries bs rbs callsites targets) z"
    "solved_inv H cx summaries (fact_id ` set summaries) st" "trace = emitted st"
    using solve_variant_state [OF _ distinct depth lims] by blast
  show ?thesis
    using complete_accounted [OF cx(1,4), of solved es os] rec complete cx(2,3,5) by auto
qed



text \<open>
  Property C2.  Completeness is closed under calls: from a summary reported complete, every
  function the call graph of the variant reaches, through any number of calls and through
  recursion, has an emitted summary that is reported complete too.
\<close>

theorem complete_along_calls:
  assumes run: "solve_variant H depth summaries les los bs rbs callsites targets lims True retain = Inr (sol, trace)"
    and distinct: "distinct (map fact_id summaries)" and depth: "length summaries \<le> depth"
    and lims: "post_init_interprocedural_limits lims = Inr lims"
    and rec: "(solved, es, os) \<in> set trace" and complete: "fs_complete solved"
    and path: "(fact_id solved, k) \<in> (edges (variant_graph summaries bs rbs callsites targets))\<^sup>*"
  shows "\<exists>(solved', es', os') \<in> set trace. fact_id solved' = k \<and> fs_complete solved'"
  using path
proof (induction rule: rtrancl_induct)
  case base
  then show ?case using rec complete by force
next
  case (step k l)
  let ?ix = "build_index summaries bs rbs callsites targets"
  obtain s es' os' where s: "(s, es', os') \<in> set trace" "fact_id s = k" "fs_complete s" using step.IH by auto
  obtain caller where caller: "caller \<in> set summaries" "fact_id caller = k"
    "accounted_in H ?ix caller es' trace"
    using complete_summary_accounts [OF run distinct depth lims s(1,3)] s(2) by blast
  have "l \<in> called_ids ?ix caller"
    using step.hyps(2) call_edges_of_summary [OF distinct caller(1), of ?ix] caller(2)
    by (simp add: edges_def variant_graph_def call_graph_def adjacency_get called_ids_def)
  then obtain edge where "edge \<in> set (edges_of ?ix caller)" "l = fact_id (edge_callee edge)"
    by (auto simp: called_ids_def)
  then show ?case using caller(3) by (fastforce simp: accounted_in_def list_all_iff list_ex_iff)
qed

theorem complete_along_calls_witness:
  "\<exists>sol trace. sample_variant False = Inr (sol, trace)
     \<and> (\<exists>(solved', es', os') \<in> set trace. fact_id solved' = ''s2'' \<and> fs_complete solved')"
proof -
  obtain sol trace solved es os where s: "sample_variant False = Inr (sol, trace)"
    "(solved, es, os) \<in> set trace" "fact_id solved = ''s1''" "fs_complete solved"
    using sample_variant_runs by (elim exE conjE) (rule that)
  have "''s2'' \<in> set (variant_graph sample_summaries [] [] sample_sites sample_targets ''s1'')"
    by code_simp
  then have "(fact_id solved, ''s2'')
      \<in> (edges (variant_graph sample_summaries [] [] sample_sites sample_targets))\<^sup>*"
    using s(3) by (auto simp: edges_def)
  with complete_along_calls [OF s(1) [unfolded sample_variant_def] sample_inputs s(2,4)] s(1)
  show ?thesis by blast
qed

section \<open>Streaming\<close>

lemma in_variant_distinct:
  "distinct (map fact_id xs) \<Longrightarrow> distinct (map fact_id (in_variant v xs))"
  by (simp add: in_variant_def distinct_map_filter)

lemma in_variant_length: "length (in_variant v xs) \<le> length xs"
  by (simp add: in_variant_def)

text \<open>
  Property C3.  Streaming is transparent: for every input, solving with
  \<open>retain_emitted_facts=False\<close> emits exactly the records that the retained mode emits, in the
  same order, with the same solved summaries and flows (or raises the same error); only the
  returned fact lists are empty.
\<close>

theorem streaming_transparent:
  assumes distinct: "distinct (map fact_id summaries)" and depth: "length summaries \<le> depth"
    and lims: "post_init_interprocedural_limits lims = Inr lims"
  shows "solve_interprocedural H depth summaries les los bs rbs callsites targets lims True False
     = rbind (solve_interprocedural H depth summaries les los bs rbs callsites targets lims True True)
         (\<lambda>r. Inr (without_facts r))"
proof -
  define R where "R = (\<lambda>r r' :: interprocedural_solution \<times> emitted_summary list. r' = without_facts r)"
  let ?step = "\<lambda>retain v (sol, trace).
         rbind (solve_variant H depth (in_variant v summaries) (in_variant v les)
                  (in_variant v los) (in_variant v bs) (in_variant v rbs)
                  (in_variant v callsites) (in_variant v targets) lims True retain) (\<lambda>(s, tr).
           Inr (\<lparr>sol_summaries = sol_summaries sol @ sol_summaries s,
                 sol_effects = sol_effects sol @ sol_effects s,
                 sol_return_origins = sol_return_origins sol @ sol_return_origins s,
                 sol_flows = sol_flows sol @ sol_flows s\<rparr>, trace @ tr))"
  have step: "rel_sum (=) R (?step True v r) (?step False v r')" if "R r r'" for v r r'
  proof -
    have "solve_variant H depth (in_variant v summaries) (in_variant v les)
        (in_variant v los) (in_variant v bs) (in_variant v rbs)
        (in_variant v callsites) (in_variant v targets) lims True False
      = rbind (solve_variant H depth (in_variant v summaries) (in_variant v les)
        (in_variant v los) (in_variant v bs) (in_variant v rbs)
        (in_variant v callsites) (in_variant v targets) lims True True) (\<lambda>r. Inr (without_facts r))"
      by (rule streaming_variant [OF in_variant_distinct [OF distinct] _ lims])
        (rule le_trans [OF in_variant_length depth])
    then show ?thesis using that
      by (cases r) (auto simp: R_def without_facts_def rbind_def split: sum.split)
  qed
  let ?vs = "sort (remdups (map build_variant summaries))"
  let ?init = "(\<lparr>sol_summaries = [], sol_effects = [], sol_return_origins = [], sol_flows = []\<rparr>, [])"
  have "rel_sum (=) R (rfold (?step True) ?vs ?init) (rfold (?step False) ?vs ?init)"
    by (rule rfold_rel [where R = R]) (use step in \<open>simp_all add: R_def without_facts_def\<close>)
  then show ?thesis
    unfolding solve_interprocedural_def
    by (cases "rfold (?step True) ?vs ?init"; cases "rfold (?step False) ?vs ?init")
      (auto simp: R_def without_facts_def)
qed

theorem streaming_transparent_witness:
  "case solve_interprocedural (\<lambda>_. ''h'') 2 sample_summaries sample_effects [] [] [] sample_sites
      sample_targets default_limits True False of
     Inl _ \<Rightarrow> False
   | Inr (sol, trace) \<Rightarrow> map (\<lambda>(s, _, _). fact_id s) trace = [''s2'', ''s1''] \<and> sol_effects sol = []"
  unfolding streaming_transparent [OF sample_inputs] by code_simp

text \<open>
  Property C4.  The shortcut for a function that never calls itself, which transfers once and
  fabricates the iteration metadata, computes exactly what the generic fixed-point loop computes:
  the same facts, reasons and iteration count, or the same error.
\<close>

theorem singleton_shortcut_equiv:
  assumes "fact_id caller \<notin> called_ids (cx :: solver_context) caller"
    and "fact_id caller \<notin> set (oversized_ids cx)"
    and "1 \<le> max_scc_iterations (limits cx)"
  shows "solve_singleton H cx caller st = solve_recursive H cx [caller] st"
  using assms by (rule singleton_generic)

theorem singleton_shortcut_equiv_witness:
  "\<exists>cx. build_context 2 sample_summaries sample_effects [] [] [] sample_sites sample_targets default_limits
       = Inr cx
     \<and> solve_singleton (\<lambda>_. ''h'') cx (sample_summary ''s1'' ''f'') (initial_state cx sample_summaries [])
       = solve_recursive (\<lambda>_. ''h'') cx [sample_summary ''s1'' ''f''] (initial_state cx sample_summaries [])"
proof -
  have "case build_context 2 sample_summaries sample_effects [] [] [] sample_sites sample_targets default_limits
    of Inl _ \<Rightarrow> False
     | Inr cx \<Rightarrow> fact_id (sample_summary ''s1'' ''f'') \<notin> called_ids cx (sample_summary ''s1'' ''f'')
         \<and> fact_id (sample_summary ''s1'' ''f'') \<notin> set (oversized_ids cx)
         \<and> 1 \<le> max_scc_iterations (limits cx)"
    by code_simp
  then obtain cx where cx: "build_context 2 sample_summaries sample_effects [] [] [] sample_sites
      sample_targets default_limits = Inr cx"
    "fact_id (sample_summary ''s1'' ''f'') \<notin> called_ids cx (sample_summary ''s1'' ''f'')"
    "fact_id (sample_summary ''s1'' ''f'') \<notin> set (oversized_ids cx)"
    "1 \<le> max_scc_iterations (limits cx)"
    by (auto split: sum.splits)
  show ?thesis using cx(1) singleton_shortcut_equiv [OF cx(2-4)] by blast
qed

section \<open>The component order\<close>

text \<open>
  Property C5.  On the call graph of a variant \<open>_tarjan\<close> returns whenever the interpreter allows
  as many nested calls as there are functions, its components partition the functions, each is
  exactly one strongly connected component in sorted order, and every callee of a component lies
  in that component or in an earlier one.
\<close>

theorem tarjan_components:
  assumes "card (fact_id ` set summaries) \<le> depth"
  shows "\<exists>comps. tarjan depth (map fact_id summaries) (variant_graph summaries bs rbs callsites targets) = Inr comps
    \<and> distinct (concat comps) \<and> set (concat comps) = fact_id ` set summaries
    \<and> list_all (\<lambda>c. sorted c \<and> (\<exists>x. set c = {y.
          (x, y) \<in> (edges (variant_graph summaries bs rbs callsites targets))\<^sup>*
          \<and> (y, x) \<in> (edges (variant_graph summaries bs rbs callsites targets))\<^sup>*})) comps
    \<and> callees_first (variant_graph summaries bs rbs callsites targets) comps"
proof -
  let ?adj = "variant_graph summaries bs rbs callsites targets"
  obtain comps where c: "tarjan depth (map fact_id summaries) ?adj = Inr comps" "sccs_ok ?adj comps"
    "set (concat comps) = fact_id ` set summaries"
    using call_digraph.tarjan_total [of "map fact_id summaries" summaries depth bs rbs callsites targets] assms
    by auto
  have "sorted c \<and> (\<exists>x. set c = {y. (x, y) \<in> (edges ?adj)\<^sup>* \<and> (y, x) \<in> (edges ?adj)\<^sup>*})"
    if "c \<in> set comps" for c
    using sccs_ok_component [OF c(2) that, of "hd c"] sccs_okD(3) [OF c(2) that] by (metis list.set_sel(1))
  then show ?thesis using c sccs_okD(1,2) [OF c(2)] by (auto simp: list_all_iff)
qed

theorem tarjan_components_witness:
  "\<exists>comps. tarjan 2 [''s1'', ''s2''] (variant_graph sample_summaries [] [] sample_sites sample_targets) = Inr comps
     \<and> callees_first (variant_graph sample_summaries [] [] sample_sites sample_targets) comps
     \<and> comps = [[''s2''], [''s1'']]"
proof -
  have ids: "map fact_id sample_summaries = [''s1'', ''s2'']" by code_simp
  have "card (fact_id ` set sample_summaries) \<le> 2"
    using card_length [of "map fact_id sample_summaries"] by (simp add: sample_summaries_def)
  from tarjan_components [OF this, of "[]" "[]" sample_sites sample_targets]
  obtain comps where comps: "tarjan 2 [''s1'', ''s2''] (variant_graph sample_summaries [] [] sample_sites sample_targets) = Inr comps"
    "callees_first (variant_graph sample_summaries [] [] sample_sites sample_targets) comps"
    unfolding ids by blast
  have "tarjan 2 [''s1'', ''s2''] (variant_graph sample_summaries [] [] sample_sites sample_targets)
      = Inr [[''s2''], [''s1'']]"
    by code_simp
  with comps show ?thesis by simp
qed

end
