(* ===== verification/Text.thy ===== *)
theory Text
imports Identity
begin

text \<open>
  The text routines the readers use: \<open>bytes.decode("utf-8")\<close> with both error handlers,
  \<open>str.splitlines\<close>, universal newlines, \<open>split\<close> on one separator and POSIX path arithmetic of
  \<open>pathlib\<close>.  Decoded file contents range over all code points, so they are lists of naturals;
  every other string is a \<^typ>\<open>string\<close>.
\<close>

section \<open>UTF-8 decoding\<close>

definition bytes_of :: "string \<Rightarrow> nat list" where
  "bytes_of s = map of_char s"

text \<open>The admissible continuation bytes after a lead byte; empty for an invalid lead.\<close>

definition continuations :: "nat \<Rightarrow> (nat \<times> nat) list" where
  "continuations b =
     (if 194 \<le> b \<and> b \<le> 223 then [(128, 191)]
      else if b = 224 then [(160, 191), (128, 191)]
      else if b = 237 then [(128, 159), (128, 191)]
      else if 225 \<le> b \<and> b \<le> 239 then [(128, 191), (128, 191)]
      else if b = 240 then [(144, 191), (128, 191), (128, 191)]
      else if 241 \<le> b \<and> b \<le> 243 then [(128, 191), (128, 191), (128, 191)]
      else if b = 244 then [(128, 143), (128, 191), (128, 191)]
      else [])"

fun match_continuations :: "(nat \<times> nat) list \<Rightarrow> nat list \<Rightarrow> nat list \<times> bool" where
  "match_continuations [] bs = ([], True)"
| "match_continuations (r # rs) [] = ([], False)"
| "match_continuations (r # rs) (b # bs) =
     (if fst r \<le> b \<and> b \<le> snd r
      then let (cs, ok) = match_continuations rs bs in (b # cs, ok) else ([], False))"

definition code_point :: "nat \<Rightarrow> nat list \<Rightarrow> nat" where
  "code_point b cs =
     fold (\<lambda>c n. n * 64 + (c - 128)) cs
       (if b < 224 then b - 192 else if b < 240 then b - 224 else b - 240)"

definition REPLACEMENT :: nat where "REPLACEMENT = 65533"

text \<open>
  \<open>decode("utf-8", errors="replace")\<close>: one U+FFFD per maximal invalid prefix.  The second
  component tells whether the input was valid, when the strict handler succeeds.
\<close>

function decode_replace :: "nat list \<Rightarrow> nat list \<times> bool" where
  "decode_replace [] = ([], True)"
| "decode_replace (b # bs) =
     (if b < 128 then let (t, ok) = decode_replace bs in (b # t, ok)
      else let rs = continuations b in
        if rs = [] then let (t, ok) = decode_replace bs in (REPLACEMENT # t, False)
        else let (cs, complete) = match_continuations rs bs;
                 (t, ok) = decode_replace (drop (length cs) bs) in
          ((if complete then code_point b cs else REPLACEMENT) # t, complete \<and> ok))"
  by pat_completeness auto
termination by (relation "measure length") auto

definition utf8_decode :: "string \<Rightarrow> nat list result" where
  "utf8_decode bs = (let (t, ok) = decode_replace (bytes_of bs) in
     if ok then Inr t else Inl (ValueError ''utf-8 codec cannot decode''))"

lemma match_continuations_two:
  "continuations b = [(128, 191)] \<Longrightarrow> 128 \<le> c \<Longrightarrow> c \<le> 191 \<Longrightarrow>
    match_continuations (continuations b) (c # bs) = ([c], True)"
  by simp

lemma decode_replace_char:
  assumes "n < 256"
  shows "decode_replace ((if n < 128 then [n] else [192 + n div 64, 128 + n mod 64]) @ bs)
    = (let (t, ok) = decode_replace bs in (n # t, ok))"
proof (cases "n < 128")
  case False
  have range: "194 \<le> 192 + n div 64" "192 + n div 64 \<le> 223" "128 + n mod 64 \<le> 191"
    using assms False by simp_all
  then have "continuations (192 + n div 64) = [(128, 191)]" by (simp add: continuations_def)
  moreover have "code_point (192 + n div 64) [128 + n mod 64] = n"
    using range by (simp add: code_point_def)
  ultimately show ?thesis using range False by simp
qed simp

text \<open>Decoding inverts encoding.\<close>

lemma decode_replace_utf8: "decode_replace (bytes_of (utf8 s)) = (bytes_of s, True)"
proof (induction s)
  case (Cons c s)
  have "bytes_of (utf8 (c # s)) = (let n = (of_char c :: nat) in
      if n < 128 then [n] else [192 + n div 64, 128 + n mod 64]) @ bytes_of (utf8 s)"
    by (simp add: utf8_def bytes_of_def utf8_char_bytes del: of_char_eq_iff)
  moreover have "(of_char c :: nat) < 256" by (rule nat_of_char_less_256)
  ultimately show ?case using Cons decode_replace_char [of "of_char c" "bytes_of (utf8 s)"]
    by (simp add: Let_def bytes_of_def)
qed (simp add: bytes_of_def utf8_def)

section \<open>Lines and separators\<close>

definition line_break :: "nat \<Rightarrow> bool" where
  "line_break c = (c \<in> {10, 11, 12, 13, 28, 29, 30, 133, 8232, 8233})"

text \<open>\<open>str.splitlines()\<close>; the first argument is the current line, reversed.\<close>

fun lines_from :: "nat list \<Rightarrow> nat list \<Rightarrow> nat list list" where
  "lines_from line [] = (if line = [] then [] else [rev line])"
| "lines_from line (c # cs) =
     (if c = 13 then rev line # lines_from [] (if cs \<noteq> [] \<and> hd cs = 10 then tl cs else cs)
      else if line_break c then rev line # lines_from [] cs
      else lines_from (c # line) cs)"

definition splitlines :: "nat list \<Rightarrow> nat list list" where
  "splitlines cs = lines_from [] cs"

text \<open>The newline translation of text-mode reads.\<close>

fun universal_newlines :: "nat list \<Rightarrow> nat list" where
  "universal_newlines [] = []"
| "universal_newlines (c # cs) =
     (if c = 13 then 10 # universal_newlines (if cs \<noteq> [] \<and> hd cs = 10 then tl cs else cs)
      else c # universal_newlines cs)"

lemma splitlines_universal_newlines: "splitlines (universal_newlines cs) = splitlines cs"
proof -
  have "lines_from line (universal_newlines cs) = lines_from line cs" for line
    by (induction line cs rule: lines_from.induct) (auto simp: line_break_def)
  then show ?thesis by (simp add: splitlines_def)
qed

text \<open>\<open>s.split(c)\<close> for one separator: always at least one part.\<close>

fun split_on :: "'a \<Rightarrow> 'a list \<Rightarrow> 'a list list" where
  "split_on c [] = [[]]"
| "split_on c (x # xs) =
     (if x = c then [] # split_on c xs
      else case split_on c xs of p # ps \<Rightarrow> (x # p) # ps | [] \<Rightarrow> [[x]])"

lemma split_on_nonempty [simp]: "split_on c xs \<noteq> []"
  by (induction xs) (auto split: list.splits)

lemma split_on_no_sep: "p \<in> set (split_on c xs) \<Longrightarrow> c \<notin> set p"
  by (induction xs arbitrary: p) (auto split: list.splits if_splits)

lemma split_on_free: "c \<notin> set xs \<Longrightarrow> split_on c xs = [xs]"
  by (induction xs) auto

lemma split_on_append_sep: "c \<notin> set p \<Longrightarrow> split_on c (p @ c # xs) = p # split_on c xs"
  by (induction p) auto

lemma join_split_on: "join [c] (split_on c xs) = xs"
proof (induction xs)
  case (Cons x xs)
  obtain p ps where s: "split_on c xs = p # ps" by (cases "split_on c xs") auto
  show ?case using Cons s by (cases ps) auto
qed simp

lemma split_on_join: "ps \<noteq> [] \<Longrightarrow> \<forall>p \<in> set ps. c \<notin> set p \<Longrightarrow> split_on c (join [c] ps) = ps"
  by (induction "[c]" ps rule: join.induct) (auto simp: split_on_free split_on_append_sep)

section \<open>POSIX paths\<close>

text \<open>
  A \<open>Path\<close> is its text.  \<open>path_parts\<close> are the components \<open>pathlib\<close> keeps: separators collapse
  and single dots vanish, double dots stay.
\<close>

definition SEP :: char where "SEP = CHR ''/''"

definition is_absolute :: "string \<Rightarrow> bool" where
  "is_absolute p = starts_with p [SEP]"

definition path_parts :: "string \<Rightarrow> string list" where
  "path_parts p = filter (\<lambda>c. c \<noteq> [] \<and> c \<noteq> ''.'') (split_on SEP p)"

definition relative_text :: "string list \<Rightarrow> string" where
  "relative_text parts = (if parts = [] then ''.'' else join [SEP] parts)"

definition absolute_text :: "string list \<Rightarrow> string" where
  "absolute_text parts = SEP # join [SEP] parts"

definition py_path :: "string \<Rightarrow> string" where
  "py_path p = (if is_absolute p then absolute_text (path_parts p) else relative_text (path_parts p))"

text \<open>\<open>directory / p\<close> and \<open>path.parent\<close>.\<close>

definition path_join :: "string \<Rightarrow> string \<Rightarrow> string" where
  "path_join directory p = (if is_absolute p then py_path p else py_path (directory @ [SEP] @ p))"

definition path_parent :: "string \<Rightarrow> string" where
  "path_parent p = (if is_absolute p then absolute_text (butlast (path_parts p))
     else relative_text (butlast (path_parts p)))"

definition is_relative_to :: "string \<Rightarrow> string \<Rightarrow> bool" where
  "is_relative_to p base =
     (is_absolute p = is_absolute base \<and> take (length (path_parts base)) (path_parts p) = path_parts base)"

definition relative_to :: "string \<Rightarrow> string \<Rightarrow> string" where
  "relative_to p base = relative_text (drop (length (path_parts base)) (path_parts p))"

definition valid_part :: "string \<Rightarrow> bool" where
  "valid_part c = (c \<noteq> [] \<and> c \<noteq> ''.'' \<and> SEP \<notin> set c)"

lemma path_parts_valid: "list_all valid_part (path_parts p)"
  by (auto simp: path_parts_def valid_part_def list_all_iff dest: split_on_no_sep)

lemma path_parts_join: "ps \<noteq> [] \<Longrightarrow> list_all valid_part ps \<Longrightarrow> path_parts (join [SEP] ps) = ps"
  by (simp add: path_parts_def split_on_join valid_part_def list_all_iff filter_id_conv)

lemma path_parts_absolute_text [simp]:
  "list_all valid_part ps \<Longrightarrow> path_parts (absolute_text ps) = ps"
  using path_parts_join [of ps]
  by (cases ps) (simp_all add: absolute_text_def path_parts_def)

lemma path_parts_relative_text [simp]:
  "list_all valid_part ps \<Longrightarrow> path_parts (relative_text ps) = ps"
  using path_parts_join [of ps]
  by (cases "ps = []") (simp_all add: relative_text_def path_parts_def SEP_def)

lemma is_absolute_absolute_text [simp]: "is_absolute (absolute_text ps)"
  by (simp add: is_absolute_def absolute_text_def starts_with_def)

lemma relative_text_not_absolute: "list_all valid_part ps \<Longrightarrow> \<not> is_absolute (relative_text ps)"
proof -
  assume v: "list_all valid_part ps"
  show ?thesis
  proof (cases ps)
    case (Cons p qs)
    then obtain c cs where "p = c # cs" "c \<noteq> SEP" using v by (cases p) (auto simp: valid_part_def)
    then show ?thesis using Cons
      by (cases qs) (auto simp: relative_text_def is_absolute_def starts_with_def)
  qed (simp add: relative_text_def is_absolute_def starts_with_def SEP_def)
qed

lemma relative_text_inj:
  "list_all valid_part ps \<Longrightarrow> list_all valid_part qs \<Longrightarrow> relative_text ps = relative_text qs \<longleftrightarrow> ps = qs"
  by (metis path_parts_relative_text)

lemma list_all_drop: "list_all P xs \<Longrightarrow> list_all P (drop n xs)"
  by (auto simp: list_all_iff dest: in_set_dropD)

lemma is_relative_to_parts:
  "is_relative_to p base \<Longrightarrow> path_parts p = path_parts base @ drop (length (path_parts base)) (path_parts p)"
  by (metis append_take_drop_id is_relative_to_def)

end
