(* ===== verification/SourcePaths.thy ===== *)
theory SourcePaths
imports Text
begin

text \<open>
  The source boundary (\<open>source_paths.py\<close>) and the span reader built on it (\<open>storage/source.py\<close>).

  The operating system's file system is the record \<open>fs\<close>: what \<open>Path.resolve\<close>, \<open>is_dir\<close>,
  \<open>is_file\<close>, \<open>stat\<close> and \<open>open\<close> answer for a path (\<open>fs_missing\<close>: \<open>open\<close> raises \<open>FileNotFoundError\<close>).  It is fixed during a call.  \<open>fs_laws\<close> is what
  the code relies on: a resolved path is absolute, free of dot components and its own resolution,
  and strict resolution agrees with the lenient one where it succeeds.
\<close>

record fs =
  fs_resolve :: "string \<Rightarrow> string"
  fs_resolve_strict :: "string \<Rightarrow> string option"
  fs_expanduser :: "string \<Rightarrow> string"
  fs_is_dir :: "string \<Rightarrow> bool"
  fs_is_file :: "string \<Rightarrow> bool"
  fs_size :: "string \<Rightarrow> int option"
  fs_read :: "string \<Rightarrow> string option"
  fs_missing :: "string \<Rightarrow> bool"

definition canonical :: "string \<Rightarrow> bool" where
  "canonical p = (is_absolute p \<and> p = absolute_text (path_parts p) \<and> ''..'' \<notin> set (path_parts p))"

definition fs_laws :: "fs \<Rightarrow> bool" where
  "fs_laws F \<longleftrightarrow> (\<forall>p. canonical (fs_resolve F p) \<and> fs_resolve F (fs_resolve F p) = fs_resolve F p \<and>
     (\<forall>q. fs_resolve_strict F p = Some q \<longrightarrow> q = fs_resolve F p))"

definition ROOT :: string where "ROOT = [SEP]"

section \<open>Canonical generated roots\<close>

definition canonical_root :: "fs \<Rightarrow> string \<Rightarrow> string \<Rightarrow> string result" where
  "canonical_root F database raw =
     (let expanded = fs_expanduser F raw;
          candidate = (if is_absolute expanded then py_path expanded
                       else path_join (path_parent database) expanded) in
      case fs_resolve_strict F candidate of
        None \<Rightarrow> Inl (ValueError ''generated source root must exist'')
      | Some resolved \<Rightarrow>
          if \<not> fs_is_dir F resolved then Inl (ValueError ''generated source root must be a directory'')
          else if resolved = ROOT
          then Inl (ValueError ''generated source root must not be a filesystem root'')
          else Inr resolved)"

definition canonical_generated_source_roots :: "fs \<Rightarrow> string \<Rightarrow> string list \<Rightarrow> string list result" where
  "canonical_generated_source_roots F compilation_database roots =
     (let database = fs_resolve F (fs_expanduser F compilation_database) in
      rmap_result (\<lambda>canonical. sort (remdups canonical)) (rmap (canonical_root F database) roots))"

section \<open>The boundary\<close>

record source_boundary =
  project_root :: string
  generated_source_roots :: "string list"

definition resolve_strict :: "fs \<Rightarrow> string \<Rightarrow> string result" where
  "resolve_strict F p = (case fs_resolve_strict F p of None \<Rightarrow> Inl OSError | Some q \<Rightarrow> Inr q)"

definition post_init_source_boundary :: "fs \<Rightarrow> source_boundary \<Rightarrow> source_boundary result" where
  "post_init_source_boundary F b =
     (case fs_resolve_strict F (project_root b) of
        None \<Rightarrow> Inl (ValueError ''project source root must exist'')
      | Some base \<Rightarrow>
          if \<not> fs_is_dir F base \<or> base = ROOT
          then Inl (ValueError ''project source root must be a bounded directory'')
          else rbind (rmap (resolve_strict F) (generated_source_roots b)) (\<lambda>generated.
            if list_ex (\<lambda>p. \<not> fs_is_dir F p \<or> p = ROOT) generated
            then Inl (ValueError ''generated source root must be a bounded directory'')
            else Inr (b\<lparr>project_root := base, generated_source_roots := generated\<rparr>)))"

definition roots :: "source_boundary \<Rightarrow> string list" where
  "roots b = project_root b # generated_source_roots b"

definition contains :: "fs \<Rightarrow> source_boundary \<Rightarrow> string \<Rightarrow> bool" where
  "contains F b path = list_ex (is_relative_to (fs_resolve F path)) (roots b)"

definition canonical_file :: "fs \<Rightarrow> source_boundary \<Rightarrow> string \<Rightarrow> string result" where
  "canonical_file F b path =
     (case fs_resolve_strict F path of
        None \<Rightarrow> Inl (ValueError ''source file must exist'')
      | Some candidate \<Rightarrow>
          if \<not> fs_is_file F candidate \<or> \<not> contains F b candidate
          then Inl (ValueError ''source file is outside the authorized source roots'')
          else Inr candidate)"

definition generated_display :: "string \<Rightarrow> nat \<times> string \<Rightarrow> string option" where
  "generated_display candidate ir =
     (let (index, base) = ir in
      if is_relative_to candidate base
      then Some (''@generated/'' @ str_nat index @ ''/'' @ relative_to candidate base) else None)"

fun first_some :: "('a \<Rightarrow> 'b option) \<Rightarrow> 'a list \<Rightarrow> 'b option" where
  "first_some f [] = None"
| "first_some f (x # xs) = (case f x of Some y \<Rightarrow> Some y | None \<Rightarrow> first_some f xs)"

definition display :: "fs \<Rightarrow> source_boundary \<Rightarrow> string \<Rightarrow> string result" where
  "display F b path =
     (let candidate = fs_resolve F path in
      if is_relative_to candidate (project_root b) then Inr (relative_to candidate (project_root b))
      else case first_some (generated_display candidate) (enumerate 0 (generated_source_roots b)) of
        Some shown \<Rightarrow> Inr shown
      | None \<Rightarrow> Inl (ValueError ''source file is outside the authorized source roots''))"

section \<open>Reading symbol spans\<close>

record source_reader =
  sr_project_root :: string
  sr_max_file_bytes :: int
  sr_generated_source_roots :: "string list"
  sr_allowed_paths :: "string list option"

definition default_reader :: "string \<Rightarrow> source_reader" where
  "default_reader base = \<lparr>sr_project_root = base, sr_max_file_bytes = 8 * 1024 * 1024,
     sr_generated_source_roots = [], sr_allowed_paths = None\<rparr>"

definition post_init_source_reader :: "fs \<Rightarrow> source_reader \<Rightarrow> source_reader result" where
  "post_init_source_reader F r =
     rbind (post_init_source_boundary F
        \<lparr>project_root = sr_project_root r, generated_source_roots = sr_generated_source_roots r\<rparr>) (\<lambda>b.
     if generated_source_roots b \<noteq> [] \<and> sr_allowed_paths r = None
     then Inl (ValueError ''generated source reads require exact persisted source provenance'')
     else Inr (r\<lparr>sr_project_root := project_root b,
                sr_generated_source_roots := generated_source_roots b,
                sr_allowed_paths := map_option (map (fs_resolve F)) (sr_allowed_paths r)\<rparr>))"

definition resolve_allowed :: "fs \<Rightarrow> source_reader \<Rightarrow> string \<Rightarrow> string result" where
  "resolve_allowed F r requested =
     rbind (post_init_source_boundary F
        \<lparr>project_root = sr_project_root r, generated_source_roots = sr_generated_source_roots r\<rparr>) (\<lambda>b.
     case canonical_file F b (if is_absolute requested then requested
                              else path_join (project_root b) requested) of
       Inl e \<Rightarrow> Inl (case e of
           ValueError _ \<Rightarrow> SourceReadError (''source path escapes project root: '' @ requested)
         | _ \<Rightarrow> e)
     | Inr resolved \<Rightarrow>
         (case sr_allowed_paths r of
            None \<Rightarrow> Inr resolved
          | Some allowed \<Rightarrow>
              if resolved \<notin> set allowed
              then Inl (SourceReadError ''source file is not present in the selected build provenance'')
              else Inr resolved))"

text \<open>\<open>"\n".join(lines[start:end])\<close> after \<open>read_text(errors="replace")\<close>; a span starts at line 1 or later.\<close>

definition file_lines :: "string \<Rightarrow> nat list list" where
  "file_lines content = splitlines (universal_newlines (fst (decode_replace (bytes_of content))))"

definition read_symbol :: "fs \<Rightarrow> source_reader \<Rightarrow> source_span \<Rightarrow> nat list result" where
  "read_symbol F r requested_span =
     rbind (resolve_allowed F r (span_path requested_span)) (\<lambda>resolved.
     let requested = span_path requested_span in
     case fs_size F resolved of
       None \<Rightarrow> Inl (SourceReadError (''cannot inspect source file: '' @ requested))
     | Some bytes \<Rightarrow>
         if sr_max_file_bytes r < bytes
         then Inl (SourceReadError (''source file exceeds '' @ str_int (sr_max_file_bytes r) @ '' bytes: ''
                @ requested))
         else (case fs_read F resolved of
           None \<Rightarrow> Inl (SourceReadError (''cannot read source file: '' @ requested))
         | Some content \<Rightarrow>
             let lines = file_lines content; first = nat (start_line requested_span - 1); last = nat (end_line requested_span) in
             if length lines \<le> first
             then Inl (SourceReadError (''source span starts beyond end of file: '' @ requested))
             else Inr (join [10] (drop first (take last lines)))))"

definition display_path :: "fs \<Rightarrow> source_reader \<Rightarrow> string \<Rightarrow> string result" where
  "display_path F r path =
     rbind (resolve_allowed F r path) (\<lambda>resolved.
     rbind (post_init_source_boundary F
        \<lparr>project_root = sr_project_root r, generated_source_roots = sr_generated_source_roots r\<rparr>) (\<lambda>b.
       display F b resolved))"

section \<open>Containment\<close>

lemma contains_iff: "contains F b p \<longleftrightarrow> (\<exists>r \<in> set (roots b). is_relative_to (fs_resolve F p) r)"
  by (simp add: contains_def list_ex_iff)

lemma canonical_file_contained:
  assumes "fs_laws F" and "canonical_file F b path = Inr q"
  shows "q = fs_resolve F path" and "fs_is_file F q" and "canonical q"
    and "\<exists>r \<in> set (roots b). is_relative_to q r"
proof -
  have q: "fs_resolve_strict F path = Some q" "fs_is_file F q" "contains F b q"
    using assms(2) by (auto simp: canonical_file_def split: option.splits if_splits)
  then show "q = fs_resolve F path" "fs_is_file F q" using assms(1) by (auto simp: fs_laws_def)
  then show "canonical q" "\<exists>r \<in> set (roots b). is_relative_to q r"
    using q(3) assms(1) by (metis fs_laws_def contains_iff)+
qed

lemma resolve_allowed_Inr:
  assumes "resolve_allowed F r requested = Inr q"
  obtains b where
    "post_init_source_boundary F \<lparr>project_root = sr_project_root r,
       generated_source_roots = sr_generated_source_roots r\<rparr> = Inr b"
    "canonical_file F b (if is_absolute requested then requested else path_join (project_root b) requested)
       = Inr q"
    "\<forall>allowed. sr_allowed_paths r = Some allowed \<longrightarrow> q \<in> set allowed"
proof -
  from assms obtain b where b: "post_init_source_boundary F \<lparr>project_root = sr_project_root r,
       generated_source_roots = sr_generated_source_roots r\<rparr> = Inr b"
    unfolding resolve_allowed_def rbind_eq_Inr by blast
  show thesis
  proof (rule that [OF b])
    show "canonical_file F b (if is_absolute requested then requested else path_join (project_root b) requested)
       = Inr q" "\<forall>allowed. sr_allowed_paths r = Some allowed \<longrightarrow> q \<in> set allowed"
      using assms unfolding resolve_allowed_def b rbind_simps
      by (auto simp del: if_split split: sum.splits option.splits if_split_asm)
  qed
qed

lemma resolve_strict_Inr [simp]: "resolve_strict F p = Inr q \<longleftrightarrow> fs_resolve_strict F p = Some q"
  by (simp add: resolve_strict_def split: option.splits)

lemma boundary_roots:
  assumes "fs_laws F" and "post_init_source_boundary F b0 = Inr b" and "r \<in> set (roots b)"
  shows "canonical r" and "fs_is_dir F r" and "r \<noteq> ROOT"
proof -
  obtain base gens where
    base: "fs_resolve_strict F (project_root b0) = Some base" "fs_is_dir F base" "base \<noteq> ROOT" and
    gens: "list_all2 (\<lambda>p q. fs_resolve_strict F p = Some q) (generated_source_roots b0) gens"
      "\<forall>g \<in> set gens. fs_is_dir F g \<and> g \<noteq> ROOT" and
    b: "roots b = base # gens"
    using assms(2)
    by (auto simp: post_init_source_boundary_def roots_def rbind_eq_Inr rmap_Inr_iff list_ex_iff
        split: option.splits if_splits)
  have strict: "canonical q" if "fs_resolve_strict F p = Some q" for p q
    using assms(1) that by (auto simp: fs_laws_def)
  have "\<exists>p. fs_resolve_strict F p = Some r"
    using assms(3) base(1) gens(1) unfolding b by (auto simp: list_all2_conv_all_nth in_set_conv_nth)
  then show "canonical r" using strict by blast
  show "fs_is_dir F r" "r \<noteq> ROOT" using assms(3) base gens(2) unfolding b by auto
qed

lemma first_some_Some: "first_some f xs = Some y \<Longrightarrow> \<exists>x \<in> set xs. f x = Some y"
  by (induction xs) (auto split: option.splits)

lemma generated_display_Some:
  "generated_display p ir = Some d \<longleftrightarrow>
     is_relative_to p (snd ir) \<and> d = ''@generated/'' @ str_nat (fst ir) @ ''/'' @ relative_to p (snd ir)"
  by (cases ir) (auto simp: generated_display_def)

lemma display_cases:
  assumes "display F b path = Inr d"
  obtains (project) "is_relative_to (fs_resolve F path) (project_root b)"
      "d = relative_to (fs_resolve F path) (project_root b)"
    | (generated) i where "\<not> is_relative_to (fs_resolve F path) (project_root b)"
      "i < length (generated_source_roots b)"
      "is_relative_to (fs_resolve F path) (generated_source_roots b ! i)"
      "d = ''@generated/'' @ str_nat i @ ''/'' @ relative_to (fs_resolve F path) (generated_source_roots b ! i)"
proof (cases "is_relative_to (fs_resolve F path) (project_root b)")
  case True
  then show ?thesis using assms by (intro project) (simp_all add: display_def)
next
  case False
  then have "first_some (generated_display (fs_resolve F path)) (enumerate 0 (generated_source_roots b))
      = Some d"
    using assms by (auto simp: display_def Let_def split: option.splits)
  then obtain ir where "ir \<in> set (enumerate 0 (generated_source_roots b))"
    "generated_display (fs_resolve F path) ir = Some d"
    using first_some_Some by metis
  then show ?thesis using False
    by (intro generated [of "fst ir"]) (auto simp: generated_display_Some in_set_enumerate_eq)
qed

lemma display_contained: "display F b path = Inr d \<Longrightarrow> contains F b path"
  by (erule display_cases) (auto simp: contains_def roots_def list_ex_iff)

text \<open>A shown path is relative and climbs nowhere.\<close>

definition discreet :: "string \<Rightarrow> bool" where
  "discreet d = (\<not> is_absolute d \<and> ''..'' \<notin> set (path_parts d))"

lemma relative_to_discreet:
  assumes "canonical p" shows "discreet (relative_to p base)"
proof -
  let ?d = "drop (length (path_parts base)) (path_parts p)"
  have valid: "list_all valid_part ?d" by (rule list_all_drop [OF path_parts_valid])
  then have "path_parts (relative_to p base) = ?d" by (simp add: relative_to_def)
  moreover have "''..'' \<notin> set ?d" using assms by (auto simp: canonical_def dest: in_set_dropD)
  ultimately show ?thesis using relative_text_not_absolute [OF valid]
    by (simp add: discreet_def relative_to_def)
qed

lemma split_on_append: "split_on c (p @ c # xs) = split_on c p @ split_on c xs"
  by (induction p) (auto split: list.splits)

lemma path_parts_append: "path_parts (p @ SEP # q) = path_parts p @ path_parts q"
  by (simp add: path_parts_def split_on_append)

lemma digit_code: "k < 10 \<Longrightarrow> (of_char (digit k) :: nat) = 48 + k"
  by (simp add: digit_def)

lemma digit_neq: "k < 10 \<Longrightarrow> (of_char c :: nat) < 48 \<Longrightarrow> digit k \<noteq> c"
  using digit_code [of k] by auto

lemma str_nat_no_sep: "SEP \<notin> set (str_nat n)"
proof (induction n rule: str_nat.induct)
  case (1 n)
  have "digit k \<noteq> SEP" if "k < 10" for k
    using digit_neq [OF that, of SEP] by (simp add: SEP_def)
  then show ?case using 1 by (subst str_nat.simps) (auto dest: sym)
qed

lemma str_nat_not_dots: "''..'' \<notin> set (path_parts (str_nat n))"
proof -
  have first: "hd (str_nat n) \<noteq> CHR ''.''" "str_nat n \<noteq> []"
  proof (induction n rule: str_nat.induct)
    case (1 n)
    have "digit k \<noteq> CHR ''.''" if "k < 10" for k
      using digit_neq [OF that, of "CHR ''.''"] by simp
    then show "hd (str_nat n) \<noteq> CHR ''.''" "str_nat n \<noteq> []"
      using 1 by (subst str_nat.simps; auto)+
  qed
  then have "str_nat n \<noteq> ''..''" by auto
  then show ?thesis using split_on_free [OF str_nat_no_sep] by (auto simp: path_parts_def)
qed

lemma display_discreet:
  assumes "fs_laws F" and "display F b path = Inr d"
  shows "discreet d"
  using assms(2)
proof (cases rule: display_cases)
  case project
  then show ?thesis using assms(1) relative_to_discreet by (metis fs_laws_def)
next
  case (generated i)
  let ?r = "relative_to (fs_resolve F path) (generated_source_roots b ! i)"
  have r: "discreet ?r" using assms(1) relative_to_discreet by (metis fs_laws_def)
  have d: "d = ''@generated'' @ SEP # (str_nat i @ SEP # ?r)"
    using generated by (simp add: SEP_def)
  have "''..'' \<notin> set (path_parts d)"
    using r str_nat_not_dots unfolding d path_parts_append
    by (simp add: discreet_def) (simp add: path_parts_def SEP_def)
  moreover have "\<not> is_absolute d"
    unfolding d by (simp add: is_absolute_def starts_with_def SEP_def)
  ultimately show ?thesis by (simp add: discreet_def)
qed

section \<open>Properties\<close>

text \<open>
  Property C31.  A span is read only from a file the boundary authorizes: whenever
  \<open>read_symbol\<close> returns text, that text comes from a canonical regular file below the project
  root or a generated root, itself never the file system root, and from the allowed paths
  when they are given.
\<close>

theorem read_symbol_contained:
  assumes "fs_laws F" and "read_symbol F r s = Inr lines"
  shows "\<exists>b q content. post_init_source_boundary F \<lparr>project_root = sr_project_root r,
       generated_source_roots = sr_generated_source_roots r\<rparr> = Inr b \<and>
     canonical q \<and> fs_is_file F q \<and>
     (\<exists>base \<in> set (roots b). is_relative_to q base \<and> canonical base \<and> base \<noteq> ROOT) \<and>
     (\<forall>allowed. sr_allowed_paths r = Some allowed \<longrightarrow> q \<in> set allowed) \<and>
     fs_read F q = Some content \<and>
     lines = join [10] (drop (nat (start_line s - 1)) (take (nat (end_line s)) (file_lines content)))"
proof -
  from assms(2) obtain q content where
    allowed: "resolve_allowed F r (span_path s) = Inr q" and
    content: "fs_read F q = Some content"
      "lines = join [10] (drop (nat (start_line s - 1)) (take (nat (end_line s)) (file_lines content)))"
    by (auto simp: read_symbol_def rbind_eq_Inr Let_def split: option.splits if_splits)
  from allowed show ?thesis
  proof (rule resolve_allowed_Inr, goal_cases)
    case (1 b)
    note contained = canonical_file_contained [OF assms(1) 1(2)]
    with boundary_roots [OF assms(1) 1(1)] 1 content show ?case by blast
  qed
qed


text \<open>
  A concrete file system: a project with one file, a generated tree with one file, no symbolic
  links; resolution makes a path absolute and drops every climbing component.
\<close>

definition sample_fs :: "(string \<times> string) list \<Rightarrow> fs" where
  "sample_fs files =
     (let resolve = (\<lambda>p. absolute_text (filter (\<lambda>c. c \<noteq> ''..'') (path_parts p))) in
      \<lparr>fs_resolve = resolve, fs_resolve_strict = (\<lambda>p. Some (resolve p)), fs_expanduser = (\<lambda>p. p),
       fs_is_dir = (\<lambda>p. map_of files p = None), fs_is_file = (\<lambda>p. map_of files p \<noteq> None),
       fs_size = (\<lambda>p. map_option (\<lambda>c. int (length c)) (map_of files p)), fs_read = map_of files, fs_missing = (\<lambda>p. map_of files p = None)\<rparr>)"

lemma list_all_filter: "list_all P xs \<Longrightarrow> list_all P (filter Q xs)"
  by (induction xs) auto

lemma sample_fs_laws: "fs_laws (sample_fs files)"
proof -
  have "list_all valid_part (filter (\<lambda>c. c \<noteq> ''..'') (path_parts p))" for p
    by (rule list_all_filter [OF path_parts_valid])
  then show ?thesis by (simp add: fs_laws_def sample_fs_def canonical_def)
qed

definition sample_files :: "(string \<times> string) list" where
  "sample_files =
     [(''/repo/src/a.cc'', ''one'' @ [CHR 0x0A] @ ''two'' @ [CHR 0x0D, CHR 0x0A] @ ''three''),
      (''/repo/@generated/0/x.h'', ''project''), (''/out/x.h'', ''generated'')]"

definition sample_reader :: source_reader where
  "sample_reader = \<lparr>sr_project_root = ''/repo'', sr_max_file_bytes = 64,
     sr_generated_source_roots = [''/out''],
     sr_allowed_paths = Some [''/repo/src/a.cc'', ''/out/x.h'']\<rparr>"

definition sample_span :: source_span where
  "sample_span = \<lparr>span_path = ''src/a.cc'', start_line = 2, end_line = 3, start_column = 1, end_column = 2\<rparr>"

lemma sample_read: "read_symbol (sample_fs sample_files) sample_reader sample_span
    = Inr (map of_char (''two'' @ [CHR 0x0A] @ ''three''))"
proof -
  have "resolve_allowed (sample_fs sample_files) sample_reader ''src/a.cc'' = Inr ''/repo/src/a.cc''"
    by code_simp
  moreover have "file_lines (''one'' @ [CHR 0x0A] @ ''two'' @ [CHR 0x0D, CHR 0x0A] @ ''three'')
      = map (map of_char) [''one'', ''two'', ''three'']"
    by (simp add: file_lines_def bytes_of_def splitlines_def line_break_def)
  ultimately show ?thesis
    by (simp add: read_symbol_def sample_span_def sample_fs_def sample_files_def sample_reader_def Let_def)
qed

theorem read_symbol_contained_witness:
  "\<exists>q content. fs_read (sample_fs sample_files) q = Some content \<and>
     map of_char (''two'' @ [CHR 0x0A] @ ''three'') = join [10] (drop 1 (take 3 (file_lines content)))"
  using read_symbol_contained [OF sample_fs_laws sample_read]
  by (simp add: sample_span_def) blast


text \<open>
  Property C39.  The alias of a generated file is ambiguous: a project that has a directory
  named \<open>@generated\<close> shows one of its own files under the text that names a generated file.
\<close>

theorem display_alias_collision:
  "\<exists>F b p q. fs_laws F \<and> post_init_source_boundary F b = Inr b \<and> fs_is_file F p \<and> fs_is_file F q \<and>
     fs_resolve F p \<noteq> fs_resolve F q \<and> (\<exists>d. display F b p = Inr d \<and> display F b q = Inr d)"
proof (intro exI conjI)
  let ?F = "sample_fs sample_files" and ?b = "\<lparr>project_root = ''/repo'', generated_source_roots = [''/out'']\<rparr>"
  show "fs_laws ?F" by (rule sample_fs_laws)
  show "post_init_source_boundary ?F ?b = Inr ?b" by code_simp
  show "fs_is_file ?F ''/out/x.h''" "fs_is_file ?F ''/repo/@generated/0/x.h''" by code_simp+
  show "fs_resolve ?F ''/out/x.h'' \<noteq> fs_resolve ?F ''/repo/@generated/0/x.h''" by code_simp
  show "display ?F ?b ''/out/x.h'' = Inr ''@generated/0/x.h''"
    "display ?F ?b ''/repo/@generated/0/x.h'' = Inr ''@generated/0/x.h''" by code_simp+
qed

end
