(* ===== verification/CompilationDb.thy ===== *)
theory CompilationDb
imports SourcePaths
begin

text \<open>
  Loading and normalising \<open>compile_commands.json\<close>, \<open>ingestion/compilation_database.py\<close>.

  The JSON parser is the argument \<open>loads\<close>, from decoded text to a value, \<open>None\<close> where it raises
  \<open>JSONDecodeError\<close>; the digest is \<open>H\<close>; the file system is \<open>F\<close>.  \<open>shlex.split\<close> is modelled.
\<close>

section \<open>Shell words\<close>

datatype shlex_state = Between | Word | Quoted char | Escaped "char option"

definition shlex_space :: "char \<Rightarrow> bool" where
  "shlex_space c = (c \<in> {CHR '' '', CHR 0x09, CHR 0x0A, CHR 0x0D})"

definition shlex_quote :: "char \<Rightarrow> bool" where
  "shlex_quote c = (c = CHR 0x22 \<or> c = CHR 0x27)"

text \<open>
  \<open>shlex.split(s, posix=True)\<close>: the state, the token so far (reversed), whether a quote was seen
  in it, and the rest of the input.  \<open>Escaped (Some q)\<close> is an escape inside the quote \<open>q\<close>.
\<close>

fun shlex_from :: "shlex_state \<Rightarrow> string \<Rightarrow> bool \<Rightarrow> string \<Rightarrow> string list result" where
  "shlex_from st token quoted [] =
     (case st of
        Quoted _ \<Rightarrow> Inl (ValueError ''No closing quotation'')
      | Escaped _ \<Rightarrow> Inl (ValueError ''No escaped character'')
      | _ \<Rightarrow> Inr (if token \<noteq> [] \<or> quoted then [rev token] else []))"
| "shlex_from st token quoted (c # cs) =
     (case st of
        Quoted q \<Rightarrow>
          if c = q then shlex_from Word token True cs
          else if c = CHR 0x5C \<and> q = CHR 0x22 then shlex_from (Escaped (Some q)) token True cs
          else shlex_from (Quoted q) (c # token) True cs
      | Escaped (Some q) \<Rightarrow>
          shlex_from (Quoted q) (if c \<noteq> CHR 0x5C \<and> c \<noteq> q then c # CHR 0x5C # token else c # token) quoted cs
      | Escaped None \<Rightarrow> shlex_from Word (c # token) quoted cs
      | _ \<Rightarrow>
          if shlex_space c
          then if token \<noteq> [] \<or> quoted
               then rmap_result (\<lambda>ws. rev token # ws) (shlex_from Between [] False cs)
               else shlex_from Between token quoted cs
          else if c = CHR 0x5C then shlex_from (Escaped None) token quoted cs
          else if shlex_quote c then shlex_from (Quoted c) token quoted cs
          else shlex_from Word (c # token) quoted cs)"

definition shlex_split :: "string \<Rightarrow> string list result" where
  "shlex_split s = shlex_from Between [] False s"

section \<open>Entries\<close>

definition absolute_path :: "fs \<Rightarrow> string \<Rightarrow> string \<Rightarrow> string" where
  "absolute_path F path directory =
     fs_resolve F (if is_absolute path then py_path path else path_join directory path)"

definition entry_error :: "string \<Rightarrow> string \<Rightarrow> 'a result" where
  "entry_error prefix message = Inl (CompilationDatabaseError (prefix @ message))"

definition nonblank_string :: "(string \<times> json) list \<Rightarrow> string \<Rightarrow> string option" where
  "nonblank_string raw name = (case map_of raw name of
     Some (JStr s) \<Rightarrow> if blank s then None else Some s | _ \<Rightarrow> None)"

definition json_strings :: "json \<Rightarrow> string list option" where
  "json_strings v = (case v of
     JArr vs \<Rightarrow> if list_all (\<lambda>x. case x of JStr _ \<Rightarrow> True | _ \<Rightarrow> False) vs
                then Some (map (\<lambda>x. case x of JStr s \<Rightarrow> s | _ \<Rightarrow> []) vs) else None
   | _ \<Rightarrow> None)"

definition raw_arguments :: "string \<Rightarrow> (string \<times> json) list \<Rightarrow> string list result" where
  "raw_arguments prefix raw =
     (case (map_of raw ''arguments'', map_of raw ''command'') of
        (Some v, None) \<Rightarrow>
          (case json_strings v of
             None \<Rightarrow> entry_error prefix '' 'arguments' must be an array of strings''
           | Some xs \<Rightarrow> Inr xs)
      | (None, Some v) \<Rightarrow>
          (case nonblank_string [(''command'', v)] ''command'' of
             None \<Rightarrow> entry_error prefix '' 'command' must be a non-empty string''
           | Some s \<Rightarrow>
               (case shlex_split s of
                  Inl e \<Rightarrow> entry_error prefix '' has an invalid shell command''
                | Inr xs \<Rightarrow> Inr xs))
      | _ \<Rightarrow> entry_error prefix ('' must contain exactly one of 'arguments' or 'command'' @ [CHR 0x27]))"

definition parse_output :: "fs \<Rightarrow> string \<Rightarrow> (string \<times> json) list \<Rightarrow> string \<Rightarrow> string option result" where
  "parse_output F prefix entry directory =
     (case map_of entry ''output'' of
        None \<Rightarrow> Inr None
      | Some JNull \<Rightarrow> Inr None
      | Some (JStr s) \<Rightarrow> Inr (if s = [] then None else Some (absolute_path F s directory))
      | _ \<Rightarrow> entry_error prefix '' 'output' must be a string when present'')"

definition entry_configuration ::
    "(string \<Rightarrow> string) \<Rightarrow> string \<Rightarrow> string list \<Rightarrow> string \<Rightarrow> string \<Rightarrow> string list \<Rightarrow> string option
      \<Rightarrow> build_configuration" where
  "entry_configuration H variant generated directory source_path arguments out =
     (let identity = [directory, source_path] @ arguments @
            [case out of None \<Rightarrow> [] | Some p \<Rightarrow> p] @
            (if generated \<noteq> [] then ''generated-source-roots-v1'' # generated else []);
          command_hash = hash_text H identity in
      \<lparr>bc_id = ''build_'' @ take 32 (hash_text H [variant, command_hash]),
       bc_source_path = source_path, bc_directory = directory, bc_arguments = arguments,
       bc_command_hash = command_hash, bc_output = out, bc_build_variant = variant,
       bc_generated_source_roots = generated\<rparr>)"

definition parse_located ::
    "(string \<Rightarrow> string) \<Rightarrow> fs \<Rightarrow> string \<Rightarrow> string \<Rightarrow> source_boundary option \<Rightarrow> string list
      \<Rightarrow> (string \<times> json) list \<Rightarrow> string \<Rightarrow> string \<Rightarrow> build_configuration result" where
  "parse_located H F prefix variant boundary generated entry directory source_path =
     (if \<not> fs_is_dir F directory
      then entry_error prefix ('' working directory does not exist: '' @ directory)
      else if \<not> fs_is_file F source_path
      then entry_error prefix ('' source file does not exist: '' @ source_path)
      else if (case boundary of None \<Rightarrow> False | Some b \<Rightarrow> \<not> contains F b source_path)
      then entry_error prefix '' source file is outside the authorized source roots''
      else rbind (raw_arguments prefix entry) (\<lambda>arguments.
        if arguments = [] \<or> blank (hd arguments) then entry_error prefix '' compiler command is empty''
        else rbind (parse_output F prefix entry directory) (\<lambda>out.
          Inr (entry_configuration H variant generated directory source_path arguments out))))"

definition parse_entry ::
    "(string \<Rightarrow> string) \<Rightarrow> fs \<Rightarrow> string \<Rightarrow> nat \<Rightarrow> json \<Rightarrow> string \<Rightarrow> source_boundary option \<Rightarrow> string list
      \<Rightarrow> build_configuration result" where
  "parse_entry H F path position raw variant boundary generated =
     (let prefix = path @ '': entry '' @ str_nat position in
      case raw of
        JObj entry \<Rightarrow>
          (case nonblank_string entry ''directory'' of
             None \<Rightarrow> entry_error prefix ('' has no non-empty 'directory'' @ [CHR 0x27])
           | Some directory_raw \<Rightarrow>
          (case nonblank_string entry ''file'' of
             None \<Rightarrow> entry_error prefix ('' has no non-empty 'file'' @ [CHR 0x27])
           | Some file_raw \<Rightarrow>
          let directory = absolute_path F directory_raw (path_parent path) in
          parse_located H F prefix variant boundary generated entry directory
            (absolute_path F file_raw directory)))
      | _ \<Rightarrow> entry_error prefix '' must be an object'')"

fun collect_entries ::
    "(nat \<Rightarrow> json \<Rightarrow> build_configuration result) \<Rightarrow> nat \<Rightarrow> json list \<Rightarrow> build_configuration list
      \<Rightarrow> build_configuration list result" where
  "collect_entries parse position [] kept = Inr kept"
| "collect_entries parse position (raw # rest) kept =
     rbind (parse position raw) (\<lambda>configuration.
       collect_entries parse (Suc position) rest
         (if bc_id configuration \<in> set (map bc_id kept) then kept else kept @ [configuration]))"

definition database_boundary :: "fs \<Rightarrow> string option \<Rightarrow> string list \<Rightarrow> source_boundary option result" where
  "database_boundary F project generated =
     (case project of
        None \<Rightarrow> Inr None
      | Some p \<Rightarrow> rmap_result Some
          (post_init_source_boundary F \<lparr>project_root = p, generated_source_roots = generated\<rparr>))"

definition database_payload :: "(nat list \<Rightarrow> json option) \<Rightarrow> fs \<Rightarrow> string \<Rightarrow> json result" where
  "database_payload loads F path =
     (case fs_read F path of
        None \<Rightarrow> entry_error (if fs_missing F path then ''compilation database does not exist: ''
                             else ''cannot read compilation database '') path
      | Some content \<Rightarrow>
          (case utf8_decode content of
             Inl _ \<Rightarrow> entry_error ''cannot read compilation database '' path
           | Inr decoded \<Rightarrow>
               (case loads decoded of
                  None \<Rightarrow> entry_error ''cannot read compilation database '' path
                | Some v \<Rightarrow> Inr v)))"

definition database_entries ::
    "(string \<Rightarrow> string) \<Rightarrow> fs \<Rightarrow> string \<Rightarrow> string \<Rightarrow> source_boundary option \<Rightarrow> string list \<Rightarrow> json
      \<Rightarrow> (string \<times> build_configuration list) result" where
  "database_entries H F path variant boundary generated payload =
     (case payload of
        JArr entries \<Rightarrow>
          if entries = [] then entry_error path '': compilation database is empty''
          else rmap_result (\<lambda>kept. (path, kept))
            (collect_entries (\<lambda>position raw. parse_entry H F path position raw variant boundary generated)
               0 entries [])
      | _ \<Rightarrow> entry_error path '': top-level JSON value must be an array'')"

definition load_database ::
    "(string \<Rightarrow> string) \<Rightarrow> (nat list \<Rightarrow> json option) \<Rightarrow> fs \<Rightarrow> string \<Rightarrow> string \<Rightarrow> string option \<Rightarrow> string list
      \<Rightarrow> (string \<times> build_configuration list) result" where
  "load_database H loads F raw_path variant project generated_raw =
     (let path = fs_resolve F raw_path in
      rbind (canonical_generated_source_roots F path generated_raw) (\<lambda>generated.
      rbind (database_boundary F project generated) (\<lambda>boundary.
      rbind (database_payload loads F path) (database_entries H F path variant boundary generated))))"

definition translation_unit_key :: "(string \<Rightarrow> string) \<Rightarrow> build_configuration \<Rightarrow> string" where
  "translation_unit_key H c = ''tu_'' @ take 32 (hash_text H [bc_build_variant c, bc_id c])"

section \<open>Arguments for libclang\<close>

definition VALUE_OPTIONS :: "string list" where
  "VALUE_OPTIONS = [''-o'', ''-MF'', ''-MT'', ''-MQ'', ''--output'']"

definition DROP_OPTIONS :: "string list" where
  "DROP_OPTIONS = [''-c'', ''-M'', ''-MM'', ''-MD'', ''-MMD'', ''-MP'', ''-MG'']"

definition PATH_VALUE_OPTIONS :: "string list" where
  "PATH_VALUE_OPTIONS =
     [''-I'', ''-isystem'', ''-iquote'', ''-idirafter'', ''-include'', ''-imacros'', ''--sysroot'']"

definition JOINED_PATH_OPTIONS :: "string list" where
  "JOINED_PATH_OPTIONS = [''-isystem'', ''-iquote'', ''-idirafter'', ''-include'', ''-imacros'', ''-I'']"

definition kept_argument :: "fs \<Rightarrow> build_configuration \<Rightarrow> string \<Rightarrow> string list" where
  "kept_argument F c argument =
     (if argument = bc_source_path c then []
      else if absolute_path F argument (bc_directory c) = bc_source_path c then []
      else if starts_with argument ''-o'' \<and> argument \<noteq> ''-Winvalid-pch'' then []
      else case find (starts_with argument) JOINED_PATH_OPTIONS of
        Some option \<Rightarrow>
          if argument \<noteq> option
          then [option @ absolute_path F (drop (length option) argument) (bc_directory c)]
          else if starts_with argument ''--sysroot=''
          then [''--sysroot='' @ absolute_path F (drop 10 argument) (bc_directory c)]
          else [argument]
      | None \<Rightarrow>
          if starts_with argument ''--sysroot=''
          then [''--sysroot='' @ absolute_path F (drop 10 argument) (bc_directory c)]
          else [argument])"

text \<open>The loop: \<open>skip_next\<close>, the option awaiting its path, and the remaining arguments.\<close>

fun normalize_arguments ::
    "fs \<Rightarrow> build_configuration \<Rightarrow> bool \<Rightarrow> string option \<Rightarrow> string list \<Rightarrow> string list" where
  "normalize_arguments F c skip_next pending [] = (case pending of None \<Rightarrow> [] | Some option \<Rightarrow> [option])"
| "normalize_arguments F c skip_next pending (argument # rest) =
     (if skip_next then normalize_arguments F c False pending rest
      else case pending of
        Some option \<Rightarrow>
          option # absolute_path F argument (bc_directory c) # normalize_arguments F c False None rest
      | None \<Rightarrow>
          if argument \<in> set VALUE_OPTIONS then normalize_arguments F c True None rest
          else if argument \<in> set DROP_OPTIONS then normalize_arguments F c False None rest
          else if argument \<in> set PATH_VALUE_OPTIONS then normalize_arguments F c False (Some argument) rest
          else kept_argument F c argument @ normalize_arguments F c False None rest)"

definition libclang_arguments :: "fs \<Rightarrow> build_configuration \<Rightarrow> string list" where
  "libclang_arguments F c = normalize_arguments F c False None (tl (bc_arguments c))"

section \<open>Facts\<close>

lemma entry_error_Inr [simp]: "entry_error prefix m \<noteq> Inr x"
  by (simp add: entry_error_def)

lemma parse_located_Inr:
  assumes "parse_located H F prefix variant boundary generated entry directory source_path = Inr c"
  obtains arguments out where
    "fs_is_dir F directory" "fs_is_file F source_path"
    "\<And>b. boundary = Some b \<Longrightarrow> contains F b source_path"
    "arguments \<noteq> []" "\<not> blank (hd arguments)"
    "c = entry_configuration H variant generated directory source_path arguments out"
  using assms
  by (fastforce simp: parse_located_def rbind_eq_Inr split: if_split_asm option.split_asm)

lemma parse_entry_Inr:
  assumes "parse_entry H F path position raw variant boundary generated = Inr c"
  obtains prefix entry directory p where
    "parse_located H F prefix variant boundary generated entry directory (fs_resolve F p) = Inr c"
  using assms unfolding parse_entry_def Let_def absolute_path_def
  by (fastforce split: json.splits option.splits)

lemma database_entries_Inr:
  "database_entries H F path variant boundary generated payload = Inr r \<longleftrightarrow>
     (\<exists>entries kept. payload = JArr entries \<and> entries \<noteq> [] \<and> r = (path, kept) \<and>
        collect_entries (\<lambda>position raw. parse_entry H F path position raw variant boundary generated)
          0 entries [] = Inr kept)"
  unfolding database_entries_def by (cases payload) (simp_all, blast)

lemma collect_entries_invariant:
  assumes "collect_entries parse n raws kept = Inr cs"
    and "distinct (map bc_id kept)" and "\<forall>c \<in> set kept. P c"
    and "\<And>n raw c. parse n raw = Inr c \<Longrightarrow> P c"
  shows "distinct (map bc_id cs) \<and> (\<forall>c \<in> set cs. P c) \<and> (raws \<noteq> [] \<or> kept \<noteq> [] \<longrightarrow> cs \<noteq> [])"
  using assms
proof (induction parse n raws kept rule: collect_entries.induct)
  case (2 parse position raw rest kept)
  from "2.prems"(1) obtain c where c: "parse position raw = Inr c"
    and rest: "collect_entries parse (Suc position) rest
      (if bc_id c \<in> set (map bc_id kept) then kept else kept @ [c]) = Inr cs"
    by (auto simp: rbind_eq_Inr)
  have "distinct (map bc_id cs) \<and> (\<forall>c \<in> set cs. P c) \<and>
      (rest \<noteq> [] \<or> (if bc_id c \<in> set (map bc_id kept) then kept else kept @ [c]) \<noteq> [] \<longrightarrow> cs \<noteq> [])"
    by (rule "2.IH" [OF rest]) (use "2.prems" c in auto)
  then show ?case by (auto split: if_splits)
qed simp_all

lemma canonical_absolute: "fs_laws F \<Longrightarrow> is_absolute (absolute_path F p d)"
  by (simp add: absolute_path_def fs_laws_def canonical_def)

lemma not_option: "is_absolute p \<Longrightarrow> p \<notin> set (VALUE_OPTIONS @ DROP_OPTIONS)"
  by (auto simp: is_absolute_def starts_with_def SEP_def VALUE_OPTIONS_def DROP_OPTIONS_def)

lemma joined_not_option:
  "is_absolute p \<Longrightarrow> opt \<in> set (''--sysroot='' # JOINED_PATH_OPTIONS) \<Longrightarrow>
    opt @ p \<notin> set (VALUE_OPTIONS @ DROP_OPTIONS)"
  by (cases p)
    (auto simp: is_absolute_def starts_with_def SEP_def VALUE_OPTIONS_def DROP_OPTIONS_def
      JOINED_PATH_OPTIONS_def)

lemma kept_argument_not_option:
  assumes "fs_laws F" and "a \<notin> set (VALUE_OPTIONS @ DROP_OPTIONS)" and "x \<in> set (kept_argument F c a)"
  shows "x \<notin> set (VALUE_OPTIONS @ DROP_OPTIONS)"
proof -
  have opt: "opt \<in> set JOINED_PATH_OPTIONS" if "find (starts_with a) JOINED_PATH_OPTIONS = Some opt" for opt
    using that by (auto simp: find_Some_iff)
  have "x = a \<or>
      (\<exists>opt p. opt \<in> set (''--sysroot='' # JOINED_PATH_OPTIONS) \<and> x = opt @ absolute_path F p (bc_directory c))"
  proof (cases "find (starts_with a) JOINED_PATH_OPTIONS")
    case None
    then have "x = a \<or> x = ''--sysroot='' @ absolute_path F (drop 10 a) (bc_directory c)"
      using assms(3) by (simp only: kept_argument_def option.case list.set split: if_split_asm) simp_all
    then show ?thesis by (metis list.set_intros(1))
  next
    case (Some option)
    then have "x = a \<or> x = ''--sysroot='' @ absolute_path F (drop 10 a) (bc_directory c) \<or>
        x = option @ absolute_path F (drop (length option) a) (bc_directory c)"
      using assms(3) by (simp only: kept_argument_def option.case list.set split: if_split_asm) simp_all
    then show ?thesis using opt [OF Some] by (metis list.set_intros)
  qed
  then show ?thesis
    using assms(2) joined_not_option [OF canonical_absolute [OF assms(1)]] by blast
qed

lemma normalize_arguments_not_option:
  assumes "fs_laws F" and "\<forall>p. pending = Some p \<longrightarrow> p \<in> set PATH_VALUE_OPTIONS"
    and "x \<in> set (normalize_arguments F c skip_next pending args)"
  shows "x \<notin> set (VALUE_OPTIONS @ DROP_OPTIONS)"
proof -
  have path_option: "p \<notin> set (VALUE_OPTIONS @ DROP_OPTIONS)" if "p \<in> set PATH_VALUE_OPTIONS" for p
  proof -
    have "list_all (\<lambda>p. p \<notin> set (VALUE_OPTIONS @ DROP_OPTIONS)) PATH_VALUE_OPTIONS" by code_simp
    then show ?thesis using that unfolding list_all_iff by (rule bspec)
  qed
  show ?thesis
    using assms
  proof (induction F c skip_next pending args rule: normalize_arguments.induct)
    case (1 F c skip_next pending)
    then show ?case using path_option by (cases pending) auto
  next
    case (2 F c skip_next pending argument rest)
    show ?case
    proof (cases "\<not> skip_next \<and> pending = None \<and> argument \<notin> set VALUE_OPTIONS \<and>
        argument \<notin> set DROP_OPTIONS \<and> argument \<notin> set PATH_VALUE_OPTIONS")
      case True
      with 2 kept_argument_not_option [of F argument x c] show ?thesis by auto
    next
      case False
      with 2 path_option not_option [OF canonical_absolute] show ?thesis
        by (cases pending) (auto simp del: set_append split: if_split_asm)
    qed
  qed
qed

section \<open>Properties\<close>

text \<open>
  Property C37.  A loaded database is never empty, never holds two configurations with one
  identity, and each configuration runs a named compiler on an existing file below the
  authorized roots, with the identity computed from the invocation.
\<close>

theorem load_database_sound:
  assumes "load_database H loads F path variant project generated = Inr (q, configurations)"
  shows "configurations \<noteq> [] \<and> distinct (map bc_id configurations) \<and>
    (\<forall>c \<in> set configurations.
       fs_is_file F (bc_source_path c) \<and> fs_is_dir F (bc_directory c) \<and>
       bc_arguments c \<noteq> [] \<and> \<not> blank (hd (bc_arguments c)) \<and> bc_build_variant c = variant \<and>
       canonical_generated_source_roots F q generated = Inr (bc_generated_source_roots c) \<and>
       (\<forall>p. project = Some p \<longrightarrow>
          (\<exists>b. post_init_source_boundary F
             \<lparr>project_root = p, generated_source_roots = bc_generated_source_roots c\<rparr> = Inr b \<and>
           contains F b (bc_source_path c))) \<and>
       entry_configuration H variant (bc_generated_source_roots c) (bc_directory c)
             (bc_source_path c) (bc_arguments c) (bc_output c) = c)"
proof -
  from assms obtain database gens boundary payload where
    gens: "canonical_generated_source_roots F database generated = Inr gens" and
    boundary: "database_boundary F project gens = Inr boundary" and
    payload: "database_entries H F database variant boundary gens payload = Inr (q, configurations)"
    unfolding load_database_def Let_def rbind_eq_Inr by metis
  from payload obtain entries where
    entries: "entries \<noteq> []" "collect_entries (\<lambda>position raw. parse_entry H F q position raw variant boundary gens)
       0 entries [] = Inr configurations" and q: "database = q"
    unfolding database_entries_Inr by blast
  note gens = gens [unfolded q]
  define P where "P c \<longleftrightarrow> fs_is_file F (bc_source_path c) \<and> fs_is_dir F (bc_directory c) \<and>
       bc_arguments c \<noteq> [] \<and> \<not> blank (hd (bc_arguments c)) \<and> bc_build_variant c = variant \<and>
       bc_generated_source_roots c = gens \<and> (\<forall>b. boundary = Some b \<longrightarrow> contains F b (bc_source_path c)) \<and>
       entry_configuration H variant (bc_generated_source_roots c) (bc_directory c)
             (bc_source_path c) (bc_arguments c) (bc_output c) = c" for c
  have parsed: "P c" if "parse_entry H F q n raw variant boundary gens = Inr c" for n raw c
    using that
  proof (rule parse_entry_Inr)
    fix prefix entry directory p
    assume "parse_located H F prefix variant boundary gens entry directory (fs_resolve F p) = Inr c"
    then show "P c" by (rule parse_located_Inr) (simp add: P_def entry_configuration_def Let_def)
  qed
  have all: "distinct (map bc_id configurations) \<and> (\<forall>c \<in> set configurations. P c) \<and>
      (entries \<noteq> [] \<or> [] \<noteq> ([] :: build_configuration list) \<longrightarrow> configurations \<noteq> [])"
    by (rule collect_entries_invariant [OF entries(2)]) (use parsed in simp_all)
  have inside: "\<exists>b. post_init_source_boundary F \<lparr>project_root = p, generated_source_roots = gens\<rparr> = Inr b \<and>
      boundary = Some b" if "project = Some p" for p
    using boundary that by (auto simp: database_boundary_def)
  show ?thesis
    using all entries(1) gens inside unfolding P_def by metis
qed

text \<open>
  No output or dependency-file option of the driver reaches libclang: none of the
  dropped options and none of the options whose value is dropped with them.
\<close>

theorem libclang_arguments_no_output:
  assumes "fs_laws F"
  shows "set (libclang_arguments F c) \<inter> set (VALUE_OPTIONS @ DROP_OPTIONS) = {}"
  using normalize_arguments_not_option [OF assms, of None _ c False] by (auto simp: libclang_arguments_def)

definition sample_entry :: json where
  "sample_entry = JObj
     [(''directory'', JStr ''/repo''), (''file'', JStr ''src/a.cc''),
      (''command'', JStr ''cc -Iinc -o a.o -c src/a.cc'')]"

definition sample_database_fs :: fs where
  "sample_database_fs = sample_fs ((''/repo/db.json'', ''[]'') # sample_files)"

definition sample_configuration :: build_configuration where
  "sample_configuration = entry_configuration (\<lambda>_. ''h'') ''default'' [] ''/repo'' ''/repo/src/a.cc''
     [''cc'', ''-Iinc'', ''-o'', ''a.o'', ''-c'', ''src/a.cc''] None"

lemma sample_load:
  "load_database (\<lambda>_. ''h'') (\<lambda>_. Some (JArr [sample_entry])) sample_database_fs ''/repo/db.json''
     ''default'' (Some ''/repo'') [] = Inr (''/repo/db.json'', [sample_configuration])"
  by code_simp

theorem load_database_sound_witness:
  "fs_is_file sample_database_fs (bc_source_path sample_configuration) \<and>
   \<not> blank (hd (bc_arguments sample_configuration))"
  using load_database_sound [OF sample_load] by simp

theorem libclang_arguments_no_output_witness:
  "libclang_arguments sample_database_fs sample_configuration = [''-I/repo/inc''] \<and>
   set (libclang_arguments sample_database_fs sample_configuration) \<inter> set (VALUE_OPTIONS @ DROP_OPTIONS) = {}"
proof
  show "libclang_arguments sample_database_fs sample_configuration = [''-I/repo/inc'']" by code_simp
  show "set (libclang_arguments sample_database_fs sample_configuration) \<inter> set (VALUE_OPTIONS @ DROP_OPTIONS) = {}"
    by (rule libclang_arguments_no_output) (simp add: sample_database_fs_def sample_fs_laws)
qed

end
