(* ===== verification/Telemetry.thy ===== *)
theory Telemetry
imports Models
begin

text \<open>
  Scheduler telemetry, \<open>ingestion/telemetry.py\<close>: the validation of one pipeline event, its JSON
  protocol payload, and \<open>AnalyzerSlotIdleGate\<close>, the monitor that fails when an analyzer slot
  stays idle while work and spool capacity remain.

  An event as constructed carries arbitrary JSON values (\<open>raw_event\<close>); a validated one is typed.
  Times are exact rationals: the rounding of float subtraction is not modelled, that of
  \<open>float(int)\<close> is.  A method that changes the gate returns the changed gate and the exception it
  raised, if any, since the changes made before a raise persist.
\<close>

section \<open>Events\<close>

datatype event_kind =
    SCHEDULING_STATE | ANALYZER_STARTED | ANALYZER_FINISHED | CONVERSION_STARTED | CONVERSION_FINISHED

datatype analyzer_outcome = SUCCEEDED | FAILED | CANCELLED

primrec event_kind_value :: "event_kind \<Rightarrow> string" where
  "event_kind_value SCHEDULING_STATE = ''scheduling_state''"
| "event_kind_value ANALYZER_STARTED = ''analyzer_started''"
| "event_kind_value ANALYZER_FINISHED = ''analyzer_finished''"
| "event_kind_value CONVERSION_STARTED = ''conversion_started''"
| "event_kind_value CONVERSION_FINISHED = ''conversion_finished''"

definition event_kind_members :: "event_kind list" where
  "event_kind_members = [SCHEDULING_STATE, ANALYZER_STARTED, ANALYZER_FINISHED, CONVERSION_STARTED,
     CONVERSION_FINISHED]"

primrec analyzer_outcome_value :: "analyzer_outcome \<Rightarrow> string" where
  "analyzer_outcome_value SUCCEEDED = ''succeeded''"
| "analyzer_outcome_value FAILED = ''failed''"
| "analyzer_outcome_value CANCELLED = ''cancelled''"

definition analyzer_outcome_members :: "analyzer_outcome list" where
  "analyzer_outcome_members = [SUCCEEDED, FAILED, CANCELLED]"

interpretation event_kind: str_enum event_kind_members event_kind_value
proof
  show "e \<in> set event_kind_members" for e by (cases e) (simp_all add: event_kind_members_def)
  show "distinct (map event_kind_value event_kind_members)" by code_simp
qed

interpretation analyzer_outcome: str_enum analyzer_outcome_members analyzer_outcome_value
proof
  show "e \<in> set analyzer_outcome_members" for e
    by (cases e) (simp_all add: analyzer_outcome_members_def)
  show "distinct (map analyzer_outcome_value analyzer_outcome_members)" by code_simp
qed

record raw_event =
  re_sequence :: json
  re_monotonic_seconds :: json
  re_kind :: json
  re_slot_id :: json
  re_configuration_index :: json
  re_outcome :: json
  re_unscheduled_count :: json
  re_held_registries :: json
  re_max_spool_registries :: json
  re_slot_count :: json

record pipeline_event =
  ev_sequence :: int
  ev_monotonic_seconds :: rat
  ev_kind :: event_kind
  ev_slot_id :: "int option"
  ev_configuration_index :: "int option"
  ev_outcome :: "analyzer_outcome option"
  ev_unscheduled_count :: int
  ev_held_registries :: int
  ev_max_spool_registries :: int
  ev_slot_count :: int

text \<open>
  \<open>float(n)\<close>: the nearest double, ties to even; \<open>None\<close> where Python raises \<open>OverflowError\<close>.
\<close>

fun bit_count :: "nat \<Rightarrow> nat" where
  "bit_count n = (if n = 0 then 0 else Suc (bit_count (n div 2)))"

declare bit_count.simps [simp del]

definition round_nat :: "nat \<Rightarrow> nat" where
  "round_nat n =
     (if n < 2 ^ 53 then n
      else let unit = 2 ^ (bit_count n - 53); q = n div unit; r = n mod unit in
        (if 2 * r < unit \<or> (2 * r = unit \<and> even q) then q else q + 1) * unit)"

definition float_of_int :: "int \<Rightarrow> rat option" where
  "float_of_int n = (let m = round_nat (nat \<bar>n\<bar>) in
     if m < 2 ^ 1024 then Some (of_int (sgn n) * of_nat m) else None)"

text \<open>The guard on \<open>monotonic_seconds\<close> and its conversion.\<close>

definition check_time :: "json \<Rightarrow> rat result" where
  "check_time v =
     (let bad = ValueError ''analyzer telemetry time must be finite and non-negative'' in
      case v of
        JInt n \<Rightarrow> (case float_of_int n of None \<Rightarrow> Inl (OverflowError)
                   | Some q \<Rightarrow> if n < 0 then Inl bad else Inr q)
      | JFloat (Finite q) \<Rightarrow> if q < 0 then Inl bad else Inr q
      | _ \<Rightarrow> Inl bad)"

definition check_count :: "string \<Rightarrow> json \<Rightarrow> int result" where
  "check_count name v =
     (let bad = ValueError (''analyzer telemetry '' @ name @ '' must be a non-negative integer'')
      in case v of JInt n \<Rightarrow> if n < 0 then Inl bad else Inr n | _ \<Rightarrow> Inl bad)"

text \<open>\<open>value in {...}\<close>: an array or object cannot be hashed.\<close>

definition hashable :: "json \<Rightarrow> bool" where
  "hashable v = (case v of JArr _ \<Rightarrow> False | JObj _ \<Rightarrow> False | _ \<Rightarrow> True)"

definition member_of :: "'e list \<Rightarrow> ('e \<Rightarrow> string) \<Rightarrow> json \<Rightarrow> string \<Rightarrow> 'e result" where
  "member_of members value v message =
     (if \<not> hashable v then Inl (TypeError ''unhashable type'')
      else case v of
        JStr s \<Rightarrow> (case find (\<lambda>e. value e = s) members of
                     Some e \<Rightarrow> Inr e | None \<Rightarrow> Inl (ValueError message))
      | _ \<Rightarrow> Inl (ValueError message))"

definition check_slot :: "event_kind \<Rightarrow> json \<Rightarrow> int \<Rightarrow> int option result" where
  "check_slot kind v slot_count =
     (if kind \<in> {CONVERSION_STARTED, CONVERSION_FINISHED}
      then if v \<noteq> JNull then Inl (ValueError ''conversion telemetry cannot claim an analyzer slot'')
           else Inr None
      else case v of
        JInt n \<Rightarrow> if 0 \<le> n \<and> n < slot_count then Inr (Some n)
          else Inl (ValueError ''analyzer lifecycle telemetry has an invalid slot or input index'')
      | _ \<Rightarrow> Inl (ValueError ''analyzer lifecycle telemetry has an invalid slot or input index''))"

definition check_outcome :: "event_kind \<Rightarrow> json \<Rightarrow> analyzer_outcome option result" where
  "check_outcome kind v =
     (if kind \<in> {ANALYZER_STARTED, CONVERSION_STARTED}
      then if v \<noteq> JNull then Inl (ValueError ''analyzer start telemetry cannot have an outcome'')
           else Inr None
      else rmap_result Some (member_of analyzer_outcome_members analyzer_outcome_value v
             ''analyzer finish telemetry must have a valid outcome''))"

definition post_init_pipeline_event :: "raw_event \<Rightarrow> pipeline_event result" where
  "post_init_pipeline_event r =
     rbind (case re_sequence r of JInt n \<Rightarrow>
              if n < 1 then Inl (ValueError ''analyzer telemetry sequence must be a positive integer'')
              else Inr n
            | _ \<Rightarrow> Inl (ValueError ''analyzer telemetry sequence must be a positive integer'')) (\<lambda>sequence.
     rbind (check_time (re_monotonic_seconds r)) (\<lambda>time.
     rbind (member_of event_kind_members event_kind_value (re_kind r)
              ''analyzer telemetry kind is invalid'') (\<lambda>kind.
     rbind (check_count ''unscheduled_count'' (re_unscheduled_count r)) (\<lambda>unscheduled.
     rbind (check_count ''held_registries'' (re_held_registries r)) (\<lambda>held.
     rbind (check_count ''max_spool_registries'' (re_max_spool_registries r)) (\<lambda>spool.
     rbind (check_count ''slot_count'' (re_slot_count r)) (\<lambda>slots.
     rbind (ensure (1 \<le> spool \<and> 1 \<le> slots) (ValueError ''analyzer telemetry limits must be positive'')) (\<lambda>_.
     rbind (ensure (held \<le> spool)
              (ValueError ''analyzer telemetry held registries exceed the spool limit'')) (\<lambda>_.
     let event = (\<lambda>slot index out. \<lparr>ev_sequence = sequence, ev_monotonic_seconds = time, ev_kind = kind,
            ev_slot_id = slot, ev_configuration_index = index, ev_outcome = out,
            ev_unscheduled_count = unscheduled, ev_held_registries = held,
            ev_max_spool_registries = spool, ev_slot_count = slots\<rparr>) in
     if kind = SCHEDULING_STATE
     then if re_slot_id r \<noteq> JNull \<or> re_configuration_index r \<noteq> JNull \<or> re_outcome r \<noteq> JNull
          then Inl (ValueError ''scheduling state telemetry cannot name a slot or outcome'')
          else Inr (event None None None)
     else rbind (case re_configuration_index r of JInt n \<Rightarrow>
                   if n < 0 then Inl (ValueError ''analyzer lifecycle telemetry has an invalid slot or input index'')
                   else Inr n
                 | _ \<Rightarrow> Inl (ValueError ''analyzer lifecycle telemetry has an invalid slot or input index'')) (\<lambda>index.
          rbind (check_slot kind (re_slot_id r) slots) (\<lambda>slot.
          rbind (check_outcome kind (re_outcome r)) (\<lambda>out.
            Inr (event slot (Some index) out)))))))))))))"

section \<open>The protocol payload\<close>

definition PROTOCOL_EVENT :: string where "PROTOCOL_EVENT = ''analyzer_pipeline''"

definition PROTOCOL_FIELDS :: "string list" where
  "PROTOCOL_FIELDS =
     [''event'', ''sequence'', ''monotonic_seconds'', ''kind'', ''slot_id'', ''configuration_index'',
      ''outcome'', ''unscheduled_count'', ''held_registries'', ''max_spool_registries'', ''slot_count'']"

definition json_opt :: "('a \<Rightarrow> json) \<Rightarrow> 'a option \<Rightarrow> json" where
  "json_opt f v = (case v of None \<Rightarrow> JNull | Some x \<Rightarrow> f x)"

definition to_protocol_payload :: "pipeline_event \<Rightarrow> (string \<times> json) list" where
  "to_protocol_payload e =
     [(''event'', JStr PROTOCOL_EVENT),
      (''sequence'', JInt (ev_sequence e)),
      (''monotonic_seconds'', JFloat (Finite (ev_monotonic_seconds e))),
      (''kind'', JStr (event_kind_value (ev_kind e))),
      (''slot_id'', json_opt JInt (ev_slot_id e)),
      (''configuration_index'', json_opt JInt (ev_configuration_index e)),
      (''outcome'', json_opt (\<lambda>o'. JStr (analyzer_outcome_value o')) (ev_outcome e)),
      (''unscheduled_count'', JInt (ev_unscheduled_count e)),
      (''held_registries'', JInt (ev_held_registries e)),
      (''max_spool_registries'', JInt (ev_max_spool_registries e)),
      (''slot_count'', JInt (ev_slot_count e))]"

definition from_protocol_payload :: "(string \<times> json) list \<Rightarrow> pipeline_event result" where
  "from_protocol_payload payload =
     (let get = dict_index payload;
          unexpected = filter (\<lambda>k. k \<notin> set PROTOCOL_FIELDS) (map fst payload);
          missing = filter (\<lambda>k. k \<notin> fst ` set payload) PROTOCOL_FIELDS in
      if unexpected \<noteq> []
      then Inl (ValueError (''analyzer telemetry payload has unexpected fields: '' @ join '', '' (sort unexpected)))
      else if missing \<noteq> []
      then Inl (ValueError (''analyzer telemetry payload is missing fields: '' @ join '', '' (sort missing)))
      else if map_of payload ''event'' \<noteq> Some (JStr PROTOCOL_EVENT)
      then Inl (ValueError ''analyzer telemetry payload has an invalid event name'')
      else
        rbind (get ''sequence'') (\<lambda>sequence. rbind (get ''monotonic_seconds'') (\<lambda>time.
        rbind (get ''kind'') (\<lambda>kind. rbind (get ''slot_id'') (\<lambda>slot.
        rbind (get ''configuration_index'') (\<lambda>index. rbind (get ''outcome'') (\<lambda>out.
        rbind (get ''unscheduled_count'') (\<lambda>unscheduled. rbind (get ''held_registries'') (\<lambda>held.
        rbind (get ''max_spool_registries'') (\<lambda>spool. rbind (get ''slot_count'') (\<lambda>slots.
          post_init_pipeline_event
            \<lparr>re_sequence = sequence, re_monotonic_seconds = time, re_kind = kind, re_slot_id = slot,
             re_configuration_index = index, re_outcome = out, re_unscheduled_count = unscheduled,
             re_held_registries = held, re_max_spool_registries = spool,
             re_slot_count = slots\<rparr>)))))))))))"

section \<open>The idle gate\<close>

record slot_state =
  active :: bool
  idle_since :: "rat option"
  maximum_idle_seconds :: rat
  maximum_idle_cause :: "string option"
  configuration_index :: "int option"
  outcome :: "analyzer_outcome option"

definition new_slot :: slot_state where
  "new_slot = \<lparr>active = False, idle_since = None, maximum_idle_seconds = 0, maximum_idle_cause = None,
     configuration_index = None, outcome = None\<rparr>"

record idle_gate =
  max_idle_seconds :: rat
  slots :: "slot_state list option"
  last_sequence :: int
  last_event_time :: rat
  unscheduled_count :: int
  held_registries :: int
  max_spool_registries :: int

definition IDLE_CAUSE :: string where "IDLE_CAUSE = ''unscheduled_with_spool_capacity''"

definition new_gate :: "pyfloat \<Rightarrow> idle_gate result" where
  "new_gate limit =
     (case limit of
        Finite q \<Rightarrow>
          if q \<le> 0 then Inl (ValueError ''maximum analyzer idle time must be positive and finite'')
          else Inr \<lparr>max_idle_seconds = q, slots = None, last_sequence = 0, last_event_time = 0,
                 unscheduled_count = 0, held_registries = 0, max_spool_registries = 1\<rparr>
      | _ \<Rightarrow> Inl (ValueError ''maximum analyzer idle time must be positive and finite''))"

definition idle_is_actionable :: "idle_gate \<Rightarrow> bool" where
  "idle_is_actionable g = (0 < unscheduled_count g \<and> held_registries g < max_spool_registries g)"

text \<open>
  \<open>_measure_idle\<close>: the loop updates each open interval and, when enforcing, raises at the first
  slot over the limit, leaving the later slots as they were.
\<close>

definition measure_slot :: "rat \<Rightarrow> slot_state \<Rightarrow> slot_state" where
  "measure_slot now s =
     (case idle_since s of
        None \<Rightarrow> s
      | Some since \<Rightarrow>
          if maximum_idle_seconds s < now - since
          then s\<lparr>maximum_idle_seconds := now - since, maximum_idle_cause := Some IDLE_CAUSE\<rparr> else s)"

definition overdue :: "rat \<Rightarrow> rat \<Rightarrow> slot_state \<Rightarrow> bool" where
  "overdue limit now s = (case idle_since s of None \<Rightarrow> False | Some since \<Rightarrow> limit < now - since)"

fun measure_slots ::
    "rat \<Rightarrow> bool \<Rightarrow> rat \<Rightarrow> nat \<Rightarrow> slot_state list \<Rightarrow> slot_state list \<times> exn option" where
  "measure_slots limit enforce now i [] = ([], None)"
| "measure_slots limit enforce now i (s # ss) =
     (if enforce \<and> overdue limit now s
      then (measure_slot now s # ss, Some (AnalyzerSlotIdleError i))
      else let (ss', err) = measure_slots limit enforce now (Suc i) ss
           in (measure_slot now s # ss', err))"

definition measure_idle :: "rat \<Rightarrow> bool \<Rightarrow> idle_gate \<Rightarrow> idle_gate \<times> exn option" where
  "measure_idle now enforce g =
     (case slots g of
        None \<Rightarrow> (g, None)
      | Some ss \<Rightarrow>
          if now < last_event_time g
          then (g, Some (ValueError ''analyzer idle clock moved backwards''))
          else let (ss', err) = measure_slots (max_idle_seconds g) enforce now 0 ss
               in (g\<lparr>slots := Some ss'\<rparr>, err))"

definition idle_slot :: "bool \<Rightarrow> rat \<Rightarrow> slot_state \<Rightarrow> slot_state" where
  "idle_slot actionable now s =
     (if active s \<or> \<not> actionable then s\<lparr>idle_since := None\<rparr>
      else if idle_since s = None then s\<lparr>idle_since := Some now\<rparr> else s)"

definition apply_current_idle_state :: "rat \<Rightarrow> idle_gate \<Rightarrow> idle_gate" where
  "apply_current_idle_state now g =
     g\<lparr>slots := map_option (map (idle_slot (idle_is_actionable g) now)) (slots g)\<rparr>"

definition start_slot :: "pipeline_event \<Rightarrow> slot_state \<Rightarrow> slot_state" where
  "start_slot e s = s\<lparr>active := True, idle_since := None,
     configuration_index := ev_configuration_index e, outcome := None\<rparr>"

definition finish_slot :: "pipeline_event \<Rightarrow> slot_state \<Rightarrow> slot_state" where
  "finish_slot e s = s\<lparr>active := False, configuration_index := ev_configuration_index e,
     outcome := ev_outcome e\<rparr>"

text \<open>The slot transition of one event: the new slots, or the error it raises.\<close>

definition transition_slots :: "pipeline_event \<Rightarrow> slot_state list \<Rightarrow> slot_state list result" where
  "transition_slots e ss =
     (case (ev_kind e, ev_slot_id e) of
        (ANALYZER_STARTED, Some i) \<Rightarrow>
          if active (ss ! nat i) then Inl (ValueError ''analyzer slot started twice'')
          else Inr (ss[nat i := start_slot e (ss ! nat i)])
      | (ANALYZER_FINISHED, Some i) \<Rightarrow>
          if \<not> active (ss ! nat i) \<or> configuration_index (ss ! nat i) \<noteq> ev_configuration_index e
          then Inl (ValueError ''analyzer slot finished unexpected work'')
          else Inr (ss[nat i := finish_slot e (ss ! nat i)])
      | (ANALYZER_STARTED, None) \<Rightarrow> Inl AssertionError
      | (ANALYZER_FINISHED, None) \<Rightarrow> Inl AssertionError
      | _ \<Rightarrow> Inr ss)"

definition record_event :: "pipeline_event \<Rightarrow> idle_gate \<Rightarrow> idle_gate" where
  "record_event e g = g\<lparr>last_sequence := ev_sequence e, last_event_time := ev_monotonic_seconds e,
     unscheduled_count := ev_unscheduled_count e, held_registries := ev_held_registries e,
     max_spool_registries := ev_max_spool_registries e\<rparr>"

definition observe :: "pipeline_event \<Rightarrow> idle_gate \<Rightarrow> idle_gate \<times> exn option" where
  "observe e g =
     (if ev_sequence e \<noteq> last_sequence g + 1
      then (g, Some (ValueError ''analyzer telemetry sequence is not contiguous''))
      else if ev_monotonic_seconds e < last_event_time g
      then (g, Some (ValueError ''analyzer telemetry time moved backwards''))
      else if (case slots g of None \<Rightarrow> False | Some ss \<Rightarrow> int (length ss) \<noteq> ev_slot_count e)
      then (g, Some (ValueError ''analyzer telemetry slot count changed''))
      else
        let ss = (case slots g of None \<Rightarrow> replicate (nat (ev_slot_count e)) new_slot | Some ss \<Rightarrow> ss);
            (g1, err) = measure_idle (ev_monotonic_seconds e) True (g\<lparr>slots := Some ss\<rparr>) in
        case err of Some x \<Rightarrow> (g1, Some x)
        | None \<Rightarrow>
            let g2 = record_event e g1 in
            case transition_slots e (the (slots g2)) of
              Inl x \<Rightarrow> (g2, Some x)
            | Inr ss' \<Rightarrow> (apply_current_idle_state (ev_monotonic_seconds e) (g2\<lparr>slots := Some ss'\<rparr>), None))"

definition check :: "rat \<Rightarrow> idle_gate \<Rightarrow> idle_gate \<times> exn option" where
  "check now g = measure_idle now True g"

record slot_report =
  rp_slot_id :: nat
  rp_state :: string
  rp_configuration_index :: "int option"
  rp_outcome :: "analyzer_outcome option"
  rp_maximum_idle_seconds :: rat
  rp_maximum_idle_cause :: "string option"
  rp_idle_cause :: "string option"

definition slot_row :: "bool \<Rightarrow> nat \<times> slot_state \<Rightarrow> slot_report" where
  "slot_row eligible row =
     (let (slot_id, s) = row in
      \<lparr>rp_slot_id = slot_id, rp_state = (if active s then ''active'' else ''idle''),
       rp_configuration_index = configuration_index s, rp_outcome = outcome s,
       rp_maximum_idle_seconds = maximum_idle_seconds s,
       rp_maximum_idle_cause = maximum_idle_cause s,
       rp_idle_cause = (if eligible \<and> \<not> active s then Some IDLE_CAUSE else None)\<rparr>)"

definition report :: "bool \<Rightarrow> rat \<Rightarrow> idle_gate \<Rightarrow> idle_gate \<times> slot_report list result" where
  "report include_open_interval now g =
     (let (g1, err) = (if include_open_interval then measure_idle now False g else (g, None)) in
      case err of Some x \<Rightarrow> (g1, Inl x)
      | None \<Rightarrow> (g1, case slots g1 of None \<Rightarrow> Inr []
                 | Some ss \<Rightarrow> Inr (map (slot_row (idle_is_actionable g1)) (enumerate 0 ss))))"

text \<open>A run of the gate over a list of validated events, up to the first error.\<close>

fun observe_all :: "pipeline_event list \<Rightarrow> idle_gate \<Rightarrow> idle_gate \<times> exn option" where
  "observe_all [] g = (g, None)"
| "observe_all (e # es) g =
     (case observe e g of (g', None) \<Rightarrow> observe_all es g' | (g', Some x) \<Rightarrow> (g', Some x))"

section \<open>Validated events and the round trip through the protocol\<close>

definition valid_event :: "pipeline_event \<Rightarrow> bool" where
  "valid_event e \<longleftrightarrow>
     1 \<le> ev_sequence e \<and> 0 \<le> ev_monotonic_seconds e \<and> 0 \<le> ev_unscheduled_count e \<and>
     0 \<le> ev_held_registries e \<and> ev_held_registries e \<le> ev_max_spool_registries e \<and>
     1 \<le> ev_max_spool_registries e \<and> 1 \<le> ev_slot_count e \<and>
     (case ev_kind e of
        SCHEDULING_STATE \<Rightarrow> ev_slot_id e = None \<and> ev_configuration_index e = None \<and> ev_outcome e = None
      | ANALYZER_STARTED \<Rightarrow> (\<exists>i. ev_slot_id e = Some i \<and> 0 \<le> i \<and> i < ev_slot_count e) \<and>
          (\<exists>c. ev_configuration_index e = Some c \<and> 0 \<le> c) \<and> ev_outcome e = None
      | ANALYZER_FINISHED \<Rightarrow> (\<exists>i. ev_slot_id e = Some i \<and> 0 \<le> i \<and> i < ev_slot_count e) \<and>
          (\<exists>c. ev_configuration_index e = Some c \<and> 0 \<le> c) \<and> ev_outcome e \<noteq> None
      | CONVERSION_STARTED \<Rightarrow> ev_slot_id e = None \<and>
          (\<exists>c. ev_configuration_index e = Some c \<and> 0 \<le> c) \<and> ev_outcome e = None
      | CONVERSION_FINISHED \<Rightarrow> ev_slot_id e = None \<and>
          (\<exists>c. ev_configuration_index e = Some c \<and> 0 \<le> c) \<and> ev_outcome e \<noteq> None)"

lemma check_count_Inr [simp]: "check_count name v = Inr n \<longleftrightarrow> v = JInt n \<and> 0 \<le> n"
  by (cases v) (auto simp: check_count_def Let_def)

lemma check_time_nonneg: "check_time v = Inr q \<Longrightarrow> 0 \<le> q"
  by (cases v)
    (auto intro!: mult_nonneg_nonneg simp: sgn_if check_time_def Let_def float_of_int_def split: option.splits pyfloat.splits if_splits)

lemma check_slot_Inr [simp]:
  "check_slot kind v n = Inr s \<longleftrightarrow>
     (if kind = CONVERSION_STARTED \<or> kind = CONVERSION_FINISHED then v = JNull \<and> s = None
      else \<exists>i. v = JInt i \<and> s = Some i \<and> 0 \<le> i \<and> i < n)"
  by (cases v) (auto simp: check_slot_def)

lemma check_outcome_Inr:
  "check_outcome kind v = Inr out \<Longrightarrow>
     (if kind = ANALYZER_STARTED \<or> kind = CONVERSION_STARTED then v = JNull \<and> out = None
      else out \<noteq> None)"
  by (auto simp: check_outcome_def split: if_splits)

lemma case_JInt_Inr:
  "(case v of JInt n \<Rightarrow> if b n then Inl e else Inr n | _ \<Rightarrow> Inl e') = Inr m \<longleftrightarrow> v = JInt m \<and> \<not> b m"
  by (cases v) auto

lemma post_init_pipeline_event_valid:
  assumes "post_init_pipeline_event r = Inr e"
  shows "valid_event e"
proof -
  from assms obtain q kind where
    common: "1 \<le> ev_sequence e" "check_time (re_monotonic_seconds r) = Inr (ev_monotonic_seconds e)"
      "0 \<le> ev_unscheduled_count e" "0 \<le> ev_held_registries e"
      "ev_held_registries e \<le> ev_max_spool_registries e" "1 \<le> ev_max_spool_registries e"
      "1 \<le> ev_slot_count e" and
    rest: "ev_kind e = kind"
      "if kind = SCHEDULING_STATE
       then ev_slot_id e = None \<and> ev_configuration_index e = None \<and> ev_outcome e = None
       else (\<exists>c. ev_configuration_index e = Some c \<and> 0 \<le> c) \<and>
         check_slot kind (re_slot_id r) (ev_slot_count e) = Inr (ev_slot_id e) \<and>
         check_outcome kind (re_outcome r) = Inr (ev_outcome e)"
    unfolding post_init_pipeline_event_def
    by (auto simp: rbind_eq_Inr case_JInt_Inr not_less split: if_splits)
  show ?thesis
    using common check_time_nonneg [OF common(2)] rest
    by (cases kind) (auto simp: valid_event_def dest: check_outcome_Inr)
qed

lemma member_of_kind: "member_of event_kind_members event_kind_value (JStr (event_kind_value k)) m = Inr k"
  by (cases k) (simp_all add: member_of_def hashable_def event_kind_members_def)

lemma member_of_outcome:
  "member_of analyzer_outcome_members analyzer_outcome_value (JStr (analyzer_outcome_value out)) m = Inr out"
  by (cases out) (simp_all add: member_of_def hashable_def analyzer_outcome_members_def)

lemmas member_of_value = member_of_kind member_of_outcome member_of_kind [of SCHEDULING_STATE, simplified]

lemma check_outcome_value:
  "check_outcome k (json_opt (\<lambda>x. JStr (analyzer_outcome_value x)) out) = Inr out" if
  "if k = ANALYZER_STARTED \<or> k = CONVERSION_STARTED then out = None else out \<noteq> None"
  using that by (cases out) (auto simp: check_outcome_def json_opt_def member_of_value split: if_splits)

lemma post_init_pipeline_event_complete:
  assumes "valid_event e"
  shows "post_init_pipeline_event
     \<lparr>re_sequence = JInt (ev_sequence e), re_monotonic_seconds = JFloat (Finite (ev_monotonic_seconds e)),
      re_kind = JStr (event_kind_value (ev_kind e)), re_slot_id = json_opt JInt (ev_slot_id e),
      re_configuration_index = json_opt JInt (ev_configuration_index e),
      re_outcome = json_opt (\<lambda>x. JStr (analyzer_outcome_value x)) (ev_outcome e),
      re_unscheduled_count = JInt (ev_unscheduled_count e),
      re_held_registries = JInt (ev_held_registries e),
      re_max_spool_registries = JInt (ev_max_spool_registries e),
      re_slot_count = JInt (ev_slot_count e)\<rparr> = Inr e"
proof -
  have time: "check_time (JFloat (Finite (ev_monotonic_seconds e))) = Inr (ev_monotonic_seconds e)"
    using assms by (simp add: check_time_def valid_event_def)
  have count: "check_count name (JInt n) = Inr n" if "0 \<le> n" for name n
    using that by simp
  show ?thesis
  proof (cases "ev_kind e = SCHEDULING_STATE")
    case True
    then show ?thesis
      using assms by (simp add: valid_event_def post_init_pipeline_event_def Let_def time count
          member_of_value json_opt_def)
  next
    case False
    then obtain c where c: "ev_configuration_index e = Some c" "0 \<le> c"
      using assms by (cases "ev_kind e") (auto simp: valid_event_def)
    have slot: "check_slot (ev_kind e) (json_opt JInt (ev_slot_id e)) (ev_slot_count e) = Inr (ev_slot_id e)"
      using assms False by (cases "ev_kind e") (auto simp: valid_event_def json_opt_def)
    have out: "check_outcome (ev_kind e) (json_opt (\<lambda>x. JStr (analyzer_outcome_value x)) (ev_outcome e))
        = Inr (ev_outcome e)"
      using assms False by (intro check_outcome_value, cases "ev_kind e") (auto simp: valid_event_def)
    have index: "json_opt JInt (ev_configuration_index e) = JInt c" by (simp add: c json_opt_def)
    show ?thesis
      using assms c False unfolding post_init_pipeline_event_def index
      by (simp add: valid_event_def Let_def time count member_of_value slot out)
  qed
qed

lemma from_to_protocol_payload: "valid_event e \<Longrightarrow> from_protocol_payload (to_protocol_payload e) = Inr e"
  using post_init_pipeline_event_complete [of e]
  by (simp add: from_protocol_payload_def to_protocol_payload_def PROTOCOL_FIELDS_def dict_index_def)

text \<open>
  Property C36.  Every event the constructor accepts survives the child-process protocol: its
  payload decodes to the same event, whatever the JSON values it was built from.
\<close>

theorem event_payload_roundtrip:
  assumes "post_init_pipeline_event r = Inr e"
  shows "from_protocol_payload (to_protocol_payload e) = Inr e"
  by (rule from_to_protocol_payload) (rule post_init_pipeline_event_valid [OF assms])

definition sample_event :: raw_event where
  "sample_event =
     \<lparr>re_sequence = JInt 3, re_monotonic_seconds = JFloat (Finite 7), re_kind = JStr ''analyzer_finished'',
      re_slot_id = JInt 1, re_configuration_index = JInt 0, re_outcome = JStr ''failed'',
      re_unscheduled_count = JInt 2, re_held_registries = JInt 1, re_max_spool_registries = JInt 4,
      re_slot_count = JInt 2\<rparr>"

definition sample_pipeline_event :: pipeline_event where
  "sample_pipeline_event =
     \<lparr>ev_sequence = 3, ev_monotonic_seconds = 7, ev_kind = ANALYZER_FINISHED, ev_slot_id = Some 1,
      ev_configuration_index = Some 0, ev_outcome = Some FAILED, ev_unscheduled_count = 2,
      ev_held_registries = 1, ev_max_spool_registries = 4, ev_slot_count = 2\<rparr>"

lemma sample_event_accepted: "post_init_pipeline_event sample_event = Inr sample_pipeline_event"
  by code_simp

theorem event_payload_roundtrip_witness:
  "from_protocol_payload (to_protocol_payload sample_pipeline_event) = Inr sample_pipeline_event"
  by (rule event_payload_roundtrip [OF sample_event_accepted])

section \<open>The gate against the trace of its events\<close>

text \<open>
  What the gate promises, stated on the events alone: slot \<open>i\<close> is busy after a prefix when its
  last lifecycle event there is a start; it idles after event \<open>m\<close> when it is not busy and event
  \<open>m\<close> reports unscheduled work and spool capacity.
\<close>

definition lifecycle :: "int \<Rightarrow> pipeline_event \<Rightarrow> bool \<Rightarrow> bool" where
  "lifecycle i e busy =
     (if ev_slot_id e = Some i \<and> ev_kind e = ANALYZER_STARTED then True
      else if ev_slot_id e = Some i \<and> ev_kind e = ANALYZER_FINISHED then False else busy)"

definition slot_busy :: "pipeline_event list \<Rightarrow> int \<Rightarrow> bool" where
  "slot_busy es i = fold (lifecycle i) es False"

definition actionable_event :: "pipeline_event \<Rightarrow> bool" where
  "actionable_event e = (0 < ev_unscheduled_count e \<and> ev_held_registries e < ev_max_spool_registries e)"

definition idle_after :: "pipeline_event list \<Rightarrow> nat \<Rightarrow> nat \<Rightarrow> bool" where
  "idle_after es i m = (\<not> slot_busy (take (Suc m) es) (int i) \<and> actionable_event (es ! m))"

definition idle_from :: "pipeline_event list \<Rightarrow> nat \<Rightarrow> nat \<Rightarrow> bool" where
  "idle_from es i j = (\<forall>m \<in> set [j..<length es]. idle_after es i m)"

definition slot_trace :: "pipeline_event list \<Rightarrow> nat \<Rightarrow> slot_state \<Rightarrow> bool" where
  "slot_trace es i s \<longleftrightarrow>
     active s = slot_busy es (int i) \<and> (active s \<longrightarrow> idle_since s = None) \<and>
     (\<forall>t. idle_since s = Some t \<longrightarrow>
        (\<exists>j < length es. t = ev_monotonic_seconds (es ! j) \<and> idle_from es i j)) \<and>
     (\<forall>j < length es. idle_from es i j \<longrightarrow>
        (\<exists>t. idle_since s = Some t \<and> t \<le> ev_monotonic_seconds (es ! j)))"

definition gate_trace :: "rat \<Rightarrow> pipeline_event list \<Rightarrow> idle_gate \<Rightarrow> bool" where
  "gate_trace limit es g \<longleftrightarrow>
     max_idle_seconds g = limit \<and> last_sequence g = int (length es) \<and>
     (\<forall>e \<in> set es. ev_monotonic_seconds e \<le> last_event_time g) \<and>
     (case slots g of
        None \<Rightarrow> es = [] \<and> last_event_time g = 0
      | Some ss \<Rightarrow> es \<noteq> [] \<and> last_event_time g = ev_monotonic_seconds (last es) \<and>
          int (length ss) = ev_slot_count (last es) \<and> (\<forall>i < length ss. slot_trace es i (ss ! i)))"

lemma slot_busy_snoc: "slot_busy (es @ [e]) i = lifecycle i e (slot_busy es i)"
  by (simp add: slot_busy_def)

lemma idle_from_snoc:
  "j \<le> length es \<Longrightarrow> idle_from (es @ [e]) i j \<longleftrightarrow>
     (j < length es \<longrightarrow> idle_from es i j) \<and> \<not> slot_busy (es @ [e]) (int i) \<and> actionable_event e"
proof -
  assume j: "j \<le> length es"
  have old: "idle_after (es @ [e]) i m = idle_after es i m" if "m < length es" for m
    using that by (simp add: idle_after_def nth_append)
  have new: "idle_after (es @ [e]) i (length es) \<longleftrightarrow> \<not> slot_busy (es @ [e]) (int i) \<and> actionable_event e"
    by (simp add: idle_after_def)
  have "idle_from (es @ [e]) i j \<longleftrightarrow>
      (\<forall>m. j \<le> m \<and> m < length es \<longrightarrow> idle_after es i m) \<and> idle_after (es @ [e]) i (length es)"
    using j old by (auto simp: idle_from_def less_Suc_eq)
  then show ?thesis using new by (auto simp: idle_from_def)
qed

lemma measure_slots_ok:
  "measure_slots limit enforce now i ss = (ss', None) \<Longrightarrow> ss' = map (measure_slot now) ss"
  by (induction limit enforce now i ss arbitrary: ss' rule: measure_slots.induct)
    (auto split: if_splits prod.splits)

lemma measure_slots_error:
  "snd (measure_slots limit True now k ss) = None \<longleftrightarrow> (\<forall>s \<in> set ss. \<not> overdue limit now s)"
  by (induction ss arbitrary: k) (auto simp: split_beta Let_def)

lemma measure_slots_raises:
  "snd (measure_slots limit enforce now k ss) = Some x \<Longrightarrow> \<exists>i. x = AnalyzerSlotIdleError i"
  by (induction limit enforce now k ss rule: measure_slots.induct)
    (auto split: if_splits prod.splits)

lemma measure_slot_fields [simp]:
  "active (measure_slot now s) = active s" "idle_since (measure_slot now s) = idle_since s"
  "configuration_index (measure_slot now s) = configuration_index s"
  by (simp_all add: measure_slot_def split: option.splits)

lemma gate_trace_new: "new_gate (Finite q) = Inr g \<Longrightarrow> gate_trace q [] g"
  by (auto simp: new_gate_def gate_trace_def split: if_splits)

definition observed_slots :: "pipeline_event \<Rightarrow> idle_gate \<Rightarrow> slot_state list" where
  "observed_slots e g =
     (case slots g of None \<Rightarrow> replicate (nat (ev_slot_count e)) new_slot | Some ss \<Rightarrow> ss)"

definition in_order :: "pipeline_event \<Rightarrow> idle_gate \<Rightarrow> bool" where
  "in_order e g \<longleftrightarrow> ev_sequence e = last_sequence g + 1 \<and> last_event_time g \<le> ev_monotonic_seconds e \<and>
     (slots g = None \<or> int (length (observed_slots e g)) = ev_slot_count e)"

lemma observe_in_order:
  assumes "in_order e g"
  shows "observe e g =
    (let (ss1, err) = measure_slots (max_idle_seconds g) True (ev_monotonic_seconds e) 0 (observed_slots e g) in
     case err of Some x \<Rightarrow> (g\<lparr>slots := Some ss1\<rparr>, Some x)
     | None \<Rightarrow> (case transition_slots e ss1 of
           Inl x \<Rightarrow> (record_event e (g\<lparr>slots := Some ss1\<rparr>), Some x)
         | Inr ss2 \<Rightarrow> (apply_current_idle_state (ev_monotonic_seconds e)
               ((record_event e g)\<lparr>slots := Some ss2\<rparr>), None)))"
  using assms
  by (simp add: observe_def in_order_def observed_slots_def measure_idle_def not_less Let_def
      record_event_def split: option.splits prod.splits sum.splits)

lemma observe_not_in_order:
  assumes "\<not> in_order e g"
  shows "\<exists>m. observe e g = (g, Some (ValueError m))"
  using assms by (auto simp: observe_def in_order_def observed_slots_def split: option.splits)

lemma observe_ok:
  assumes "observe e g = (g', None)"
  obtains ss where "in_order e g" "\<forall>s \<in> set (observed_slots e g). \<not> overdue (max_idle_seconds g) (ev_monotonic_seconds e) s"
    "transition_slots e (map (measure_slot (ev_monotonic_seconds e)) (observed_slots e g)) = Inr ss"
    "g' = apply_current_idle_state (ev_monotonic_seconds e) ((record_event e g)\<lparr>slots := Some ss\<rparr>)"
proof -
  have ord: "in_order e g" using observe_not_in_order [of e g] assms by auto
  obtain ss1 err where m: "measure_slots (max_idle_seconds g) True (ev_monotonic_seconds e) 0
      (observed_slots e g) = (ss1, err)" by fastforce
  then have none: "err = None" using assms ord
    by (auto simp: observe_in_order split: option.splits)
  with m measure_slots_ok have ss1: "ss1 = map (measure_slot (ev_monotonic_seconds e)) (observed_slots e g)"
    by blast
  from m none have over: "\<forall>s \<in> set (observed_slots e g). \<not> overdue (max_idle_seconds g) (ev_monotonic_seconds e) s"
    using measure_slots_error [of "max_idle_seconds g" "ev_monotonic_seconds e" 0 "observed_slots e g"]
    by simp
  from assms ord m none show thesis
    by (auto simp: observe_in_order ss1 split: sum.splits intro: that [OF ord over])
qed

text \<open>One accepted event, slot by slot.\<close>

lemma transition_slots_nth:
  assumes "transition_slots e ss = Inr ss'" and "valid_event e" and "int (length ss) = ev_slot_count e"
    and "i < length ss"
  shows "length ss' = length ss"
    and "active (ss' ! i) = lifecycle (int i) e (active (ss ! i))"
    and "active (ss' ! i) \<Longrightarrow> active (ss ! i) \<longrightarrow> idle_since (ss ! i) = None \<Longrightarrow> idle_since (ss' ! i) = None"
    and "\<not> active (ss' ! i) \<Longrightarrow> idle_since (ss' ! i) = idle_since (ss ! i)"
    and "\<not> active (ss' ! i) \<Longrightarrow> active (ss ! i) \<or> ss' ! i = ss ! i"
  using assms
  by (auto simp: transition_slots_def valid_event_def lifecycle_def start_slot_def finish_slot_def nth_list_update
      split: event_kind.splits option.splits if_splits)

lemma slot_trace_step:
  assumes "slot_trace es i s"
    and act: "active s' = lifecycle (int i) e (active s)"
    and started: "active s' \<Longrightarrow> idle_since s' = None"
    and kept: "\<not> active s' \<Longrightarrow> idle_since s' = idle_since s"
    and late: "\<forall>d \<in> set es. ev_monotonic_seconds d \<le> ev_monotonic_seconds e"
  shows "slot_trace (es @ [e]) i (idle_slot (actionable_event e) (ev_monotonic_seconds e) s')"
proof (cases "active s' \<or> \<not> actionable_event e")
  case True
  have busy: "slot_busy (es @ [e]) (int i) = active s'"
    using assms(1) act by (simp add: slot_trace_def slot_busy_snoc)
  have "\<not> idle_from (es @ [e]) i j" if "j < length (es @ [e])" for j
    using that True idle_from_snoc [of j es e i] busy by auto
  then show ?thesis using True busy by (auto simp: slot_trace_def idle_slot_def)
next
  case False
  have busy: "\<not> slot_busy (es @ [e]) (int i)"
    using assms(1) act False by (simp add: slot_trace_def slot_busy_snoc)
  have snoc: "idle_from (es @ [e]) i j \<longleftrightarrow> (j < length es \<longrightarrow> idle_from es i j)" if "j \<le> length es" for j
    using idle_from_snoc [OF that] busy False by auto
  show ?thesis
  proof (cases "idle_since s")
    case None
    then have "\<not> idle_from es i j" if "j < length es" for j
      using assms(1) that by (auto simp: slot_trace_def)
    then show ?thesis using busy False None kept snoc
      by (auto simp: slot_trace_def idle_slot_def nth_append less_Suc_eq intro!: exI [of _ "length es"])
  next
    case (Some t)
    then obtain j where j: "j < length es" "t = ev_monotonic_seconds (es ! j)" "idle_from es i j"
      using assms(1) by (auto simp: slot_trace_def)
    have "t \<le> ev_monotonic_seconds e" using late j by auto
    moreover have "t \<le> ev_monotonic_seconds (es ! k)" if "k < length es" "idle_from es i k" for k
      using assms(1) that Some by (auto simp: slot_trace_def)
    moreover have "\<exists>j < length (es @ [e]). t = ev_monotonic_seconds ((es @ [e]) ! j) \<and> idle_from (es @ [e]) i j"
      using j snoc [of j] by (intro exI [of _ j]) (auto simp: nth_append)
    ultimately show ?thesis using busy False Some kept snoc
      by (auto simp: slot_trace_def idle_slot_def nth_append less_Suc_eq)
  qed
qed

lemma slot_trace_new: "slot_trace [] i new_slot"
  by (simp add: slot_trace_def new_slot_def slot_busy_def)

lemma slot_trace_measure: "slot_trace es i (measure_slot now s) = slot_trace es i s"
  by (simp add: slot_trace_def)

lemma observed_slots_trace:
  assumes "gate_trace limit es g" and "in_order e g" and "valid_event e"
  shows "int (length (observed_slots e g)) = ev_slot_count e"
    and "i < length (observed_slots e g) \<Longrightarrow> slot_trace es i (observed_slots e g ! i)"
  using assms
  by (auto simp: gate_trace_def in_order_def observed_slots_def slot_trace_new valid_event_def
      split: option.splits)

lemma gate_trace_observe:
  assumes "gate_trace limit es g" and "valid_event e" and "observe e g = (g', None)"
  shows "gate_trace limit (es @ [e]) g'"
proof -
  let ?now = "ev_monotonic_seconds e"
  from assms(3) obtain ss where ok: "in_order e g"
    "transition_slots e (map (measure_slot ?now) (observed_slots e g)) = Inr ss"
    "g' = apply_current_idle_state ?now ((record_event e g)\<lparr>slots := Some ss\<rparr>)"
    by (rule observe_ok)
  note old = observed_slots_trace [OF assms(1) ok(1) assms(2)]
  have len: "int (length (map (measure_slot ?now) (observed_slots e g))) = ev_slot_count e"
    by (simp add: old)
  have ss_length: "length ss = length (observed_slots e g)"
    using transition_slots_nth(1) [OF ok(2) assms(2) len, of 0] old(1) assms(2)
    by (cases "observed_slots e g = []") (auto simp: valid_event_def simp del: length_greater_0_conv)
  have late: "\<forall>d \<in> set es. ev_monotonic_seconds d \<le> ?now"
    using assms(1) ok(1) by (force simp: gate_trace_def in_order_def)
  have step: "slot_trace (es @ [e]) i (idle_slot (actionable_event e) ?now (ss ! i))"
    if i: "i < length ss" for i
  proof -
    have i': "i < length (map (measure_slot ?now) (observed_slots e g))" using i ss_length by simp
    have nth: "map (measure_slot ?now) (observed_slots e g) ! i = measure_slot ?now (observed_slots e g ! i)"
      using i' by simp
    have was: "slot_trace es i (observed_slots e g ! i)" using old(2) i ss_length by simp
    note t = transition_slots_nth [OF ok(2) assms(2) len i', unfolded nth]
    show ?thesis
      by (rule slot_trace_step [OF was]) (use was t late in \<open>auto simp: slot_trace_def\<close>)
  qed
  have "idle_is_actionable ((record_event e g)\<lparr>slots := Some ss\<rparr>) = actionable_event e"
    by (simp add: idle_is_actionable_def record_event_def actionable_event_def)
  with assms(1) ok(1) step late ss_length old(1) show ?thesis
    by (auto simp: ok(3) gate_trace_def apply_current_idle_state_def record_event_def in_order_def)
qed

lemma gate_trace_observe_all:
  assumes "observe_all es g = (g', None)" and "gate_trace limit es0 g" and "\<forall>e \<in> set es. valid_event e"
  shows "gate_trace limit (es0 @ es) g'"
  using assms
proof (induction es arbitrary: es0 g)
  case (Cons e es)
  from Cons.prems(1) obtain g1 where "observe e g = (g1, None)" "observe_all es g1 = (g', None)"
    by (auto split: prod.splits option.splits)
  with Cons.IH [of g1 "es0 @ [e]"] Cons.prems gate_trace_observe show ?case by auto
qed simp

lemma raises_iff_overdue:
  assumes "in_order e g"
  shows "(\<exists>g' i. observe e g = (g', Some (AnalyzerSlotIdleError i))) \<longleftrightarrow>
     (\<exists>s \<in> set (observed_slots e g). overdue (max_idle_seconds g) (ev_monotonic_seconds e) s)"
proof -
  obtain ss1 err where m: "measure_slots (max_idle_seconds g) True (ev_monotonic_seconds e) 0
      (observed_slots e g) = (ss1, err)" by fastforce
  have "transition_slots e ss \<noteq> Inl (AnalyzerSlotIdleError i)" for ss i
    by (auto simp: transition_slots_def split: event_kind.splits option.splits)
  then have "(\<exists>g' i. observe e g = (g', Some (AnalyzerSlotIdleError i))) \<longleftrightarrow> err \<noteq> None"
    using measure_slots_raises [of "max_idle_seconds g" True "ev_monotonic_seconds e" 0 "observed_slots e g"] m
    by (auto simp: observe_in_order [OF assms] split: option.splits sum.splits)
  then show ?thesis
    using m measure_slots_error [of "max_idle_seconds g" "ev_monotonic_seconds e" 0 "observed_slots e g"]
    by auto
qed

lemma trace_overdue:
  assumes "slot_trace es i s"
  shows "overdue limit now s \<longleftrightarrow>
    (\<exists>j < length es. idle_from es i j \<and> limit < now - ev_monotonic_seconds (es ! j))"
proof
  assume "overdue limit now s"
  then show "\<exists>j < length es. idle_from es i j \<and> limit < now - ev_monotonic_seconds (es ! j)"
    using assms by (auto simp: overdue_def slot_trace_def split: option.splits)
next
  assume "\<exists>j < length es. idle_from es i j \<and> limit < now - ev_monotonic_seconds (es ! j)"
  then obtain j where j: "j < length es" "idle_from es i j" "limit < now - ev_monotonic_seconds (es ! j)"
    by auto
  then obtain t where "idle_since s = Some t" "t \<le> ev_monotonic_seconds (es ! j)"
    using assms by (auto simp: slot_trace_def)
  with j show "overdue limit now s" by (simp add: overdue_def)
qed


definition state_event :: "int \<Rightarrow> rat \<Rightarrow> pipeline_event" where
  "state_event n t = \<lparr>ev_sequence = n, ev_monotonic_seconds = t, ev_kind = SCHEDULING_STATE,
     ev_slot_id = None, ev_configuration_index = None, ev_outcome = None, ev_unscheduled_count = 2,
     ev_held_registries = 0, ev_max_spool_registries = 4, ev_slot_count = 1\<rparr>"

definition sample_gate :: idle_gate where
  "sample_gate = fst (observe (state_event 1 3)
     \<lparr>max_idle_seconds = 5, slots = None, last_sequence = 0, last_event_time = 0,
      unscheduled_count = 0, held_registries = 0, max_spool_registries = 1\<rparr>)"


end
