(* ===== verification/NativeWire.thy ===== *)
theory NativeWire
imports CompilationDb Telemetry
begin

text \<open>
  The wire layer of \<open>ingestion/native.py\<close>: field accessors of protocol records, chunked symbol
  text, the incremental JSONL decoder, resource budgets, the disk registry of facts, the handshake
  and the state machine that accepts one analysis response.

  \<open>json.loads\<close>, \<open>marshal\<close>, \<open>zlib\<close> and SHA-256 are arguments.  A JSON object is an association
  list with distinct keys.
\<close>

type_synonym wire_fact = "(string \<times> json) list"

section \<open>Field accessors\<close>

definition invalid_field :: "string \<Rightarrow> 'a result" where
  "invalid_field name = Inl (AnalyzerProtocolError (''analyzer record has invalid '' @ name))"

definition wire_mapping :: "wire_fact \<Rightarrow> string \<Rightarrow> wire_fact result" where
  "wire_mapping r name = (case map_of r name of Some (JObj v) \<Rightarrow> Inr v | _ \<Rightarrow> invalid_field name)"

definition wire_string :: "wire_fact \<Rightarrow> string \<Rightarrow> string result" where
  "wire_string r name = (case map_of r name of
     Some (JStr s) \<Rightarrow> if s = [] then invalid_field name else Inr s | _ \<Rightarrow> invalid_field name)"

definition wire_optional_string :: "wire_fact \<Rightarrow> string \<Rightarrow> string result" where
  "wire_optional_string r name = (case map_of r name of
     None \<Rightarrow> Inr [] | Some (JStr s) \<Rightarrow> Inr s | _ \<Rightarrow> invalid_field name)"

definition wire_integer :: "wire_fact \<Rightarrow> string \<Rightarrow> int result" where
  "wire_integer r name = (case map_of r name of Some (JInt n) \<Rightarrow> Inr n | _ \<Rightarrow> invalid_field name)"

definition wire_non_negative_integer :: "wire_fact \<Rightarrow> string \<Rightarrow> int result" where
  "wire_non_negative_integer r name =
     rbind (wire_integer r name) (\<lambda>n. if n < 0 then invalid_field name else Inr n)"

definition present :: "wire_fact \<Rightarrow> string \<Rightarrow> bool" where
  "present r name = (case map_of r name of None \<Rightarrow> False | Some JNull \<Rightarrow> False | _ \<Rightarrow> True)"

definition wire_optional_non_negative_integer :: "wire_fact \<Rightarrow> string \<Rightarrow> int option result" where
  "wire_optional_non_negative_integer r name =
     (if present r name then rmap_result Some (wire_non_negative_integer r name) else Inr None)"

definition wire_optional_key :: "wire_fact \<Rightarrow> string \<Rightarrow> string option result" where
  "wire_optional_key r name =
     (if present r name then rmap_result Some (wire_string r name) else Inr None)"

definition wire_string_list :: "wire_fact \<Rightarrow> string \<Rightarrow> string list result" where
  "wire_string_list r name =
     (case map_of r name of
        None \<Rightarrow> invalid_field name
      | Some v \<Rightarrow> (case json_strings v of None \<Rightarrow> invalid_field name | Some xs \<Rightarrow> Inr xs))"

definition wire_positive_integer :: "wire_fact \<Rightarrow> string \<Rightarrow> int result" where
  "wire_positive_integer r name =
     rbind (wire_integer r name) (\<lambda>n. if n \<le> 0 then invalid_field name else Inr n)"

definition wire_boolean :: "wire_fact \<Rightarrow> string \<Rightarrow> bool result" where
  "wire_boolean r name = (case map_of r name of Some (JBool b) \<Rightarrow> Inr b | _ \<Rightarrow> invalid_field name)"

definition wire_number :: "wire_fact \<Rightarrow> string \<Rightarrow> pyfloat result" where
  "wire_number r name =
     rbind (case map_of r name of
              Some (JInt n) \<Rightarrow> (case float_of_int n of None \<Rightarrow> Inl OverflowError | Some q \<Rightarrow> Inr (Finite q))
            | Some (JFloat x) \<Rightarrow> Inr x
            | _ \<Rightarrow> invalid_field name) (\<lambda>x.
     if in_unit_interval x then Inr x else invalid_field name)"

section \<open>Compact keys\<close>

definition WIRE_FACT_KEYS :: "(string \<times> string) list" where
  "WIRE_FACT_KEYS =
     [(''cfg_graph_v1'', ''g''), (''cfg_block_v1'', ''b''), (''cfg_element_v1'', ''e''),
      (''data_flow_analysis_v1'', ''d''), (''memory_location_v1'', ''m''), (''data_access_v1'', ''a''),
      (''data_flow_evidence_v1'', ''v''), (''summary_effect_v1'', ''s'')]"

definition WIRE_REFERENCE_FIELDS :: "(string \<times> string) list" where
  "WIRE_REFERENCE_FIELDS =
     [(''graph_key'', ''g''), (''entry_block_key'', ''b''), (''normal_exit_block_key'', ''b''),
      (''exceptional_exit_block_key'', ''b''), (''block_key'', ''b''), (''source_block_key'', ''b''),
      (''target_block_key'', ''b''), (''cfg_element_key'', ''e''), (''analysis_key'', ''d''),
      (''base_key'', ''m''), (''location_key'', ''m''), (''source_location_key'', ''m''),
      (''target_location_key'', ''m''), (''source_access_key'', ''a''), (''target_access_key'', ''a''),
      (''definition_access_key'', ''a'')]"

definition wire_key :: "(string \<Rightarrow> string) \<Rightarrow> string \<Rightarrow> string \<Rightarrow> string" where
  "wire_key H identity family =
     (if length (utf8 identity) \<le> 66 then identity else family @ '':'' @ H (utf8 identity))"

section \<open>Chunked symbol text\<close>

definition SYMBOL_TEXT_CHUNK_KIND :: string where "SYMBOL_TEXT_CHUNK_KIND = ''symbol_text_chunk_v1''"

definition SYMBOL_TEXT_FIELDS :: "string list" where
  "SYMBOL_TEXT_FIELDS = [''signature'', ''documentation'', ''source_text'']"

definition SYMBOL_TEXT_CHUNK_BYTES :: int where "SYMBOL_TEXT_CHUNK_BYTES = 64 * 1024"

record text_description =
  td_bytes :: int
  td_sha256 :: string

record symbol_text =
  st_assemble :: bool
  st_symbol :: "wire_fact option"
  st_descriptions :: "(string \<times> text_description) list"
  st_fields :: "string list"
  st_parts :: "string list"
  st_index :: int
  st_received :: int
  st_digest :: string

definition new_symbol_text :: "bool \<Rightarrow> symbol_text" where
  "new_symbol_text assemble = \<lparr>st_assemble = assemble, st_symbol = None, st_descriptions = [],
     st_fields = [], st_parts = [], st_index = 0, st_received = 0, st_digest = []\<rparr>"

definition pending :: "symbol_text \<Rightarrow> bool" where "pending s = (st_symbol s \<noteq> None)"

definition finish_text :: "symbol_text \<Rightarrow> unit result" where
  "finish_text s = ensure (\<not> pending s) (AnalyzerProtocolError ''analyzer symbol text chunks are incomplete'')"

definition fact_kind :: "wire_fact \<Rightarrow> string \<Rightarrow> bool" where
  "fact_kind r kind = (map_of r ''fact'' = Some (JStr kind))"

definition hex_digit :: "char \<Rightarrow> bool" where "hex_digit c = (c \<in> set ''0123456789abcdef'')"

definition text_descriptor :: "wire_fact \<Rightarrow> string \<times> json \<Rightarrow> text_description option" where
  "text_descriptor r entry =
     (let (field, description) = entry in
      case description of
        JObj d \<Rightarrow>
          (case (map_of d ''bytes'', map_of d ''sha256'') of
             (Some (JInt n), Some (JStr digest)) \<Rightarrow>
               if field \<in> fst ` set r \<or> fst ` set d \<noteq> {''bytes'', ''sha256''} \<or> n \<le> 0 \<or> length digest \<noteq> 64
                  \<or> list_ex (\<lambda>c. \<not> hex_digit c) digest
               then None else Some \<lparr>td_bytes = n, td_sha256 = digest\<rparr>
           | _ \<Rightarrow> None)
      | _ \<Rightarrow> None)"

text \<open>A chunk of the pending symbol.\<close>

definition accept_chunk :: "(string \<Rightarrow> string) \<Rightarrow> wire_fact \<Rightarrow> symbol_text \<Rightarrow> (symbol_text \<times> wire_fact option) result" where
  "accept_chunk H r s =
     (case (st_symbol s, st_fields s) of
        (Some symbol, field # later) \<Rightarrow>
          (case map_of r ''text'' of
             Some (JStr txt) \<Rightarrow>
               if fst ` set r \<noteq> {''type'', ''fact'', ''key'', ''field'', ''index'', ''text''} \<or>
                  map_of r ''type'' \<noteq> Some (JStr ''fact'') \<or> map_of r ''key'' \<noteq> map_of symbol ''key'' \<or>
                  map_of r ''field'' \<noteq> Some (JStr field) \<or> map_of r ''index'' \<noteq> Some (JInt (st_index s))
               then Inl (AnalyzerProtocolError ''analyzer symbol text chunk is out of order or invalid'')
               else rbind (dict_index (st_descriptions s) field) (\<lambda>description.
                 let encoded = utf8 txt; received = st_received s + int (length encoded);
                     digest = st_digest s @ encoded;
                     parts = (if st_assemble s then st_parts s @ [txt] else st_parts s) in
                 if \<not> (0 < length encoded \<and> int (length encoded) \<le> SYMBOL_TEXT_CHUNK_BYTES)
                    \<or> td_bytes description < received
                 then Inl (AnalyzerProtocolError ''analyzer symbol text chunk has an invalid length'')
                 else if received = td_bytes description
                 then if H digest \<noteq> td_sha256 description
                      then Inl (AnalyzerProtocolError ''analyzer symbol text digest is inconsistent'')
                      else let symbol' = (if st_assemble s then AList.update field (JStr (concat parts)) symbol
                                          else symbol);
                               s' = s\<lparr>st_parts := [], st_fields := later, st_index := 0, st_received := 0,
                                      st_digest := []\<rparr> in
                        if later = []
                        then Inr (s'\<lparr>st_symbol := None, st_descriptions := []\<rparr>, Some symbol')
                        else Inr (s'\<lparr>st_symbol := Some symbol'\<rparr>, None)
                 else Inr (s\<lparr>st_parts := parts, st_index := st_index s + 1, st_received := received,
                            st_digest := digest\<rparr>, None))
           | _ \<Rightarrow> Inl (AnalyzerProtocolError ''analyzer symbol text chunk is out of order or invalid''))
      | (Some _, []) \<Rightarrow> Inl IndexError
      | (None, _) \<Rightarrow> Inl (AnalyzerProtocolError ''analyzer emitted an unused symbol text chunk''))"

text \<open>Any other record: passed through, or the descriptor of a symbol whose text follows.\<close>

definition accept_descriptor :: "wire_fact \<Rightarrow> symbol_text \<Rightarrow> (symbol_text \<times> wire_fact option) result" where
  "accept_descriptor r s =
     (let bad = Inl (AnalyzerProtocolError ''analyzer symbol text descriptor is invalid'') in
      case map_of r ''text_chunks'' of
        None \<Rightarrow> Inr (s, Some r)
      | Some (JObj descriptions) \<Rightarrow>
          if \<not> fact_kind r ''symbol'' \<or> (case map_of r ''key'' of Some (JStr k) \<Rightarrow> k = [] | _ \<Rightarrow> True) \<or>
             descriptions = [] \<or> \<not> fst ` set descriptions \<subseteq> set SYMBOL_TEXT_FIELDS
          then bad
          else if list_ex (\<lambda>d. text_descriptor r d = None) descriptions then bad
          else Inr (s\<lparr>st_symbol := Some (AList.delete ''text_chunks'' r),
                     st_descriptions := map (\<lambda>d. (fst d, the (text_descriptor r d))) descriptions,
                     st_fields := filter (\<lambda>f. f \<in> fst ` set descriptions) SYMBOL_TEXT_FIELDS\<rparr>, None)
      | Some _ \<Rightarrow> bad)"

definition accept_text :: "(string \<Rightarrow> string) \<Rightarrow> wire_fact \<Rightarrow> symbol_text \<Rightarrow> (symbol_text \<times> wire_fact option) result" where
  "accept_text H r s =
     (if fact_kind r SYMBOL_TEXT_CHUNK_KIND then accept_chunk H r s
      else rbind (finish_text s) (\<lambda>_. accept_descriptor r s))"

section \<open>Resource budgets\<close>

record resource_budget =
  rb_limit :: int
  rb_message :: string
  rb_used :: int

definition new_budget :: "int \<Rightarrow> string \<Rightarrow> resource_budget result" where
  "new_budget limit message =
     (if limit \<le> 0 then Inl (ValueError ''registry resource limits must be positive'')
      else Inr \<lparr>rb_limit = limit, rb_message = message, rb_used = 0\<rparr>)"

definition acquire :: "int \<Rightarrow> resource_budget \<Rightarrow> resource_budget result" where
  "acquire amount b =
     (if rb_limit b < rb_used b + amount then Inl (AnalyzerLimitError (rb_message b))
      else Inr (b\<lparr>rb_used := rb_used b + amount\<rparr>))"

text \<open>\<open>release\<close> subtracts before it raises.\<close>

definition release :: "int \<Rightarrow> resource_budget \<Rightarrow> resource_budget \<times> exn option" where
  "release amount b =
     (let b' = b\<lparr>rb_used := rb_used b - amount\<rparr> in
      (b', if rb_used b' < 0 then Some (RuntimeError ''registry resource budget underflow'') else None))"

end
