(* ===== verification/NativeStream.thy ===== *)
theory NativeStream
imports NativeWire
begin

text \<open>
  \<open>_JsonlStreamDecoder\<close> of \<open>ingestion/native.py\<close>: incremental decompression and line decoding of
  one response under byte limits.  The consumer of records is a step function \<open>f\<close> on its own
  state; a decompressor is the record \<open>inflater\<close>.  The budget shared by all decoders is the one
  this decoder holds; acquisitions by other threads are not interleaved.
\<close>

definition NEWLINE :: char where "NEWLINE = CHR 0x0A"

record jsonl_decoder =
  dc_max_wire_bytes :: int
  dc_max_decoded_bytes :: int
  dc_max_record_bytes :: int
  dc_budget :: "resource_budget option"
  dc_wire_bytes :: int
  dc_decoded_bytes :: int
  dc_record :: string

definition new_decoder :: "int \<Rightarrow> int \<Rightarrow> int \<Rightarrow> resource_budget option \<Rightarrow> jsonl_decoder" where
  "new_decoder max_wire max_decoded max_record budget =
     \<lparr>dc_max_wire_bytes = max_wire, dc_max_decoded_bytes = max_decoded,
      dc_max_record_bytes = max_record, dc_budget = budget, dc_wire_bytes = 0,
      dc_decoded_bytes = 0, dc_record = []\<rparr>"

section \<open>Lines\<close>

text \<open>A part followed by a newline completes the record; the last part extends it.\<close>

definition feed_line ::
    "(string \<Rightarrow> json option) \<Rightarrow> (wire_fact \<Rightarrow> 's \<Rightarrow> 's result) \<Rightarrow> string \<Rightarrow> jsonl_decoder \<times> 's
      \<Rightarrow> (jsonl_decoder \<times> 's) result" where
  "feed_line loads f part ds =
     (let (d, s) = ds; line = dc_record d @ part in
      if line = [] then Inl (AnalyzerProtocolError ''analyzer returned malformed JSONL'')
      else if dc_max_record_bytes d < int (length line)
      then Inl (AnalyzerLimitError ''analyzer exceeded the record limit'')
      else case loads line of
        None \<Rightarrow> Inl (AnalyzerProtocolError ''analyzer returned malformed JSONL'')
      | Some (JObj r) \<Rightarrow> rmap_result (\<lambda>s'. (d\<lparr>dc_record := []\<rparr>, s')) (f r s)
      | Some _ \<Rightarrow> Inl (AnalyzerProtocolError ''analyzer JSONL records must be objects''))"

definition feed_tail :: "string \<Rightarrow> jsonl_decoder \<times> 's \<Rightarrow> (jsonl_decoder \<times> 's) result" where
  "feed_tail part ds =
     (let (d, s) = ds; line = dc_record d @ part in
      if dc_max_record_bytes d < int (length line)
      then Inl (AnalyzerLimitError ''analyzer exceeded the record limit'')
      else Inr (d\<lparr>dc_record := line\<rparr>, s))"

definition feed_parts ::
    "(string \<Rightarrow> json option) \<Rightarrow> (wire_fact \<Rightarrow> 's \<Rightarrow> 's result) \<Rightarrow> string list \<Rightarrow> jsonl_decoder \<times> 's
      \<Rightarrow> (jsonl_decoder \<times> 's) result" where
  "feed_parts loads f parts ds =
     rbind (rfold (feed_line loads f) (butlast parts) ds) (feed_tail (last parts))"

definition charge_budget :: "string \<Rightarrow> jsonl_decoder \<Rightarrow> jsonl_decoder result" where
  "charge_budget chunk d =
     (case dc_budget d of
        None \<Rightarrow> Inr d
      | Some b \<Rightarrow> if chunk = [] then Inr d
          else rmap_result (\<lambda>b'. d\<lparr>dc_budget := Some b'\<rparr>) (acquire (int (length chunk)) b))"

definition charge_decoded :: "string \<Rightarrow> jsonl_decoder \<Rightarrow> jsonl_decoder result" where
  "charge_decoded chunk d =
     rbind (charge_budget chunk d) (\<lambda>d1.
     let d2 = d1\<lparr>dc_decoded_bytes := dc_decoded_bytes d1 + int (length chunk)\<rparr> in
     if dc_max_decoded_bytes d2 < dc_decoded_bytes d2
     then Inl (AnalyzerLimitError ''analyzer exceeded the decoded output limit'') else Inr d2)"

definition feed_decoded ::
    "(string \<Rightarrow> json option) \<Rightarrow> (wire_fact \<Rightarrow> 's \<Rightarrow> 's result) \<Rightarrow> string \<Rightarrow> jsonl_decoder \<times> 's
      \<Rightarrow> (jsonl_decoder \<times> 's) result" where
  "feed_decoded loads f chunk ds =
     rbind (charge_decoded chunk (fst ds)) (\<lambda>d.
       feed_parts loads f (split_on NEWLINE chunk) (d, snd ds))"

section \<open>Transports\<close>

definition charge_wire :: "string \<Rightarrow> jsonl_decoder \<Rightarrow> jsonl_decoder result" where
  "charge_wire chunk d =
     (let d' = d\<lparr>dc_wire_bytes := dc_wire_bytes d + int (length chunk)\<rparr> in
      if dc_max_wire_bytes d' < dc_wire_bytes d'
      then Inl (AnalyzerLimitError ''analyzer exceeded the compressed output limit'') else Inr d')"

definition feed_plain ::
    "(string \<Rightarrow> json option) \<Rightarrow> (wire_fact \<Rightarrow> 's \<Rightarrow> 's result) \<Rightarrow> string \<Rightarrow> jsonl_decoder \<times> 's
      \<Rightarrow> (jsonl_decoder \<times> 's) result" where
  "feed_plain loads f chunk ds =
     rbind (charge_wire chunk (fst ds)) (\<lambda>d. feed_decoded loads f chunk (d, snd ds))"

definition finish_record :: "jsonl_decoder \<times> 's \<Rightarrow> (jsonl_decoder \<times> 's) result" where
  "finish_record ds =
     (if dc_record (fst ds) \<noteq> [] then Inl (AnalyzerProtocolError ''analyzer returned unterminated JSONL'')
      else Inr ds)"

text \<open>
  A \<open>zlib.decompressobj\<close>: \<open>decompress(data, max_length)\<close> returns the new object, the output and
  the unconsumed tail, \<open>None\<close> where it raises \<open>zlib.error\<close>.
\<close>

record 'z inflater =
  inf_decompress :: "'z \<Rightarrow> string \<Rightarrow> int \<Rightarrow> ('z \<times> string \<times> string) option"
  inf_flush :: "'z \<Rightarrow> int \<Rightarrow> ('z \<times> string) option"
  inf_eof :: "'z \<Rightarrow> bool"
  inf_unused :: "'z \<Rightarrow> string"

definition malformed_gzip :: "'a result" where
  "malformed_gzip = Inl (AnalyzerProtocolError ''analyzer returned malformed gzip data'')"

text \<open>The \<open>while pending\<close> loop; \<open>None\<close> when it does not return.\<close>

partial_function (option) inflate_loop ::
    "'z inflater \<Rightarrow> (string \<Rightarrow> json option) \<Rightarrow> (wire_fact \<Rightarrow> 's \<Rightarrow> 's result) \<Rightarrow> 'z \<Rightarrow> string
      \<Rightarrow> jsonl_decoder \<times> 's \<Rightarrow> ('z \<times> jsonl_decoder \<times> 's) result option" where
  "inflate_loop Z loads f z data ds =
     (if data = [] then Some (Inr (z, ds))
      else case inf_decompress Z z data (dc_max_decoded_bytes (fst ds) - dc_decoded_bytes (fst ds) + 1) of
        None \<Rightarrow> Some malformed_gzip
      | Some (z', decoded, tail) \<Rightarrow>
          (case feed_decoded loads f decoded ds of
             Inl e \<Rightarrow> Some (Inl e)
           | Inr ds' \<Rightarrow>
               if tail \<noteq> [] \<and> dc_max_decoded_bytes (fst ds') \<le> dc_decoded_bytes (fst ds')
               then Some (Inl (AnalyzerLimitError ''analyzer exceeded the decoded output limit''))
               else inflate_loop Z loads f z' tail ds'))"

definition feed_gzip ::
    "'z inflater \<Rightarrow> (string \<Rightarrow> json option) \<Rightarrow> (wire_fact \<Rightarrow> 's \<Rightarrow> 's result) \<Rightarrow> string
      \<Rightarrow> 'z \<times> jsonl_decoder \<times> 's \<Rightarrow> ('z \<times> jsonl_decoder \<times> 's) result option" where
  "feed_gzip Z loads f chunk zds =
     (case charge_wire chunk (fst (snd zds)) of
        Inl e \<Rightarrow> Some (Inl e)
      | Inr d \<Rightarrow> inflate_loop Z loads f (fst zds) chunk (d, snd (snd zds)))"

definition finish_gzip ::
    "'z inflater \<Rightarrow> (string \<Rightarrow> json option) \<Rightarrow> (wire_fact \<Rightarrow> 's \<Rightarrow> 's result)
      \<Rightarrow> 'z \<times> jsonl_decoder \<times> 's \<Rightarrow> (jsonl_decoder \<times> 's) result" where
  "finish_gzip Z loads f zds =
     (let (z, ds) = zds in
      case inf_flush Z z (dc_max_decoded_bytes (fst ds) - dc_decoded_bytes (fst ds) + 1) of
        None \<Rightarrow> malformed_gzip
      | Some (z', decoded) \<Rightarrow>
          rbind (feed_decoded loads f decoded ds) (\<lambda>ds'.
            if \<not> inf_eof Z z' \<or> inf_unused Z z' \<noteq> [] then malformed_gzip else finish_record ds'))"

definition decode_plain ::
    "(string \<Rightarrow> json option) \<Rightarrow> (wire_fact \<Rightarrow> 's \<Rightarrow> 's result) \<Rightarrow> string list \<Rightarrow> jsonl_decoder \<times> 's
      \<Rightarrow> (jsonl_decoder \<times> 's) result" where
  "decode_plain loads f chunks ds = rbind (rfold (feed_plain loads f) chunks ds) finish_record"

section \<open>Read boundaries do not matter\<close>

lemma split_on_append_parts:
  "split_on c (xs @ ys) = butlast (split_on c xs) @ (last (split_on c xs) @ hd (split_on c ys)) # tl (split_on c ys)"
proof (induction xs)
  case Nil
  then show ?case by (cases "split_on c ys") simp_all
next
  case (Cons x xs)
  obtain p ps where "split_on c xs = p # ps" by (cases "split_on c xs") simp_all
  with Cons show ?case by (cases ps) auto
qed

text \<open>Two computations accept the same results.\<close>

definition agree :: "'a result \<Rightarrow> 'a result \<Rightarrow> bool" where
  "agree r r' \<longleftrightarrow> (\<forall>x. r = Inr x \<longleftrightarrow> r' = Inr x)"

lemma agree_refl [simp]: "agree r r" by (simp add: agree_def)

lemma agree_Inr: "agree r r' \<Longrightarrow> r = Inr x \<longleftrightarrow> r' = Inr x" by (simp add: agree_def)

lemma agree_rbind: "agree r r' \<Longrightarrow> (\<And>x. agree (f x) (g x)) \<Longrightarrow> agree (rbind r f) (rbind r' g)"
  by (simp add: agree_def rbind_eq_Inr)

lemma agree_trans: "agree a b \<Longrightarrow> agree b c \<Longrightarrow> agree a c" by (simp add: agree_def)

lemma feed_tail_line: "agree (rbind (feed_tail p ds) (feed_line loads f q)) (feed_line loads f (p @ q) ds)"
  by (cases ds) (auto simp: agree_def feed_tail_def feed_line_def rbind_eq_Inr Let_def
      split: option.splits json.splits)

lemma feed_tail_tail: "agree (rbind (feed_tail p ds) (feed_tail q)) (feed_tail (p @ q) ds)"
  by (cases ds) (auto simp: agree_def feed_tail_def rbind_eq_Inr Let_def)

lemma feed_parts_prefix:
  "ps \<noteq> [] \<Longrightarrow> feed_parts loads f (qs @ ps) ds = rbind (rfold (feed_line loads f) qs ds) (feed_parts loads f ps)"
  by (simp add: feed_parts_def butlast_append rfold_append rbind_assoc)

lemma feed_parts_step:
  "agree (rbind (feed_tail p ds) (feed_parts loads f (h # bs))) (feed_parts loads f ((p @ h) # bs) ds)"
proof (cases "bs = []")
  case True
  then show ?thesis by (simp add: feed_parts_def feed_tail_tail)
next
  case False
  have "agree (rbind (rbind (feed_tail p ds) (feed_line loads f h)) g) (rbind (feed_line loads f (p @ h) ds) g)" for g
    by (rule agree_rbind [OF feed_tail_line agree_refl])
  then show ?thesis using False by (simp add: feed_parts_def rbind_assoc)
qed

lemma feed_parts_append:
  "agree (rbind (feed_parts loads f (split_on c a) ds) (feed_parts loads f (split_on c b)))
     (feed_parts loads f (split_on c (a @ b)) ds)"
proof -
  obtain h bs where b: "split_on c b = h # bs" by (cases "split_on c b") simp_all
  have "feed_parts loads f (split_on c a) ds
      = rbind (rfold (feed_line loads f) (butlast (split_on c a)) ds) (feed_tail (last (split_on c a)))"
    by (simp add: feed_parts_def)
  then show ?thesis
    unfolding split_on_append_parts b
    by (simp add: feed_parts_prefix rbind_assoc agree_rbind feed_parts_step)
qed

text \<open>The byte accounting of one chunk, and its independence of the line buffer.\<close>

definition charged :: "int \<Rightarrow> jsonl_decoder \<Rightarrow> jsonl_decoder" where
  "charged n d = d\<lparr>dc_wire_bytes := dc_wire_bytes d + n, dc_decoded_bytes := dc_decoded_bytes d + n,
     dc_budget := map_option (\<lambda>b. b\<lparr>rb_used := rb_used b + n\<rparr>) (dc_budget d)\<rparr>"

definition affordable :: "int \<Rightarrow> jsonl_decoder \<Rightarrow> bool" where
  "affordable n d \<longleftrightarrow>
     dc_wire_bytes d + n \<le> dc_max_wire_bytes d \<and> dc_decoded_bytes d + n \<le> dc_max_decoded_bytes d \<and>
     (case dc_budget d of None \<Rightarrow> True | Some b \<Rightarrow> n = 0 \<or> rb_used b + n \<le> rb_limit b)"

lemma charged_fields [simp]:
  "dc_record (charged n d) = dc_record d" "dc_max_record_bytes (charged n d) = dc_max_record_bytes d"
  "(charged n d)\<lparr>dc_record := r\<rparr> = charged n (d\<lparr>dc_record := r\<rparr>)"
  by (simp_all add: charged_def)

lemma charged_charged: "charged b (charged a d) = charged (a + b) d"
  by (cases d; cases "dc_budget d") (simp_all add: charged_def)

lemma affordable_add:
  "0 \<le> a \<Longrightarrow> 0 \<le> b \<Longrightarrow> affordable (a + b) d \<longleftrightarrow> affordable a d \<and> affordable b (charged a d)"
  by (auto simp: affordable_def charged_def split: option.splits)

lemma affordable_record [simp]: "affordable n (d\<lparr>dc_record := r\<rparr>) = affordable n d"
  by (simp add: affordable_def)

lemma feed_plain_agree:
  "agree (feed_plain loads f chunk ds)
     (if affordable (int (length chunk)) (fst ds)
      then feed_parts loads f (split_on NEWLINE chunk) (charged (int (length chunk)) (fst ds), snd ds)
      else Inl AssertionError)"
proof -
  have "charge_decoded chunk d1 = Inr d2 \<longleftrightarrow> affordable (int (length chunk)) d \<and> d2 = charged (int (length chunk)) d"
    if "charge_wire chunk d = Inr d1" for d d1 d2
  proof (cases "dc_budget d")
    case None
    then show ?thesis using that
      by (auto simp: charge_decoded_def charge_wire_def charge_budget_def affordable_def charged_def Let_def
          split: if_splits)
  next
    case (Some b)
    then show ?thesis using that
      by (cases d; cases "chunk = []")
        (auto simp: charge_decoded_def charge_wire_def charge_budget_def affordable_def charged_def Let_def
          acquire_def split: if_splits)
  qed
  moreover have "\<exists>d1. charge_wire chunk d = Inr d1" if "affordable (int (length chunk)) d" for d
    using that by (simp add: charge_wire_def affordable_def Let_def)
  ultimately show ?thesis
    unfolding agree_def feed_plain_def feed_decoded_def by (auto simp: rbind_eq_Inr) metis+
qed

lemma feed_line_charged:
  "feed_line loads f p (charged n d, s) = rmap_result (map_prod (charged n) id) (feed_line loads f p (d, s))"
  by (auto simp: feed_line_def rmap_result_def rbind_assoc Let_def split: option.splits json.splits)

lemma feed_tail_charged:
  "feed_tail p (charged n d, s) = rmap_result (map_prod (charged n) id) (feed_tail p (d, s))"
  by (simp add: feed_tail_def Let_def)

lemma feed_parts_charged:
  "feed_parts loads f ps (charged n d, s) = rmap_result (map_prod (charged n) id) (feed_parts loads f ps (d, s))"
proof -
  have "rfold (feed_line loads f) qs (charged n d, s)
      = rmap_result (map_prod (charged n) id) (rfold (feed_line loads f) qs (d, s))" for qs
  proof (induction qs arbitrary: d s)
    case (Cons q qs)
    then show ?case
      by (cases "feed_line loads f q (d, s)") (auto simp: feed_line_charged)
  qed simp
  then show ?thesis
    by (cases "rfold (feed_line loads f) (butlast ps) (d, s)")
      (auto simp: feed_parts_def feed_tail_charged)
qed

lemma feed_parts_affordable:
  assumes "feed_parts loads f ps ds = Inr ds'"
  shows "affordable n (fst ds') = affordable n (fst ds)"
proof -
  have line: "affordable n (fst b) = affordable n (fst a)" if "feed_line loads f p a = Inr b" for p a b
    using that by (cases a) (auto simp: feed_line_def Let_def split: if_splits option.splits json.splits)
  have "affordable n (fst b) = affordable n (fst a)" if "rfold (feed_line loads f) qs a = Inr b" for qs a b
    using that by (induction qs arbitrary: a) (auto simp: rbind_eq_Inr dest: line)
  moreover have "affordable n (fst b) = affordable n (fst a)" if "feed_tail p a = Inr b" for p a b
    using that by (cases a) (auto simp: feed_tail_def Let_def split: if_splits)
  ultimately show ?thesis using assms unfolding feed_parts_def rbind_eq_Inr by metis
qed

lemma feed_plain_append:
  "agree (rbind (feed_plain loads f a ds) (feed_plain loads f b)) (feed_plain loads f (a @ b) ds)"
proof -
  let ?parts = "\<lambda>x. feed_parts loads f (split_on NEWLINE x)" and ?n = "\<lambda>x. int (length x)"
  obtain d s where ds: "ds = (d, s)" by fastforce
  have second: "feed_plain loads f b ds1 = Inr r \<longleftrightarrow>
      affordable (?n b) (charged (?n a) d) \<and> ?parts b (charged (?n b) (fst ds1), snd ds1) = Inr r"
    if "?parts a (charged (?n a) d, s) = Inr ds1" for ds1 r
    using agree_Inr [OF feed_plain_agree [of loads f b ds1], of r] feed_parts_affordable [OF that, of "?n b"]
    by simp
  have step: "rbind (feed_plain loads f a ds) (feed_plain loads f b) = Inr r \<longleftrightarrow>
      affordable (?n (a @ b)) d \<and>
      (\<exists>ds1. ?parts a (charged (?n a) d, s) = Inr ds1 \<and> ?parts b (charged (?n b) (fst ds1), snd ds1) = Inr r)" for r
  proof -
    have first: "feed_plain loads f a ds = Inr ds1 \<longleftrightarrow>
        affordable (?n a) d \<and> ?parts a (charged (?n a) d, s) = Inr ds1" for ds1
      using agree_Inr [OF feed_plain_agree [of loads f a ds], of ds1] by (simp add: ds)
    have both: "affordable (?n (a @ b)) d \<longleftrightarrow> affordable (?n a) d \<and> affordable (?n b) (charged (?n a) d)"
      using affordable_add [of "?n a" "?n b" d] by simp
    show ?thesis unfolding rbind_eq_Inr first both using second by blast
  qed
  have move: "(\<exists>ds1. ?parts a (charged (?n a) d, s) = Inr ds1 \<and> ?parts b (charged (?n b) (fst ds1), snd ds1) = Inr r)
      \<longleftrightarrow> rbind (?parts a (charged (?n (a @ b)) d, s)) (?parts b) = Inr r" for r
    using feed_parts_charged [of loads f "split_on NEWLINE a" "?n b" "charged (?n a) d" s]
    by (auto simp: rbind_eq_Inr charged_charged map_prod_def split_beta)
  show ?thesis
    unfolding agree_def step move
    using agree_Inr [OF feed_plain_agree [of loads f "a @ b" ds]]
      agree_Inr [OF feed_parts_append [of loads f NEWLINE a "(charged (?n (a @ b)) d, s)" b]]
    by (simp add: ds)
qed

lemma feed_plain_concat:
  "chunks \<noteq> [] \<Longrightarrow> agree (rfold (feed_plain loads f) chunks ds) (feed_plain loads f (concat chunks) ds)"
proof (induction chunks arbitrary: ds)
  case (Cons c cs)
  show ?case
  proof (cases "cs = []")
    case False
    have "agree (rbind (feed_plain loads f c ds) (rfold (feed_plain loads f) cs))
        (rbind (feed_plain loads f c ds) (feed_plain loads f (concat cs)))"
      by (rule agree_rbind) (use Cons.IH [OF False] in simp_all)
    then show ?thesis using agree_trans [OF _ feed_plain_append] by simp
  qed (simp add: rbind_def split: sum.split)
qed simp


definition sample_loads :: "string \<Rightarrow> json option" where
  "sample_loads line = Some (JObj [(''line'', JStr line)])"

definition count_records :: "wire_fact \<Rightarrow> nat \<Rightarrow> nat result" where
  "count_records r n = Inr (Suc n)"


section \<open>What the decoder accepts\<close>

lemma feed_line_Inr:
  "dc_record d = [] \<Longrightarrow> feed_line loads f l (d, s) = Inr ds \<longleftrightarrow>
     l \<noteq> [] \<and> int (length l) \<le> dc_max_record_bytes d \<and>
     (\<exists>r s1. loads l = Some (JObj r) \<and> f r s = Inr s1 \<and> ds = (d\<lparr>dc_record := []\<rparr>, s1))"
  by (auto simp: feed_line_def Let_def split: option.splits json.splits)

lemma feed_lines_records:
  assumes "rfold (feed_line loads f) lines (d, s) = Inr (d', s')" and "dc_record d = []"
  shows "dc_record d' = [] \<and> dc_max_record_bytes d' = dc_max_record_bytes d \<and>
    (\<forall>l \<in> set lines. l \<noteq> [] \<and> int (length l) \<le> dc_max_record_bytes d) \<and>
    (\<exists>records. list_all2 (\<lambda>l r. loads l = Some (JObj r)) lines records \<and> rfold f records s = Inr s')"
  using assms
proof (induction lines arbitrary: d s)
  case (Cons l lines)
  from Cons.prems obtain r s1 where l: "l \<noteq> []" "int (length l) \<le> dc_max_record_bytes d"
      "loads l = Some (JObj r)" "f r s = Inr s1"
      and rest: "rfold (feed_line loads f) lines (d\<lparr>dc_record := []\<rparr>, s1) = Inr (d', s')"
    unfolding rfold.simps rbind_eq_Inr feed_line_Inr [OF Cons.prems(2)] by blast
  from Cons.IH [OF rest] obtain records where
    "list_all2 (\<lambda>l r. loads l = Some (JObj r)) lines records" "rfold f records s1 = Inr s'" and
    fields: "dc_record d' = []" "dc_max_record_bytes d' = dc_max_record_bytes d"
      "\<forall>l \<in> set lines. l \<noteq> [] \<and> int (length l) \<le> dc_max_record_bytes d"
    by auto
  then have "list_all2 (\<lambda>l r. loads l = Some (JObj r)) (l # lines) (r # records)"
    "rfold f (r # records) s = Inr s'" using l by simp_all
  with fields l show ?case by auto
qed simp

lemma join_terminated: "join [c] (ls @ [[]]) = concat (map (\<lambda>l. l @ [c]) ls)"
proof (induction ls)
  case (Cons l ls)
  obtain m ms where "ls @ [[]] = m # ms" by (cases ls) simp_all
  with Cons show ?case by simp
qed simp

text \<open>
  Property C33.  A decoded response is exactly a sequence of newline-terminated JSON objects
  within the limits, handed to the consumer once each and in order; no byte is dropped and
  nothing unterminated is accepted.
\<close>

theorem decode_plain_records:
  assumes "decode_plain loads f chunks (new_decoder max_wire max_decoded max_record None, s) = Inr (d', s')"
    and "chunks \<noteq> []"
  shows "\<exists>lines records.
    concat chunks = concat (map (\<lambda>l. l @ [NEWLINE]) lines) \<and>
    list_all2 (\<lambda>l r. loads l = Some (JObj r)) lines records \<and> rfold f records s = Inr s' \<and>
    (\<forall>l \<in> set lines. l \<noteq> [] \<and> NEWLINE \<notin> set l \<and> int (length l) \<le> max_record) \<and>
    int (length (concat chunks)) \<le> min max_wire max_decoded"
proof -
  let ?new = "new_decoder max_wire max_decoded max_record None" and ?parts = "split_on NEWLINE (concat chunks)"
  let ?n = "int (length (concat chunks))"
  have "rbind (feed_plain loads f (concat chunks) (?new, s)) finish_record = Inr (d', s')"
    using assms(1) unfolding decode_plain_def
    by (simp only: agree_Inr [OF agree_rbind [OF feed_plain_concat [OF assms(2)] agree_refl]])
  then obtain d1 s1 where "feed_plain loads f (concat chunks) (?new, s) = Inr (d1, s1)"
    and fin: "finish_record (d1, s1) = Inr (d', s')"
    unfolding rbind_eq_Inr by auto
  then have afford: "affordable ?n ?new" and parts: "feed_parts loads f ?parts (charged ?n ?new, s) = Inr (d1, s1)"
    using agree_Inr [OF feed_plain_agree [of loads f "concat chunks" "(?new, s)"], of "(d1, s1)"]
    by (simp_all split: if_splits)
  from parts obtain d2 s2 where lines: "rfold (feed_line loads f) (butlast ?parts) (charged ?n ?new, s) = Inr (d2, s2)"
    and last: "feed_tail (last ?parts) (d2, s2) = Inr (d1, s1)"
    unfolding feed_parts_def rbind_eq_Inr by auto
  have new: "dc_record (charged ?n ?new) = []" "dc_max_record_bytes (charged ?n ?new) = max_record"
    by (simp_all add: new_decoder_def)
  note decoded = feed_lines_records [OF lines new(1)]
  have "s' = s2" "last ?parts = []"
    using fin last decoded by (auto simp: finish_record_def feed_tail_def Let_def split: if_splits)
  then have "?parts = butlast ?parts @ [[]]" by (metis append_butlast_last_id split_on_nonempty)
  then have "concat chunks = concat (map (\<lambda>l. l @ [NEWLINE]) (butlast ?parts))"
    by (metis join_split_on join_terminated)
  moreover have "NEWLINE \<notin> set l" if "l \<in> set (butlast ?parts)" for l
    using that by (metis in_set_butlastD split_on_no_sep)
  moreover have "?n \<le> min max_wire max_decoded"
    using afford by (simp add: affordable_def new_decoder_def)
  ultimately show ?thesis using decoded \<open>s' = s2\<close> unfolding new(2) by blast
qed

theorem decode_plain_records_witness:
  "\<exists>lines. ''a'' @ [NEWLINE] @ ''bc'' @ [NEWLINE] = concat (map (\<lambda>l. l @ [NEWLINE]) lines) \<and>
     (\<forall>l \<in> set lines. l \<noteq> [])"
proof -
  have run: "decode_plain sample_loads count_records [''a'' @ [NEWLINE], ''bc'' @ [NEWLINE]]
      (new_decoder 9 9 9 None, 0) = Inr (charged 5 (new_decoder 9 9 9 None), 2)"
    by code_simp
  have "[''a'' @ [NEWLINE], ''bc'' @ [NEWLINE]] \<noteq> []" by simp
  from decode_plain_records [OF run this] show ?thesis by auto
qed

section \<open>The gzip loop returns\<close>

text \<open>
  The documented contract of \<open>decompress(data, max_length)\<close>: input is left over only when the
  output reached \<open>max_length\<close>.
\<close>

definition inflater_law :: "'z inflater \<Rightarrow> bool" where
  "inflater_law Z \<longleftrightarrow> (\<forall>z data n z' out tail.
     inf_decompress Z z data n = Some (z', out, tail) \<longrightarrow> tail \<noteq> [] \<longrightarrow> int (length out) = n)"

lemma feed_decoded_limit:
  "feed_decoded loads f out ds = Inr ds' \<Longrightarrow>
     dc_decoded_bytes (fst ds) + int (length out) \<le> dc_max_decoded_bytes (fst ds)"
  by (auto simp: feed_decoded_def charge_decoded_def charge_budget_def rbind_eq_Inr Let_def
      split: option.splits if_splits)

lemma inflate_loop_returns:
  assumes "inflater_law Z" shows "\<exists>r. inflate_loop Z loads f z data ds = Some r"
proof (cases "inf_decompress Z z data (dc_max_decoded_bytes (fst ds) - dc_decoded_bytes (fst ds) + 1)")
  case None
  then show ?thesis by (subst inflate_loop.simps) simp
next
  case (Some step)
  obtain z' out tail where step: "step = (z', out, tail)" by (metis prod_cases3)
  have "feed_decoded loads f out ds \<noteq> Inr ds'" if "tail \<noteq> []" for ds'
    using feed_decoded_limit [of loads f out ds ds'] assms Some that
    by (fastforce simp: step inflater_law_def)
  then have tail: "tail = []" if "feed_decoded loads f out ds = Inr ds'" for ds'
    using that by blast
  show ?thesis
    by (subst inflate_loop.simps, cases "feed_decoded loads f out ds")
      (auto simp: Some step inflate_loop.simps [of Z loads f z' "[]"] dest: tail)
qed

text \<open>
  Property C34.  The decompression loop always returns: whatever the companion sends, feeding a
  compressed chunk ends with a new state or an error.
\<close>

theorem feed_gzip_returns:
  assumes "inflater_law Z" shows "\<exists>r. feed_gzip Z loads f chunk zds = Some r"
  using inflate_loop_returns [OF assms] by (auto simp: feed_gzip_def split: sum.split)

text \<open>A decompressor of stored blocks: output is input, at most \<open>max_length\<close> bytes of it.\<close>

definition stored_inflater :: "unit inflater" where
  "stored_inflater = \<lparr>inf_decompress = (\<lambda>z data n. if n < 0 then None
       else Some (z, take (nat n) data, drop (nat n) data)),
     inf_flush = (\<lambda>z n. Some (z, [])), inf_eof = (\<lambda>z. True), inf_unused = (\<lambda>z. [])\<rparr>"

theorem feed_gzip_returns_witness:
  "\<exists>r. feed_gzip stored_inflater sample_loads count_records (''a'' @ [NEWLINE]) ((), new_decoder 9 1 9 None, 0)
     = Some r"
  by (rule feed_gzip_returns)
    (auto simp: inflater_law_def stored_inflater_def min_def not_le split: if_splits)

end
