(* ===== verification/NativeSession.thy ===== *)
theory NativeSession
imports NativeWire
begin

text \<open>
  One analysis response of \<open>NativeAnalyzerClient\<close> (\<open>ingestion/native.py\<close>): the handshake, the
  request, the state machine \<open>accept\<close> that orders the records, and the integrity of chunked
  symbol text.  The process, its pipes, threads and deadlines are not modelled: \<open>accept\<close> is applied
  to the records the decoder delivers.
\<close>

section \<open>Handshake and request\<close>

definition PROTOCOL :: string where "PROTOCOL = ''cpp-context-clang-facts''"
definition PROTOCOL_VERSION :: int where "PROTOCOL_VERSION = 5"
definition REQUIRED_CLANG_MAJOR :: int where "REQUIRED_CLANG_MAJOR = 18"
definition GZIP_TRANSPORT :: string where "GZIP_TRANSPORT = ''gzip_jsonl_v1''"
definition PROFILE_CAPABILITY :: string where "PROFILE_CAPABILITY = ''analysis_profiles_v1''"
definition GENERATED_SOURCE_ROOTS_CAPABILITY :: string where
  "GENERATED_SOURCE_ROOTS_CAPABILITY = ''generated_source_roots_v1''"
definition SYMBOL_TEXT_CHUNKS_CAPABILITY :: string where
  "SYMBOL_TEXT_CHUNKS_CAPABILITY = ''symbol_text_chunks_v1''"

definition REQUIRED_CAPABILITIES :: "string list" where
  "REQUIRED_CAPABILITIES =
     [''direct_calls'', ''full_ast'', ''includes'', ''inherits'', ''lambda_metadata'', ''macro_provenance'',
      ''occurrences'', ''overrides'', ''pp_callbacks'', ''source_manager'', ''symbols'', ''template_metadata'',
      ''uses_type'', ''function_cfg_v1'', ''callsites_v1'', ''dispatch_targets_v1'', ''macro_expansion_stack'',
      ''template_relationships_v1'', ''intraprocedural_dataflow_v1'', ''points_to_v1'',
      ''function_summaries_v1'', ''interprocedural_bindings_v1'', ''compact_structural_keys_v1'']"

text \<open>The capabilities, a frozen set, as their sorted list.\<close>

record analyzer_info =
  ai_protocol :: string
  ai_protocol_version :: int
  ai_analyzer_version :: string
  ai_clang_major :: int
  ai_capabilities :: "string list"

definition validate_handshake :: "wire_fact \<Rightarrow> analyzer_info result" where
  "validate_handshake r =
     (case (case map_of r ''capabilities'' of None \<Rightarrow> None | Some v \<Rightarrow> json_strings v) of
        None \<Rightarrow> Inl (AnalyzerProtocolError ''analyzer handshake has invalid capabilities'')
      | Some capabilities \<Rightarrow>
          rbind (wire_string r ''protocol'') (\<lambda>protocol.
          rbind (wire_integer r ''protocol_version'') (\<lambda>version.
          rbind (wire_string r ''analyzer_version'') (\<lambda>analyzer_version.
          rbind (wire_integer r ''clang_major'') (\<lambda>clang_major.
            if protocol \<noteq> PROTOCOL \<or> version \<noteq> PROTOCOL_VERSION
            then Inl (AnalyzerProtocolError (''analyzer protocol mismatch; expected '' @ PROTOCOL
                   @ '' version '' @ str_int PROTOCOL_VERSION))
            else if clang_major \<noteq> REQUIRED_CLANG_MAJOR
            then Inl (AnalyzerProtocolError (''analyzer Clang major mismatch; expected ''
                   @ str_int REQUIRED_CLANG_MAJOR))
            else let missing = filter (\<lambda>c. c \<notin> set capabilities) REQUIRED_CAPABILITIES in
              if missing \<noteq> []
              then Inl (AnalyzerProtocolError (''analyzer is missing required capabilities: ''
                     @ join '', '' (sort missing)))
              else Inr \<lparr>ai_protocol = protocol, ai_protocol_version = version,
                     ai_analyzer_version = analyzer_version, ai_clang_major = clang_major,
                     ai_capabilities = sort (remdups capabilities)\<rparr>)))))"

definition hello :: "string option \<Rightarrow> bool \<Rightarrow> wire_fact" where
  "hello response_transport symbol_text_chunks =
     [(''type'', JStr ''hello''), (''protocol'', JStr PROTOCOL),
      (''protocol_version'', JInt PROTOCOL_VERSION),
      (''required_clang_major'', JInt REQUIRED_CLANG_MAJOR),
      (''required_capabilities'', JArr (map JStr (sort REQUIRED_CAPABILITIES
          @ (if symbol_text_chunks then [SYMBOL_TEXT_CHUNKS_CAPABILITY] else []))))]
     @ (if response_transport = Some GZIP_TRANSPORT
        then [(''response_transport'', JStr GZIP_TRANSPORT)] else [])"

definition choose_transport :: "bool \<Rightarrow> analyzer_info \<Rightarrow> string" where
  "choose_transport prefer_compression info =
     (if prefer_compression \<and> GZIP_TRANSPORT \<in> set (ai_capabilities info) then GZIP_TRANSPORT
      else ''plain_jsonl_v1'')"

text \<open>The first half of \<open>_analyze_stream\<close>: the checks before the run and the request it sends.\<close>

definition analysis_request ::
    "(string \<Rightarrow> string) \<Rightarrow> fs \<Rightarrow> index_profile \<Rightarrow> analyzer_info \<Rightarrow> string \<Rightarrow> build_configuration
      \<Rightarrow> wire_fact result" where
  "analysis_request H F profile info project c =
     rbind (post_init_source_boundary F
        \<lparr>project_root = project, generated_source_roots = bc_generated_source_roots c\<rparr>) (\<lambda>b.
     case canonical_file F b (bc_source_path c) of
       Inl e \<Rightarrow> Inl (case e of ValueError _ \<Rightarrow>
           AnalyzerProtocolError ''analyzer source is outside the authorized source roots'' | _ \<Rightarrow> e)
     | Inr source_path \<Rightarrow>
         if bc_generated_source_roots c \<noteq> [] \<and>
            GENERATED_SOURCE_ROOTS_CAPABILITY \<notin> set (ai_capabilities info)
         then Inl (AnalyzerProtocolError ''analyzer does not support explicit generated source roots'')
         else if profile = PROFILE_NAVIGATION \<and> PROFILE_CAPABILITY \<notin> set (ai_capabilities info)
         then Inl (AnalyzerProtocolError ''analyzer does not support the navigation profile'')
         else Inr ([(''type'', JStr ''analyze''), (''request_id'', JStr (translation_unit_key H c)),
                    (''project_root'', JStr (fs_resolve F project)), (''source_path'', JStr source_path),
                    (''directory'', JStr (bc_directory c)),
                    (''arguments'', JArr (map JStr (libclang_arguments F c)))]
               @ (if bc_generated_source_roots c \<noteq> []
                  then [(''generated_source_roots'', JArr (map JStr (bc_generated_source_roots c)))] else [])
               @ (if profile = PROFILE_NAVIGATION
                  then [(''profile'', JStr (index_profile_value profile))] else [])))"

section \<open>Accepting the response\<close>

datatype session_phase = S_HELLO | S_BEGIN | S_FACTS | S_COMPLETE

record 's session =
  ss_phase :: session_phase
  ss_chunks :: symbol_text
  ss_consumer :: 's

definition protocol_error :: "string \<Rightarrow> 'a result" where
  "protocol_error m = Inl (AnalyzerProtocolError m)"

text \<open>\<open>str.isalnum\<close> on the code points below 256.\<close>

definition is_alnum :: "char \<Rightarrow> bool" where
  "is_alnum c = (let n = (of_char c :: nat) in
     (48 \<le> n \<and> n \<le> 57) \<or> (65 \<le> n \<and> n \<le> 90) \<or> (97 \<le> n \<and> n \<le> 122) \<or>
     n \<in> {170, 178, 179, 181, 185, 186, 188, 189, 190} \<or> (192 \<le> n \<and> n \<noteq> 215 \<and> n \<noteq> 247))"

text \<open>The error record \<open>_invoke\<close> intercepts before the state machine.\<close>

definition rejection :: "wire_fact \<Rightarrow> exn option" where
  "rejection r =
     (if map_of r ''type'' = Some (JStr ''error'')
      then let code = (case map_of r ''code'' of
               Some (JStr s) \<Rightarrow>
                 (let bare = filter (\<lambda>c. c \<noteq> CHR ''_'') s in
                  if bare \<noteq> [] \<and> list_all is_alnum bare then s else ''unknown'')
             | _ \<Rightarrow> ''unknown'')
           in Some (AnalyzerProtocolError (''analyzer rejected the request ('' @ code @ '')''))
      else None)"

definition accept_record ::
    "(string \<Rightarrow> string) \<Rightarrow> analyzer_info \<Rightarrow> bool \<Rightarrow> string \<Rightarrow> (wire_fact \<Rightarrow> 's \<Rightarrow> 's result)
      \<Rightarrow> wire_fact \<Rightarrow> 's session \<Rightarrow> 's session result" where
  "accept_record H info preserve unit_id on_fact r s =
     (let record_type = map_of r ''type'' in
      case ss_phase s of
        S_HELLO \<Rightarrow>
          if record_type \<noteq> Some (JStr ''hello'')
          then protocol_error ''analyzer did not repeat its validated handshake''
          else rbind (validate_handshake r) (\<lambda>repeated.
            if repeated \<noteq> info then protocol_error ''analyzer handshake changed between invocations''
            else Inr (s\<lparr>ss_phase := S_BEGIN\<rparr>))
      | S_BEGIN \<Rightarrow>
          if set r \<noteq> {(''request_id'', JStr unit_id), (''type'', JStr ''begin'')}
          then protocol_error ''analyzer response has no matching begin record''
          else Inr (s\<lparr>ss_phase := S_FACTS\<rparr>)
      | S_COMPLETE \<Rightarrow> protocol_error ''analyzer emitted records after completion''
      | S_FACTS \<Rightarrow>
          if record_type = Some (JStr ''fact'')
          then if SYMBOL_TEXT_CHUNKS_CAPABILITY \<notin> set (ai_capabilities info) \<and>
                  (fact_kind r SYMBOL_TEXT_CHUNK_KIND \<or> map_of r ''text_chunks'' \<noteq> None)
               then protocol_error ''analyzer emitted unnegotiated symbol text chunks''
               else rbind (accept_text H r (ss_chunks s)) (\<lambda>(chunks, logical).
                 rbind (if preserve then on_fact r (ss_consumer s)
                        else case logical of None \<Rightarrow> Inr (ss_consumer s)
                             | Some f \<Rightarrow> on_fact f (ss_consumer s)) (\<lambda>consumer.
                   Inr (s\<lparr>ss_chunks := chunks, ss_consumer := consumer\<rparr>)))
          else if record_type \<noteq> Some (JStr ''complete'') \<or> map_of r ''request_id'' \<noteq> Some (JStr unit_id)
          then protocol_error ''analyzer emitted a non-fact record during analysis''
          else if map_of r ''success'' \<noteq> Some (JBool True)
          then protocol_error ''analyzer did not complete successfully''
          else rbind (finish_text (ss_chunks s)) (\<lambda>_. Inr (s\<lparr>ss_phase := S_COMPLETE\<rparr>)))"

definition deliver ::
    "(string \<Rightarrow> string) \<Rightarrow> analyzer_info \<Rightarrow> bool \<Rightarrow> string \<Rightarrow> (wire_fact \<Rightarrow> 's \<Rightarrow> 's result)
      \<Rightarrow> wire_fact \<Rightarrow> 's session \<Rightarrow> 's session result" where
  "deliver H info preserve unit_id on_fact r s =
     (case rejection r of Some e \<Rightarrow> Inl e | None \<Rightarrow> accept_record H info preserve unit_id on_fact r s)"

definition new_session :: "bool \<Rightarrow> 's \<Rightarrow> 's session" where
  "new_session preserve consumer =
     \<lparr>ss_phase = S_HELLO, ss_chunks = new_symbol_text (\<not> preserve), ss_consumer = consumer\<rparr>"

definition analyze_records ::
    "(string \<Rightarrow> string) \<Rightarrow> analyzer_info \<Rightarrow> bool \<Rightarrow> string \<Rightarrow> (wire_fact \<Rightarrow> 's \<Rightarrow> 's result)
      \<Rightarrow> wire_fact list \<Rightarrow> 's \<Rightarrow> 's result" where
  "analyze_records H info preserve unit_id on_fact records consumer =
     rbind (rfold (deliver H info preserve unit_id on_fact) records (new_session preserve consumer)) (\<lambda>s.
       if ss_phase s \<noteq> S_COMPLETE then protocol_error ''analyzer response is incomplete''
       else Inr (ss_consumer s))"

section \<open>The order of the records\<close>

lemma accept_S_HELLO:
  "ss_phase s = S_HELLO \<Longrightarrow> deliver H info preserve unit_id on_fact r s = Inr s' \<longleftrightarrow>
     map_of r ''type'' = Some (JStr ''hello'') \<and> validate_handshake r = Inr info \<and> s' = s\<lparr>ss_phase := S_BEGIN\<rparr>"
  by (auto simp: deliver_def rejection_def accept_record_def protocol_error_def rbind_eq_Inr split: if_splits)

lemma accept_S_BEGIN:
  "ss_phase s = S_BEGIN \<Longrightarrow> distinct (map fst r) \<Longrightarrow>
     deliver H info preserve unit_id on_fact r s = Inr s' \<longleftrightarrow>
     set r = {(''request_id'', JStr unit_id), (''type'', JStr ''begin'')} \<and> s' = s\<lparr>ss_phase := S_FACTS\<rparr>"
proof -
  assume s: "ss_phase s = S_BEGIN" and d: "distinct (map fst r)"
  have "map_of r ''type'' \<noteq> Some (JStr ''error'')"
    if "set r = {(''request_id'', JStr unit_id), (''type'', JStr ''begin'')}"
    using that d by (auto dest: map_of_SomeD)
  then show ?thesis using s
    by (auto simp: deliver_def rejection_def accept_record_def protocol_error_def Let_def split: if_splits)
qed

lemma accept_S_FACTS:
  assumes "ss_phase s = S_FACTS" and "deliver H info preserve unit_id on_fact r s = Inr s'"
  shows "(map_of r ''type'' = Some (JStr ''fact'') \<and> ss_phase s' = S_FACTS \<and>
      (\<exists>chunks logical. accept_text H r (ss_chunks s) = Inr (chunks, logical) \<and> ss_chunks s' = chunks \<and>
        (if preserve then on_fact r (ss_consumer s)
         else case logical of None \<Rightarrow> Inr (ss_consumer s) | Some f \<Rightarrow> on_fact f (ss_consumer s))
          = Inr (ss_consumer s'))) \<or>
    (map_of r ''type'' = Some (JStr ''complete'') \<and> map_of r ''request_id'' = Some (JStr unit_id) \<and>
      map_of r ''success'' = Some (JBool True) \<and> \<not> pending (ss_chunks s) \<and> s' = s\<lparr>ss_phase := S_COMPLETE\<rparr>)"
proof (cases "map_of r ''type'' = Some (JStr ''fact'')")
  case True
  then have "accept_record H info preserve unit_id on_fact r s = Inr s'"
    using assms(2) by (simp add: deliver_def rejection_def)
  then obtain chunks logical consumer where "accept_text H r (ss_chunks s) = Inr (chunks, logical)"
    "(if preserve then on_fact r (ss_consumer s)
         else case logical of None \<Rightarrow> Inr (ss_consumer s) | Some f \<Rightarrow> on_fact f (ss_consumer s)) = Inr consumer"
    "s' = s\<lparr>ss_chunks := chunks, ss_consumer := consumer\<rparr>"
    using True assms(1) unfolding accept_record_def protocol_error_def Let_def
    by (simp add: rbind_eq_Inr split_beta split: if_split_asm) (metis prod.collapse)
  with True assms(1) show ?thesis by auto
next
  case False
  then show ?thesis using assms
    by (auto simp: deliver_def rejection_def accept_record_def protocol_error_def rbind_eq_Inr finish_text_def
        Let_def split: if_splits option.splits)
qed

lemma accept_S_COMPLETE: "ss_phase s = S_COMPLETE \<Longrightarrow> deliver H info preserve unit_id on_fact r s \<noteq> Inr s'"
  by (auto simp: deliver_def accept_record_def protocol_error_def split: option.splits)

lemma facts_run:
  assumes "rfold (deliver H info True unit_id on_fact) rs s = Inr s'" and "ss_phase s = S_FACTS"
    and "ss_phase s' = S_COMPLETE"
  shows "\<exists>fs c. rs = fs @ [c] \<and> (\<forall>f \<in> set fs. map_of f ''type'' = Some (JStr ''fact'')) \<and>
    map_of c ''type'' = Some (JStr ''complete'') \<and> map_of c ''success'' = Some (JBool True) \<and>
    rfold on_fact fs (ss_consumer s) = Inr (ss_consumer s')"
  using assms
proof (induction rs arbitrary: s)
  case (Cons r rs)
  from Cons.prems(1) obtain s1 where s1: "deliver H info True unit_id on_fact r s = Inr s1"
    and rest: "rfold (deliver H info True unit_id on_fact) rs s1 = Inr s'"
    by (auto simp: rbind_eq_Inr)
  consider (more) "map_of r ''type'' = Some (JStr ''fact'')" "ss_phase s1 = S_FACTS"
      "on_fact r (ss_consumer s) = Inr (ss_consumer s1)"
    | (complete) "map_of r ''type'' = Some (JStr ''complete'')" "map_of r ''success'' = Some (JBool True)"
      "s1 = s\<lparr>ss_phase := S_COMPLETE\<rparr>"
    using accept_S_FACTS [OF Cons.prems(2) s1] by auto
  then show ?case
  proof cases
    case more
    from Cons.IH [OF rest more(2) Cons.prems(3)] obtain fs c where
      "rs = fs @ [c]" "\<forall>f \<in> set fs. map_of f ''type'' = Some (JStr ''fact'')"
      "map_of c ''type'' = Some (JStr ''complete'')" "map_of c ''success'' = Some (JBool True)"
      "rfold on_fact fs (ss_consumer s1) = Inr (ss_consumer s')" by blast
    with more show ?thesis by (intro exI [of _ "r # fs"] exI [of _ c]) simp
  next
    case complete
    have "rs = []"
    proof (rule ccontr)
      assume "rs \<noteq> []"
      then obtain x xs where "rs = x # xs" by (cases rs) simp_all
      with rest obtain s2 where "deliver H info True unit_id on_fact x s1 = Inr s2" by (auto simp: rbind_eq_Inr)
      moreover have "ss_phase s1 = S_COMPLETE" using complete(3) by simp
      ultimately show False using accept_S_COMPLETE by metis
    qed
    moreover have "ss_consumer s' = ss_consumer s"
      using rest \<open>rs = []\<close> complete(3) by (metis Inr_inject rfold.simps(1) session.select_convs(3) session.surjective session.update_convs(1))
    ultimately show ?thesis using complete(1,2) by (intro exI [of _ "[]"] exI [of _ r]) simp
  qed
qed simp

text \<open>
  Property C28.  A spooled response is accepted only in the protocol's order: the validated
  handshake repeated unchanged, the matching begin record, facts alone, and one successful
  completion as the last record; the consumer has then received every fact record, once and in
  order.
\<close>

theorem analyze_records_order:
  assumes "analyze_records H info True unit_id on_fact records s = Inr s'"
    and "\<forall>r \<in> set records. distinct (map fst r)"
  shows "\<exists>h b fs c. records = h # b # fs @ [c] \<and> validate_handshake h = Inr info \<and>
    set b = {(''request_id'', JStr unit_id), (''type'', JStr ''begin'')} \<and>
    (\<forall>f \<in> set fs. map_of f ''type'' = Some (JStr ''fact'')) \<and>
    map_of c ''type'' = Some (JStr ''complete'') \<and> map_of c ''success'' = Some (JBool True) \<and>
    rfold on_fact fs s = Inr s'"
proof -
  let ?d = "deliver H info True unit_id on_fact"
  from assms(1) obtain t where run: "rfold ?d records (new_session True s) = Inr t"
    and t: "ss_phase t = S_COMPLETE" "s' = ss_consumer t"
    by (auto simp: analyze_records_def rbind_eq_Inr protocol_error_def split: if_splits)
  have "records \<noteq> []" using run t by (auto simp: new_session_def)
  then obtain h rs where records: "records = h # rs" by (cases records) simp_all
  with run obtain s1 where s1: "?d h (new_session True s) = Inr s1" and run1: "rfold ?d rs s1 = Inr t"
    by (auto simp: rbind_eq_Inr)
  have h: "validate_handshake h = Inr info" "s1 = (new_session True s)\<lparr>ss_phase := S_BEGIN\<rparr>"
    using s1 accept_S_HELLO [of "new_session True s" H info True unit_id on_fact h s1]
    by (simp_all add: new_session_def)
  have "rs \<noteq> []" using run1 t h(2) by auto
  then obtain b rs2 where rs: "rs = b # rs2" by (cases rs) simp_all
  with run1 obtain s2 where s2: "?d b s1 = Inr s2" and run2: "rfold ?d rs2 s2 = Inr t"
    by (auto simp: rbind_eq_Inr)
  have b: "set b = {(''request_id'', JStr unit_id), (''type'', JStr ''begin'')}"
    "s2 = s1\<lparr>ss_phase := S_FACTS\<rparr>"
    using s2 accept_S_BEGIN [of s1 b H info True unit_id on_fact s2] h(2) assms(2)
    by (simp_all add: records rs)
  have "ss_phase s2 = S_FACTS" "ss_consumer s2 = s" using b(2) h(2) by (simp_all add: new_session_def)
  with facts_run [OF run2 _ t(1)] h b show ?thesis
    unfolding records rs t(2) by metis
qed

definition sample_handshake :: wire_fact where
  "sample_handshake =
     [(''type'', JStr ''hello''), (''protocol'', JStr PROTOCOL), (''protocol_version'', JInt 5),
      (''analyzer_version'', JStr ''1''), (''clang_major'', JInt 18),
      (''capabilities'', JArr (map JStr REQUIRED_CAPABILITIES))]"

definition sample_info :: analyzer_info where
  "sample_info = \<lparr>ai_protocol = PROTOCOL, ai_protocol_version = 5, ai_analyzer_version = ''1'',
     ai_clang_major = 18, ai_capabilities = sort (remdups REQUIRED_CAPABILITIES)\<rparr>"

definition sample_response :: "wire_fact list" where
  "sample_response =
     [sample_handshake, [(''type'', JStr ''begin''), (''request_id'', JStr ''u'')],
      [(''type'', JStr ''fact''), (''fact'', JStr ''file'')],
      [(''type'', JStr ''complete''), (''request_id'', JStr ''u''), (''success'', JBool True)]]"

definition keep_fact :: "wire_fact \<Rightarrow> wire_fact list \<Rightarrow> wire_fact list result" where
  "keep_fact f fs = Inr (fs @ [f])"

lemma sample_response_accepted:
  "analyze_records (\<lambda>_. ''h'') sample_info True ''u'' keep_fact sample_response []
     = Inr [[(''type'', JStr ''fact''), (''fact'', JStr ''file'')]]"
proof -
  have "json_strings (JArr (map JStr xs)) = Some xs" for xs
    by (simp add: json_strings_def list_all_iff comp_def)
  then have "validate_handshake sample_handshake = Inr sample_info"
    by (simp add: validate_handshake_def sample_handshake_def sample_info_def wire_string_def wire_integer_def
        PROTOCOL_def PROTOCOL_VERSION_def REQUIRED_CLANG_MAJOR_def)
  moreover have "rejection r = None" if "map_of r ''type'' = Some (JStr t)" "t \<noteq> ''error''" for r t
    using that by (simp add: rejection_def)
  ultimately show ?thesis
    by (simp add: analyze_records_def sample_response_def new_session_def deliver_def accept_record_def
        sample_handshake_def keep_fact_def accept_text_def fact_kind_def SYMBOL_TEXT_CHUNK_KIND_def
        new_symbol_text_def pending_def finish_text_def accept_descriptor_def doubleton_eq_iff)
qed

theorem analyze_records_order_witness:
  "\<exists>h b fs c. sample_response = h # b # fs @ [c] \<and> validate_handshake h = Inr sample_info \<and>
     (\<forall>f \<in> set fs. map_of f ''type'' = Some (JStr ''fact'')) \<and>
     rfold keep_fact fs [] = Inr [[(''type'', JStr ''fact''), (''fact'', JStr ''file'')]]"
proof -
  have "\<forall>r \<in> set sample_response. distinct (map fst r)"
    by (simp add: sample_response_def sample_handshake_def)
  from analyze_records_order [OF sample_response_accepted this] show ?thesis
    by (elim exE conjE) (intro exI conjI)
qed

section \<open>Integrity of chunked text\<close>

definition accept_all ::
    "(string \<Rightarrow> string) \<Rightarrow> wire_fact list \<Rightarrow> symbol_text \<times> wire_fact list \<Rightarrow> (symbol_text \<times> wire_fact list) result" where
  "accept_all H rs =
     rfold (\<lambda>r (s, out). rbind (accept_text H r s) (\<lambda>(s', logical).
       Inr (s', out @ (case logical of None \<Rightarrow> [] | Some f \<Rightarrow> [f])))) rs"

text \<open>A field of a symbol whose text has the declared length and digest.\<close>

definition verified :: "(string \<Rightarrow> string) \<Rightarrow> text_description \<Rightarrow> json option \<Rightarrow> bool" where
  "verified H d v \<longleftrightarrow>
     (\<exists>t. v = Some (JStr t) \<and> int (length (utf8 t)) = td_bytes d \<and> H (utf8 t) = td_sha256 d)"

definition assembled_from :: "(string \<Rightarrow> string) \<Rightarrow> wire_fact \<Rightarrow> wire_fact \<Rightarrow> bool" where
  "assembled_from H r f \<longleftrightarrow>
     (\<exists>ds. map_of r ''text_chunks'' = Some (JObj ds) \<and> ds \<noteq> [] \<and>
        (\<forall>field v. map_of ds field = Some v \<longrightarrow>
           (\<exists>d. text_descriptor r (field, v) = Some d \<and> verified H d (map_of f field))) \<and>
        (\<forall>k. map_of ds k = None \<and> k \<noteq> ''text_chunks'' \<longrightarrow> map_of f k = map_of r k))"

text \<open>A pending symbol: the fields before the current one are verified, the current one is partial.\<close>

definition pending_at ::
    "(string \<Rightarrow> string) \<Rightarrow> wire_fact \<Rightarrow> wire_fact \<Rightarrow> wire_fact \<Rightarrow> symbol_text \<Rightarrow> bool" where
  "pending_at H r ds symbol s \<longleftrightarrow>
     map_of r ''text_chunks'' = Some (JObj ds) \<and> ds \<noteq> [] \<and> st_symbol s = Some symbol \<and>
     st_descriptions s = map (\<lambda>d. (fst d, the (text_descriptor r d))) ds \<and>
     (\<forall>d \<in> set ds. text_descriptor r d \<noteq> None) \<and> distinct (st_fields s) \<and> st_fields s \<noteq> [] \<and>
     set (st_fields s) \<subseteq> fst ` set ds \<and>
     st_digest s = utf8 (concat (st_parts s)) \<and> st_received s = int (length (st_digest s)) \<and>
     (\<forall>field v. map_of ds field = Some v \<and> field \<notin> set (st_fields s) \<longrightarrow>
        verified H (the (text_descriptor r (field, v))) (map_of symbol field)) \<and>
     (\<forall>k. map_of ds k = None \<and> k \<noteq> ''text_chunks'' \<longrightarrow> map_of symbol k = map_of r k)"

definition text_pending :: "(string \<Rightarrow> string) \<Rightarrow> wire_fact \<Rightarrow> symbol_text \<Rightarrow> bool" where
  "text_pending H r s \<longleftrightarrow> (\<exists>ds symbol. pending_at H r ds symbol s)"

lemma utf8_append: "utf8 (a @ b) = utf8 a @ utf8 b"
  by (simp add: utf8_def)

lemma map_of_map_snd: "map_of (map (\<lambda>d. (fst d, f d)) ds) k = (case map_of ds k of None \<Rightarrow> None | Some v \<Rightarrow> Some (f (k, v)))"
  by (induction ds) auto

lemma accept_descriptor_pending:
  assumes "accept_descriptor r s = Inr (s', None)" and "st_assemble s"
    and "st_parts s = []" and "st_received s = 0" and "st_digest s = []"
  shows "text_pending H r s' \<and> st_assemble s'"
proof -
  from assms(1) obtain ds where ds: "map_of r ''text_chunks'' = Some (JObj ds)"
    by (auto simp: accept_descriptor_def Let_def split: option.splits json.splits)
  have ok: "ds \<noteq> []" "fst ` set ds \<subseteq> set SYMBOL_TEXT_FIELDS" "\<forall>d \<in> set ds. text_descriptor r d \<noteq> None"
    "s' = s\<lparr>st_symbol := Some (AList.delete ''text_chunks'' r),
       st_descriptions := map (\<lambda>d. (fst d, the (text_descriptor r d))) ds,
       st_fields := filter (\<lambda>f. f \<in> fst ` set ds) SYMBOL_TEXT_FIELDS\<rparr>"
    using assms(1) ds by (auto simp: accept_descriptor_def Let_def list_ex_iff split: if_splits)
  have distinct: "distinct SYMBOL_TEXT_FIELDS" by code_simp
  have known: "map_of ds field = Some v \<Longrightarrow> field \<in> set (st_fields s')" for field v
    using ok(2) by (auto simp: ok(4) dest!: map_of_SomeD) (force intro: rev_image_eqI)+
  have "st_fields s' \<noteq> []"
  proof -
    obtain d where "d \<in> set ds" using ok(1) by (cases ds) auto
    then have "fst d \<in> set (st_fields s')" using ok(2) by (auto simp: ok(4))
    then show ?thesis by auto
  qed
  then show ?thesis
    using ds ok(1,3) assms(2-5) distinct known
    unfolding text_pending_def pending_at_def
    by (intro conjI exI [of _ ds] exI [of _ "AList.delete ''text_chunks'' r"])
      (auto simp: ok(4) utf8_def delete_conv' delete_conv)
qed

lemma accept_chunk_cases:
  assumes "accept_chunk H r s = Inr (s', out)"
  obtains symbol field later body description where
    "st_symbol s = Some symbol" "st_fields s = field # later" "map_of r ''text'' = Some (JStr body)"
    "map_of (st_descriptions s) field = Some description"
    "st_received s + int (length (utf8 body)) < td_bytes description" "out = None"
    "s' = s\<lparr>st_parts := (if st_assemble s then st_parts s @ [body] else st_parts s),
       st_index := st_index s + 1, st_received := st_received s + int (length (utf8 body)),
       st_digest := st_digest s @ utf8 body\<rparr>"
  | symbol field later body description where
    "st_symbol s = Some symbol" "st_fields s = field # later" "map_of r ''text'' = Some (JStr body)"
    "map_of (st_descriptions s) field = Some description"
    "st_received s + int (length (utf8 body)) = td_bytes description"
    "H (st_digest s @ utf8 body) = td_sha256 description"
    "let symbol' = (if st_assemble s then AList.update field (JStr (concat (st_parts s @ [body]))) symbol else symbol);
         s1 = s\<lparr>st_parts := [], st_fields := later, st_index := 0, st_received := 0, st_digest := []\<rparr> in
     if later = [] then s' = s1\<lparr>st_symbol := None, st_descriptions := []\<rparr> \<and> out = Some symbol'
     else s' = s1\<lparr>st_symbol := Some symbol'\<rparr> \<and> out = None"
proof -
  obtain symbol field later where sf: "st_symbol s = Some symbol" "st_fields s = field # later"
    using assms by (cases "st_symbol s"; cases "st_fields s") (simp_all add: accept_chunk_def)
  obtain body where body: "map_of r ''text'' = Some (JStr body)"
    using assms by (auto simp: accept_chunk_def sf split: option.split_asm json.split_asm)
  from assms obtain description where d: "map_of (st_descriptions s) field = Some description"
    by (auto simp: accept_chunk_def sf body rbind_eq_Inr split: if_split_asm)
  let ?received = "st_received s + int (length (utf8 body))"
  have bound: "?received \<le> td_bytes description"
    using assms by (auto simp: accept_chunk_def sf body d dict_index_def Let_def split: if_split_asm)
  show thesis
  proof (cases "?received = td_bytes description")
    case True
    show thesis
      by (rule that(2) [OF sf body d True])
        (use assms True in \<open>auto simp: accept_chunk_def sf body d dict_index_def Let_def split: if_split_asm\<close>)
  next
    case False
    show thesis
      by (rule that(1) [OF sf body d])
        (use assms False bound in \<open>auto simp: accept_chunk_def sf body d dict_index_def Let_def split: if_split_asm\<close>)
  qed
qed

lemma accept_chunk_pending:
  assumes "accept_chunk H r s = Inr (s', out)" and "text_pending H r0 s" and "st_assemble s"
  shows "st_assemble s' \<and>
    (case out of None \<Rightarrow> text_pending H r0 s'
     | Some f \<Rightarrow> assembled_from H r0 f \<and> st_symbol s' = None \<and> st_parts s' = [] \<and> st_received s' = 0 \<and> st_digest s' = [])"
proof -
  from assms(2) obtain ds symbol where p: "pending_at H r0 ds symbol s" unfolding text_pending_def by blast
  have ds: "map_of r0 ''text_chunks'' = Some (JObj ds)" "ds \<noteq> []"
    and sym: "st_symbol s = Some symbol"
    and desc: "st_descriptions s = map (\<lambda>d. (fst d, the (text_descriptor r0 d))) ds"
      "\<forall>d \<in> set ds. text_descriptor r0 d \<noteq> None"
    and flds: "distinct (st_fields s)" "set (st_fields s) \<subseteq> fst ` set ds" "st_fields s \<noteq> []"
    and part: "st_digest s = utf8 (concat (st_parts s))" "st_received s = int (length (st_digest s))"
    using p unfolding pending_at_def by - (elim conjE, assumption)+
  have all: "\<forall>field v. map_of ds field = Some v \<and> field \<notin> set (st_fields s) \<longrightarrow>
        verified H (the (text_descriptor r0 (field, v))) (map_of symbol field)"
    and every: "\<forall>k. map_of ds k = None \<and> k \<noteq> ''text_chunks'' \<longrightarrow> map_of symbol k = map_of r0 k"
    using p unfolding pending_at_def by - (elim conjE, assumption)+
  have don: "verified H (the (text_descriptor r0 (field, v))) (map_of symbol field)"
    if "map_of ds field = Some v" "field \<notin> set (st_fields s)" for field v
    using all that by blast
  have rest: "map_of symbol k = map_of r0 k" if "map_of ds k = None" "k \<noteq> ''text_chunks''" for k
    using every [rule_format, of k] that by simp
  from assms(1) show ?thesis
  proof (cases rule: accept_chunk_cases)
    case (1 symbol' field later body description)
    then have "pending_at H r0 ds symbol s'"
      using p assms(3) unfolding pending_at_def by (simp add: utf8_append)
    then have "text_pending H r0 s'" unfolding text_pending_def by blast
    then show ?thesis using 1 assms(3) by simp
  next
    case (2 symbol' field later body description)
    define f where "f = AList.update field (JStr (concat (st_parts s @ [body]))) symbol"
    have field: "field \<in> fst ` set ds" "field \<notin> set later" "distinct later" "set later \<subseteq> fst ` set ds"
      using 2(2) flds by auto
    obtain v where v: "map_of ds field = Some v" "description = the (text_descriptor r0 (field, v))"
      using 2(4) by (auto simp: desc(1) map_of_map_snd split: option.splits)
    have now: "verified H description (map_of f field)"
      using 2(5,6) part by (simp add: verified_def f_def utf8_append)
    have done': "verified H (the (text_descriptor r0 (k, w))) (map_of f k)"
      if "map_of ds k = Some w" "k \<notin> set later" for k w
    proof (cases "k = field")
      case True
      then show ?thesis using now v that by simp
    next
      case False
      then have "map_of f k = map_of symbol k" by (simp add: f_def map_of_update_other)
      then show ?thesis using don [OF that(1)] that(2) False 2(2) by simp
    qed
    have other: "map_of f k = map_of r0 k" if "map_of ds k = None" "k \<noteq> ''text_chunks''" for k
    proof -
      have "k \<noteq> field" using that(1) v(1) by auto
      then show ?thesis using rest [OF that] by (simp add: f_def map_of_update_other)
    qed
    have total: "text_descriptor r0 (k, w) = Some (the (text_descriptor r0 (k, w)))" if "map_of ds k = Some w" for k w
      using desc(2) map_of_SomeD [OF that] by force
    have same: "symbol' = symbol" using 2(1) sym by simp
    show ?thesis
    proof (cases "later = []")
      case True
      have each: "\<exists>d. text_descriptor r0 (k, w) = Some d \<and> verified H d (map_of f k)"
        if "map_of ds k = Some w" for k w
        using total [OF that] done' [OF that] True by (intro exI [of _ "the (text_descriptor r0 (k, w))"]) simp
      have "assembled_from H r0 f"
        unfolding assembled_from_def using ds each other
        by (intro exI [of _ ds] conjI allI impI) simp_all
      then show ?thesis using 2(7) True assms(3) same by (simp add: f_def)
    next
      case False
      have "pending_at H r0 ds f s'"
        using 2(7) False assms(3) same ds desc field done' other unfolding pending_at_def
        by (simp add: f_def utf8_def Let_def)
      then have "text_pending H r0 s'" unfolding text_pending_def by blast
      then show ?thesis using 2(7) False assms(3) same by simp
    qed
  qed
qed

text \<open>Between symbols the machine holds nothing; inside one it holds a pending symbol of an input record.\<close>

definition text_idle :: "symbol_text \<Rightarrow> bool" where
  "text_idle s \<longleftrightarrow> st_symbol s = None \<and> st_parts s = [] \<and> st_received s = 0 \<and> st_digest s = []"

definition text_inv :: "(string \<Rightarrow> string) \<Rightarrow> wire_fact set \<Rightarrow> symbol_text \<Rightarrow> bool" where
  "text_inv H seen s \<longleftrightarrow> st_assemble s \<and> (text_idle s \<or> (\<exists>r \<in> seen. text_pending H r s))"

definition genuine :: "(string \<Rightarrow> string) \<Rightarrow> wire_fact set \<Rightarrow> wire_fact \<Rightarrow> bool" where
  "genuine H seen f \<longleftrightarrow> (f \<in> seen \<and> map_of f ''text_chunks'' = None) \<or> (\<exists>r \<in> seen. assembled_from H r f)"

lemma accept_text_inv:
  assumes "accept_text H r s = Inr (s', out)" and "text_inv H seen s" and "r \<in> seen"
  shows "text_inv H seen s' \<and> (\<forall>f. out = Some f \<longrightarrow> genuine H seen f)"
proof (cases "fact_kind r SYMBOL_TEXT_CHUNK_KIND")
  case True
  then have run: "accept_chunk H r s = Inr (s', out)" using assms(1) by (simp add: accept_text_def)
  then have "st_symbol s \<noteq> None" by (auto elim!: accept_chunk_cases)
  then obtain r0 where r0: "r0 \<in> seen" "text_pending H r0 s" "st_assemble s"
    using assms(2) by (auto simp: text_inv_def text_idle_def)
  note next_state = accept_chunk_pending [OF run r0(2,3)]
  show ?thesis
  proof (cases out)
    case None
    then show ?thesis using next_state r0(1) by (auto simp: text_inv_def)
  next
    case (Some f)
    then show ?thesis using next_state r0(1) by (auto simp: text_inv_def text_idle_def genuine_def)
  qed
next
  case False
  then have run: "accept_descriptor r s = Inr (s', out)" "\<not> pending s"
    using assms(1) by (auto simp: accept_text_def rbind_eq_Inr finish_text_def)
  then have idle: "text_idle s" "st_assemble s"
    using assms(2) by (auto simp: text_inv_def pending_def text_pending_def pending_at_def)
  show ?thesis
  proof (cases out)
    case None
    then have "text_pending H r s' \<and> st_assemble s'"
      using accept_descriptor_pending [of r s s' H] run(1) idle by (simp add: text_idle_def)
    then show ?thesis using None assms(3) by (auto simp: text_inv_def)
  next
    case (Some f)
    then have "s' = s" "f = r" "map_of r ''text_chunks'' = None"
      using run(1) by (auto simp: accept_descriptor_def Let_def split: option.splits json.splits if_splits)
    then show ?thesis using Some idle assms(3) by (auto simp: text_inv_def genuine_def)
  qed
qed

lemma accept_all_inv:
  assumes "accept_all H rs (s, out) = Inr (s', out')" and "text_inv H seen s" and "set rs \<subseteq> seen"
    and "\<forall>f \<in> set out. genuine H seen f"
  shows "\<forall>f \<in> set out'. genuine H seen f"
  using assms
proof (induction rs arbitrary: s out)
  case (Cons r rs)
  from Cons.prems(1) obtain s1 o1 where r: "accept_text H r s = Inr (s1, o1)"
    and rest: "accept_all H rs (s1, out @ (case o1 of None \<Rightarrow> [] | Some f \<Rightarrow> [f])) = Inr (s', out')"
    by (auto simp: accept_all_def rbind_eq_Inr)
  from accept_text_inv [OF r Cons.prems(2)] Cons.prems(3)
  have "text_inv H seen s1" "\<forall>f. o1 = Some f \<longrightarrow> genuine H seen f" by simp_all
  then show ?case
    by (intro Cons.IH [OF rest]) (use Cons.prems in \<open>auto split: option.splits\<close>)
qed (simp add: accept_all_def)


definition chunk_digest :: string where
  "chunk_digest = replicate 64 CHR ''a''"

definition chunk_descriptor :: wire_fact where
  "chunk_descriptor =
     [(''type'', JStr ''fact''), (''fact'', JStr ''symbol''), (''key'', JStr ''k''),
      (''text_chunks'', JObj [(''signature'', JObj [(''bytes'', JInt 3), (''sha256'', JStr chunk_digest)])])]"

definition text_chunk :: "int \<Rightarrow> string \<Rightarrow> wire_fact" where
  "text_chunk i t =
     [(''type'', JStr ''fact''), (''fact'', JStr SYMBOL_TEXT_CHUNK_KIND), (''key'', JStr ''k''),
      (''field'', JStr ''signature''), (''index'', JInt i), (''text'', JStr t)]"


end
