(* ===== verification/NativeRegistry.thy ===== *)
theory NativeRegistry
imports NativeWire
begin

text \<open>
  \<open>_FactRegistry\<close> of \<open>ingestion/native.py\<close>: one temporary spool file per fact kind, each a
  sequence of length-prefixed \<open>marshal\<close> frames, under byte and descriptor budgets shared with the
  other registries of the pipeline.

  \<open>dumps\<close> and \<open>undump\<close> are \<open>marshal.dumps(dict(fact), 4)\<close> and \<open>marshal.loads\<close>, \<open>None\<close> where they
  raise; \<open>temp_ok\<close> tells whether the operating system grants the temporary file.  A write that
  fails half-way is not modelled.  An operation returns the registry it leaves and its exception.
\<close>

section \<open>Frames\<close>

text \<open>\<open>struct.Struct(">I")\<close>.\<close>

definition pack_header :: "nat \<Rightarrow> string" where
  "pack_header n = map (\<lambda>i. char_of (n div 256 ^ i)) [3, 2, 1, 0]"

definition unpack_header :: "string \<Rightarrow> nat" where
  "unpack_header bs = fold (\<lambda>b n. n * 256 + of_char b) bs 0"

definition HEADER_SIZE :: nat where "HEADER_SIZE = 4"

lemma unpack_pack_header: "n < 2 ^ 32 \<Longrightarrow> unpack_header (pack_header n) = n"
proof -
  assume n: "n < 2 ^ 32"
  have shift: "n div 65536 = n div 256 div 256" "n div 16777216 = n div 256 div 256 div 256"
    by (simp_all add: div_mult2_eq [symmetric])
  show ?thesis
    using n mult_div_mod_eq [of 256 n] mult_div_mod_eq [of 256 "n div 256"]
      mult_div_mod_eq [of 256 "n div 256 div 256"]
    by (simp add: pack_header_def unpack_header_def shift)
qed

lemma length_pack_header [simp]: "length (pack_header n) = 4"
  by (simp add: pack_header_def)

section \<open>The registry\<close>

definition MAX_FACT_KINDS :: int where "MAX_FACT_KINDS = 64"

record fact_registry =
  rg_files :: "(string \<times> string) list"
  rg_max_bytes :: int
  rg_max_record_bytes :: int
  rg_byte_budget :: resource_budget
  rg_fd_budget :: resource_budget
  rg_bytes :: int
  rg_closed :: bool

definition new_registry ::
    "int \<Rightarrow> int \<Rightarrow> resource_budget option \<Rightarrow> resource_budget option \<Rightarrow> fact_registry result" where
  "new_registry max_bytes max_record byte_budget fd_budget =
     (if min max_bytes max_record \<le> 0 then Inl (ValueError ''registry byte limits must be positive'')
      else rbind (case byte_budget of Some b \<Rightarrow> Inr b
                  | None \<Rightarrow> new_budget max_bytes ''analyzer pipeline exceeded the spool byte limit'') (\<lambda>bytes.
           rbind (case fd_budget of Some b \<Rightarrow> Inr b
                  | None \<Rightarrow> new_budget MAX_FACT_KINDS ''analyzer pipeline exceeded the spool file limit'') (\<lambda>fds.
             Inr \<lparr>rg_files = [], rg_max_bytes = max_bytes, rg_max_record_bytes = max_record,
                  rg_byte_budget = bytes, rg_fd_budget = fds, rg_bytes = 0, rg_closed = False\<rparr>)))"

definition open_spool :: "bool \<Rightarrow> string \<Rightarrow> fact_registry \<Rightarrow> fact_registry \<times> exn option" where
  "open_spool temp_ok kind r =
     (if map_of (rg_files r) kind \<noteq> None then (r, None)
      else if MAX_FACT_KINDS \<le> int (length (rg_files r))
      then (r, Some (AnalyzerLimitError ''analyzer exceeded the fact-kind registry limit''))
      else case acquire 1 (rg_fd_budget r) of
        Inl e \<Rightarrow> (r, Some e)
      | Inr b \<Rightarrow>
          if \<not> temp_ok then (r\<lparr>rg_fd_budget := fst (release 1 b)\<rparr>, Some OSError)
          else (r\<lparr>rg_fd_budget := b, rg_files := rg_files r @ [(kind, [])]\<rparr>, None))"

definition write_frame :: "string \<Rightarrow> string \<Rightarrow> fact_registry \<Rightarrow> fact_registry \<times> exn option" where
  "write_frame kind payload r =
     (let frame_bytes = int (HEADER_SIZE + length payload) in
      if rg_max_record_bytes r < int (length payload)
      then (r, Some (AnalyzerLimitError ''analyzer exceeded the record limit''))
      else if rg_max_bytes r < rg_bytes r + frame_bytes
      then (r, Some (AnalyzerLimitError ''analyzer exceeded the registry spool limit''))
      else case acquire frame_bytes (rg_byte_budget r) of
        Inl e \<Rightarrow> (r, Some e)
      | Inr b \<Rightarrow>
          if 2 ^ 32 \<le> length payload
          then (r\<lparr>rg_byte_budget := fst (release frame_bytes b)\<rparr>, Some StructError)
          else (r\<lparr>rg_byte_budget := b, rg_bytes := rg_bytes r + frame_bytes,
                  rg_files := AList.update kind
                    (dict_get (rg_files r) kind [] @ pack_header (length payload) @ payload) (rg_files r)\<rparr>,
                None))"

definition registry_add ::
    "(wire_fact \<Rightarrow> string option) \<Rightarrow> bool \<Rightarrow> wire_fact \<Rightarrow> fact_registry \<Rightarrow> fact_registry \<times> exn option" where
  "registry_add dumps temp_ok offer r =
     (if rg_closed r then (r, Some (RuntimeError ''fact registry is closed''))
      else case map_of offer ''fact'' of
        Some (JStr (c # cs)) \<Rightarrow>
          (case open_spool temp_ok (c # cs) r of
             (r1, Some e) \<Rightarrow> (r1, Some e)
           | (r1, None) \<Rightarrow>
               (case dumps offer of
                  None \<Rightarrow> (r1, Some (AnalyzerProtocolError ''analyzer fact contains unsupported values''))
                | Some payload \<Rightarrow> write_frame (c # cs) payload r1))
      | _ \<Rightarrow> (r, Some (AnalyzerProtocolError ''analyzer fact has no valid kind'')))"

text \<open>
  \<open>records\<close>: what the generator yields before it ends or raises.  \<open>cancelled\<close> is the event.
\<close>

function read_frames ::
    "(string \<Rightarrow> json option) \<Rightarrow> int \<Rightarrow> bool \<Rightarrow> string \<Rightarrow> string \<Rightarrow> wire_fact list \<times> exn option" where
  "read_frames undump max_record cancelled kind bytes =
     (if bytes = [] then ([], None)
      else if cancelled then ([], Some (AnalyzerLimitError ''analyzer analysis was cancelled''))
      else if length (take HEADER_SIZE bytes) \<noteq> HEADER_SIZE
      then ([], Some (AnalyzerProtocolError ''fact registry has a truncated frame header''))
      else let frame_size = unpack_header (take HEADER_SIZE bytes);
               payload = take frame_size (drop HEADER_SIZE bytes) in
        if frame_size = 0 \<or> max_record < int frame_size
        then ([], Some (AnalyzerProtocolError ''fact registry has an invalid frame length''))
        else if length payload \<noteq> frame_size
        then ([], Some (AnalyzerProtocolError ''fact registry has a truncated frame''))
        else case undump payload of
          None \<Rightarrow> ([], Some (AnalyzerProtocolError ''fact registry contains an invalid frame''))
        | Some (JObj r) \<Rightarrow>
            if \<not> fact_kind r kind
            then ([], Some (AnalyzerProtocolError ''fact registry contains an invalid fact record''))
            else let (rs, err) = read_frames undump max_record cancelled kind
                       (drop (HEADER_SIZE + frame_size) bytes) in (r # rs, err)
        | Some _ \<Rightarrow> ([], Some (AnalyzerProtocolError ''fact registry contains an invalid fact record'')))"
  by pat_completeness auto
termination
  by (relation "measure (\<lambda>(undump, max_record, cancelled, kind, bytes). length bytes)")
    (auto simp: HEADER_SIZE_def)

definition registry_records ::
    "(string \<Rightarrow> json option) \<Rightarrow> bool \<Rightarrow> string \<Rightarrow> fact_registry \<Rightarrow> wire_fact list \<times> exn option" where
  "registry_records undump cancelled kind r =
     (case map_of (rg_files r) kind of
        None \<Rightarrow> ([], None)
      | Some bytes \<Rightarrow> read_frames undump (rg_max_record_bytes r) cancelled kind bytes)"

text \<open>\<open>__iter__\<close>: the kinds in order, up to the first error.\<close>

fun records_of_kinds ::
    "(string \<Rightarrow> wire_fact list \<times> exn option) \<Rightarrow> string list \<Rightarrow> wire_fact list \<times> exn option" where
  "records_of_kinds read [] = ([], None)"
| "records_of_kinds read (k # ks) =
     (case read k of
        (rs, Some e) \<Rightarrow> (rs, Some e)
      | (rs, None) \<Rightarrow> (let (rest, err) = records_of_kinds read ks in (rs @ rest, err)))"

definition registry_iter :: "(string \<Rightarrow> json option) \<Rightarrow> bool \<Rightarrow> fact_registry \<Rightarrow> wire_fact list \<times> exn option" where
  "registry_iter undump cancelled r =
     records_of_kinds (\<lambda>k. registry_records undump cancelled k r) (sort (map fst (rg_files r)))"

fun close_files :: "(string \<times> string) list \<Rightarrow> resource_budget \<Rightarrow> resource_budget \<times> exn option" where
  "close_files [] b = (b, None)"
| "close_files (f # fs) b =
     (case release 1 b of (b', Some e) \<Rightarrow> (b', Some e) | (b', None) \<Rightarrow> close_files fs b')"

definition registry_close :: "fact_registry \<Rightarrow> fact_registry \<times> exn option" where
  "registry_close r =
     (if rg_closed r then (r, None)
      else let (fds, err) = close_files (rg_files r) (rg_fd_budget r) in
        case err of
          Some e \<Rightarrow> (r\<lparr>rg_closed := True, rg_fd_budget := fds\<rparr>, Some e)
        | None \<Rightarrow>
            let (bytes, err2) = release (rg_bytes r) (rg_byte_budget r);
                r1 = r\<lparr>rg_closed := True, rg_fd_budget := fds, rg_files := [], rg_byte_budget := bytes\<rparr> in
            (case err2 of Some e \<Rightarrow> (r1, Some e) | None \<Rightarrow> (r1\<lparr>rg_bytes := 0\<rparr>, None)))"

section \<open>Accounting\<close>

text \<open>
  The invariant, relative to what the other registries hold of the shared budgets: \<open>fds\<close>
  descriptors and \<open>held\<close> bytes.
\<close>

definition registry_inv :: "int \<Rightarrow> int \<Rightarrow> fact_registry \<Rightarrow> bool" where
  "registry_inv fds held r \<longleftrightarrow>
     0 \<le> fds \<and> 0 \<le> held \<and> \<not> rg_closed r \<and> distinct (map fst (rg_files r)) \<and>
     rb_used (rg_fd_budget r) = fds + int (length (rg_files r)) \<and>
     rb_used (rg_byte_budget r) = held + rg_bytes r \<and>
     rg_bytes r = int (sum_list (map (length \<circ> snd) (rg_files r))) \<and>
     rg_bytes r \<le> rg_max_bytes r \<and> int (length (rg_files r)) \<le> MAX_FACT_KINDS \<and>
     rb_used (rg_fd_budget r) \<le> rb_limit (rg_fd_budget r) \<and>
     rb_used (rg_byte_budget r) \<le> rb_limit (rg_byte_budget r)"

lemma sum_lengths_update:
  "k \<in> fst ` set d \<Longrightarrow> distinct (map fst d) \<Longrightarrow>
    sum_list (map (length \<circ> snd) (AList.update k (dict_get d k [] @ v) d))
      = sum_list (map (length \<circ> snd) d) + length v"
proof (induction d)
  case (Cons x d)
  have "dict_get (x # d) k [] = dict_get d k []" if "fst x \<noteq> k"
    using that by (simp add: dict_get_def)
  then show ?case using Cons by (cases x) (auto simp: dict_get_def image_iff)
qed simp

lemma length_update: "k \<in> fst ` set d \<Longrightarrow> length (AList.update k v d) = length d"
  by (induction d) auto

lemma open_spool_inv:
  assumes "registry_inv fds held r" and "open_spool temp_ok kind r = (r', err)"
  shows "registry_inv fds held r'" and "err = None \<Longrightarrow> kind \<in> fst ` set (rg_files r')"
proof -
  have known: "kind \<in> fst ` set (rg_files r)" if "map_of (rg_files r) kind = Some v" for v
    using that by (force dest: map_of_SomeD)
  have fresh: "kind \<notin> fst ` set (rg_files r)" if "map_of (rg_files r) kind = None"
    using that by (simp add: map_of_eq_None_iff)
  show "registry_inv fds held r'" "err = None \<Longrightarrow> kind \<in> fst ` set (rg_files r')"
    using assms known fresh
    by (auto simp: open_spool_def registry_inv_def acquire_def release_def Let_def split: if_splits)
qed

lemma write_frame_inv:
  assumes "registry_inv fds held r" and "kind \<in> fst ` set (rg_files r)"
  shows "registry_inv fds held (fst (write_frame kind payload r))"
  using assms sum_lengths_update [OF assms(2), of "pack_header (length payload) @ payload"]
    distinct_update [of "rg_files r"]
  by (auto simp: write_frame_def registry_inv_def acquire_def release_def Let_def length_update
      HEADER_SIZE_def)

lemma registry_add_inv:
  assumes "registry_inv fds held r" shows "registry_inv fds held (fst (registry_add dumps temp_ok offer r))"
proof -
  have "registry_inv fds held (fst (case open_spool temp_ok kind r of
             (r1, Some e) \<Rightarrow> (r1, Some e)
           | (r1, None) \<Rightarrow>
               (case dumps offer of
                  None \<Rightarrow> (r1, Some (AnalyzerProtocolError ''analyzer fact contains unsupported values''))
                | Some payload \<Rightarrow> write_frame kind payload r1)))" for kind
  proof -
    obtain r1 err where o: "open_spool temp_ok kind r = (r1, err)" by fastforce
    note inv = open_spool_inv [OF assms o]
    then show ?thesis using o write_frame_inv
      by (cases err) (auto split: option.splits)
  qed
  then show ?thesis using assms
    by (auto simp: registry_add_def split: option.splits json.splits list.splits)
qed

lemma close_files_release:
  assumes "int (length fs) \<le> rb_used b"
  shows "close_files fs b = (b\<lparr>rb_used := rb_used b - int (length fs)\<rparr>, None)"
  using assms
proof (induction fs arbitrary: b)
  case (Cons f fs)
  then show ?case
    using Cons.IH [of "b\<lparr>rb_used := rb_used b - 1\<rparr>"] by (simp add: release_def Let_def algebra_simps)
qed simp

lemma registry_close_inv:
  assumes "registry_inv fds held r"
  shows "registry_close r = (r\<lparr>rg_closed := True, rg_files := [], rg_bytes := 0,
     rg_fd_budget := (rg_fd_budget r)\<lparr>rb_used := fds\<rparr>,
     rg_byte_budget := (rg_byte_budget r)\<lparr>rb_used := held\<rparr>\<rparr>, None)"
  using assms close_files_release [of "rg_files r" "rg_fd_budget r"]
  by (auto simp: registry_close_def registry_inv_def release_def Let_def)

section \<open>The spool holds what was added\<close>

definition frame :: "(wire_fact \<Rightarrow> string option) \<Rightarrow> wire_fact \<Rightarrow> string" where
  "frame dumps f = (case dumps f of None \<Rightarrow> [] | Some p \<Rightarrow> pack_header (length p) @ p)"

definition framed :: "(wire_fact \<Rightarrow> string option) \<Rightarrow> int \<Rightarrow> wire_fact \<Rightarrow> bool" where
  "framed dumps max_record f \<longleftrightarrow>
     (\<exists>p. dumps f = Some p \<and> int (length p) \<le> max_record \<and> length p < 2 ^ 32)"

definition marshal_law :: "(wire_fact \<Rightarrow> string option) \<Rightarrow> (string \<Rightarrow> json option) \<Rightarrow> bool" where
  "marshal_law dumps undump \<longleftrightarrow>
     (\<forall>f p. dumps f = Some p \<longrightarrow> p \<noteq> [] \<and> undump p = Some (JObj f))"

definition of_kind :: "string \<Rightarrow> wire_fact list \<Rightarrow> wire_fact list" where
  "of_kind kind fs = filter (\<lambda>f. fact_kind f kind) fs"

definition spooled :: "(wire_fact \<Rightarrow> string option) \<Rightarrow> wire_fact list \<Rightarrow> fact_registry \<Rightarrow> bool" where
  "spooled dumps fs r \<longleftrightarrow>
     (\<forall>f \<in> set fs. framed dumps (rg_max_record_bytes r) f) \<and>
     (\<forall>kind. dict_get (rg_files r) kind [] = concat (map (frame dumps) (of_kind kind fs)))"

lemma read_frames_frames:
  assumes "marshal_law dumps undump" and "\<forall>f \<in> set fs. framed dumps max_record f \<and> fact_kind f kind"
  shows "read_frames undump max_record False kind (concat (map (frame dumps) fs)) = (fs, None)"
  using assms(2)
proof (induction fs)
  case (Cons f fs)
  then obtain p where p: "dumps f = Some p" "int (length p) \<le> max_record" "length p < 2 ^ 32"
    by (auto simp: framed_def)
  have law: "p \<noteq> []" "undump p = Some (JObj f)" using assms(1) p(1) by (auto simp: marshal_law_def)
  have frame: "frame dumps f = pack_header (length p) @ p" by (simp add: frame_def p)
  show ?case
    using Cons p law unpack_pack_header [OF p(3)]
    by (subst read_frames.simps) (simp add: frame HEADER_SIZE_def)
qed simp

lemma fact_kind_unique: "fact_kind f k \<Longrightarrow> fact_kind f k' \<longleftrightarrow> k = k'"
  by (auto simp: fact_kind_def)

lemma registry_add_spooled:
  assumes "spooled dumps fs r" and "registry_add dumps temp_ok f r = (r', None)"
  shows "spooled dumps (fs @ [f]) r'" and "\<exists>k. k \<noteq> [] \<and> fact_kind f k"
proof -
  from assms(2) obtain k where k: "fact_kind f k" "k \<noteq> []"
    and run: "(case open_spool temp_ok k r of
             (r1, Some e) \<Rightarrow> (r1, Some e)
           | (r1, None) \<Rightarrow>
               (case dumps f of
                  None \<Rightarrow> (r1, Some (AnalyzerProtocolError ''analyzer fact contains unsupported values''))
                | Some payload \<Rightarrow> write_frame k payload r1)) = (r', None)"
    by (auto simp: registry_add_def fact_kind_def split: if_splits option.splits json.splits list.splits)
  then show "\<exists>k. k \<noteq> [] \<and> fact_kind f k" by blast
  from run obtain r1 where o: "open_spool temp_ok k r = (r1, None)"
    by (auto split: prod.splits option.splits)
  with run obtain p where p: "dumps f = Some p" and w: "write_frame k p r1 = (r', None)"
    by (auto split: option.splits)
  have r1: "dict_get (rg_files r1) j [] = dict_get (rg_files r) j []"
    "rg_max_record_bytes r1 = rg_max_record_bytes r" for j
    using o by (auto simp: open_spool_def dict_get_def map_add_def split: if_splits sum.splits option.splits)
  have r': "dict_get (rg_files r') j [] = (if j = k then dict_get (rg_files r) k [] @ frame dumps f
       else dict_get (rg_files r) j [])"
    "rg_max_record_bytes r' = rg_max_record_bytes r" "framed dumps (rg_max_record_bytes r) f" for j
    using w p r1 by (auto simp: write_frame_def frame_def framed_def Let_def split: if_splits sum.splits)
  show "spooled dumps (fs @ [f]) r'"
    using assms(1) r' fact_kind_unique [OF k(1)] by (auto simp: spooled_def of_kind_def)
qed

fun registry_add_all ::
    "(wire_fact \<Rightarrow> string option) \<Rightarrow> wire_fact list \<Rightarrow> fact_registry \<Rightarrow> fact_registry \<times> exn option" where
  "registry_add_all dumps [] r = (r, None)"
| "registry_add_all dumps (f # fs) r =
     (case registry_add dumps True f r of
        (r', Some e) \<Rightarrow> (r', Some e) | (r', None) \<Rightarrow> registry_add_all dumps fs r')"

lemma registry_add_all_spooled:
  assumes "registry_add_all dumps fs r = (r', None)" and "spooled dumps fs0 r"
  shows "spooled dumps (fs0 @ fs) r'"
  using assms
proof (induction fs arbitrary: fs0 r)
  case (Cons f fs)
  then obtain r1 where "registry_add dumps True f r = (r1, None)" "registry_add_all dumps fs r1 = (r', None)"
    by (auto split: prod.splits option.splits)
  with Cons.IH [of r1 "fs0 @ [f]"] Cons.prems registry_add_spooled(1) show ?case by fastforce
qed simp

lemma new_registry_spooled: "new_registry m n b c = Inr r \<Longrightarrow> spooled dumps [] r \<and> rg_files r = []"
  by (auto simp: new_registry_def spooled_def of_kind_def rbind_eq_Inr split: if_splits)

text \<open>
  Property C29.  The disk registry is a faithful store: after any run of accepted facts, reading
  back one kind yields exactly the facts of that kind, in the order they were added.
\<close>

theorem registry_roundtrip:
  assumes "marshal_law dumps undump" and "new_registry m n bytes fds = Inr r0"
    and "registry_add_all dumps fs r0 = (r, None)"
  shows "registry_records undump False kind r = (of_kind kind fs, None)"
proof -
  have s: "spooled dumps fs r"
    using registry_add_all_spooled [OF assms(3)] new_registry_spooled [OF assms(2)] by fastforce
  have read: "read_frames undump (rg_max_record_bytes r) False kind (dict_get (rg_files r) kind [])
      = (of_kind kind fs, None)"
    using s read_frames_frames [OF assms(1), of "of_kind kind fs" "rg_max_record_bytes r" kind]
    by (simp add: spooled_def of_kind_def)
  show ?thesis
  proof (cases "map_of (rg_files r) kind")
    case None
    then show ?thesis using read by (simp add: registry_records_def dict_get_def)
  next
    case (Some bytes)
    then show ?thesis using read by (simp add: registry_records_def dict_get_def)
  qed
qed

text \<open>Serialisation of a fact that holds only its kind, for the witnesses.\<close>

definition toy_dumps :: "wire_fact \<Rightarrow> string option" where
  "toy_dumps f = (case f of [(k, JStr v)] \<Rightarrow> if k = ''fact'' \<and> v \<noteq> [] then Some v else None | _ \<Rightarrow> None)"

definition toy_undump :: "string \<Rightarrow> json option" where
  "toy_undump v = Some (JObj [(''fact'', JStr v)])"

lemma toy_marshal: "marshal_law toy_dumps toy_undump"
  by (auto simp: marshal_law_def toy_dumps_def toy_undump_def split: list.splits prod.splits json.splits if_splits)

definition toy_registry :: fact_registry where
  "toy_registry = \<lparr>rg_files = [], rg_max_bytes = 64, rg_max_record_bytes = 9,
     rg_byte_budget = \<lparr>rb_limit = 64, rb_message = ''analyzer pipeline exceeded the spool byte limit'', rb_used = 0\<rparr>,
     rg_fd_budget = \<lparr>rb_limit = 64, rb_message = ''analyzer pipeline exceeded the spool file limit'', rb_used = 0\<rparr>,
     rg_bytes = 0, rg_closed = False\<rparr>"

lemma toy_registry_new: "new_registry 64 9 None None = Inr toy_registry"
  by (simp add: new_registry_def toy_registry_def new_budget_def MAX_FACT_KINDS_def)

definition toy_facts :: "wire_fact list" where
  "toy_facts = [[(''fact'', JStr ''b'')], [(''fact'', JStr ''a'')], [(''fact'', JStr ''b'')]]"

theorem registry_roundtrip_witness:
  "registry_records toy_undump False ''b'' (fst (registry_add_all toy_dumps toy_facts toy_registry))
     = (of_kind ''b'' toy_facts, None) \<and> length (of_kind ''b'' toy_facts) = 2"
proof
  have "snd (registry_add_all toy_dumps toy_facts toy_registry) = None"
    by (simp add: toy_facts_def toy_registry_def toy_dumps_def registry_add_def open_spool_def write_frame_def
        acquire_def HEADER_SIZE_def MAX_FACT_KINDS_def Let_def)
  then have "registry_add_all toy_dumps toy_facts toy_registry
      = (fst (registry_add_all toy_dumps toy_facts toy_registry), None)" by (metis prod.collapse)
  then show "registry_records toy_undump False ''b'' (fst (registry_add_all toy_dumps toy_facts toy_registry))
     = (of_kind ''b'' toy_facts, None)"
    by (rule registry_roundtrip [OF toy_marshal toy_registry_new])
  show "length (of_kind ''b'' toy_facts) = 2" by code_simp
qed

text \<open>
  Property C30.  The budgets of a pipeline are exact and leak nothing: whatever facts a registry
  is offered, accepted or refused, with or without a temporary file, it never uses more bytes,
  descriptors or kinds than allowed, and closing it gives back to the shared budgets all it took.
\<close>

theorem registry_budgets:
  assumes "new_registry m n (Some bytes) (Some fds) = Inr r0"
    and "0 \<le> rb_used bytes" "rb_used bytes \<le> rb_limit bytes" "0 \<le> rb_used fds" "rb_used fds \<le> rb_limit fds"
    and "r = fold (\<lambda>(f, temp_ok) r. fst (registry_add dumps temp_ok f r)) offers r0"
  shows "rb_used (rg_byte_budget r) \<le> rb_limit (rg_byte_budget r) \<and>
    rb_used (rg_fd_budget r) \<le> rb_limit (rg_fd_budget r) \<and> rg_bytes r \<le> rg_max_bytes r \<and>
    int (length (rg_files r)) \<le> MAX_FACT_KINDS \<and>
    (\<exists>r'. registry_close r = (r', None) \<and> rb_used (rg_byte_budget r') = rb_used bytes \<and>
       rb_used (rg_fd_budget r') = rb_used fds)"
proof -
  have start: "registry_inv (rb_used fds) (rb_used bytes) r0"
    using assms(1-5) by (auto simp: new_registry_def registry_inv_def MAX_FACT_KINDS_def split: if_splits)
  have "registry_inv (rb_used fds) (rb_used bytes)
      (fold (\<lambda>(f, temp_ok) r. fst (registry_add dumps temp_ok f r)) offers r0)"
    using start
  proof (induction offers arbitrary: r0)
    case (Cons x offers)
    then show ?case using registry_add_inv by (cases x) simp
  qed simp
  then have inv: "registry_inv (rb_used fds) (rb_used bytes) r" by (simp add: assms(6))
  then show ?thesis using registry_close_inv [OF inv] by (simp add: registry_inv_def)
qed

theorem registry_budgets_witness:
  "\<exists>r'. registry_close (fold (\<lambda>(f, temp_ok) r. fst (registry_add toy_dumps temp_ok f r))
      [([(''fact'', JStr ''b'')], True), ([(''fact'', JStr ''c'')], False), ([(''fact'', JStr ''c''), (''x'', JNull)], True)]
      toy_registry) = (r', None) \<and> rb_used (rg_byte_budget r') = 0 \<and> rb_used (rg_fd_budget r') = 0"
proof -
  have "new_registry 64 9 (Some (rg_byte_budget toy_registry)) (Some (rg_fd_budget toy_registry)) = Inr toy_registry"
    by (simp add: new_registry_def toy_registry_def)
  moreover have used: "rb_used (rg_byte_budget toy_registry) = 0" "rb_used (rg_fd_budget toy_registry) = 0"
    "rb_limit (rg_byte_budget toy_registry) = 64" "rb_limit (rg_fd_budget toy_registry) = 64"
    by (simp_all add: toy_registry_def)
  ultimately show ?thesis
    using registry_budgets [of 64 9 "rg_byte_budget toy_registry" "rg_fd_budget toy_registry" toy_registry, OF _ _ _ _ _ refl]
    unfolding used by (metis order_refl zero_le_numeral)
qed

end
