(* ===== verification/BuilderCore.thy ===== *)
theory BuilderCore
imports NativeRegistry
begin

text \<open>
  \<open>_FactBatchBuilder\<close> of \<open>ingestion/native.py\<close>, first part: its state, compact-key restoration,
  authorized paths and spans, and the facts about files, symbols, occurrences, edges and
  callsites.

  The facts are a list; the disk registry yields the same records (\<open>registry_roundtrip\<close>).  The
  environment holds the digest, the file system, the boundary and the configuration of the unit,
  and the text of a float.  \<open>check_callback\<close>, which can only abort, is absent.  A raise discards
  the one-shot builder, so a failing step returns the exception alone.
\<close>

section \<open>Environment and state\<close>

record builder_env =
  be_hash :: "string \<Rightarrow> string"
  be_fs :: fs
  be_boundary :: source_boundary
  be_configuration :: build_configuration
  be_profile :: index_profile
  be_analyzer_identity :: string
  be_float_text :: "pyfloat \<Rightarrow> string"

record builder =
  b_symbols :: "(string \<times> code_symbol) list"
  b_keys :: "(string \<times> string) list"
  b_files :: "(string \<times> string) list"
  b_cfg_graph_ids :: "(string \<times> string) list"
  b_cfg_graph_function_ids :: "(string \<times> string) list"
  b_cfg_block_ids :: "(string \<times> string) list"
  b_cfg_element_ids :: "(string \<times> string) list"
  b_cfg_block_graph_ids :: "(string \<times> string) list"
  b_cfg_element_graph_ids :: "(string \<times> string) list"
  b_callsite_ids :: "(string \<times> string) list"
  b_data_flow_analysis_ids :: "(string \<times> string) list"
  b_data_flow_analysis_graph_ids :: "(string \<times> string) list"
  b_memory_location_ids :: "(string \<times> string) list"
  b_memory_location_analysis_ids :: "(string \<times> string) list"
  b_data_access_ids :: "(string \<times> string) list"
  b_data_access_identity_keys :: "(string \<times> string) list"
  b_data_access_analysis_ids :: "(string \<times> string) list"
  b_function_summary_ids :: "(string \<times> string) list"
  b_function_summary_analysis_ids :: "(string \<times> string) list"
  b_function_summary_parameter_counts :: "(string \<times> nat) list"
  b_wire_identities :: "((string \<times> string) \<times> string) list"

definition empty_builder :: builder where
  "empty_builder = \<lparr>b_symbols = [], b_keys = [], b_files = [], b_cfg_graph_ids = [],
     b_cfg_graph_function_ids = [], b_cfg_block_ids = [], b_cfg_element_ids = [],
     b_cfg_block_graph_ids = [], b_cfg_element_graph_ids = [], b_callsite_ids = [],
     b_data_flow_analysis_ids = [], b_data_flow_analysis_graph_ids = [], b_memory_location_ids = [],
     b_memory_location_analysis_ids = [], b_data_access_ids = [], b_data_access_identity_keys = [],
     b_data_access_analysis_ids = [], b_function_summary_ids = [], b_function_summary_analysis_ids = [],
     b_function_summary_parameter_counts = [], b_wire_identities = []\<rparr>"

definition new_builder_env ::
    "(string \<Rightarrow> string) \<Rightarrow> fs \<Rightarrow> (pyfloat \<Rightarrow> string) \<Rightarrow> string \<Rightarrow> build_configuration \<Rightarrow> index_profile \<Rightarrow> string
      \<Rightarrow> builder_env result" where
  "new_builder_env H F float_text project c profile identity =
     rbind (post_init_source_boundary F
        \<lparr>project_root = project, generated_source_roots = bc_generated_source_roots c\<rparr>) (\<lambda>b.
       Inr \<lparr>be_hash = H, be_fs = F, be_boundary = b, be_configuration = c, be_profile = profile,
            be_analyzer_identity = identity, be_float_text = float_text\<rparr>)"

definition unit_id :: "builder_env \<Rightarrow> string" where
  "unit_id E = translation_unit_key (be_hash E) (be_configuration E)"

definition configuration_id :: "builder_env \<Rightarrow> string" where
  "configuration_id E = bc_id (be_configuration E)"

definition variant_name :: "builder_env \<Rightarrow> string" where
  "variant_name E = bc_build_variant (be_configuration E)"

definition hash_id :: "builder_env \<Rightarrow> string \<Rightarrow> string list \<Rightarrow> string" where
  "hash_id E prefix parts = prefix @ take 32 (hash_text (be_hash E) parts)"

definition variant_id :: "builder_env \<Rightarrow> string \<Rightarrow> string" where
  "variant_id E symbol_id = hash_id E ''variant_'' [variant_name E, unit_id E, symbol_id]"

text \<open>\<open>d[key]\<close> with the protocol error that replaces \<open>KeyError\<close>.\<close>

definition known :: "string \<Rightarrow> (string \<times> 'v) list \<Rightarrow> string \<Rightarrow> 'v result" where
  "known message d key = (case map_of d key of
     None \<Rightarrow> Inl (AnalyzerProtocolError message) | Some v \<Rightarrow> Inr v)"

definition known_id :: "builder \<Rightarrow> string \<Rightarrow> string result" where
  "known_id b = known ''analyzer fact references an unknown symbol'' (b_keys b)"

definition known_callsite :: "builder \<Rightarrow> string \<Rightarrow> string result" where
  "known_callsite b = known ''analyzer target references an unknown callsite'' (b_callsite_ids b)"

text \<open>\<open>known(key) if key else None\<close>.\<close>

definition when_key :: "(string \<Rightarrow> string result) \<Rightarrow> string option \<Rightarrow> string option result" where
  "when_key f key = (case key of
     None \<Rightarrow> Inr None | Some k \<Rightarrow> if k = [] then Inr None else rmap_result Some (f k))"

lemma known_Inr [simp]: "known m d k = Inr v \<longleftrightarrow> map_of d k = Some v"
  by (simp add: known_def split: option.splits)

lemma when_key_Inr: "when_key f key = Inr r \<longleftrightarrow>
    (if truthy key then \<exists>k v. key = Some k \<and> f k = Inr v \<and> r = Some v else r = None)"
  by (auto simp: when_key_def truthy_def split: option.splits)

section \<open>Rendering JSON values\<close>

fun json_repr :: "(pyfloat \<Rightarrow> string) \<Rightarrow> json \<Rightarrow> string" where
  "json_repr ft JNull = ''None''"
| "json_repr ft (JBool b) = (if b then ''True'' else ''False'')"
| "json_repr ft (JInt n) = str_int n"
| "json_repr ft (JFloat x) = ft x"
| "json_repr ft (JStr s) = repr_str s"
| "json_repr ft (JArr vs) = ''['' @ join '', '' (map (json_repr ft) vs) @ '']''"
| "json_repr ft (JObj kvs) =
     ''{'' @ join '', '' (map (\<lambda>kv. repr_str (fst kv) @ '': '' @ json_repr ft (snd kv)) kvs) @ ''}''"

definition json_text :: "(pyfloat \<Rightarrow> string) \<Rightarrow> json \<Rightarrow> string" where
  "json_text ft v = (case v of JStr s \<Rightarrow> s | _ \<Rightarrow> json_repr ft v)"

text \<open>The truth value of a JSON value.\<close>

definition json_truthy :: "json \<Rightarrow> bool" where
  "json_truthy v = (case v of
     JNull \<Rightarrow> False | JBool b \<Rightarrow> b | JInt n \<Rightarrow> n \<noteq> 0 | JFloat x \<Rightarrow> x \<noteq> Finite 0
   | JStr s \<Rightarrow> s \<noteq> [] | JArr vs \<Rightarrow> vs \<noteq> [] | JObj kvs \<Rightarrow> kvs \<noteq> [])"

definition json_get :: "wire_fact \<Rightarrow> string \<Rightarrow> json" where
  "json_get f name = (case map_of f name of None \<Rightarrow> JNull | Some v \<Rightarrow> v)"

text \<open>A field that must be absent, null or a string.\<close>

definition nullable_string :: "string \<Rightarrow> wire_fact \<Rightarrow> string \<Rightarrow> string option result" where
  "nullable_string message f name = (case json_get f name of
     JNull \<Rightarrow> Inr None | JStr s \<Rightarrow> Inr (Some s) | _ \<Rightarrow> Inl (AnalyzerProtocolError message))"

section \<open>Compact keys\<close>

type_synonym identities = "((string \<times> string) \<times> string) list"

definition compact :: "string \<Rightarrow> string \<Rightarrow> bool" where
  "compact family key = starts_with key (family @ '':'')"

definition wire_lookup :: "identities \<Rightarrow> string \<Rightarrow> string \<Rightarrow> string result" where
  "wire_lookup ids key family =
     (if \<not> compact family key then Inr key
      else case map_of ids (family, key) of
        None \<Rightarrow> Inl (AnalyzerProtocolError ''analyzer compact key references an unknown identity'')
      | Some identity \<Rightarrow> Inr identity)"

definition wire_reference :: "identities \<Rightarrow> json \<Rightarrow> string \<Rightarrow> json result" where
  "wire_reference ids v family =
     (case v of JStr key \<Rightarrow> rmap_result JStr (wire_lookup ids key family) | _ \<Rightarrow> Inr v)"

definition compact_identity :: "identities \<Rightarrow> string \<Rightarrow> wire_fact \<Rightarrow> string result" where
  "compact_identity ids family f =
     (let at_index = (\<lambda>field family middle name.
            rbind (wire_string f field) (\<lambda>key. rbind (wire_lookup ids key family) (\<lambda>base.
            rbind (wire_non_negative_integer f name) (\<lambda>n. Inr (base @ middle @ str_int n))))) in
      if family = ''g'' then rmap_result (\<lambda>k. ''cfg:'' @ k) (wire_string f ''function_key'')
      else if family = ''b'' then at_index ''graph_key'' ''g'' '':block:'' ''index''
      else if family = ''e'' then at_index ''block_key'' ''b'' '':element:'' ''index''
      else if family = ''d''
      then rbind (wire_string f ''graph_key'') (\<lambda>key. rmap_result (\<lambda>g. ''data-flow:'' @ g) (wire_lookup ids key ''g''))
      else if family = ''m'' then wire_string f ''identity_key''
      else at_index ''block_key'' ''b'' '':access:'' ''sequence'')"

definition register_identity ::
    "(string \<Rightarrow> string) \<Rightarrow> string \<Rightarrow> wire_fact \<Rightarrow> identities \<Rightarrow> identities result" where
  "register_identity H family f ids =
     rbind (wire_string f ''key'') (\<lambda>key.
     if \<not> compact family key then Inr ids
     else rbind (compact_identity ids family f) (\<lambda>identity.
       if length (utf8 identity) \<le> 66 \<or> wire_key H identity family \<noteq> key \<or> map_of ids (family, key) \<noteq> None
       then Inl (AnalyzerProtocolError ''analyzer compact identity is inconsistent or duplicated'')
       else Inr (AList.update (family, key) identity ids)))"

definition prepare_wire_keys :: "(string \<Rightarrow> string) \<Rightarrow> wire_fact list \<Rightarrow> identities result" where
  "prepare_wire_keys H facts =
     rfold (\<lambda>(kind, family) ids. rfold (register_identity H family) (of_kind kind facts) ids)
       (take 6 WIRE_FACT_KEYS) []"

definition restore_field :: "identities \<Rightarrow> string \<times> string \<Rightarrow> wire_fact \<Rightarrow> wire_fact result" where
  "restore_field ids ff f =
     (let (field, family) = ff in
      case map_of f field of
        None \<Rightarrow> Inr f
      | Some v \<Rightarrow> rmap_result (\<lambda>v'. AList.update field v' f) (wire_reference ids v family))"

definition json_or :: "json \<Rightarrow> json \<Rightarrow> json" where
  "json_or v w = (if json_truthy v then v else w)"

definition restore_key ::
    "builder_env \<Rightarrow> identities \<Rightarrow> string \<Rightarrow> string \<Rightarrow> wire_fact \<Rightarrow> wire_fact result" where
  "restore_key E ids family key r =
     (let show = json_text (be_float_text E);
          inconsistent = Inl (AnalyzerProtocolError ''analyzer compact fact identity is inconsistent'') in
      rbind (if family = ''v''
             then rbind (wire_string r ''analysis_key'') (\<lambda>analysis. rbind (wire_string r ''relation'') (\<lambda>relation.
               Inr (analysis @ '':evidence:'' @ relation @ '':''
                 @ show (json_or (json_get r ''source_access_key'') (json_get r ''source_location_key'')) @ '':''
                 @ show (json_or (json_get r ''target_access_key'') (json_get r ''target_location_key'')))))
             else if family = ''s''
             then rbind (wire_string r ''summary_key'') (\<lambda>summary. rbind (wire_string r ''kind'') (\<lambda>kind.
               rbind (wire_string r ''source_access_key'') (\<lambda>access.
               Inr (summary @ '':effect:'' @ kind @ '':'' @ access))))
             else wire_lookup ids key family) (\<lambda>identity.
      if family \<in> {''v'', ''s''} \<and> wire_key (be_hash E) identity family \<noteq> key then inconsistent
      else Inr (AList.update ''key'' (JStr identity) r)))"

definition restore_wire_fact :: "builder_env \<Rightarrow> identities \<Rightarrow> wire_fact \<Rightarrow> wire_fact result" where
  "restore_wire_fact E ids f =
     rbind (rfold (restore_field ids) WIRE_REFERENCE_FIELDS f) (\<lambda>r1.
     rbind (if map_of r1 ''parameter_location_keys'' \<noteq> None
            then rbind (wire_string_list f ''parameter_location_keys'') (\<lambda>keys.
                 rmap_result (\<lambda>ks. AList.update ''parameter_location_keys'' (JArr (map JStr ks)) r1)
                   (rmap (\<lambda>k. wire_lookup ids k ''m'') keys))
            else Inr r1) (\<lambda>r2.
     rmap_result (AList.delete ''identity_key'')
       (case (case map_of f ''fact'' of Some (JStr kind) \<Rightarrow> map_of WIRE_FACT_KEYS kind | _ \<Rightarrow> None,
              map_of f ''key'') of
          (Some family, Some (JStr key)) \<Rightarrow>
            if compact family key then restore_key E ids family key r2 else Inr r2
        | _ \<Rightarrow> Inr r2)))"

text \<open>\<open>_facts\<close>, consumed by a loop with a state, and by a comprehension.\<close>

definition each_fact ::
    "builder_env \<Rightarrow> identities \<Rightarrow> wire_fact list \<Rightarrow> string \<Rightarrow> (wire_fact \<Rightarrow> 's \<Rightarrow> 's result) \<Rightarrow> 's
      \<Rightarrow> 's result" where
  "each_fact E ids facts kind step =
     rfold (\<lambda>f s. rbind (restore_wire_fact E ids f) (\<lambda>r. step r s)) (of_kind kind facts)"

definition map_facts ::
    "builder_env \<Rightarrow> identities \<Rightarrow> wire_fact list \<Rightarrow> string \<Rightarrow> (wire_fact \<Rightarrow> 'a result) \<Rightarrow> 'a list result" where
  "map_facts E ids facts kind g = rmap (\<lambda>f. rbind (restore_wire_fact E ids f) g) (of_kind kind facts)"

section \<open>Paths and spans\<close>

definition authorized_path :: "builder_env \<Rightarrow> string \<Rightarrow> string result" where
  "authorized_path E raw =
     (let path = fs_resolve (be_fs E) raw in
      if \<not> contains (be_fs E) (be_boundary E) path \<or> \<not> fs_is_file (be_fs E) path
      then Inl (AnalyzerProtocolError ''analyzer returned a path outside the authorized source roots'')
      else Inr path)"

text \<open>
  \<open>_path\<close> with its cache.  The cache only holds answers of \<open>authorized_path\<close>, so the rest of the
  model uses \<open>authorized_path\<close> directly.
\<close>

definition cached_path :: "builder_env \<Rightarrow> string \<Rightarrow> (string \<times> string) list \<Rightarrow> (string \<times> (string \<times> string) list) result" where
  "cached_path E raw cache =
     (case map_of cache raw of
        Some path \<Rightarrow> Inr (path, cache)
      | None \<Rightarrow> rmap_result (\<lambda>path. (path, AList.update raw path cache)) (authorized_path E raw))"

definition wire_span :: "builder_env \<Rightarrow> wire_fact \<Rightarrow> source_span result" where
  "wire_span E raw =
     rbind (rbind (wire_string raw ''path'') (authorized_path E)) (\<lambda>path.
     rbind (wire_integer raw ''start_line'') (\<lambda>sl. rbind (wire_integer raw ''end_line'') (\<lambda>el.
     rbind (wire_integer raw ''start_column'') (\<lambda>sc. rbind (wire_integer raw ''end_column'') (\<lambda>ec.
       post_init_source_span \<lparr>span_path = path, start_line = sl, end_line = el, start_column = sc,
                              end_column = ec\<rparr>)))))"

definition span_field :: "builder_env \<Rightarrow> wire_fact \<Rightarrow> string \<Rightarrow> source_span result" where
  "span_field E f name = rbind (wire_mapping f name) (wire_span E)"

definition optional_span :: "builder_env \<Rightarrow> wire_fact \<Rightarrow> string \<Rightarrow> source_span option result" where
  "optional_span E f name =
     (case json_get f name of
        JNull \<Rightarrow> Inr None
      | JObj raw \<Rightarrow> rmap_result Some (wire_span E raw)
      | _ \<Rightarrow> invalid_field name)"

definition span_texts :: "source_span \<Rightarrow> string list" where
  "span_texts s = [span_path s, str_int (start_line s), str_int (start_column s), str_int (end_line s),
     str_int (end_column s)]"

definition span_payload :: "source_span \<Rightarrow> json" where
  "span_payload s = JObj
     [(''path'', JStr (span_path s)), (''start_line'', JInt (start_line s)), (''end_line'', JInt (end_line s)),
      (''start_column'', JInt (start_column s)), (''end_column'', JInt (end_column s))]"

text \<open>The cache is transparent.\<close>

definition cache_ok :: "builder_env \<Rightarrow> (string \<times> string) list \<Rightarrow> bool" where
  "cache_ok E cache \<longleftrightarrow> (\<forall>(raw, path) \<in> set cache. authorized_path E raw = Inr path)"

lemma cached_path_transparent:
  assumes "cache_ok E cache"
  shows "rmap_result fst (cached_path E raw cache) = authorized_path E raw"
    and "cached_path E raw cache = Inr (path, cache') \<Longrightarrow> cache_ok E cache'"
proof -
  have hit: "authorized_path E raw = Inr path" if "map_of cache raw = Some path" for path
    using assms map_of_SomeD [OF that] by (auto simp: cache_ok_def)
  then show "rmap_result fst (cached_path E raw cache) = authorized_path E raw"
    by (cases "map_of cache raw"; cases "authorized_path E raw") (auto simp: cached_path_def)
  have "cache_ok E (AList.update raw path cache)" if "authorized_path E raw = Inr path"
    using assms that unfolding cache_ok_def by (induction cache) (auto split: if_splits)
  then show "cached_path E raw cache = Inr (path, cache') \<Longrightarrow> cache_ok E cache'"
    using assms by (auto simp: cached_path_def split: option.splits)
qed

text \<open>
  The path cache is invisible: as long as it holds only earlier answers, a lookup
  through it accepts and rejects the same paths with the same answers as a lookup without it, and
  leaves it holding only such answers.
\<close>

theorem path_cache_transparent:
  assumes "cache_ok E cache"
  shows "rmap_result fst (cached_path E raw cache) = authorized_path E raw \<and>
    (\<forall>path cache'. cached_path E raw cache = Inr (path, cache') \<longrightarrow> cache_ok E cache')"
  using cached_path_transparent [OF assms] by blast

definition sample_env :: builder_env where
  "sample_env = \<lparr>be_hash = (\<lambda>_. ''h''), be_fs = sample_fs sample_files,
     be_boundary = \<lparr>project_root = ''/repo'', generated_source_roots = []\<rparr>,
     be_configuration = sample_configuration, be_profile = PROFILE_FULL, be_analyzer_identity = [],
     be_float_text = (\<lambda>_. ''0.5'')\<rparr>"

theorem path_cache_transparent_witness:
  "rmap_result fst (cached_path sample_env ''/repo/src/a.cc'' []) = Inr ''/repo/src/a.cc''"
proof -
  have "authorized_path sample_env ''/repo/src/a.cc'' = Inr ''/repo/src/a.cc''" by code_simp
  with path_cache_transparent [of sample_env "[]" "''/repo/src/a.cc''"] show ?thesis
    by (simp add: cache_ok_def)
qed

section \<open>Registration loops\<close>

text \<open>
  A loop that registers one dictionary entry per fact: every entry it leaves comes from a fact
  with that key, the last one.
\<close>

lemma rfold_registers:
  assumes "rfold step fs b = Inr b'" and "P b"
    and step: "\<And>f b b'. P b \<Longrightarrow> step f b = Inr b' \<Longrightarrow>
      P b' \<and> (\<exists>k v. wire_string f ''key'' = Inr k \<and> get b' = AList.update k v (get b) \<and> R f v)"
    and "\<forall>k v. map_of (get b) k = Some v \<longrightarrow> (\<exists>f \<in> set fs0. wire_string f ''key'' = Inr k \<and> R f v)"
  shows "P b' \<and> (\<forall>k v. map_of (get b') k = Some v \<longrightarrow>
    (\<exists>f \<in> set (fs0 @ fs). wire_string f ''key'' = Inr k \<and> R f v))"
  using assms(1,2,4)
proof (induction fs arbitrary: fs0 b)
  case (Cons f fs)
  from Cons.prems(1) obtain b1 where b1: "step f b = Inr b1" "rfold step fs b1 = Inr b'"
    by (auto simp: rbind_eq_Inr)
  from step [OF Cons.prems(2) b1(1)] obtain k v where k: "P b1" "wire_string f ''key'' = Inr k"
    "get b1 = AList.update k v (get b)" "R f v" by blast
  have "\<forall>j w. map_of (get b1) j = Some w \<longrightarrow> (\<exists>f' \<in> set (fs0 @ [f]). wire_string f' ''key'' = Inr j \<and> R f' w)"
    using Cons.prems(3) k by (auto simp: update_conv')
  from Cons.IH [OF b1(2) k(1) this] show ?case by simp
qed simp

section \<open>Files and symbols\<close>

definition file_end_column :: "nat list list \<Rightarrow> int" where
  "file_end_column lines = (if lines = [] then 1 else int (length (last lines)) + 1)"

definition file_symbol :: "builder_env \<Rightarrow> string \<Rightarrow> string option \<Rightarrow> builder \<Rightarrow> builder result" where
  "file_symbol E path given b =
     rbind (display (be_fs E) (be_boundary E) path) (\<lambda>relative.
     let symbol_id = hash_id E ''file_'' [relative];
         key = (case given of None \<Rightarrow> ''file:'' @ relative
                | Some k \<Rightarrow> if k = [] then ''file:'' @ relative else k);
         b1 = b\<lparr>b_keys := AList.update key symbol_id (b_keys b),
                b_files := AList.update key path (b_files b)\<rparr> in
     if map_of (b_symbols b) symbol_id \<noteq> None then Inr b1
     else case fs_read (be_fs E) path of
       None \<Rightarrow> Inl OSError
     | Some content \<Rightarrow>
         let lines = splitlines (fst (decode_replace (bytes_of content))) in
         rbind (post_init_source_span
           \<lparr>span_path = path, start_line = 1, end_line = max 1 (int (length lines)), start_column = 1,
            end_column = file_end_column lines\<rparr>) (\<lambda>location.
         rbind (post_init_code_symbol
           \<lparr>fact_id = symbol_id, translation_unit_id = unit_id E, build_configuration_id = configuration_id E,
            build_variant = variant_name E, sym_qualified_name = relative, sym_kind = SYM_FILE,
            sym_span = location, sym_signature = relative, sym_documentation = [],
            sym_source_hash = be_hash E content, sym_source_text = [],
            sym_variant_id = variant_id E symbol_id,
            sym_metadata = [(''relative_path'', JStr relative),
              (''analysis_backend'', JStr ''clang-libtooling''),
              (''advanced_facts_complete'', JBool True)]\<rparr>) (\<lambda>symbol.
           Inr (b1\<lparr>b_symbols := AList.update symbol_id symbol (b_symbols b)\<rparr>))))"

definition file_fact :: "builder_env \<Rightarrow> wire_fact \<Rightarrow> builder \<Rightarrow> builder result" where
  "file_fact E f b =
     rbind (wire_string f ''key'') (\<lambda>key.
     rbind (rbind (wire_string f ''path'') (authorized_path E)) (\<lambda>path.
       file_symbol E path (Some key) (b\<lparr>b_files := AList.update key path (b_files b)\<rparr>)))"

definition PROTOCOL_NUMBERS :: "(string \<times> json) list" where
  "PROTOCOL_NUMBERS = [(''analyzer_protocol'', JInt 5), (''analyzer_clang_major'', JInt 18)]"

definition symbol_metadata :: "string \<Rightarrow> wire_fact \<Rightarrow> wire_fact" where
  "symbol_metadata key raw =
     (let m = fold (\<lambda>(k, v). AList.update k v) PROTOCOL_NUMBERS (AList.delete ''advanced_facts_complete'' raw) in
      if starts_with key ''usr:'' then AList.update ''usr'' (JStr (drop 4 key)) m else m)"

definition is_definition :: "code_symbol \<Rightarrow> bool" where
  "is_definition s = json_truthy (json_get (sym_metadata s) ''is_definition'')"

definition symbol_fact :: "builder_env \<Rightarrow> wire_fact \<Rightarrow> builder \<Rightarrow> builder result" where
  "symbol_fact E f b =
     rbind (wire_string f ''key'') (\<lambda>key.
     let symbol_id = hash_id E ''sym_'' [key] in
     rbind (span_field E f ''span'') (\<lambda>location.
     rbind (case map_of f ''metadata'' of None \<Rightarrow> Inr [] | Some (JObj m) \<Rightarrow> Inr m
            | Some _ \<Rightarrow> Inl (AnalyzerProtocolError ''symbol metadata must be an object'')) (\<lambda>raw.
     rbind (wire_string f ''qualified_name'') (\<lambda>qualified.
     rbind (rbind (wire_string f ''kind'') (enum_parse symbol_kind_members symbol_kind_value)) (\<lambda>kind.
     rbind (wire_optional_string f ''signature'') (\<lambda>signature.
     rbind (wire_optional_string f ''documentation'') (\<lambda>documentation.
     rbind (wire_optional_string f ''source_text'') (\<lambda>source_text.
     rbind (post_init_code_symbol
       \<lparr>fact_id = symbol_id, translation_unit_id = unit_id E, build_configuration_id = configuration_id E,
        build_variant = variant_name E, sym_qualified_name = qualified, sym_kind = kind,
        sym_span = location, sym_signature = signature, sym_documentation = documentation,
        sym_source_hash = hash_text (be_hash E) [source_text], sym_source_text = source_text,
        sym_variant_id = variant_id E symbol_id, sym_metadata = symbol_metadata key raw\<rparr>) (\<lambda>symbol.
     let b1 = b\<lparr>b_keys := AList.update key symbol_id (b_keys b)\<rparr> in
     Inr (case map_of (b_symbols b) symbol_id of
            None \<Rightarrow> b1\<lparr>b_symbols := AList.update symbol_id symbol (b_symbols b)\<rparr>
          | Some previous \<Rightarrow>
              if is_definition symbol \<and> \<not> is_definition previous
              then b1\<lparr>b_symbols := AList.update symbol_id symbol (b_symbols b)\<rparr> else b1))))))))))"

section \<open>Occurrences and edges\<close>

definition occurrence_fact :: "builder_env \<Rightarrow> builder \<Rightarrow> wire_fact \<Rightarrow> symbol_occurrence result" where
  "occurrence_fact E b f =
     rbind (rbind (wire_string f ''symbol_key'') (known_id b)) (\<lambda>symbol_id.
     rbind (span_field E f ''span'') (\<lambda>location.
     rbind (rbind (wire_string f ''kind'') (enum_parse occurrence_kind_members occurrence_kind_value)) (\<lambda>kind.
     rbind (case map_of f ''enclosing_key'' of
              Some (JStr k) \<Rightarrow> when_key (known_id b) (Some k) | _ \<Rightarrow> Inr None) (\<lambda>enclosing.
     rbind (if kind = OCC_MACRO_EXPANSION
            then rbind (span_field E f ''spelling_span'') (\<lambda>spelling.
                 rbind (span_field E f ''expansion_span'') (\<lambda>expansion.
                   Inr [(''spelling_span'', span_payload spelling), (''expansion_span'', span_payload expansion)]))
            else Inr []) (\<lambda>metadata.
       post_init_symbol_occurrence
         \<lparr>fact_id = hash_id E ''occ_'' ([symbol_id, variant_name E, unit_id E, occurrence_kind_value kind]
              @ span_texts location),
          translation_unit_id = unit_id E, build_configuration_id = configuration_id E,
          build_variant = variant_name E, occ_symbol_id = symbol_id, occ_span = location, occ_kind = kind,
          occ_enclosing_symbol_id = enclosing, occ_metadata = metadata\<rparr>)))))"

definition edge_fact :: "builder_env \<Rightarrow> builder \<Rightarrow> wire_fact \<Rightarrow> graph_edge option result" where
  "edge_fact E b f =
     rbind (if fact_kind f ''include'' then Inr REL_INCLUDES
            else rbind (wire_string f ''relation'') (enum_parse graph_relation_members graph_relation_value)) (\<lambda>relation.
     rbind (wire_string f ''source_key'') (\<lambda>source_key.
     case map_of f ''target_key'' of
       Some (JStr target_key) \<Rightarrow>
         rbind (known_id b source_key) (\<lambda>source_id.
         rbind (known_id b target_key) (\<lambda>target_id.
         rbind (case map_of f ''span'' of
                  Some (JObj raw) \<Rightarrow> rmap_result span_texts (wire_span E raw)
                | _ \<Rightarrow> Inr [[], [], [], [], []]) (\<lambda>location.
           Inr (Some \<lparr>fact_id = hash_id E ''edge_''
                  ([variant_name E, unit_id E, source_id, target_id, graph_relation_value relation] @ location),
                translation_unit_id = unit_id E, build_configuration_id = configuration_id E,
                build_variant = variant_name E, ge_source_id = source_id, ge_target_id = target_id,
                ge_relation = relation\<rparr>))))
     | _ \<Rightarrow> Inr None))"

end
