(* ===== verification/BuilderCfg.thy ===== *)
theory BuilderCfg
imports BuilderCore
begin

text \<open>
  \<open>_FactBatchBuilder\<close>, second part: callsites with their targets, and control-flow graphs.  The
  dictionary \<open>block_graph_ids\<close> local to \<open>_cfg_facts\<close> receives the same updates as the attribute
  \<open>cfg_block_graph_ids\<close> of the one-shot builder, so the model keeps one of them.
\<close>

section \<open>Callsites\<close>

definition callsite_identity :: "builder_env \<Rightarrow> wire_fact \<Rightarrow> builder \<Rightarrow> builder result" where
  "callsite_identity E f b =
     rbind (wire_string f ''key'') (\<lambda>key.
     rbind (rbind (wire_string f ''owner_key'') (known_id b)) (\<lambda>owner_id.
     rbind (optional_span E f ''spelling_span'') (\<lambda>spelling.
     rbind (span_field E f ''expansion_span'') (\<lambda>expansion.
     let spelled = (case spelling of None \<Rightarrow> expansion | Some s \<Rightarrow> s) in
     Inr (b\<lparr>b_callsite_ids := AList.update key
         (hash_id E ''callsite_'' ([variant_name E, configuration_id E, unit_id E, owner_id]
            @ span_texts spelled @ span_texts expansion @ [key])) (b_callsite_ids b)\<rparr>)))))"

definition expansion_frame :: "builder_env \<Rightarrow> builder \<Rightarrow> json \<Rightarrow> macro_expansion_frame result" where
  "expansion_frame E b v =
     (case v of
        JObj raw \<Rightarrow>
          rbind (rbind (wire_string raw ''macro_key'') (known_id b)) (\<lambda>symbol_id.
          rbind (wire_string raw ''name'') (\<lambda>name.
          rbind (span_field E raw ''spelling_span'') (\<lambda>spelling.
          rbind (span_field E raw ''expansion_span'') (\<lambda>expansion.
            post_init_macro_expansion_frame
              \<lparr>mf_macro_symbol_id = symbol_id, mf_name = name, mf_spelling_span = spelling,
               mf_expansion_span = expansion\<rparr>))))
      | _ \<Rightarrow> Inl (AnalyzerProtocolError ''analyzer callsite has invalid macro expansion frame''))"

definition callsite_fact :: "builder_env \<Rightarrow> builder \<Rightarrow> wire_fact \<Rightarrow> call_site result" where
  "callsite_fact E b f =
     rbind (wire_string f ''key'') (\<lambda>key.
     rbind (nullable_string ''analyzer callsite has invalid static target'' f ''static_target_key'') (\<lambda>static_key.
     rbind (case map_of f ''expansion_stack'' of None \<Rightarrow> Inr [] | Some (JArr vs) \<Rightarrow> Inr vs
            | Some _ \<Rightarrow> Inl (AnalyzerProtocolError ''analyzer callsite has invalid macro expansion stack'')) (\<lambda>raw_stack.
     rbind (rmap (expansion_frame E b) raw_stack) (\<lambda>stack.
     rbind (known_callsite b key) (\<lambda>callsite_id.
     rbind (rbind (wire_string f ''owner_key'') (known_id b)) (\<lambda>owner_id.
     rbind (rbind (wire_string f ''dispatch_kind'')
              (enum_parse call_dispatch_kind_members call_dispatch_kind_value)) (\<lambda>dispatch.
     rbind (optional_span E f ''spelling_span'') (\<lambda>spelling.
     rbind (span_field E f ''expansion_span'') (\<lambda>expansion.
     rbind (wire_boolean f ''target_set_complete'') (\<lambda>complete.
     rbind (when_key (known_id b) static_key) (\<lambda>static_id.
     rbind (wire_optional_string f ''unresolved_reason'') (\<lambda>reason.
     rbind (wire_optional_string f ''callee_text'') (\<lambda>callee_text.
       post_init_call_site
         \<lparr>fact_id = callsite_id, translation_unit_id = unit_id E, build_configuration_id = configuration_id E,
          build_variant = variant_name E, cs_owner_symbol_id = owner_id, cs_dispatch_kind = dispatch,
          cs_spelling_span = spelling, cs_expansion_span = expansion, cs_target_set_complete = complete,
          cs_static_target_symbol_id = static_id, cs_unresolved_reason = reason,
          cs_callee_text = callee_text, cs_expansion_stack = stack\<rparr>)))))))))))))"

text \<open>\<open>dataclasses.replace\<close> validates the changed callsite again.\<close>

definition resolve_callsite ::
    "wire_fact \<Rightarrow> (string \<times> call_site) list \<Rightarrow> (string \<times> call_site) list result" where
  "resolve_callsite f sites =
     rbind (wire_string f ''callsite_key'') (\<lambda>key.
     rbind (known ''analyzer resolution references an unknown callsite'' sites key) (\<lambda>site.
     rbind (wire_boolean f ''target_set_complete'') (\<lambda>complete.
     rbind (wire_optional_string f ''unresolved_reason'') (\<lambda>reason.
     if complete = (reason \<noteq> [])
     then Inl (AnalyzerProtocolError ''analyzer callsite resolution completeness is invalid'')
     else rmap_result (\<lambda>s. AList.update key s sites)
       (post_init_call_site (site\<lparr>cs_target_set_complete := complete, cs_unresolved_reason := reason\<rparr>))))))"

definition call_target_fact :: "builder_env \<Rightarrow> builder \<Rightarrow> wire_fact \<Rightarrow> call_target result" where
  "call_target_fact E b f =
     rbind (rbind (wire_string f ''callsite_key'') (known_callsite b)) (\<lambda>callsite_id.
     rbind (rbind (wire_string f ''target_key'') (known_id b)) (\<lambda>target_id.
     rbind (rbind (wire_string f ''certainty'')
              (enum_parse call_target_certainty_members call_target_certainty_value)) (\<lambda>certain.
     rbind (wire_number f ''confidence'') (\<lambda>confidence.
     rbind (span_field E f ''evidence_span'') (\<lambda>evidence.
     rbind (wire_string f ''derivation'') (\<lambda>derivation.
     rbind (wire_string f ''confidence_reason'') (\<lambda>reason.
       post_init_call_target
         \<lparr>fact_id = hash_id E ''call_target_'' [variant_name E, configuration_id E, unit_id E, callsite_id,
              target_id, call_target_certainty_value certain, derivation],
          translation_unit_id = unit_id E, build_configuration_id = configuration_id E,
          build_variant = variant_name E, ct_callsite_id = callsite_id, ct_target_symbol_id = target_id,
          ct_certainty = certain, ct_confidence = confidence, ct_confidence_reason = reason,
          ct_derivation = derivation, ct_evidence_span = evidence\<rparr>)))))))"

definition call_facts ::
    "builder_env \<Rightarrow> wire_fact list \<Rightarrow> builder \<Rightarrow> (builder \<times> call_site list \<times> call_target list) result" where
  "call_facts E facts b =
     (let ids = b_wire_identities b in
      rbind (map_facts E ids facts ''callsite_v1'' Inr) (\<lambda>site_facts.
      rbind (rfold (callsite_identity E) site_facts b) (\<lambda>b1.
      rbind (rmap (\<lambda>f. rbind (wire_string f ''key'') (\<lambda>k. rmap_result (Pair k) (callsite_fact E b1 f)))
               site_facts) (\<lambda>pairs.
      rbind (each_fact E ids facts ''callsite_resolution_v1'' resolve_callsite (dict_of pairs)) (\<lambda>sites.
      rbind (map_facts E ids facts ''call_target_v1'' (call_target_fact E b1)) (\<lambda>targets.
        Inr (b1, sort_key fact_id (map snd sites),
             sort_key (\<lambda>t. (ct_callsite_id t, ct_target_symbol_id t, fact_id t)) targets)))))))"

section \<open>Control-flow graphs\<close>

definition known_cfg_graph :: "builder \<Rightarrow> string \<Rightarrow> string result" where
  "known_cfg_graph b = known ''analyzer CFG fact references an unknown graph'' (b_cfg_graph_ids b)"

definition known_cfg_block :: "builder \<Rightarrow> string \<Rightarrow> string result" where
  "known_cfg_block b = known ''analyzer CFG fact references an unknown block'' (b_cfg_block_ids b)"

definition known_cfg_element :: "builder \<Rightarrow> string \<Rightarrow> string result" where
  "known_cfg_element b =
     known ''analyzer data-flow fact references an unknown CFG element'' (b_cfg_element_ids b)"

definition cfg_inconsistent :: "'a result" where
  "cfg_inconsistent = Inl (AnalyzerProtocolError ''analyzer CFG facts have inconsistent graph references'')"

definition register_graph :: "builder_env \<Rightarrow> wire_fact \<Rightarrow> builder \<Rightarrow> builder result" where
  "register_graph E f b =
     rbind (wire_string f ''key'') (\<lambda>key.
     rbind (rbind (wire_string f ''function_key'') (known_id b)) (\<lambda>function_id.
       Inr (b\<lparr>b_cfg_graph_function_ids := AList.update key function_id (b_cfg_graph_function_ids b),
              b_cfg_graph_ids := AList.update key
                (hash_id E ''cfg_'' [variant_name E, configuration_id E, unit_id E, function_id])
                (b_cfg_graph_ids b)\<rparr>)))"

definition register_block :: "builder_env \<Rightarrow> wire_fact \<Rightarrow> builder \<Rightarrow> builder result" where
  "register_block E f b =
     rbind (rbind (wire_string f ''graph_key'') (known_cfg_graph b)) (\<lambda>graph_id.
     rbind (wire_non_negative_integer f ''index'') (\<lambda>index.
     rbind (wire_string f ''key'') (\<lambda>key.
       Inr (b\<lparr>b_cfg_block_graph_ids := AList.update key graph_id (b_cfg_block_graph_ids b),
              b_cfg_block_ids := AList.update key
                (hash_id E ''cfg_block_'' [graph_id, str_int index]) (b_cfg_block_ids b)\<rparr>))))"

definition register_element :: "builder_env \<Rightarrow> wire_fact \<Rightarrow> builder \<times> bool \<Rightarrow> (builder \<times> bool) result" where
  "register_element E f s =
     (let (b, mismatch) = s in
      rbind (rbind (wire_string f ''graph_key'') (known_cfg_graph b)) (\<lambda>graph_id.
      rbind (wire_string f ''block_key'') (\<lambda>block_key.
      rbind (known_cfg_block b block_key) (\<lambda>block_id.
      rbind (wire_non_negative_integer f ''index'') (\<lambda>index.
      rbind (wire_string f ''key'') (\<lambda>key.
        Inr (b\<lparr>b_cfg_element_ids := AList.update key
                 (hash_id E ''cfg_element_'' [graph_id, block_id, str_int index]) (b_cfg_element_ids b),
               b_cfg_element_graph_ids := AList.update key graph_id (b_cfg_element_graph_ids b)\<rparr>,
             mismatch \<or> map_of (b_cfg_block_graph_ids b) block_key \<noteq> Some graph_id)))))))"

definition check_graph_endpoints :: "builder \<Rightarrow> wire_fact \<Rightarrow> unit result" where
  "check_graph_endpoints b f =
     rbind (rbind (wire_string f ''key'') (known_cfg_graph b)) (\<lambda>graph_id.
     rbind (wire_string f ''entry_block_key'') (\<lambda>entry.
     rbind (wire_string f ''normal_exit_block_key'') (\<lambda>normal_exit.
     rbind (case json_get f ''exceptional_exit_block_key'' of
              JNull \<Rightarrow> Inr []
            | JStr k \<Rightarrow> if k = [] then Inl (AnalyzerProtocolError ''analyzer CFG exceptional exit key is invalid'')
                        else Inr [k]
            | _ \<Rightarrow> Inl (AnalyzerProtocolError ''analyzer CFG exceptional exit key is invalid'')) (\<lambda>exceptional.
       if list_ex (\<lambda>k. map_of (b_cfg_block_graph_ids b) k \<noteq> Some graph_id) ([entry, normal_exit] @ exceptional)
       then cfg_inconsistent else Inr ()))))"

definition check_edge_endpoints :: "builder \<Rightarrow> wire_fact \<Rightarrow> unit result" where
  "check_edge_endpoints b f =
     rbind (rbind (wire_string f ''graph_key'') (known_cfg_graph b)) (\<lambda>graph_id.
     rbind (wire_string f ''source_block_key'') (\<lambda>source.
     if map_of (b_cfg_block_graph_ids b) source \<noteq> Some graph_id then cfg_inconsistent
     else rbind (wire_string f ''target_block_key'') (\<lambda>target.
       if map_of (b_cfg_block_graph_ids b) target \<noteq> Some graph_id then cfg_inconsistent else Inr ())))"

definition cfg_graph_fact :: "builder_env \<Rightarrow> builder \<Rightarrow> wire_fact \<Rightarrow> cfg_graph result" where
  "cfg_graph_fact E b f =
     rbind (rbind (wire_string f ''key'') (known_cfg_graph b)) (\<lambda>graph_id.
     rbind (wire_integer f ''fact_schema_version'') (\<lambda>schema_version.
     rbind (wire_integer f ''clang_major'') (\<lambda>clang_major.
     if schema_version \<noteq> 1 \<or> clang_major \<noteq> 18
     then Inl (AnalyzerProtocolError ''analyzer returned an unsupported CFG fact schema'')
     else rbind (wire_mapping f ''build_options'') (\<lambda>options.
     rbind (nullable_string ''analyzer CFG exceptional exit key is invalid'' f ''exceptional_exit_block_key'') (\<lambda>exceptional.
     rbind (rbind (wire_string f ''function_key'') (known_id b)) (\<lambda>function_id.
     rbind (rbind (wire_string f ''entry_block_key'') (known_cfg_block b)) (\<lambda>entry.
     rbind (rbind (wire_string f ''normal_exit_block_key'') (known_cfg_block b)) (\<lambda>normal_exit.
     rbind (when_key (known_cfg_block b) exceptional) (\<lambda>exceptional_exit.
       post_init_cfg_graph
         \<lparr>fact_id = graph_id, translation_unit_id = unit_id E, build_configuration_id = configuration_id E,
          build_variant = variant_name E, cg_function_symbol_id = function_id, cg_entry_block_id = entry,
          cg_normal_exit_block_id = normal_exit, cg_exceptional_exit_block_id = exceptional_exit,
          cg_clang_major = clang_major, cg_fact_schema_version = schema_version,
          cg_build_options = options\<rparr>)))))))))"

definition cfg_block_fact :: "builder_env \<Rightarrow> builder \<Rightarrow> wire_fact \<Rightarrow> cfg_block result" where
  "cfg_block_fact E b f =
     rbind (rbind (wire_string f ''key'') (known_cfg_block b)) (\<lambda>block_id.
     rbind (rbind (wire_string f ''graph_key'') (known_cfg_graph b)) (\<lambda>graph_id.
     rbind (wire_non_negative_integer f ''index'') (\<lambda>index.
     rbind (rbind (wire_string f ''role'') (enum_parse cfg_block_role_members cfg_block_role_value)) (\<lambda>role.
     rbind (wire_boolean f ''reachable'') (\<lambda>reachable.
     rbind (wire_optional_string f ''terminator_kind'') (\<lambda>terminator_kind.
     rbind (wire_optional_string f ''terminator_text'') (\<lambda>terminator_text.
     rbind (optional_span E f ''terminator_spelling_span'') (\<lambda>spelling.
     rbind (optional_span E f ''terminator_expansion_span'') (\<lambda>expansion.
     rbind (wire_optional_string f ''label_kind'') (\<lambda>label_kind.
     rbind (wire_optional_string f ''label_text'') (\<lambda>label_text.
       post_init_cfg_block
         \<lparr>fact_id = block_id, translation_unit_id = unit_id E, build_configuration_id = configuration_id E,
          build_variant = variant_name E, cb_graph_id = graph_id, cb_index = index, cb_role = role,
          cb_reachable = reachable, cb_terminator_kind = terminator_kind,
          cb_terminator_text = terminator_text, cb_terminator_spelling_span = spelling,
          cb_terminator_expansion_span = expansion, cb_label_kind = label_kind,
          cb_label_text = label_text\<rparr>)))))))))))"

definition cfg_element_fact :: "builder_env \<Rightarrow> builder \<Rightarrow> wire_fact \<Rightarrow> cfg_element result" where
  "cfg_element_fact E b f =
     rbind (rbind (wire_string f ''graph_key'') (known_cfg_graph b)) (\<lambda>graph_id.
     rbind (rbind (wire_string f ''block_key'') (known_cfg_block b)) (\<lambda>block_id.
     rbind (wire_non_negative_integer f ''index'') (\<lambda>index.
     rbind (wire_mapping f ''metadata'') (\<lambda>metadata.
     rbind (rbind (wire_string f ''key'') (known_cfg_element b)) (\<lambda>element_id.
     rbind (wire_string f ''kind'') (\<lambda>kind.
     rbind (wire_optional_string f ''statement_class'') (\<lambda>statement_class.
     rbind (wire_optional_string f ''text'') (\<lambda>text_field.
     rbind (optional_span E f ''spelling_span'') (\<lambda>spelling.
     rbind (optional_span E f ''expansion_span'') (\<lambda>expansion.
       post_init_cfg_element
         \<lparr>fact_id = element_id, translation_unit_id = unit_id E, build_configuration_id = configuration_id E,
          build_variant = variant_name E, ce_graph_id = graph_id, ce_block_id = block_id, ce_index = index,
          ce_kind = kind, ce_statement_class = statement_class, ce_text = text_field,
          ce_spelling_span = spelling, ce_expansion_span = expansion, ce_metadata = metadata\<rparr>))))))))))"

definition cfg_edge_fact :: "builder_env \<Rightarrow> builder \<Rightarrow> wire_fact \<Rightarrow> cfg_edge result" where
  "cfg_edge_fact E b f =
     rbind (rbind (wire_string f ''graph_key'') (known_cfg_graph b)) (\<lambda>graph_id.
     rbind (rbind (wire_string f ''source_block_key'') (known_cfg_block b)) (\<lambda>source_id.
     rbind (rbind (wire_string f ''target_block_key'') (known_cfg_block b)) (\<lambda>target_id.
     rbind (wire_non_negative_integer f ''successor_index'') (\<lambda>successor_index.
     rbind (rbind (wire_string f ''kind'') (enum_parse cfg_edge_kind_members cfg_edge_kind_value)) (\<lambda>kind.
     rbind (wire_boolean f ''feasible'') (\<lambda>feasible.
       post_init_cfg_edge
         \<lparr>fact_id = hash_id E ''cfg_edge_'' [graph_id, source_id, target_id, str_int successor_index,
              cfg_edge_kind_value kind, (if feasible then ''True'' else ''False'')],
          translation_unit_id = unit_id E, build_configuration_id = configuration_id E,
          build_variant = variant_name E, cd_graph_id = graph_id, cd_source_block_id = source_id,
          cd_target_block_id = target_id, cd_kind = kind, cd_successor_index = successor_index,
          cd_feasible = feasible\<rparr>))))))"

record cfg_batch =
  cfg_graphs :: "cfg_graph list"
  cfg_blocks :: "cfg_block list"
  cfg_elements :: "cfg_element list"
  cfg_edges :: "cfg_edge list"

definition sort_edges :: "cfg_edge list \<Rightarrow> cfg_edge list" where
  "sort_edges = sort_key (\<lambda>e. (cd_graph_id e, cd_source_block_id e, cd_successor_index e,
     cd_target_block_id e, cfg_edge_kind_value (cd_kind e), fact_id e))"

definition cfg_facts :: "builder_env \<Rightarrow> wire_fact list \<Rightarrow> builder \<Rightarrow> (builder \<times> cfg_batch) result" where
  "cfg_facts E facts b =
     (let ids = b_wire_identities b in
      rbind (map_facts E ids facts ''cfg_graph_v1'' Inr) (\<lambda>graph_facts.
      rbind (map_facts E ids facts ''cfg_block_v1'' Inr) (\<lambda>block_facts.
      rbind (rfold (register_graph E) graph_facts b) (\<lambda>b1.
      rbind (rfold (register_block E) block_facts b1) (\<lambda>b2.
      rbind (each_fact E ids facts ''cfg_element_v1'' (register_element E) (b2, False)) (\<lambda>(b3, mismatch).
      rbind (rmap (check_graph_endpoints b3) graph_facts) (\<lambda>_.
      if mismatch then cfg_inconsistent
      else rbind (map_facts E ids facts ''cfg_edge_v1'' (check_edge_endpoints b3)) (\<lambda>_.
      rbind (rmap (cfg_graph_fact E b3) graph_facts) (\<lambda>graphs.
      rbind (rmap (cfg_block_fact E b3) block_facts) (\<lambda>blocks.
      rbind (map_facts E ids facts ''cfg_element_v1'' (cfg_element_fact E b3)) (\<lambda>elements.
      rbind (map_facts E ids facts ''cfg_edge_v1'' (cfg_edge_fact E b3)) (\<lambda>edges.
        Inr (b3, \<lparr>cfg_graphs = sort_key fact_id graphs,
                  cfg_blocks = sort_key (\<lambda>x. (cb_graph_id x, cb_index x, fact_id x)) blocks,
                  cfg_elements = sort_key (\<lambda>x. (ce_graph_id x, ce_block_id x, ce_index x, fact_id x)) elements,
                  cfg_edges = sort_edges edges\<rparr>)))))))))))))"
section \<open>No relation crosses graphs\<close>

lemmas builder_known = known_cfg_graph_def known_cfg_block_def known_cfg_element_def known_id_def
  known_callsite_def

lemma rmap_in_result: "rmap g xs = Inr ys \<Longrightarrow> x \<in> set xs \<Longrightarrow> \<exists>y \<in> set ys. g x = Inr y"
  by (induction xs arbitrary: ys) (auto simp: rbind_eq_Inr)

lemma map_facts_set:
  assumes "map_facts E ids facts kind g = Inr ys"
  shows "y \<in> set ys \<Longrightarrow> \<exists>f r. f \<in> set (of_kind kind facts) \<and> restore_wire_fact E ids f = Inr r \<and> g r = Inr y"
    and "f \<in> set (of_kind kind facts) \<Longrightarrow> restore_wire_fact E ids f = Inr r \<Longrightarrow> \<exists>y \<in> set ys. g r = Inr y"
proof -
  have run: "rmap (\<lambda>f. rbind (restore_wire_fact E ids f) g) (of_kind kind facts) = Inr ys"
    using assms by (simp add: map_facts_def)
  show "y \<in> set ys \<Longrightarrow> \<exists>f r. f \<in> set (of_kind kind facts) \<and> restore_wire_fact E ids f = Inr r \<and> g r = Inr y"
    using rmap_in_set [OF run] unfolding rbind_eq_Inr by blast
  show "f \<in> set (of_kind kind facts) \<Longrightarrow> restore_wire_fact E ids f = Inr r \<Longrightarrow> \<exists>y \<in> set ys. g r = Inr y"
    using rmap_in_result [OF run, of f] by simp
qed

lemma register_block_Inr:
  assumes "register_block E f b = Inr b'"
  obtains key gk g block_id where "wire_string f ''key'' = Inr key" "wire_string f ''graph_key'' = Inr gk"
    "map_of (b_cfg_graph_ids b) gk = Some g"
    "b' = b\<lparr>b_cfg_block_graph_ids := AList.update key g (b_cfg_block_graph_ids b),
            b_cfg_block_ids := AList.update key block_id (b_cfg_block_ids b)\<rparr>"
  using assms by (auto simp: register_block_def rbind_eq_Inr builder_known)

lemma register_element_Inr:
  assumes "register_element E f (b, m) = Inr (b', m')"
  obtains gk g bk where "wire_string f ''graph_key'' = Inr gk"
    "map_of (b_cfg_graph_ids b) gk = Some g" "wire_string f ''block_key'' = Inr bk"
    "\<not> m' \<longrightarrow> \<not> m \<and> map_of (b_cfg_block_graph_ids b) bk = Some g"
    "b_cfg_graph_ids b' = b_cfg_graph_ids b" "b_cfg_block_ids b' = b_cfg_block_ids b"
    "b_cfg_block_graph_ids b' = b_cfg_block_graph_ids b" "b_keys b' = b_keys b"
  using assms
  by (simp add: register_element_def rbind_eq_Inr builder_known)
    (elim exE conjE, rule that, assumption, assumption, assumption, auto)

text \<open>Where a block's graph comes from: the last block fact with its key.\<close>

definition block_origin :: "wire_fact list \<Rightarrow> builder \<Rightarrow> bool" where
  "block_origin fs b \<longleftrightarrow> (\<forall>k g. map_of (b_cfg_block_graph_ids b) k = Some g \<longrightarrow>
     (\<exists>f \<in> set fs. \<exists>gk. wire_string f ''key'' = Inr k \<and> wire_string f ''graph_key'' = Inr gk \<and>
        map_of (b_cfg_graph_ids b) gk = Some g))"

lemma register_blocks_origin:
  assumes "rfold (register_block E) fs b = Inr b'" and "b_cfg_block_graph_ids b = []"
  shows "block_origin fs b'"
proof -
  have "b_cfg_graph_ids b' = b_cfg_graph_ids b \<and> (\<forall>k g. map_of (b_cfg_block_graph_ids b') k = Some g \<longrightarrow>
      (\<exists>f \<in> set ([] @ fs). wire_string f ''key'' = Inr k \<and>
         (\<exists>gk. wire_string f ''graph_key'' = Inr gk \<and> map_of (b_cfg_graph_ids b) gk = Some g)))"
    by (rule rfold_registers [OF assms(1), where P = "\<lambda>s. b_cfg_graph_ids s = b_cfg_graph_ids b"])
      (auto simp: assms(2) elim!: register_block_Inr)
  then show ?thesis unfolding block_origin_def by fastforce
qed

lemma register_elements_frame:
  assumes "rfold (\<lambda>f s. rbind (restore_wire_fact E ids f) (\<lambda>r. register_element E r s)) fs (b, m) = Inr (b', m')"
  shows "b_cfg_graph_ids b' = b_cfg_graph_ids b \<and> b_cfg_block_ids b' = b_cfg_block_ids b \<and>
    b_cfg_block_graph_ids b' = b_cfg_block_graph_ids b \<and> b_keys b' = b_keys b \<and>
    (m' = False \<longrightarrow> m = False \<and> (\<forall>f \<in> set fs. \<exists>r gk g bk. restore_wire_fact E ids f = Inr r \<and>
       wire_string r ''graph_key'' = Inr gk \<and> map_of (b_cfg_graph_ids b) gk = Some g \<and>
       wire_string r ''block_key'' = Inr bk \<and> map_of (b_cfg_block_graph_ids b) bk = Some g))"
  using assms
proof (induction fs arbitrary: b m)
  case (Cons f fs)
  from Cons.prems obtain r b1 m1 where r: "restore_wire_fact E ids f = Inr r"
    "register_element E r (b, m) = Inr (b1, m1)"
    and rest: "rfold (\<lambda>f s. rbind (restore_wire_fact E ids f) (\<lambda>r. register_element E r s)) fs (b1, m1) = Inr (b', m')"
    by (auto simp: rbind_eq_Inr)
  from r(2) obtain gk g bk where e:
    "wire_string r ''graph_key'' = Inr gk"
    "map_of (b_cfg_graph_ids b) gk = Some g" "wire_string r ''block_key'' = Inr bk"
    "\<not> m1 \<longrightarrow> \<not> m \<and> map_of (b_cfg_block_graph_ids b) bk = Some g" and
    same: "b_cfg_graph_ids b1 = b_cfg_graph_ids b" "b_cfg_block_ids b1 = b_cfg_block_ids b"
    "b_cfg_block_graph_ids b1 = b_cfg_block_graph_ids b" "b_keys b1 = b_keys b"
    by (rule register_element_Inr)
  note ih = Cons.IH [OF rest, unfolded same]
  show ?case using ih e(1-4) r(1) by auto
qed simp

lemma cfg_edge_fact_Inr:
  assumes "cfg_edge_fact E b f = Inr e"
  obtains gk sk tk where "wire_string f ''graph_key'' = Inr gk" "map_of (b_cfg_graph_ids b) gk = Some (cd_graph_id e)"
    "wire_string f ''source_block_key'' = Inr sk" "map_of (b_cfg_block_ids b) sk = Some (cd_source_block_id e)"
    "wire_string f ''target_block_key'' = Inr tk" "map_of (b_cfg_block_ids b) tk = Some (cd_target_block_id e)"
  using assms by (auto simp: cfg_edge_fact_def rbind_eq_Inr builder_known post_init_cfg_edge_def split: if_split_asm)

lemma check_edge_endpoints_Inr:
  assumes "check_edge_endpoints b f = Inr u" and "wire_string f ''graph_key'' = Inr gk"
    and "map_of (b_cfg_graph_ids b) gk = Some g"
    and "wire_string f ''source_block_key'' = Inr sk" and "wire_string f ''target_block_key'' = Inr tk"
  shows "map_of (b_cfg_block_graph_ids b) sk = Some g \<and> map_of (b_cfg_block_graph_ids b) tk = Some g"
proof -
  have "known_cfg_graph b gk = Inr g" using assms(3) by (simp add: builder_known)
  then show ?thesis using assms(1,2,4,5)
    by (auto simp: check_edge_endpoints_def cfg_inconsistent_def split: if_split_asm)
qed

lemma cfg_element_fact_Inr:
  assumes "cfg_element_fact E b f = Inr x"
  obtains gk bk where "wire_string f ''graph_key'' = Inr gk" "map_of (b_cfg_graph_ids b) gk = Some (ce_graph_id x)"
    "wire_string f ''block_key'' = Inr bk" "map_of (b_cfg_block_ids b) bk = Some (ce_block_id x)"
  using assms
  by (auto simp: cfg_element_fact_def rbind_eq_Inr builder_known post_init_cfg_element_def split: if_split_asm)

lemma cfg_block_fact_eq:
  assumes "cfg_block_fact E b f = Inr x" and "wire_string f ''key'' = Inr k" and "wire_string f ''graph_key'' = Inr gk"
  shows "map_of (b_cfg_block_ids b) k = Some (fact_id x)" and "map_of (b_cfg_graph_ids b) gk = Some (cb_graph_id x)"
  using assms
  by (auto simp: cfg_block_fact_def rbind_eq_Inr builder_known post_init_cfg_block_def split: if_split_asm)

lemma cfg_graph_fact_Inr:
  assumes "cfg_graph_fact E b f = Inr x"
  obtains k ek nk where "wire_string f ''key'' = Inr k" "map_of (b_cfg_graph_ids b) k = Some (fact_id x)"
    "wire_string f ''entry_block_key'' = Inr ek" "map_of (b_cfg_block_ids b) ek = Some (cg_entry_block_id x)"
    "wire_string f ''normal_exit_block_key'' = Inr nk" "map_of (b_cfg_block_ids b) nk = Some (cg_normal_exit_block_id x)"
  using assms
  by (auto simp: cfg_graph_fact_def rbind_eq_Inr builder_known post_init_cfg_graph_def split: if_split_asm)

lemma cfg_graph_fact_exceptional:
  assumes "cfg_graph_fact E b f = Inr x" and "cg_exceptional_exit_block_id x = Some block_id"
  shows "\<exists>xk. json_get f ''exceptional_exit_block_key'' = JStr xk \<and> map_of (b_cfg_block_ids b) xk = Some block_id"
proof -
  have key: "\<exists>xk. json_get f ''exceptional_exit_block_key'' = JStr xk \<and> map_of (b_cfg_block_ids b) xk = Some id"
    if "nullable_string m f ''exceptional_exit_block_key'' = Inr k" "when_key (known_cfg_block b) k = Inr (Some id)" for m k id
    using that by (auto simp: nullable_string_def when_key_Inr truthy_def builder_known split: if_split_asm json.splits)
  from assms obtain m k where "nullable_string m f ''exceptional_exit_block_key'' = Inr k"
    "when_key (known_cfg_block b) k = Inr (Some block_id)"
    unfolding cfg_graph_fact_def rbind_eq_Inr
    by (auto simp: rbind_eq_Inr post_init_cfg_graph_def split: if_split_asm)
  then show ?thesis by (rule key)
qed

lemma check_graph_endpoints_Inr:
  assumes "check_graph_endpoints b f = Inr u" and "wire_string f ''key'' = Inr k"
    and "map_of (b_cfg_graph_ids b) k = Some g"
  shows "wire_string f ''entry_block_key'' = Inr ek \<Longrightarrow> map_of (b_cfg_block_graph_ids b) ek = Some g"
    and "wire_string f ''normal_exit_block_key'' = Inr nk \<Longrightarrow> map_of (b_cfg_block_graph_ids b) nk = Some g"
    and "json_get f ''exceptional_exit_block_key'' = JStr xk \<Longrightarrow> map_of (b_cfg_block_graph_ids b) xk = Some g"
proof -
  have g: "known_cfg_graph b k = Inr g" using assms(3) by (simp add: builder_known)
  show "wire_string f ''entry_block_key'' = Inr ek \<Longrightarrow> map_of (b_cfg_block_graph_ids b) ek = Some g"
    "wire_string f ''normal_exit_block_key'' = Inr nk \<Longrightarrow> map_of (b_cfg_block_graph_ids b) nk = Some g"
    "json_get f ''exceptional_exit_block_key'' = JStr xk \<Longrightarrow> map_of (b_cfg_block_graph_ids b) xk = Some g"
    using assms(1,2) g
    by (auto simp: check_graph_endpoints_def cfg_inconsistent_def rbind_eq_Inr split: if_split_asm json.splits)
qed

definition block_in :: "cfg_batch \<Rightarrow> string \<Rightarrow> string \<Rightarrow> bool" where
  "block_in batch graph_id block_id \<longleftrightarrow>
     (\<exists>x \<in> set (cfg_blocks batch). fact_id x = block_id \<and> cb_graph_id x = graph_id)"

definition cfg_consistent :: "cfg_batch \<Rightarrow> bool" where
  "cfg_consistent batch \<longleftrightarrow>
     (\<forall>g \<in> set (cfg_graphs batch). block_in batch (fact_id g) (cg_entry_block_id g) \<and>
        block_in batch (fact_id g) (cg_normal_exit_block_id g) \<and>
        (\<forall>x. cg_exceptional_exit_block_id g = Some x \<longrightarrow> block_in batch (fact_id g) x)) \<and>
     (\<forall>x \<in> set (cfg_elements batch). block_in batch (ce_graph_id x) (ce_block_id x)) \<and>
     (\<forall>e \<in> set (cfg_edges batch). block_in batch (cd_graph_id e) (cd_source_block_id e) \<and>
        block_in batch (cd_graph_id e) (cd_target_block_id e))"

lemma cfg_facts_stages:
  assumes "cfg_facts E facts b = Inr (b3, batch)"
  obtains gfs bfs b1 b2 us graphs blocks elements edges unit_checks where
    "map_facts E (b_wire_identities b) facts ''cfg_block_v1'' Inr = Inr bfs"
    "rfold (register_graph E) gfs b = Inr b1" "rfold (register_block E) bfs b1 = Inr b2"
    "each_fact E (b_wire_identities b) facts ''cfg_element_v1'' (register_element E) (b2, False) = Inr (b3, False)"
    "rmap (check_graph_endpoints b3) gfs = Inr us"
    "map_facts E (b_wire_identities b) facts ''cfg_edge_v1'' (check_edge_endpoints b3) = Inr unit_checks"
    "rmap (cfg_graph_fact E b3) gfs = Inr graphs" "rmap (cfg_block_fact E b3) bfs = Inr blocks"
    "map_facts E (b_wire_identities b) facts ''cfg_element_v1'' (cfg_element_fact E b3) = Inr elements"
    "map_facts E (b_wire_identities b) facts ''cfg_edge_v1'' (cfg_edge_fact E b3) = Inr edges"
    "set (cfg_graphs batch) = set graphs" "set (cfg_blocks batch) = set blocks"
    "set (cfg_elements batch) = set elements" "set (cfg_edges batch) = set edges"
  using assms unfolding cfg_facts_def Let_def
  by (auto simp: rbind_eq_Inr cfg_inconsistent_def sort_edges_def split: if_split_asm intro: that)


lemma cfg_facts_blocks:
  assumes "map_of (b_cfg_block_graph_ids b2) k = Some g" and "block_origin bfs b2"
    and "rmap (cfg_block_fact E b3) bfs = Inr blocks" and "set (cfg_blocks batch) = set blocks"
    and "b_cfg_graph_ids b3 = b_cfg_graph_ids b2" and "map_of (b_cfg_block_ids b3) k = Some block_id"
  shows "block_in batch g block_id"
proof -
  from assms(1,2) obtain f gk where f: "f \<in> set bfs" "wire_string f ''key'' = Inr k"
    "wire_string f ''graph_key'' = Inr gk" "map_of (b_cfg_graph_ids b2) gk = Some g"
    unfolding block_origin_def by blast
  obtain x where x: "x \<in> set blocks" "cfg_block_fact E b3 f = Inr x"
    using rmap_in_result [OF assms(3) f(1)] by blast
  have "fact_id x = block_id" "cb_graph_id x = g"
    using cfg_block_fact_eq [OF x(2) f(2,3)] assms(5,6) f(4) by simp_all
  with x(1) show ?thesis unfolding block_in_def assms(4) by blast
qed

text \<open>
  Property C6.  No control-flow relation crosses graphs, whatever the companion sends: when
  \<open>_cfg_facts\<close> returns, the endpoints of every edge, the block of every element and the entry and
  exits of every graph are blocks of the batch that belong to the same graph.
\<close>

theorem cfg_facts_consistent:
  assumes "cfg_facts E facts b = Inr (b', batch)" and "b_cfg_block_graph_ids b = []"
  shows "cfg_consistent batch"
  using assms(1)
proof (rule cfg_facts_stages)
  fix gfs bfs b1 b2 us graphs blocks elements edges unit_checks
  let ?ids = "b_wire_identities b"
  assume reg: "rfold (register_graph E) gfs b = Inr b1" "rfold (register_block E) bfs b1 = Inr b2"
    and elements_run: "each_fact E ?ids facts ''cfg_element_v1'' (register_element E) (b2, False) = Inr (b', False)"
    and graph_checks: "rmap (check_graph_endpoints b') gfs = Inr us"
    and edge_checks: "map_facts E ?ids facts ''cfg_edge_v1'' (check_edge_endpoints b') = Inr unit_checks"
    and graphs: "rmap (cfg_graph_fact E b') gfs = Inr graphs" and blocks: "rmap (cfg_block_fact E b') bfs = Inr blocks"
    and elements: "map_facts E ?ids facts ''cfg_element_v1'' (cfg_element_fact E b') = Inr elements"
    and edges: "map_facts E ?ids facts ''cfg_edge_v1'' (cfg_edge_fact E b') = Inr edges"
    and batch: "set (cfg_graphs batch) = set graphs" "set (cfg_blocks batch) = set blocks"
      "set (cfg_elements batch) = set elements" "set (cfg_edges batch) = set edges"
  have "b_cfg_block_graph_ids b1 = b_cfg_block_graph_ids b"
    by (rule rfold_preserves [OF reg(1), of "\<lambda>s. b_cfg_block_graph_ids s = b_cfg_block_graph_ids b"])
      (auto simp: register_graph_def rbind_eq_Inr)
  then have origin: "block_origin bfs b2" using register_blocks_origin [OF reg(2)] assms(2) by simp
  note frame = register_elements_frame [OF elements_run [unfolded each_fact_def]]
  have same: "b_cfg_graph_ids b' = b_cfg_graph_ids b2" "b_cfg_block_graph_ids b' = b_cfg_block_graph_ids b2"
    using frame by simp_all
  have block: "block_in batch g block_id"
    if "map_of (b_cfg_block_graph_ids b') k = Some g" "map_of (b_cfg_block_ids b') k = Some block_id" for k g block_id
    using cfg_facts_blocks [OF _ origin blocks batch(2) same(1) that(2)] that(1) same(2) by simp
  show ?thesis
    unfolding cfg_consistent_def batch
  proof (intro conjI ballI)
    fix g assume "g \<in> set graphs"
    then obtain f where f: "f \<in> set gfs" "cfg_graph_fact E b' f = Inr g" using rmap_in_set [OF graphs] by blast
    obtain u where check: "check_graph_endpoints b' f = Inr u" using rmap_in_result [OF graph_checks f(1)] by blast
    from f(2) obtain k ek nk where k: "wire_string f ''key'' = Inr k" "map_of (b_cfg_graph_ids b') k = Some (fact_id g)"
      "wire_string f ''entry_block_key'' = Inr ek" "map_of (b_cfg_block_ids b') ek = Some (cg_entry_block_id g)"
      "wire_string f ''normal_exit_block_key'' = Inr nk" "map_of (b_cfg_block_ids b') nk = Some (cg_normal_exit_block_id g)"
      by (rule cfg_graph_fact_Inr)
    note ends = check_graph_endpoints_Inr [OF check k(1,2)]
    show "block_in batch (fact_id g) (cg_entry_block_id g)" by (rule block [OF ends(1) [OF k(3)] k(4)])
    show "block_in batch (fact_id g) (cg_normal_exit_block_id g)" by (rule block [OF ends(2) [OF k(5)] k(6)])
    show "\<forall>x. cg_exceptional_exit_block_id g = Some x \<longrightarrow> block_in batch (fact_id g) x"
      using cfg_graph_fact_exceptional [OF f(2)] ends(3) block by blast
  next
    fix x assume "x \<in> set elements"
    then obtain f r where f: "f \<in> set (of_kind ''cfg_element_v1'' facts)" "restore_wire_fact E ?ids f = Inr r"
      "cfg_element_fact E b' r = Inr x" using map_facts_set(1) [OF elements] by blast
    from f(3) obtain gk bk where g: "wire_string r ''graph_key'' = Inr gk"
      "map_of (b_cfg_graph_ids b') gk = Some (ce_graph_id x)" "wire_string r ''block_key'' = Inr bk"
      "map_of (b_cfg_block_ids b') bk = Some (ce_block_id x)" by (rule cfg_element_fact_Inr)
    have "map_of (b_cfg_block_graph_ids b') bk = Some (ce_graph_id x)" using frame f(1,2) g by fastforce
    then show "block_in batch (ce_graph_id x) (ce_block_id x)" by (rule block [OF _ g(4)])
  next
    fix e assume "e \<in> set edges"
    then obtain f r where f: "f \<in> set (of_kind ''cfg_edge_v1'' facts)" "restore_wire_fact E ?ids f = Inr r"
      "cfg_edge_fact E b' r = Inr e" using map_facts_set(1) [OF edges] by blast
    obtain u where check: "check_edge_endpoints b' r = Inr u" using map_facts_set(2) [OF edge_checks f(1,2)] by blast
    from f(3) obtain gk sk tk where g: "wire_string r ''graph_key'' = Inr gk"
      "map_of (b_cfg_graph_ids b') gk = Some (cd_graph_id e)"
      "wire_string r ''source_block_key'' = Inr sk" "map_of (b_cfg_block_ids b') sk = Some (cd_source_block_id e)"
      "wire_string r ''target_block_key'' = Inr tk" "map_of (b_cfg_block_ids b') tk = Some (cd_target_block_id e)"
      by (rule cfg_edge_fact_Inr)
    note ends = check_edge_endpoints_Inr [OF check g(1,2,3,5)]
    show "block_in batch (cd_graph_id e) (cd_source_block_id e)" "block_in batch (cd_graph_id e) (cd_target_block_id e)"
      using block g(4,6) ends by blast+
  qed
qed

definition sample_builder :: builder where
  "sample_builder = empty_builder\<lparr>b_keys := [(''f'', ''sym_f'')]\<rparr>"

definition sample_block :: "string \<Rightarrow> int \<Rightarrow> string \<Rightarrow> wire_fact" where
  "sample_block key index role =
     [(''fact'', JStr ''cfg_block_v1''), (''key'', JStr key), (''graph_key'', JStr ''G''), (''index'', JInt index),
      (''role'', JStr role), (''reachable'', JBool True)]"

definition sample_cfg :: "wire_fact list" where
  "sample_cfg =
     [[(''fact'', JStr ''cfg_graph_v1''), (''key'', JStr ''G''), (''function_key'', JStr ''f''),
       (''entry_block_key'', JStr ''B0''), (''normal_exit_block_key'', JStr ''B1''),
       (''fact_schema_version'', JInt 1), (''clang_major'', JInt 18), (''build_options'', JObj [])],
      sample_block ''B0'' 0 ''entry'', sample_block ''B1'' 1 ''normal_exit'',
      [(''fact'', JStr ''cfg_edge_v1''), (''graph_key'', JStr ''G''), (''source_block_key'', JStr ''B0''),
       (''target_block_key'', JStr ''B1''), (''successor_index'', JInt 0), (''kind'', JStr ''fallthrough''),
       (''feasible'', JBool True)]]"

theorem cfg_facts_consistent_witness:
  "\<exists>b' batch. cfg_facts sample_env sample_cfg sample_builder = Inr (b', batch) \<and>
     length (cfg_edges batch) = 1 \<and> cfg_consistent batch"
proof -
  have "case cfg_facts sample_env sample_cfg sample_builder of
      Inr (b', batch) \<Rightarrow> length (cfg_edges batch) = 1 | Inl _ \<Rightarrow> False"
    by code_simp
  then obtain b' batch where run: "cfg_facts sample_env sample_cfg sample_builder = Inr (b', batch)"
    "length (cfg_edges batch) = 1"
    by (auto split: sum.splits)
  have "b_cfg_block_graph_ids sample_builder = []" by (simp add: sample_builder_def empty_builder_def)
  from cfg_facts_consistent [OF run(1) this] run show ?thesis by blast
qed

end
