(* ===== verification/BuilderFlow.thy ===== *)
theory BuilderFlow
imports BuilderCfg Interprocedural
begin

text \<open>
  \<open>_FactBatchBuilder\<close>, third part: intraprocedural data flow (\<open>_data_flow_facts\<close>) and the local
  function summaries (\<open>_interprocedural_facts\<close>) the interprocedural solver starts from.
\<close>

section \<open>Data flow\<close>

definition known_data_flow_analysis :: "builder \<Rightarrow> string \<Rightarrow> string result" where
  "known_data_flow_analysis b =
     known ''analyzer data-flow fact references an unknown analysis'' (b_data_flow_analysis_ids b)"

definition known_memory_location :: "builder \<Rightarrow> string \<Rightarrow> string result" where
  "known_memory_location b =
     known ''analyzer data-flow fact references an unknown memory location'' (b_memory_location_ids b)"

definition known_data_access :: "builder \<Rightarrow> string \<Rightarrow> string result" where
  "known_data_access b =
     known ''analyzer data-flow evidence references an unknown access'' (b_data_access_ids b)"

definition graph_inconsistent :: "'a result" where
  "graph_inconsistent = Inl (AnalyzerProtocolError ''analyzer data-flow facts have inconsistent graph references'')"

definition analysis_inconsistent :: "'a result" where
  "analysis_inconsistent =
     Inl (AnalyzerProtocolError ''analyzer data-flow facts have inconsistent analysis references'')"

definition register_analysis :: "builder_env \<Rightarrow> wire_fact \<Rightarrow> builder \<Rightarrow> builder result" where
  "register_analysis E f b =
     rbind (wire_string f ''key'') (\<lambda>key.
     rbind (rbind (wire_string f ''graph_key'') (known_cfg_graph b)) (\<lambda>graph_id.
       Inr (b\<lparr>b_data_flow_analysis_ids := AList.update key (hash_id E ''data_flow_'' [graph_id])
                (b_data_flow_analysis_ids b),
              b_data_flow_analysis_graph_ids := AList.update key graph_id
                (b_data_flow_analysis_graph_ids b)\<rparr>)))"

definition register_location :: "builder_env \<Rightarrow> wire_fact \<Rightarrow> builder \<Rightarrow> builder result" where
  "register_location E f b =
     rbind (wire_string f ''key'') (\<lambda>key.
     rbind (rbind (wire_string f ''analysis_key'') (known_data_flow_analysis b)) (\<lambda>analysis_id.
       Inr (b\<lparr>b_memory_location_ids := AList.update key (hash_id E ''memory_'' [analysis_id, key])
                (b_memory_location_ids b),
              b_memory_location_analysis_ids := AList.update key analysis_id
                (b_memory_location_analysis_ids b)\<rparr>)))"

text \<open>Compact transport references must not change the persisted identity of an access.\<close>

definition access_identity :: "wire_fact \<Rightarrow> string \<Rightarrow> string \<Rightarrow> int \<Rightarrow> string option result" where
  "access_identity f key block_key sequence =
     (if key \<noteq> block_key @ '':access:'' @ str_int sequence then Inr None
      else rbind (wire_string f ''analysis_key'') (\<lambda>analysis_key.
           rbind (wire_string f ''kind'') (\<lambda>kind.
           rbind (wire_string f ''location_key'') (\<lambda>location_key.
             Inr (Some (analysis_key @ '':access:'' @ block_key @ '':'' @ str_int sequence @ '':''
               @ kind @ '':'' @ location_key))))))"

definition register_access :: "builder_env \<Rightarrow> wire_fact \<Rightarrow> builder \<Rightarrow> builder result" where
  "register_access E f b =
     rbind (wire_string f ''key'') (\<lambda>key.
     rbind (rbind (wire_string f ''analysis_key'') (known_data_flow_analysis b)) (\<lambda>analysis_id.
     rbind (wire_string f ''block_key'') (\<lambda>block_key.
     rbind (wire_non_negative_integer f ''sequence'') (\<lambda>sequence.
     rbind (access_identity f key block_key sequence) (\<lambda>identity.
       Inr (b\<lparr>
         b_data_access_identity_keys := (case identity of None \<Rightarrow> b_data_access_identity_keys b
           | Some i \<Rightarrow> AList.update key i (b_data_access_identity_keys b)),
         b_data_access_ids := AList.update key
           (hash_id E ''access_'' [analysis_id, case identity of None \<Rightarrow> key | Some i \<Rightarrow> i]) (b_data_access_ids b),
         b_data_access_analysis_ids := AList.update key analysis_id (b_data_access_analysis_ids b)\<rparr>))))))"

definition check_graph_of_analysis :: "builder \<Rightarrow> wire_fact \<Rightarrow> unit result" where
  "check_graph_of_analysis b f =
     rbind (wire_string f ''analysis_key'') (\<lambda>analysis_key.
     rbind (rbind (wire_string f ''graph_key'') (known_cfg_graph b)) (\<lambda>graph_id.
       if map_of (b_data_flow_analysis_graph_ids b) analysis_key \<noteq> Some graph_id then graph_inconsistent
       else Inr ()))"

definition check_location_base :: "builder_env \<Rightarrow> builder \<Rightarrow> wire_fact \<Rightarrow> unit result" where
  "check_location_base E b f =
     rbind (rbind (wire_string f ''analysis_key'') (known_data_flow_analysis b)) (\<lambda>analysis_id.
     let base_key = json_get f ''base_key'' in
     if json_truthy base_key \<and>
        map_of (b_memory_location_analysis_ids b) (json_text (be_float_text E) base_key) \<noteq> Some analysis_id
     then analysis_inconsistent else Inr ())"

definition check_access :: "builder_env \<Rightarrow> builder \<Rightarrow> wire_fact \<Rightarrow> unit result" where
  "check_access E b f =
     rbind (rbind (wire_string f ''analysis_key'') (known_data_flow_analysis b)) (\<lambda>analysis_id.
     rbind (wire_string f ''location_key'') (\<lambda>location_key.
     if map_of (b_memory_location_analysis_ids b) location_key \<noteq> Some analysis_id then analysis_inconsistent
     else rbind (rbind (wire_string f ''graph_key'') (known_cfg_graph b)) (\<lambda>graph_id.
       rbind (wire_string f ''block_key'') (\<lambda>block_key.
       if map_of (b_cfg_block_graph_ids b) block_key \<noteq> Some graph_id then graph_inconsistent
       else let element_key = json_get f ''cfg_element_key'' in
         if json_truthy element_key \<and>
            map_of (b_cfg_element_graph_ids b) (json_text (be_float_text E) element_key) \<noteq> Some graph_id
         then graph_inconsistent else Inr ()))))"

text \<open>A field that must be a list of strings, absent meaning empty where a default is given.\<close>

definition strings_or :: "string \<Rightarrow> json \<Rightarrow> string list result" where
  "strings_or message v = (case json_strings v of
     None \<Rightarrow> Inl (AnalyzerProtocolError message) | Some xs \<Rightarrow> Inr xs)"

definition get_or :: "wire_fact \<Rightarrow> string \<Rightarrow> json \<Rightarrow> json" where
  "get_or f name dflt = (case map_of f name of None \<Rightarrow> dflt | Some v \<Rightarrow> v)"

definition data_flow_analysis_fact :: "builder_env \<Rightarrow> builder \<Rightarrow> wire_fact \<Rightarrow> data_flow_analysis result" where
  "data_flow_analysis_fact E b f =
     rbind (strings_or ''analyzer data-flow reasons must be strings'' (json_get f ''incomplete_reasons'')) (\<lambda>reasons.
     rbind (wire_mapping f ''limits'') (\<lambda>bounds.
     rbind (rbind (wire_string f ''key'') (known_data_flow_analysis b)) (\<lambda>analysis_id.
     rbind (rbind (wire_string f ''graph_key'') (known_cfg_graph b)) (\<lambda>graph_id.
     rbind (wire_boolean f ''complete'') (\<lambda>complete.
     rbind (wire_non_negative_integer f ''iteration_count'') (\<lambda>iterations.
     rbind (wire_positive_integer bounds ''max_iterations'') (\<lambda>max_iterations.
     rbind (wire_positive_integer bounds ''max_alias_targets'') (\<lambda>max_alias.
     rbind (wire_positive_integer bounds ''max_access_path_depth'') (\<lambda>max_depth.
     rbind (wire_positive_integer bounds ''max_locations'') (\<lambda>max_locations.
       post_init_data_flow_analysis
         \<lparr>fact_id = analysis_id, translation_unit_id = unit_id E, build_configuration_id = configuration_id E,
          build_variant = variant_name E, df_graph_id = graph_id, df_complete = complete,
          df_incomplete_reasons = reasons, df_iteration_count = iterations,
          df_max_iterations = max_iterations, df_max_alias_targets = max_alias,
          df_max_access_path_depth = max_depth, df_max_locations = max_locations\<rparr>))))))))))"

definition memory_location_fact :: "builder_env \<Rightarrow> builder \<Rightarrow> wire_fact \<Rightarrow> memory_location result" where
  "memory_location_fact E b f =
     rbind (strings_or ''analyzer memory access path is invalid'' (get_or f ''access_path'' (JArr []))) (\<lambda>path.
     rbind (nullable_string ''analyzer memory declaration key is invalid'' f ''declaration_key'') (\<lambda>declaration_key.
     rbind (nullable_string ''analyzer memory base key is invalid'' f ''base_key'') (\<lambda>base_key.
     rbind (rbind (wire_string f ''analysis_key'') (known_data_flow_analysis b)) (\<lambda>analysis_id.
     rbind (rbind (wire_string f ''graph_key'') (known_cfg_graph b)) (\<lambda>graph_id.
     rbind (rbind (wire_string f ''key'') (known_memory_location b)) (\<lambda>location_id.
     rbind (rbind (wire_string f ''kind'')
              (enum_parse memory_location_kind_members memory_location_kind_value)) (\<lambda>kind.
     rbind (wire_string f ''name'') (\<lambda>name.
     rbind (wire_optional_string f ''type_name'') (\<lambda>type_name.
     rbind (when_key (known_id b) declaration_key) (\<lambda>declaration_id.
     rbind (when_key (known_memory_location b) base_key) (\<lambda>base_id.
     rbind (wire_boolean f ''is_volatile'') (\<lambda>volatile.
     rbind (wire_boolean f ''is_atomic'') (\<lambda>atomic.
       post_init_memory_location
         \<lparr>fact_id = location_id, translation_unit_id = unit_id E, build_configuration_id = configuration_id E,
          build_variant = variant_name E, ml_analysis_id = analysis_id, ml_graph_id = graph_id, ml_kind = kind,
          ml_name = name, ml_type_name = type_name, ml_declaration_symbol_id = declaration_id,
          ml_base_location_id = base_id, ml_access_path = path, ml_is_volatile = volatile,
          ml_is_atomic = atomic\<rparr>)))))))))))))"

definition data_access_fact :: "builder_env \<Rightarrow> builder \<Rightarrow> wire_fact \<Rightarrow> data_access result" where
  "data_access_fact E b f =
     rbind (strings_or ''analyzer points-to targets are invalid'' (get_or f ''pointee_keys'' (JArr []))) (\<lambda>pointees.
     rbind (nullable_string ''analyzer data access CFG element is invalid'' f ''cfg_element_key'') (\<lambda>element_key.
     rbind (rbind (wire_string f ''key'') (known_data_access b)) (\<lambda>access_id.
     rbind (rbind (wire_string f ''analysis_key'') (known_data_flow_analysis b)) (\<lambda>analysis_id.
     rbind (rbind (wire_string f ''graph_key'') (known_cfg_graph b)) (\<lambda>graph_id.
     rbind (rbind (wire_string f ''block_key'') (known_cfg_block b)) (\<lambda>block_id.
     rbind (when_key (known_cfg_element b) element_key) (\<lambda>element_id.
     rbind (rbind (wire_string f ''location_key'') (known_memory_location b)) (\<lambda>location_id.
     rbind (rbind (wire_string f ''kind'') (enum_parse data_access_kind_members data_access_kind_value)) (\<lambda>kind.
     rbind (wire_non_negative_integer f ''sequence'') (\<lambda>sequence.
     rbind (optional_span E f ''span'') (\<lambda>location.
     rbind (wire_optional_string f ''expression'') (\<lambda>expression.
     rbind (rmap (known_id b) pointees) (\<lambda>pointee_ids.
     rbind (wire_boolean f ''points_to_complete'') (\<lambda>complete.
       post_init_data_access
         \<lparr>fact_id = access_id, translation_unit_id = unit_id E, build_configuration_id = configuration_id E,
          build_variant = variant_name E, da_analysis_id = analysis_id, da_graph_id = graph_id,
          da_block_id = block_id, da_location_id = location_id, da_kind = kind, da_sequence = sequence,
          da_cfg_element_id = element_id, da_span = location, da_expression = expression,
          da_pointee_symbol_ids = pointee_ids, da_points_to_complete = complete\<rparr>))))))))))))))"

definition opt_text :: "string option \<Rightarrow> string" where
  "opt_text v = (case v of None \<Rightarrow> ''None'' | Some s \<Rightarrow> s)"

definition identity_of :: "builder \<Rightarrow> string option \<Rightarrow> string option" where
  "identity_of b key = (case key of None \<Rightarrow> None
     | Some k \<Rightarrow> Some (dict_get (b_data_access_identity_keys b) k k))"

definition foreign :: "(string \<times> string) list \<Rightarrow> string \<Rightarrow> string option list \<Rightarrow> bool" where
  "foreign analysis_ids analysis_id keys =
     list_ex (\<lambda>key. truthy key \<and> map_of analysis_ids (the key) \<noteq> Some analysis_id) keys"

definition valid_pair :: "data_flow_relation \<Rightarrow> string option list \<Rightarrow> string option list \<Rightarrow> bool" where
  "valid_pair relation accesses locations =
     (if relation \<in> {FLOW_REACHING_DEFINITION, FLOW_OVERWRITES}
      then list_all truthy accesses \<and> \<not> list_ex truthy locations
      else list_all truthy locations \<and> \<not> list_ex truthy accesses)"

definition evidence_key ::
    "builder \<Rightarrow> string \<Rightarrow> data_flow_relation \<Rightarrow> string option \<Rightarrow> string option \<Rightarrow> string \<Rightarrow> string result" where
  "evidence_key b analysis_key relation source_access target_access key =
     (let source_identity = identity_of b source_access; target_identity = identity_of b target_access;
          text_of = (\<lambda>s t. analysis_key @ '':evidence:'' @ data_flow_relation_value relation @ '':''
            @ opt_text s @ '':'' @ opt_text t) in
      if (source_identity, target_identity) = (source_access, target_access) then Inr key
      else if key \<noteq> text_of source_access target_access
      then Inl (AnalyzerProtocolError ''analyzer compact evidence key is inconsistent'')
      else Inr (text_of source_identity target_identity))"

definition data_flow_evidence_fact :: "builder_env \<Rightarrow> builder \<Rightarrow> wire_fact \<Rightarrow> data_flow_evidence result" where
  "data_flow_evidence_fact E b f =
     (let nullable = nullable_string ''analyzer data-flow evidence key is invalid'' f in
      rbind (nullable ''source_access_key'') (\<lambda>source_access.
      rbind (nullable ''target_access_key'') (\<lambda>target_access.
      rbind (nullable ''source_location_key'') (\<lambda>source_location.
      rbind (nullable ''target_location_key'') (\<lambda>target_location.
      rbind (wire_string f ''key'') (\<lambda>key.
      rbind (wire_string f ''analysis_key'') (\<lambda>analysis_key.
      rbind (known_data_flow_analysis b analysis_key) (\<lambda>analysis_id.
      rbind (rbind (wire_string f ''graph_key'') (known_cfg_graph b)) (\<lambda>graph_id.
      if map_of (b_data_flow_analysis_graph_ids b) analysis_key \<noteq> Some graph_id then graph_inconsistent
      else rbind (rbind (wire_string f ''relation'')
                    (enum_parse data_flow_relation_members data_flow_relation_value)) (\<lambda>relation.
      if \<not> valid_pair relation [source_access, target_access] [source_location, target_location]
      then Inl (AnalyzerProtocolError ''analyzer data-flow evidence relation is invalid'')
      else if foreign (b_data_access_analysis_ids b) analysis_id [source_access, target_access] \<or>
              foreign (b_memory_location_analysis_ids b) analysis_id [source_location, target_location]
      then analysis_inconsistent
      else rbind (evidence_key b analysis_key relation source_access target_access key) (\<lambda>key'.
      rbind (rbind (wire_string f ''certainty'')
               (enum_parse data_flow_certainty_members data_flow_certainty_value)) (\<lambda>certain.
      rbind (wire_string f ''reason'') (\<lambda>reason.
      rbind (when_key (known_data_access b) source_access) (\<lambda>source_access_id.
      rbind (when_key (known_data_access b) target_access) (\<lambda>target_access_id.
      rbind (when_key (known_memory_location b) source_location) (\<lambda>source_location_id.
      rbind (when_key (known_memory_location b) target_location) (\<lambda>target_location_id.
      rbind (optional_span E f ''evidence_span'') (\<lambda>evidence.
        post_init_data_flow_evidence
          \<lparr>fact_id = hash_id E ''evidence_'' [analysis_id, key'], translation_unit_id = unit_id E,
           build_configuration_id = configuration_id E, build_variant = variant_name E,
           de_analysis_id = analysis_id, de_graph_id = graph_id, de_relation = relation,
           de_certainty = certain, de_reason = reason, de_source_access_id = source_access_id,
           de_target_access_id = target_access_id, de_source_location_id = source_location_id,
           de_target_location_id = target_location_id, de_evidence_span = evidence\<rparr>))))))))))))))))))"

record flow_batch =
  data_flow_analyses :: "data_flow_analysis list"
  memory_locations :: "memory_location list"
  data_accesses :: "data_access list"
  data_flow_evidences :: "data_flow_evidence list"

text \<open>\<open>except ValueError\<close>: an invalid enumeration value or dataclass is a protocol error.\<close>

definition protocol_value_error :: "string \<Rightarrow> 'a result \<Rightarrow> 'a result" where
  "protocol_value_error message r = (case r of
     Inl (ValueError _) \<Rightarrow> Inl (AnalyzerProtocolError message) | _ \<Rightarrow> r)"

definition data_flow_facts :: "builder_env \<Rightarrow> wire_fact list \<Rightarrow> builder \<Rightarrow> (builder \<times> flow_batch) result" where
  "data_flow_facts E facts b =
     (let ids = b_wire_identities b in
      rbind (map_facts E ids facts ''data_flow_analysis_v1'' Inr) (\<lambda>analysis_facts.
      rbind (map_facts E ids facts ''memory_location_v1'' Inr) (\<lambda>location_facts.
      rbind (map_facts E ids facts ''data_access_v1'' Inr) (\<lambda>access_facts.
      rbind (rfold (register_analysis E) analysis_facts b) (\<lambda>b1.
      rbind (rfold (register_location E) location_facts b1) (\<lambda>b2.
      rbind (rfold (register_access E) access_facts b2) (\<lambda>b3.
      rbind (rmap (check_graph_of_analysis b3) (location_facts @ access_facts)) (\<lambda>_.
      rbind (rmap (check_location_base E b3) location_facts) (\<lambda>_.
      rbind (rmap (check_access E b3) access_facts) (\<lambda>_.
      protocol_value_error ''analyzer returned an invalid data-flow fact''
        (rbind (rmap (data_flow_analysis_fact E b3) analysis_facts) (\<lambda>analyses.
         rbind (rmap (memory_location_fact E b3) location_facts) (\<lambda>locations.
         rbind (rmap (data_access_fact E b3) access_facts) (\<lambda>accesses.
         rbind (map_facts E ids facts ''data_flow_evidence_v1'' (data_flow_evidence_fact E b3)) (\<lambda>evidence.
           Inr (b3, \<lparr>data_flow_analyses = sort_key fact_id analyses,
             memory_locations = sort_key (\<lambda>x. (ml_analysis_id x, memory_location_kind_value (ml_kind x),
               ml_name x, fact_id x)) locations,
             data_accesses = sort_key (\<lambda>x. (da_analysis_id x, da_block_id x, da_sequence x, fact_id x)) accesses,
             data_flow_evidences = sort_key (\<lambda>x. (de_analysis_id x, data_flow_relation_value (de_relation x),
               fact_id x)) evidence\<rparr>))))))))))))))))"

section \<open>Local function summaries\<close>

definition summary_inconsistent :: "string \<Rightarrow> 'a result" where
  "summary_inconsistent what =
     Inl (AnalyzerProtocolError (''analyzer summary facts have inconsistent '' @ what @ '' references''))"

definition known_function_summary :: "builder \<Rightarrow> string \<Rightarrow> string result" where
  "known_function_summary b =
     known ''analyzer fact references an unknown function summary'' (b_function_summary_ids b)"

definition register_summary :: "builder_env \<Rightarrow> wire_fact \<Rightarrow> builder \<Rightarrow> builder result" where
  "register_summary E f b =
     rbind (wire_string f ''key'') (\<lambda>key.
     rbind (wire_string f ''analysis_key'') (\<lambda>analysis_key.
     rbind (known_data_flow_analysis b analysis_key) (\<lambda>analysis_id.
     rbind (wire_string f ''graph_key'') (\<lambda>graph_key.
     rbind (known_cfg_graph b graph_key) (\<lambda>graph_id.
     if map_of (b_data_flow_analysis_graph_ids b) analysis_key \<noteq> Some graph_id then summary_inconsistent ''graph''
     else rbind (rbind (wire_string f ''function_key'') (known_id b)) (\<lambda>function_id.
     if map_of (b_cfg_graph_function_ids b) graph_key \<noteq> Some function_id then summary_inconsistent ''graph''
     else rbind (wire_string_list f ''parameter_modes'') (\<lambda>modes.
       Inr (b\<lparr>b_function_summary_ids := AList.update key
                (hash_id E ''summary_'' [variant_name E, configuration_id E, unit_id E, graph_id])
                (b_function_summary_ids b),
              b_function_summary_analysis_ids := AList.update key analysis_id
                (b_function_summary_analysis_ids b),
              b_function_summary_parameter_counts := AList.update key (length modes)
                (b_function_summary_parameter_counts b)\<rparr>))))))))"

definition validate_summary_analysis ::
    "builder \<Rightarrow> string \<Rightarrow> string option \<Rightarrow> string option \<Rightarrow> unit result" where
  "validate_summary_analysis b summary_key location_key access_key =
     (case map_of (b_function_summary_analysis_ids b) summary_key of
        None \<Rightarrow> Inl (AnalyzerProtocolError ''analyzer fact references an unknown function summary'')
      | Some analysis_id \<Rightarrow>
          if truthy location_key \<and> map_of (b_memory_location_analysis_ids b) (the location_key) \<noteq> Some analysis_id
          then summary_inconsistent ''analysis''
          else if truthy access_key \<and> map_of (b_data_access_analysis_ids b) (the access_key) \<noteq> Some analysis_id
          then summary_inconsistent ''analysis''
          else Inr ())"

definition parameter_index_field :: "builder \<Rightarrow> string \<Rightarrow> string \<Rightarrow> wire_fact \<Rightarrow> int option result" where
  "parameter_index_field b message summary_key f =
     rbind (wire_optional_non_negative_integer f ''parameter_index'') (\<lambda>index.
     case index of
       None \<Rightarrow> Inr None
     | Some i \<Rightarrow> rbind (dict_index (b_function_summary_parameter_counts b) summary_key) (\<lambda>count.
         if int count \<le> i then Inl (AnalyzerProtocolError message) else Inr (Some i)))"

definition function_summary_fact :: "builder_env \<Rightarrow> builder \<Rightarrow> wire_fact \<Rightarrow> function_summary result" where
  "function_summary_fact E b f =
     rbind (wire_string f ''key'') (\<lambda>key.
     rbind (wire_string_list f ''parameter_modes'') (\<lambda>modes.
     rbind (wire_string_list f ''parameter_location_keys'') (\<lambda>location_keys.
     rbind (wire_string_list f ''local_incomplete_reasons'') (\<lambda>reasons.
     rbind (wire_boolean f ''local_complete'') (\<lambda>complete.
     if length modes \<noteq> length location_keys \<or> complete = (reasons \<noteq> [])
     then Inl (AnalyzerProtocolError ''analyzer function summary shape is invalid'')
     else rbind (rbind (wire_string f ''analysis_key'') (known_data_flow_analysis b)) (\<lambda>analysis_id.
     if list_ex (\<lambda>k. map_of (b_memory_location_analysis_ids b) k \<noteq> Some analysis_id) location_keys
     then summary_inconsistent ''analysis''
     else rbind (known_function_summary b key) (\<lambda>summary_id.
     rbind (rbind (wire_string f ''function_key'') (known_id b)) (\<lambda>function_id.
     rbind (rbind (wire_string f ''graph_key'') (known_cfg_graph b)) (\<lambda>graph_id.
     rbind (rmap (known_memory_location b) location_keys) (\<lambda>location_ids.
       post_init_function_summary
         \<lparr>fact_id = summary_id, translation_unit_id = unit_id E, build_configuration_id = configuration_id E,
          build_variant = variant_name E, fs_function_symbol_id = function_id, fs_graph_id = graph_id,
          fs_analysis_id = analysis_id, fs_parameter_modes = modes, fs_parameter_location_ids = location_ids,
          fs_local_complete = complete, fs_local_incomplete_reasons = reasons, fs_complete = complete,
          fs_incomplete_reasons = reasons, fs_recursive = False, fs_iteration_count = 0,
          fs_max_scc_iterations = max_scc_iterations default_limits,
          fs_max_scc_size = max_scc_size default_limits,
          fs_max_summary_effects = max_summary_effects default_limits,
          fs_solution_hash = []\<rparr>))))))))))"

definition effect_key ::
    "builder \<Rightarrow> string \<Rightarrow> string option \<Rightarrow> wire_fact \<Rightarrow> string \<Rightarrow> string result" where
  "effect_key b summary_key access_key f key =
     (if identity_of b access_key = access_key then Inr key
      else rbind (wire_string f ''kind'') (\<lambda>kind.
        let text_of = (\<lambda>k. summary_key @ '':effect:'' @ kind @ '':'' @ opt_text k) in
        if key \<noteq> text_of access_key
        then Inl (AnalyzerProtocolError ''analyzer compact summary effect key is inconsistent'')
        else Inr (text_of (identity_of b access_key))))"

definition summary_effect_fact :: "builder_env \<Rightarrow> builder \<Rightarrow> wire_fact \<Rightarrow> summary_effect result" where
  "summary_effect_fact E b f =
     rbind (wire_string f ''summary_key'') (\<lambda>summary_key.
     rbind (known_function_summary b summary_key) (\<lambda>summary_id.
     rbind (wire_optional_key f ''location_key'') (\<lambda>location_key.
     rbind (wire_optional_key f ''source_access_key'') (\<lambda>access_key.
     rbind (validate_summary_analysis b summary_key location_key access_key) (\<lambda>_.
     rbind (wire_string f ''key'') (\<lambda>key.
     rbind (effect_key b summary_key access_key f key) (\<lambda>key'.
     rbind (parameter_index_field b ''analyzer summary effect has an invalid parameter index'' summary_key f) (\<lambda>index.
     rbind (rbind (wire_string f ''kind'') (enum_parse summary_effect_kind_members summary_effect_kind_value)) (\<lambda>kind.
     rbind (rbind (wire_string f ''location_kind'')
              (enum_parse memory_location_kind_members memory_location_kind_value)) (\<lambda>location_kind.
     rbind (rbind (wire_string f ''certainty'')
              (enum_parse data_flow_certainty_members data_flow_certainty_value)) (\<lambda>certain.
     rbind (wire_string f ''reason'') (\<lambda>reason.
     rbind (wire_string_list f ''access_path'') (\<lambda>path.
     rbind (when_key (known_memory_location b) location_key) (\<lambda>location_id.
     rbind (when_key (known_data_access b) access_key) (\<lambda>access_id.
       post_init_summary_effect
         \<lparr>fact_id = hash_id E ''summary_effect_'' [summary_id, key'], translation_unit_id = unit_id E,
          build_configuration_id = configuration_id E, build_variant = variant_name E,
          se_summary_id = summary_id, se_kind = kind, se_location_kind = location_kind,
          se_certainty = certain, se_reason = reason, se_parameter_index = index, se_access_path = path,
          se_location_id = location_id, se_source_access_id = access_id, se_is_local = True,
          se_via_callsite_id = None, se_target_symbol_id = None\<rparr>)))))))))))))))"

definition summary_return_origin_fact ::
    "builder_env \<Rightarrow> builder \<Rightarrow> wire_fact \<Rightarrow> summary_return_origin result" where
  "summary_return_origin_fact E b f =
     rbind (wire_string f ''summary_key'') (\<lambda>summary_key.
     rbind (known_function_summary b summary_key) (\<lambda>summary_id.
     rbind (wire_optional_key f ''location_key'') (\<lambda>location_key.
     rbind (validate_summary_analysis b summary_key location_key None) (\<lambda>_.
     rbind (wire_optional_key f ''callsite_key'') (\<lambda>callsite_key.
     rbind (wire_optional_string f ''location_kind'') (\<lambda>location_kind.
     rbind (wire_string f ''key'') (\<lambda>key.
     rbind (parameter_index_field b ''analyzer summary origin has an invalid parameter index'' summary_key f) (\<lambda>index.
     rbind (rbind (wire_string f ''kind'')
              (enum_parse summary_return_origin_kind_members summary_return_origin_kind_value)) (\<lambda>kind.
     rbind (rbind (wire_string f ''certainty'')
              (enum_parse data_flow_certainty_members data_flow_certainty_value)) (\<lambda>certain.
     rbind (wire_string f ''reason'') (\<lambda>reason.
     rbind (if location_kind = [] then Inr None
            else rmap_result Some (enum_parse memory_location_kind_members memory_location_kind_value location_kind))
       (\<lambda>location_kind'.
     rbind (wire_string_list f ''access_path'') (\<lambda>path.
     rbind (when_key (known_memory_location b) location_key) (\<lambda>location_id.
     rbind (when_key (known_callsite b) callsite_key) (\<lambda>callsite_id.
       post_init_summary_return_origin
         \<lparr>fact_id = hash_id E ''summary_return_'' [summary_id, key], translation_unit_id = unit_id E,
          build_configuration_id = configuration_id E, build_variant = variant_name E,
          so_summary_id = summary_id, so_kind = kind, so_certainty = certain, so_reason = reason,
          so_location_kind = location_kind', so_parameter_index = index, so_access_path = path,
          so_location_id = location_id, so_callsite_id = callsite_id, so_is_local = True,
          so_via_callsite_id = None, so_target_symbol_id = None\<rparr>)))))))))))))))"

definition call_argument_binding_fact ::
    "builder_env \<Rightarrow> builder \<Rightarrow> wire_fact \<Rightarrow> call_argument_binding result" where
  "call_argument_binding_fact E b f =
     rbind (wire_string f ''summary_key'') (\<lambda>summary_key.
     rbind (known_function_summary b summary_key) (\<lambda>summary_id.
     rbind (wire_optional_key f ''location_key'') (\<lambda>location_key.
     rbind (validate_summary_analysis b summary_key location_key None) (\<lambda>_.
     rbind (wire_boolean f ''complete'') (\<lambda>complete.
     rbind (wire_optional_string f ''incomplete_reason'') (\<lambda>reason.
     if complete = (reason \<noteq> [])
     then Inl (AnalyzerProtocolError ''analyzer call argument completeness is invalid'')
     else rbind (rbind (wire_string f ''callsite_key'') (known_callsite b)) (\<lambda>callsite_id.
     rbind (wire_non_negative_integer f ''argument_index'') (\<lambda>index.
     rbind (parameter_index_field b ''analyzer call binding has an invalid parameter index'' summary_key f) (\<lambda>parameter_index.
     rbind (when_key (known_memory_location b) location_key) (\<lambda>location_id.
     rbind (rbind (wire_string f ''location_kind'')
              (enum_parse memory_location_kind_members memory_location_kind_value)) (\<lambda>location_kind.
     rbind (wire_string_list f ''access_path'') (\<lambda>path.
     rbind (wire_boolean f ''writeback_candidate'') (\<lambda>writeback.
       post_init_call_argument_binding
         \<lparr>fact_id = hash_id E ''call_argument_'' [summary_id, callsite_id, str_int index],
          translation_unit_id = unit_id E, build_configuration_id = configuration_id E,
          build_variant = variant_name E, ab_caller_summary_id = summary_id, ab_callsite_id = callsite_id,
          ab_argument_index = index, ab_location_id = location_id, ab_location_kind = location_kind,
          ab_parameter_index = parameter_index, ab_access_path = path, ab_writeback_candidate = writeback,
          ab_complete = complete, ab_incomplete_reason = reason\<rparr>)))))))))))))"

definition call_result_binding_fact ::
    "builder_env \<Rightarrow> builder \<Rightarrow> wire_fact \<Rightarrow> call_result_binding result" where
  "call_result_binding_fact E b f =
     rbind (wire_string f ''summary_key'') (\<lambda>summary_key.
     rbind (known_function_summary b summary_key) (\<lambda>summary_id.
     rbind (wire_string f ''location_key'') (\<lambda>location_key.
     rbind (wire_string f ''definition_access_key'') (\<lambda>access_key.
     rbind (validate_summary_analysis b summary_key (Some location_key) (Some access_key)) (\<lambda>_.
     rbind (rbind (wire_string f ''callsite_key'') (known_callsite b)) (\<lambda>callsite_id.
     rbind (known_memory_location b location_key) (\<lambda>location_id.
     rbind (known_data_access b access_key) (\<lambda>access_id.
       post_init_call_result_binding
         \<lparr>fact_id = hash_id E ''call_result_'' [summary_id, callsite_id], translation_unit_id = unit_id E,
          build_configuration_id = configuration_id E, build_variant = variant_name E,
          rb_caller_summary_id = summary_id, rb_callsite_id = callsite_id, rb_location_id = location_id,
          rb_definition_access_id = access_id\<rparr>))))))))"

record summary_batch =
  function_summaries :: "function_summary list"
  summary_effects :: "summary_effect list"
  summary_return_origins :: "summary_return_origin list"
  call_argument_bindings :: "call_argument_binding list"
  call_result_bindings :: "call_result_binding list"

definition interprocedural_facts ::
    "builder_env \<Rightarrow> wire_fact list \<Rightarrow> builder \<Rightarrow> (builder \<times> summary_batch) result" where
  "interprocedural_facts E facts b =
     (let ids = b_wire_identities b in
      rbind (map_facts E ids facts ''function_summary_v1'' Inr) (\<lambda>summary_facts.
      rbind (rfold (register_summary E) summary_facts b) (\<lambda>b1.
      protocol_value_error ''analyzer returned an invalid summary fact''
        (rbind (rmap (function_summary_fact E b1) summary_facts) (\<lambda>summaries.
         rbind (map_facts E ids facts ''summary_effect_v1'' (summary_effect_fact E b1)) (\<lambda>effects.
         rbind (map_facts E ids facts ''summary_return_origin_v1'' (summary_return_origin_fact E b1)) (\<lambda>origins.
         rbind (map_facts E ids facts ''call_argument_binding_v1'' (call_argument_binding_fact E b1)) (\<lambda>arguments.
         rbind (map_facts E ids facts ''call_result_binding_v1'' (call_result_binding_fact E b1)) (\<lambda>results.
           Inr (b1, \<lparr>function_summaries = sort_key fact_id summaries,
             summary_effects = sort_key fact_id effects, summary_return_origins = sort_key fact_id origins,
             call_argument_bindings = sort_key fact_id arguments,
             call_result_bindings = sort_key fact_id results\<rparr>))))))))))"

end
