(* ===== verification/FlowConsistency.thy ===== *)
theory FlowConsistency
imports BuilderFlow
begin

text \<open>
  What \<open>_data_flow_facts\<close> guarantees that the foreign keys of the store cannot: every reference
  inside a converted data-flow batch stays in one analysis, and every analysis in one graph.
\<close>

lemmas flow_known = builder_known known_data_flow_analysis_def known_memory_location_def
  known_data_access_def

section \<open>Registration\<close>

lemma register_analysis_Inr:
  assumes "register_analysis E f b = Inr b'"
  obtains k gk g where "wire_string f ''key'' = Inr k" "wire_string f ''graph_key'' = Inr gk"
    "map_of (b_cfg_graph_ids b) gk = Some g"
    "b_data_flow_analysis_graph_ids b' = AList.update k g (b_data_flow_analysis_graph_ids b)"
    "b_cfg_graph_ids b' = b_cfg_graph_ids b"
    "b_memory_location_analysis_ids b' = b_memory_location_analysis_ids b"
    "b_data_access_analysis_ids b' = b_data_access_analysis_ids b"
  using assms by (auto simp: register_analysis_def rbind_eq_Inr flow_known)

lemma register_location_Inr:
  assumes "register_location E f b = Inr b'"
  obtains k ak a where "wire_string f ''key'' = Inr k" "wire_string f ''analysis_key'' = Inr ak"
    "map_of (b_data_flow_analysis_ids b) ak = Some a"
    "b_memory_location_analysis_ids b' = AList.update k a (b_memory_location_analysis_ids b)"
    "b_data_flow_analysis_ids b' = b_data_flow_analysis_ids b"
    "b_data_flow_analysis_graph_ids b' = b_data_flow_analysis_graph_ids b"
    "b_cfg_graph_ids b' = b_cfg_graph_ids b"
    "b_data_access_analysis_ids b' = b_data_access_analysis_ids b"
  using assms by (auto simp: register_location_def rbind_eq_Inr flow_known)

lemma register_access_Inr:
  assumes "register_access E f b = Inr b'"
  obtains k ak a where "wire_string f ''key'' = Inr k" "wire_string f ''analysis_key'' = Inr ak"
    "map_of (b_data_flow_analysis_ids b) ak = Some a"
    "b_data_access_analysis_ids b' = AList.update k a (b_data_access_analysis_ids b)"
    "b_data_flow_analysis_ids b' = b_data_flow_analysis_ids b"
    "b_data_flow_analysis_graph_ids b' = b_data_flow_analysis_graph_ids b"
    "b_memory_location_analysis_ids b' = b_memory_location_analysis_ids b"
    "b_cfg_graph_ids b' = b_cfg_graph_ids b"
  using assms by (auto simp: register_access_def rbind_eq_Inr flow_known)

text \<open>A dictionary of a registration pass, traced back to the facts it came from.\<close>

definition traced ::
    "wire_fact list \<Rightarrow> string \<Rightarrow> (string \<times> string) list \<Rightarrow> (string \<times> string) list \<Rightarrow> bool" where
  "traced fs field owners d \<longleftrightarrow> (\<forall>k v. map_of d k = Some v \<longrightarrow>
     (\<exists>f \<in> set fs. \<exists>ok. wire_string f ''key'' = Inr k \<and> wire_string f field = Inr ok \<and>
        map_of owners ok = Some v))"

lemma register_analyses:
  assumes "rfold (register_analysis E) fs b = Inr b'" and "b_data_flow_analysis_graph_ids b = []"
  shows "b_cfg_graph_ids b' = b_cfg_graph_ids b"
    and "b_memory_location_analysis_ids b' = b_memory_location_analysis_ids b"
    and "b_data_access_analysis_ids b' = b_data_access_analysis_ids b"
    and "traced fs ''graph_key'' (b_cfg_graph_ids b') (b_data_flow_analysis_graph_ids b')"
proof -
  let ?P = "\<lambda>s. b_cfg_graph_ids s = b_cfg_graph_ids b \<and>
     b_memory_location_analysis_ids s = b_memory_location_analysis_ids b \<and>
     b_data_access_analysis_ids s = b_data_access_analysis_ids b"
  have "?P b' \<and> (\<forall>k v. map_of (b_data_flow_analysis_graph_ids b') k = Some v \<longrightarrow>
      (\<exists>f \<in> set ([] @ fs). wire_string f ''key'' = Inr k \<and>
         (\<exists>ok. wire_string f ''graph_key'' = Inr ok \<and> map_of (b_cfg_graph_ids b) ok = Some v)))"
    by (rule rfold_registers [OF assms(1), where P = ?P])
      (auto simp: assms(2) elim!: register_analysis_Inr)
  then show "b_cfg_graph_ids b' = b_cfg_graph_ids b"
    "b_memory_location_analysis_ids b' = b_memory_location_analysis_ids b"
    "b_data_access_analysis_ids b' = b_data_access_analysis_ids b"
    "traced fs ''graph_key'' (b_cfg_graph_ids b') (b_data_flow_analysis_graph_ids b')"
    unfolding traced_def by fastforce+
qed

lemma register_locations:
  assumes "rfold (register_location E) fs b = Inr b'" and "b_memory_location_analysis_ids b = []"
  shows "b_cfg_graph_ids b' = b_cfg_graph_ids b"
    and "b_data_flow_analysis_ids b' = b_data_flow_analysis_ids b"
    and "b_data_flow_analysis_graph_ids b' = b_data_flow_analysis_graph_ids b"
    and "b_data_access_analysis_ids b' = b_data_access_analysis_ids b"
    and "traced fs ''analysis_key'' (b_data_flow_analysis_ids b') (b_memory_location_analysis_ids b')"
proof -
  let ?P = "\<lambda>s. b_cfg_graph_ids s = b_cfg_graph_ids b \<and>
     b_data_flow_analysis_ids s = b_data_flow_analysis_ids b \<and>
     b_data_flow_analysis_graph_ids s = b_data_flow_analysis_graph_ids b \<and>
     b_data_access_analysis_ids s = b_data_access_analysis_ids b"
  have "?P b' \<and> (\<forall>k v. map_of (b_memory_location_analysis_ids b') k = Some v \<longrightarrow>
      (\<exists>f \<in> set ([] @ fs). wire_string f ''key'' = Inr k \<and>
         (\<exists>ok. wire_string f ''analysis_key'' = Inr ok \<and> map_of (b_data_flow_analysis_ids b) ok = Some v)))"
    by (rule rfold_registers [OF assms(1), where P = ?P])
      (auto simp: assms(2) elim!: register_location_Inr)
  then show "b_cfg_graph_ids b' = b_cfg_graph_ids b"
    "b_data_flow_analysis_ids b' = b_data_flow_analysis_ids b"
    "b_data_flow_analysis_graph_ids b' = b_data_flow_analysis_graph_ids b"
    "b_data_access_analysis_ids b' = b_data_access_analysis_ids b"
    "traced fs ''analysis_key'' (b_data_flow_analysis_ids b') (b_memory_location_analysis_ids b')"
    unfolding traced_def by fastforce+
qed

lemma register_accesses:
  assumes "rfold (register_access E) fs b = Inr b'" and "b_data_access_analysis_ids b = []"
  shows "b_cfg_graph_ids b' = b_cfg_graph_ids b"
    and "b_data_flow_analysis_ids b' = b_data_flow_analysis_ids b"
    and "b_data_flow_analysis_graph_ids b' = b_data_flow_analysis_graph_ids b"
    and "b_memory_location_analysis_ids b' = b_memory_location_analysis_ids b"
    and "traced fs ''analysis_key'' (b_data_flow_analysis_ids b') (b_data_access_analysis_ids b')"
proof -
  let ?P = "\<lambda>s. b_cfg_graph_ids s = b_cfg_graph_ids b \<and>
     b_data_flow_analysis_ids s = b_data_flow_analysis_ids b \<and>
     b_data_flow_analysis_graph_ids s = b_data_flow_analysis_graph_ids b \<and>
     b_memory_location_analysis_ids s = b_memory_location_analysis_ids b"
  have "?P b' \<and> (\<forall>k v. map_of (b_data_access_analysis_ids b') k = Some v \<longrightarrow>
      (\<exists>f \<in> set ([] @ fs). wire_string f ''key'' = Inr k \<and>
         (\<exists>ok. wire_string f ''analysis_key'' = Inr ok \<and> map_of (b_data_flow_analysis_ids b) ok = Some v)))"
    by (rule rfold_registers [OF assms(1), where P = ?P])
      (auto simp: assms(2) elim!: register_access_Inr)
  then show "b_cfg_graph_ids b' = b_cfg_graph_ids b"
    "b_data_flow_analysis_ids b' = b_data_flow_analysis_ids b"
    "b_data_flow_analysis_graph_ids b' = b_data_flow_analysis_graph_ids b"
    "b_memory_location_analysis_ids b' = b_memory_location_analysis_ids b"
    "traced fs ''analysis_key'' (b_data_flow_analysis_ids b') (b_data_access_analysis_ids b')"
    unfolding traced_def by fastforce+
qed

section \<open>Rows\<close>

lemma data_flow_analysis_fact_eq:
  assumes "data_flow_analysis_fact E b f = Inr x" and "wire_string f ''key'' = Inr k"
    and "wire_string f ''graph_key'' = Inr gk"
  shows "map_of (b_data_flow_analysis_ids b) k = Some (fact_id x)"
    and "map_of (b_cfg_graph_ids b) gk = Some (df_graph_id x)"
  using assms
  by (auto simp: data_flow_analysis_fact_def rbind_eq_Inr flow_known post_init_data_flow_analysis_def Let_def
      split: if_split_asm)

lemma memory_location_fact_Inr:
  assumes "memory_location_fact E b f = Inr x"
  obtains k ak gk where "wire_string f ''key'' = Inr k" "map_of (b_memory_location_ids b) k = Some (fact_id x)"
    "wire_string f ''analysis_key'' = Inr ak" "map_of (b_data_flow_analysis_ids b) ak = Some (ml_analysis_id x)"
    "wire_string f ''graph_key'' = Inr gk" "map_of (b_cfg_graph_ids b) gk = Some (ml_graph_id x)"
  using assms
  by (auto simp: memory_location_fact_def rbind_eq_Inr flow_known post_init_memory_location_def
      split: if_split_asm)

lemma data_access_fact_Inr:
  assumes "data_access_fact E b f = Inr x"
  obtains k ak gk lk bk where "wire_string f ''key'' = Inr k" "map_of (b_data_access_ids b) k = Some (fact_id x)"
    "wire_string f ''analysis_key'' = Inr ak" "map_of (b_data_flow_analysis_ids b) ak = Some (da_analysis_id x)"
    "wire_string f ''graph_key'' = Inr gk" "map_of (b_cfg_graph_ids b) gk = Some (da_graph_id x)"
    "wire_string f ''location_key'' = Inr lk" "map_of (b_memory_location_ids b) lk = Some (da_location_id x)"
    "wire_string f ''block_key'' = Inr bk" "map_of (b_cfg_block_ids b) bk = Some (da_block_id x)"
  using assms
  by (auto simp: data_access_fact_def rbind_eq_Inr flow_known post_init_data_access_def
      split: if_split_asm)

lemma nullable_string_Some:
  "nullable_string m f name = Inr (Some s) \<Longrightarrow> json_get f name = JStr s"
  by (auto simp: nullable_string_def split: json.splits)

lemma memory_location_fact_base:
  assumes "memory_location_fact E b f = Inr x" and "ml_base_location_id x = Some l"
  shows "\<exists>bk. bk \<noteq> [] \<and> json_get f ''base_key'' = JStr bk \<and> map_of (b_memory_location_ids b) bk = Some l"
proof -
  from assms obtain m k where "nullable_string m f ''base_key'' = Inr k"
    "when_key (known_memory_location b) k = Inr (Some l)"
    by (auto simp: memory_location_fact_def rbind_eq_Inr post_init_memory_location_def split: if_split_asm)
  then show ?thesis
    by (auto simp: when_key_Inr truthy_def flow_known dest: nullable_string_Some split: if_split_asm)
qed

lemma data_access_fact_element:
  assumes "data_access_fact E b f = Inr x" and "da_cfg_element_id x = Some e"
  shows "\<exists>ek. ek \<noteq> [] \<and> json_get f ''cfg_element_key'' = JStr ek \<and> map_of (b_cfg_element_ids b) ek = Some e"
proof -
  from assms obtain m k where "nullable_string m f ''cfg_element_key'' = Inr k"
    "when_key (known_cfg_element b) k = Inr (Some e)"
    by (auto simp: data_access_fact_def rbind_eq_Inr post_init_data_access_def split: if_split_asm)
  then show ?thesis
    by (auto simp: when_key_Inr truthy_def flow_known dest: nullable_string_Some split: if_split_asm)
qed

lemma data_flow_evidence_fact_Inr:
  assumes "data_flow_evidence_fact E b f = Inr e"
  obtains sa ta sl tl ak where "wire_string f ''analysis_key'' = Inr ak"
    "map_of (b_data_flow_analysis_ids b) ak = Some (de_analysis_id e)"
    "map_of (b_data_flow_analysis_graph_ids b) ak = Some (de_graph_id e)"
    "\<not> foreign (b_data_access_analysis_ids b) (de_analysis_id e) [sa, ta]"
    "\<not> foreign (b_memory_location_analysis_ids b) (de_analysis_id e) [sl, tl]"
    "when_key (known_data_access b) sa = Inr (de_source_access_id e)"
    "when_key (known_data_access b) ta = Inr (de_target_access_id e)"
    "when_key (known_memory_location b) sl = Inr (de_source_location_id e)"
    "when_key (known_memory_location b) tl = Inr (de_target_location_id e)"
proof -
  have graph: "P" if "(if c then graph_inconsistent else r) = Inr x" "\<not> c \<Longrightarrow> r = Inr x \<Longrightarrow> P" for P c r and x :: data_flow_evidence
    using that by (simp add: graph_inconsistent_def split: if_split_asm)
  have pair: "P" if "(if \<not> c then Inl m else if d then analysis_inconsistent else r) = Inr x"
    "\<not> d \<Longrightarrow> r = Inr x \<Longrightarrow> P" for P c d r m and x :: data_flow_evidence
    using that by (simp add: analysis_inconsistent_def split: if_split_asm)
  have kept: "P" if "post_init_data_flow_evidence x = Inr e" "x = e \<Longrightarrow> P" for P x
    using that by (simp add: post_init_data_flow_evidence_def Let_def split: if_split_asm)
  from assms show thesis
    unfolding data_flow_evidence_fact_def Let_def rbind_eq_Inr
    apply (elim exE conjE graph)
    apply (unfold rbind_eq_Inr)
    apply (elim exE conjE pair)
    apply (unfold rbind_eq_Inr de_Morgan_disj not_not)
    apply (elim exE conjE kept)
    apply (rule that)
            apply assumption
    apply (auto simp: flow_known)
    done
qed

lemma known_unless_foreign:
  assumes "when_key (known m d) k = Inr (Some x)" and "\<not> foreign owners a ks" and "k \<in> set ks"
  shows "\<exists>key. map_of d key = Some x \<and> map_of owners key = Some a"
proof -
  from assms(1) obtain key where key: "k = Some key" "truthy k" "map_of d key = Some x"
    by (auto simp: when_key_Inr split: if_split_asm)
  with assms(2,3) have "map_of owners key = Some a" unfolding foreign_def list_ex_iff by fastforce
  with key(3) show ?thesis by blast
qed

lemma check_graph_of_analysis_Inr:
  assumes "check_graph_of_analysis b f = Inr u" and "wire_string f ''analysis_key'' = Inr ak"
    and "wire_string f ''graph_key'' = Inr gk" and "map_of (b_cfg_graph_ids b) gk = Some g"
  shows "map_of (b_data_flow_analysis_graph_ids b) ak = Some g"
proof -
  have "known_cfg_graph b gk = Inr g" using assms(4) by (simp add: builder_known)
  then show ?thesis using assms(1-3)
    by (auto simp: check_graph_of_analysis_def graph_inconsistent_def split: if_split_asm)
qed

lemma check_location_base_Inr:
  assumes "check_location_base E b f = Inr u" and "wire_string f ''analysis_key'' = Inr ak"
    and "map_of (b_data_flow_analysis_ids b) ak = Some a" and "json_get f ''base_key'' = JStr bk" and "bk \<noteq> []"
  shows "map_of (b_memory_location_analysis_ids b) bk = Some a"
proof -
  have "known_data_flow_analysis b ak = Inr a" using assms(3) by (simp add: flow_known)
  then show ?thesis using assms(1,2,4,5)
    by (auto simp: check_location_base_def analysis_inconsistent_def json_truthy_def json_text_def Let_def
        split: if_split_asm)
qed

lemma check_access_Inr:
  assumes "check_access E b f = Inr u" and "wire_string f ''analysis_key'' = Inr ak"
    and "map_of (b_data_flow_analysis_ids b) ak = Some a" and "wire_string f ''graph_key'' = Inr gk"
    and "map_of (b_cfg_graph_ids b) gk = Some g"
  shows "wire_string f ''location_key'' = Inr lk \<Longrightarrow> map_of (b_memory_location_analysis_ids b) lk = Some a"
    and "wire_string f ''block_key'' = Inr bk \<Longrightarrow> map_of (b_cfg_block_graph_ids b) bk = Some g"
    and "json_get f ''cfg_element_key'' = JStr ek \<Longrightarrow> ek \<noteq> [] \<Longrightarrow> map_of (b_cfg_element_graph_ids b) ek = Some g"
proof -
  have known: "known_data_flow_analysis b ak = Inr a" "known_cfg_graph b gk = Inr g"
    using assms(3,5) by (simp_all add: flow_known)
  show "wire_string f ''location_key'' = Inr lk \<Longrightarrow> map_of (b_memory_location_analysis_ids b) lk = Some a"
    "wire_string f ''block_key'' = Inr bk \<Longrightarrow> map_of (b_cfg_block_graph_ids b) bk = Some g"
    "json_get f ''cfg_element_key'' = JStr ek \<Longrightarrow> ek \<noteq> [] \<Longrightarrow> map_of (b_cfg_element_graph_ids b) ek = Some g"
    using assms(1,2,4) known
    by (auto simp: check_access_def analysis_inconsistent_def graph_inconsistent_def rbind_eq_Inr Let_def
        json_truthy_def json_text_def split: if_split_asm)
qed

section \<open>The batch\<close>

definition analysis_in :: "flow_batch \<Rightarrow> string \<Rightarrow> string \<Rightarrow> bool" where
  "analysis_in batch analysis_id graph_id \<longleftrightarrow>
     (\<exists>a \<in> set (data_flow_analyses batch). fact_id a = analysis_id \<and> df_graph_id a = graph_id)"

definition location_in :: "flow_batch \<Rightarrow> string \<Rightarrow> string \<Rightarrow> bool" where
  "location_in batch analysis_id location_id \<longleftrightarrow>
     (\<exists>l \<in> set (memory_locations batch). fact_id l = location_id \<and> ml_analysis_id l = analysis_id)"

definition access_in :: "flow_batch \<Rightarrow> string \<Rightarrow> string \<Rightarrow> bool" where
  "access_in batch analysis_id access_id \<longleftrightarrow>
     (\<exists>x \<in> set (data_accesses batch). fact_id x = access_id \<and> da_analysis_id x = analysis_id)"

text \<open>A block, or an element, that the builder registered for a graph.\<close>

definition block_of :: "builder \<Rightarrow> string \<Rightarrow> string \<Rightarrow> bool" where
  "block_of b graph_id block_id \<longleftrightarrow> (\<exists>k. map_of (b_cfg_block_ids b) k = Some block_id \<and>
     map_of (b_cfg_block_graph_ids b) k = Some graph_id)"

definition element_of :: "builder \<Rightarrow> string \<Rightarrow> string \<Rightarrow> bool" where
  "element_of b graph_id element_id \<longleftrightarrow> (\<exists>k. map_of (b_cfg_element_ids b) k = Some element_id \<and>
     map_of (b_cfg_element_graph_ids b) k = Some graph_id)"

definition flow_consistent :: "builder \<Rightarrow> flow_batch \<Rightarrow> bool" where
  "flow_consistent b batch \<longleftrightarrow>
     (\<forall>l \<in> set (memory_locations batch). analysis_in batch (ml_analysis_id l) (ml_graph_id l) \<and>
        (\<forall>x. ml_base_location_id l = Some x \<longrightarrow> location_in batch (ml_analysis_id l) x)) \<and>
     (\<forall>x \<in> set (data_accesses batch). analysis_in batch (da_analysis_id x) (da_graph_id x) \<and>
        location_in batch (da_analysis_id x) (da_location_id x) \<and> block_of b (da_graph_id x) (da_block_id x) \<and>
        (\<forall>e. da_cfg_element_id x = Some e \<longrightarrow> element_of b (da_graph_id x) e)) \<and>
     (\<forall>e \<in> set (data_flow_evidences batch). analysis_in batch (de_analysis_id e) (de_graph_id e) \<and>
        (\<forall>x. x \<in> {de_source_access_id e, de_target_access_id e} \<longrightarrow> x \<noteq> None \<longrightarrow>
           access_in batch (de_analysis_id e) (the x)) \<and>
        (\<forall>x. x \<in> {de_source_location_id e, de_target_location_id e} \<longrightarrow> x \<noteq> None \<longrightarrow>
           location_in batch (de_analysis_id e) (the x)))"

lemma protocol_value_error_Inr [simp]: "protocol_value_error m r = Inr x \<longleftrightarrow> r = Inr x"
  by (auto simp: protocol_value_error_def split: sum.splits exn.splits)

lemma data_flow_facts_stages:
  assumes "data_flow_facts E facts b = Inr (b3, batch)"
  obtains afs lfs xfs b1 b2 us vs ws analyses locations accesses evidence where
    "rfold (register_analysis E) afs b = Inr b1" "rfold (register_location E) lfs b1 = Inr b2"
    "rfold (register_access E) xfs b2 = Inr b3" "rmap (check_graph_of_analysis b3) (lfs @ xfs) = Inr us"
    "rmap (check_location_base E b3) lfs = Inr vs" "rmap (check_access E b3) xfs = Inr ws"
    "rmap (data_flow_analysis_fact E b3) afs = Inr analyses" "rmap (memory_location_fact E b3) lfs = Inr locations"
    "rmap (data_access_fact E b3) xfs = Inr accesses"
    "map_facts E (b_wire_identities b) facts ''data_flow_evidence_v1'' (data_flow_evidence_fact E b3) = Inr evidence"
    "set (data_flow_analyses batch) = set analyses" "set (memory_locations batch) = set locations"
    "set (data_accesses batch) = set accesses" "set (data_flow_evidences batch) = set evidence"
  using assms unfolding data_flow_facts_def Let_def
  by (auto simp: rbind_eq_Inr intro: that)

text \<open>A traced key whose fact produced a row.\<close>

lemma traced_row:
  assumes "traced fs field owners d" and "map_of d k = Some v" and "rmap g fs = Inr rows"
  obtains f ok row where "f \<in> set fs" "wire_string f ''key'' = Inr k" "wire_string f field = Inr ok"
    "map_of owners ok = Some v" "row \<in> set rows" "g f = Inr row"
  using assms rmap_in_result [OF assms(3)] unfolding traced_def by blast

lemma traced_analysis:
  assumes "traced afs ''graph_key'' (b_cfg_graph_ids b) (b_data_flow_analysis_graph_ids b)"
    and "rmap (data_flow_analysis_fact E b) afs = Inr analyses" and "set (data_flow_analyses batch) = set analyses"
    and "map_of (b_data_flow_analysis_ids b) ak = Some a" and "map_of (b_data_flow_analysis_graph_ids b) ak = Some g"
  shows "analysis_in batch a g"
proof -
  from assms(1,5,2) obtain f gk row where f: "wire_string f ''key'' = Inr ak" "wire_string f ''graph_key'' = Inr gk"
    "map_of (b_cfg_graph_ids b) gk = Some g" "row \<in> set analyses" "data_flow_analysis_fact E b f = Inr row"
    by (rule traced_row)
  have "fact_id row = a" "df_graph_id row = g"
    using data_flow_analysis_fact_eq [OF f(5,1,2)] assms(4) f(3) by simp_all
  then show ?thesis unfolding analysis_in_def assms(3) using f(4) by blast
qed

lemma traced_location:
  assumes "traced lfs ''analysis_key'' (b_data_flow_analysis_ids b) (b_memory_location_analysis_ids b)"
    and "rmap (memory_location_fact E b) lfs = Inr locations" and "set (memory_locations batch) = set locations"
    and "map_of (b_memory_location_analysis_ids b) lk = Some a" and "map_of (b_memory_location_ids b) lk = Some l"
  shows "location_in batch a l"
proof -
  from assms(1,4,2) obtain f ak row where f: "wire_string f ''key'' = Inr lk" "wire_string f ''analysis_key'' = Inr ak"
    "map_of (b_data_flow_analysis_ids b) ak = Some a" "row \<in> set locations" "memory_location_fact E b f = Inr row"
    by (rule traced_row)
  have "fact_id row = l" "ml_analysis_id row = a"
    using f(1-3) assms(5) by (auto intro: memory_location_fact_Inr [OF f(5)])
  then show ?thesis unfolding location_in_def assms(3) using f(4) by blast
qed

lemma traced_access:
  assumes "traced xfs ''analysis_key'' (b_data_flow_analysis_ids b) (b_data_access_analysis_ids b)"
    and "rmap (data_access_fact E b) xfs = Inr accesses" and "set (data_accesses batch) = set accesses"
    and "map_of (b_data_access_analysis_ids b) xk = Some a" and "map_of (b_data_access_ids b) xk = Some x"
  shows "access_in batch a x"
proof -
  from assms(1,4,2) obtain f ak row where f: "wire_string f ''key'' = Inr xk" "wire_string f ''analysis_key'' = Inr ak"
    "map_of (b_data_flow_analysis_ids b) ak = Some a" "row \<in> set accesses" "data_access_fact E b f = Inr row"
    by (rule traced_row)
  have "fact_id row = x" "da_analysis_id row = a"
    using f(1-3) assms(5) by (auto intro: data_access_fact_Inr [OF f(5)])
  then show ?thesis unfolding access_in_def assms(3) using f(4) by blast
qed

definition flow_fresh :: "builder \<Rightarrow> bool" where
  "flow_fresh b \<longleftrightarrow> b_data_flow_analysis_graph_ids b = [] \<and> b_memory_location_analysis_ids b = [] \<and>
     b_data_access_analysis_ids b = []"

text \<open>
  Property C8.  No data-flow relation crosses analyses, whatever the companion sends: when
  \<open>_data_flow_facts\<close> returns, every location, access and evidence row names an analysis of the
  batch and that analysis's own graph; the base of a location, the location of an access and both
  ends of an evidence row are rows of the same analysis; the block and the element of an access
  belong to its graph.
\<close>

theorem data_flow_facts_consistent:
  assumes "data_flow_facts E facts b = Inr (b', batch)" and "flow_fresh b"
  shows "flow_consistent b' batch"
  using assms(1)
proof (rule data_flow_facts_stages)
  fix afs lfs xfs b1 b2 us vs ws analyses locations accesses evidence
  assume reg: "rfold (register_analysis E) afs b = Inr b1" "rfold (register_location E) lfs b1 = Inr b2"
      "rfold (register_access E) xfs b2 = Inr b'"
    and checks: "rmap (check_graph_of_analysis b') (lfs @ xfs) = Inr us"
      "rmap (check_location_base E b') lfs = Inr vs" "rmap (check_access E b') xfs = Inr ws"
    and rows: "rmap (data_flow_analysis_fact E b') afs = Inr analyses"
      "rmap (memory_location_fact E b') lfs = Inr locations" "rmap (data_access_fact E b') xfs = Inr accesses"
      "map_facts E (b_wire_identities b) facts ''data_flow_evidence_v1'' (data_flow_evidence_fact E b') = Inr evidence"
    and batch: "set (data_flow_analyses batch) = set analyses" "set (memory_locations batch) = set locations"
      "set (data_accesses batch) = set accesses" "set (data_flow_evidences batch) = set evidence"
  note r1 = register_analyses [OF reg(1)] and r2 = register_locations [OF reg(2)] and r3 = register_accesses [OF reg(3)]
  have fresh: "b_data_flow_analysis_graph_ids b = []" "b_memory_location_analysis_ids b1 = []"
    "b_data_access_analysis_ids b2 = []"
    using assms(2) r1 r2 by (simp_all add: flow_fresh_def)
  note r1 = r1 [OF fresh(1)] and r2 = r2 [OF fresh(2)] and r3 = r3 [OF fresh(3)]
  have traced: "traced afs ''graph_key'' (b_cfg_graph_ids b') (b_data_flow_analysis_graph_ids b')"
    "traced lfs ''analysis_key'' (b_data_flow_analysis_ids b') (b_memory_location_analysis_ids b')"
    "traced xfs ''analysis_key'' (b_data_flow_analysis_ids b') (b_data_access_analysis_ids b')"
    using r1 r2 r3 by simp_all
  note analysis = traced_analysis [OF traced(1) rows(1) batch(1)]
    and location = traced_location [OF traced(2) rows(2) batch(2)]
    and access = traced_access [OF traced(3) rows(3) batch(3)]
  have graph: "\<exists>u. check_graph_of_analysis b' f = Inr u" if "f \<in> set lfs \<union> set xfs" for f
    using rmap_in_result [OF checks(1), of f] that by (simp only: set_append) blast
  show ?thesis
    unfolding flow_consistent_def batch
  proof (intro conjI ballI)
    fix l assume "l \<in> set locations"
    then obtain f where f: "f \<in> set lfs" "memory_location_fact E b' f = Inr l" using rmap_in_set [OF rows(2)] by blast
    from f(2) obtain k ak gk where k: "wire_string f ''analysis_key'' = Inr ak"
      "map_of (b_data_flow_analysis_ids b') ak = Some (ml_analysis_id l)" "wire_string f ''graph_key'' = Inr gk"
      "map_of (b_cfg_graph_ids b') gk = Some (ml_graph_id l)" by (rule memory_location_fact_Inr)
    show "analysis_in batch (ml_analysis_id l) (ml_graph_id l)"
      using graph [of f] f(1) check_graph_of_analysis_Inr [OF _ k(1,3,4)] analysis [OF k(2)] by blast
    obtain v where v: "check_location_base E b' f = Inr v" using rmap_in_result [OF checks(2) f(1)] by blast
    show "\<forall>x. ml_base_location_id l = Some x \<longrightarrow> location_in batch (ml_analysis_id l) x"
      using memory_location_fact_base [OF f(2)] check_location_base_Inr [OF v k(1,2)] location by blast
  next
    fix x assume "x \<in> set accesses"
    then obtain f where f: "f \<in> set xfs" "data_access_fact E b' f = Inr x" using rmap_in_set [OF rows(3)] by blast
    from f(2) obtain ak gk lk bk where k: "wire_string f ''analysis_key'' = Inr ak"
      "map_of (b_data_flow_analysis_ids b') ak = Some (da_analysis_id x)" "wire_string f ''graph_key'' = Inr gk"
      "map_of (b_cfg_graph_ids b') gk = Some (da_graph_id x)"
      "wire_string f ''location_key'' = Inr lk" "map_of (b_memory_location_ids b') lk = Some (da_location_id x)"
      "wire_string f ''block_key'' = Inr bk" "map_of (b_cfg_block_ids b') bk = Some (da_block_id x)"
      by (rule data_access_fact_Inr)
    show "analysis_in batch (da_analysis_id x) (da_graph_id x)"
      using graph [of f] f(1) check_graph_of_analysis_Inr [OF _ k(1,3,4)] analysis [OF k(2)] by blast
    obtain w where w: "check_access E b' f = Inr w" using rmap_in_result [OF checks(3) f(1)] by blast
    note ends = check_access_Inr [OF w k(1-4)]
    show "location_in batch (da_analysis_id x) (da_location_id x)" using location [OF ends(1) [OF k(5)] k(6)] .
    show "block_of b' (da_graph_id x) (da_block_id x)" unfolding block_of_def using ends(2) [OF k(7)] k(8) by blast
    show "\<forall>e. da_cfg_element_id x = Some e \<longrightarrow> element_of b' (da_graph_id x) e"
      using data_access_fact_element [OF f(2)] ends(3) unfolding element_of_def by blast
  next
    fix e assume "e \<in> set evidence"
    then obtain f where "data_flow_evidence_fact E b' f = Inr e" using map_facts_set(1) [OF rows(4)] by blast
    then obtain sa ta sl tl ak where k: "map_of (b_data_flow_analysis_ids b') ak = Some (de_analysis_id e)"
      "map_of (b_data_flow_analysis_graph_ids b') ak = Some (de_graph_id e)"
      and own: "\<not> foreign (b_data_access_analysis_ids b') (de_analysis_id e) [sa, ta]"
        "\<not> foreign (b_memory_location_analysis_ids b') (de_analysis_id e) [sl, tl]"
      and ends: "when_key (known_data_access b') sa = Inr (de_source_access_id e)"
        "when_key (known_data_access b') ta = Inr (de_target_access_id e)"
        "when_key (known_memory_location b') sl = Inr (de_source_location_id e)"
        "when_key (known_memory_location b') tl = Inr (de_target_location_id e)"
      by (rule data_flow_evidence_fact_Inr)
    show "analysis_in batch (de_analysis_id e) (de_graph_id e)" by (rule analysis [OF k])
    show "\<forall>x. x \<in> {de_source_access_id e, de_target_access_id e} \<longrightarrow> x \<noteq> None \<longrightarrow>
        access_in batch (de_analysis_id e) (the x)"
      using ends(1,2) known_unless_foreign [OF _ own(1)] access
      by (auto simp: known_data_access_def) blast+
    show "\<forall>x. x \<in> {de_source_location_id e, de_target_location_id e} \<longrightarrow> x \<noteq> None \<longrightarrow>
        location_in batch (de_analysis_id e) (the x)"
      using ends(3,4) known_unless_foreign [OF _ own(2)] location
      by (auto simp: known_memory_location_def) blast+
  qed
qed

definition flow_builder :: builder where
  "flow_builder = empty_builder\<lparr>b_keys := [(''f'', ''sym_f'')], b_cfg_graph_ids := [(''G'', ''cfg_1'')],
     b_cfg_graph_function_ids := [(''G'', ''sym_f'')], b_cfg_block_ids := [(''B'', ''block_1'')],
     b_cfg_block_graph_ids := [(''B'', ''cfg_1'')], b_callsite_ids := [(''C'', ''callsite_1'')]\<rparr>"

definition sample_access :: "string \<Rightarrow> string \<Rightarrow> int \<Rightarrow> wire_fact" where
  "sample_access key kind sequence =
     [(''fact'', JStr ''data_access_v1''), (''key'', JStr key), (''analysis_key'', JStr ''D''),
      (''graph_key'', JStr ''G''), (''block_key'', JStr ''B''), (''sequence'', JInt sequence),
      (''kind'', JStr kind), (''location_key'', JStr ''L''), (''points_to_complete'', JBool True)]"

definition sample_flow :: "wire_fact list" where
  "sample_flow =
     [[(''fact'', JStr ''data_flow_analysis_v1''), (''key'', JStr ''D''), (''graph_key'', JStr ''G''),
       (''complete'', JBool True), (''incomplete_reasons'', JArr []), (''iteration_count'', JInt 2),
       (''limits'', JObj [(''max_iterations'', JInt 9), (''max_alias_targets'', JInt 9),
          (''max_access_path_depth'', JInt 9), (''max_locations'', JInt 9)])],
      [(''fact'', JStr ''memory_location_v1''), (''key'', JStr ''L''), (''analysis_key'', JStr ''D''),
       (''graph_key'', JStr ''G''), (''kind'', JStr ''parameter''), (''name'', JStr ''p''),
       (''is_volatile'', JBool False), (''is_atomic'', JBool False)],
      sample_access ''A0'' ''parameter_definition'' 0, sample_access ''A1'' ''read'' 1,
      [(''fact'', JStr ''data_flow_evidence_v1''), (''key'', JStr ''E''), (''analysis_key'', JStr ''D''),
       (''graph_key'', JStr ''G''), (''relation'', JStr ''reaching_definition''), (''certainty'', JStr ''certain''),
       (''reason'', JStr ''r''), (''source_access_key'', JStr ''A0''), (''target_access_key'', JStr ''A1'')]]"

theorem data_flow_facts_consistent_witness:
  "\<exists>b' batch. data_flow_facts sample_env sample_flow flow_builder = Inr (b', batch) \<and>
     length (data_flow_evidences batch) = 1 \<and> flow_consistent b' batch"
proof -
  have "case data_flow_facts sample_env sample_flow flow_builder of
      Inr (b', batch) \<Rightarrow> length (data_flow_evidences batch) = 1 | Inl _ \<Rightarrow> False"
    by code_simp
  then obtain b' batch where run: "data_flow_facts sample_env sample_flow flow_builder = Inr (b', batch)"
    "length (data_flow_evidences batch) = 1"
    by (auto split: sum.splits)
  have "flow_fresh flow_builder" by (simp add: flow_fresh_def flow_builder_def empty_builder_def)
  from data_flow_facts_consistent [OF run(1) this] run show ?thesis by blast
qed

end
