(* ===== verification/SummaryConsistency.thy ===== *)
theory SummaryConsistency
imports FlowConsistency
begin

text \<open>
  What \<open>_interprocedural_facts\<close> guarantees about the local summaries the solver starts from: every
  fact belongs to a summary of the batch, names a parameter that summary has, and stays in its
  analysis.
\<close>

lemma rfold_traced:
  assumes "rfold step fs b = Inr b'" and "P b"
    and step: "\<And>f b b'. P b \<Longrightarrow> step f b = Inr b' \<Longrightarrow>
      P b' \<and> (\<forall>k v. Q b' k v \<longrightarrow> Q b k v \<or> (wire_string f ''key'' = Inr k \<and> R f v))"
    and "\<forall>k v. Q b k v \<longrightarrow> (\<exists>f \<in> set fs0. wire_string f ''key'' = Inr k \<and> R f v)"
  shows "P b' \<and> (\<forall>k v. Q b' k v \<longrightarrow> (\<exists>f \<in> set (fs0 @ fs). wire_string f ''key'' = Inr k \<and> R f v))"
  using assms(1,2,4)
proof (induction fs arbitrary: fs0 b)
  case (Cons f fs)
  from Cons.prems(1) obtain b1 where b1: "step f b = Inr b1" "rfold step fs b1 = Inr b'"
    by (auto simp: rbind_eq_Inr)
  from step [OF Cons.prems(2) b1(1)] have k: "P b1"
    "\<forall>j w. Q b1 j w \<longrightarrow> Q b j w \<or> (wire_string f ''key'' = Inr j \<and> R f w)" by blast+
  have "\<forall>j w. Q b1 j w \<longrightarrow> (\<exists>f' \<in> set (fs0 @ [f]). wire_string f' ''key'' = Inr j \<and> R f' w)"
    using Cons.prems(3) k(2) by fastforce
  from Cons.IH [OF b1(2) k(1) this] show ?case by simp
qed simp

section \<open>Registered summaries\<close>

text \<open>The length of the parameter list and the analysis registered for a summary key.\<close>

definition registered_summary :: "builder \<Rightarrow> string \<Rightarrow> nat \<times> string \<Rightarrow> bool" where
  "registered_summary b k na \<longleftrightarrow> map_of (b_function_summary_parameter_counts b) k = Some (fst na) \<and>
     map_of (b_function_summary_analysis_ids b) k = Some (snd na)"

definition summary_origin :: "builder \<Rightarrow> wire_fact \<Rightarrow> nat \<times> string \<Rightarrow> bool" where
  "summary_origin b f na \<longleftrightarrow> (\<exists>ak modes. wire_string f ''analysis_key'' = Inr ak \<and>
     map_of (b_data_flow_analysis_ids b) ak = Some (snd na) \<and>
     wire_string_list f ''parameter_modes'' = Inr modes \<and> length modes = fst na)"

lemma register_summary_Inr:
  assumes "register_summary E f b = Inr b'"
  obtains k ak a modes where "wire_string f ''key'' = Inr k" "wire_string f ''analysis_key'' = Inr ak"
    "map_of (b_data_flow_analysis_ids b) ak = Some a" "wire_string_list f ''parameter_modes'' = Inr modes"
    "b_function_summary_parameter_counts b' =
       AList.update k (length modes) (b_function_summary_parameter_counts b)"
    "b_function_summary_analysis_ids b' = AList.update k a (b_function_summary_analysis_ids b)"
    "b_data_flow_analysis_ids b' = b_data_flow_analysis_ids b"
  using assms
  by (auto simp: register_summary_def rbind_eq_Inr flow_known summary_inconsistent_def split: if_split_asm)

definition summary_fresh :: "builder \<Rightarrow> bool" where
  "summary_fresh b \<longleftrightarrow> b_function_summary_parameter_counts b = [] \<and> b_function_summary_analysis_ids b = []"

lemma register_summaries:
  assumes "rfold (register_summary E) fs b = Inr b'" and "summary_fresh b"
  shows "registered_summary b' k na \<Longrightarrow> \<exists>f \<in> set fs. wire_string f ''key'' = Inr k \<and> summary_origin b' f na"
    and "(map_of (b_function_summary_parameter_counts b') k = None) =
      (map_of (b_function_summary_analysis_ids b') k = None)"
proof -
  let ?P = "\<lambda>s. b_data_flow_analysis_ids s = b_data_flow_analysis_ids b \<and>
    (\<forall>k. (map_of (b_function_summary_parameter_counts s) k = None) =
         (map_of (b_function_summary_analysis_ids s) k = None))"
  have "?P b' \<and> (\<forall>k v. registered_summary b' k v \<longrightarrow>
      (\<exists>f \<in> set ([] @ fs). wire_string f ''key'' = Inr k \<and> summary_origin b f v))"
  proof (rule rfold_traced [OF assms(1), where P = ?P])
    fix f s s' assume "?P s" "register_summary E f s = Inr s'"
    then show "?P s' \<and> (\<forall>k v. registered_summary s' k v \<longrightarrow> registered_summary s k v \<or>
        (wire_string f ''key'' = Inr k \<and> summary_origin b f v))"
      by (elim register_summary_Inr)
        (auto simp: registered_summary_def summary_origin_def update_conv' split: if_split_asm)
  qed (use assms(2) in \<open>simp_all add: registered_summary_def summary_fresh_def\<close>)
  then show "registered_summary b' k na \<Longrightarrow> \<exists>f \<in> set fs. wire_string f ''key'' = Inr k \<and> summary_origin b' f na"
    "(map_of (b_function_summary_parameter_counts b') k = None) =
      (map_of (b_function_summary_analysis_ids b') k = None)"
    by (simp_all add: summary_origin_def)
qed

section \<open>Rows\<close>

lemma function_summary_fact_Inr:
  assumes "function_summary_fact E b f = Inr x"
  obtains k ak modes where "wire_string f ''key'' = Inr k" "map_of (b_function_summary_ids b) k = Some (fact_id x)"
    "wire_string f ''analysis_key'' = Inr ak" "map_of (b_data_flow_analysis_ids b) ak = Some (fs_analysis_id x)"
    "wire_string_list f ''parameter_modes'' = Inr modes" "modes = fs_parameter_modes x"
proof -
  have kept: "P" if "post_init_function_summary y = Inr x"
    "fact_id y = fact_id x \<Longrightarrow> fs_analysis_id y = fs_analysis_id x \<Longrightarrow>
      fs_parameter_modes y = fs_parameter_modes x \<Longrightarrow> P" for P y
    using that by (auto simp: post_init_function_summary_def Let_def split: if_split_asm)
  have guarded: "P" if "(if c then Inl m else r) = Inr x" "r = Inr x \<Longrightarrow> P" for P c m r and x :: function_summary
    using that by (simp split: if_split_asm)
  from assms show thesis
    unfolding function_summary_fact_def rbind_eq_Inr summary_inconsistent_def
    apply (elim exE conjE guarded)
    apply (unfold rbind_eq_Inr)
    apply (elim exE conjE guarded)
    apply (unfold rbind_eq_Inr)
    apply (elim exE conjE kept)
    apply (rule that)
         apply (auto simp: flow_known known_function_summary_def)
    done
qed

definition in_range :: "int option \<Rightarrow> nat \<Rightarrow> bool" where
  "in_range index n \<longleftrightarrow> (case index of None \<Rightarrow> True | Some i \<Rightarrow> 0 \<le> i \<and> i < int n)"

text \<open>An identifier registered for an analysis, in one pair of dictionaries.\<close>

definition owned :: "(string \<times> string) list \<Rightarrow> (string \<times> string) list \<Rightarrow> string \<Rightarrow> string option \<Rightarrow> bool" where
  "owned ids owners a x \<longleftrightarrow> (case x of None \<Rightarrow> True
     | Some i \<Rightarrow> \<exists>k. map_of ids k = Some i \<and> map_of owners k = Some a)"

definition owned_location :: "builder \<Rightarrow> string \<Rightarrow> string option \<Rightarrow> bool" where
  "owned_location b = owned (b_memory_location_ids b) (b_memory_location_analysis_ids b)"

definition owned_access :: "builder \<Rightarrow> string \<Rightarrow> string option \<Rightarrow> bool" where
  "owned_access b = owned (b_data_access_ids b) (b_data_access_analysis_ids b)"

text \<open>The summary key a converted fact names, and what was checked about it.\<close>

definition names_summary :: "builder \<Rightarrow> string \<Rightarrow> int option \<Rightarrow> string option \<Rightarrow> string option \<Rightarrow> bool" where
  "names_summary b summary_id index location_id access_id \<longleftrightarrow> (\<exists>k a.
     map_of (b_function_summary_ids b) k = Some summary_id \<and> map_of (b_function_summary_analysis_ids b) k = Some a \<and>
     (index \<noteq> None \<longrightarrow> (\<exists>n. map_of (b_function_summary_parameter_counts b) k = Some n \<and> in_range index n)) \<and>
     owned_location b a location_id \<and> owned_access b a access_id)"

lemma validate_summary_analysis_Inr:
  assumes "validate_summary_analysis b sk lk xk = Inr u"
  shows "\<exists>a. map_of (b_function_summary_analysis_ids b) sk = Some a \<and>
    (truthy lk \<longrightarrow> map_of (b_memory_location_analysis_ids b) (the lk) = Some a) \<and>
    (truthy xk \<longrightarrow> map_of (b_data_access_analysis_ids b) (the xk) = Some a)"
  using assms
  by (simp add: validate_summary_analysis_def summary_inconsistent_def split: option.splits if_split_asm)

lemma wire_optional_index_Inr:
  assumes "wire_optional_non_negative_integer f name = Inr (Some i)"
  shows "0 \<le> i"
  using assms
  unfolding wire_optional_non_negative_integer_def wire_non_negative_integer_def invalid_field_def
  by (auto simp: rbind_eq_Inr rmap_result_def split: if_split_asm sum.splits)

lemma parameter_index_field_Inr:
  assumes "parameter_index_field b m sk f = Inr index" and "index \<noteq> None"
  shows "\<exists>n. map_of (b_function_summary_parameter_counts b) sk = Some n \<and> in_range index n"
proof -
  from assms(1) obtain index' where i: "wire_optional_non_negative_integer f ''parameter_index'' = Inr index'"
    and rest: "(case index' of None \<Rightarrow> Inr None
       | Some i \<Rightarrow> rbind (dict_index (b_function_summary_parameter_counts b) sk) (\<lambda>count.
           if int count \<le> i then Inl (AnalyzerProtocolError m) else Inr (Some i))) = Inr index"
    unfolding parameter_index_field_def rbind_eq_Inr by (elim exE conjE)
  show ?thesis
    using assms(2) i rest wire_optional_index_Inr
    by (cases index') (auto simp: rbind_eq_Inr dict_index_def in_range_def split: option.splits if_split_asm)
qed

lemma owned_when_key:
  assumes "when_key (known m ids) k = Inr x" and "truthy k \<Longrightarrow> map_of owners (the k) = Some a"
  shows "owned ids owners a x"
  using assms by (auto simp: when_key_Inr owned_def split: if_split_asm)

lemma names_summaryI:
  assumes "known_function_summary b sk = Inr summary_id" and "validate_summary_analysis b sk lk xk = Inr u"
    and "index = None \<or> parameter_index_field b m sk f = Inr index"
    and "when_key (known_memory_location b) lk = Inr location_id"
    and "when_key (known_data_access b) xk = Inr access_id"
  shows "names_summary b summary_id index location_id access_id"
proof -
  from validate_summary_analysis_Inr [OF assms(2)] obtain a
    where a: "map_of (b_function_summary_analysis_ids b) sk = Some a"
    "truthy lk \<Longrightarrow> map_of (b_memory_location_analysis_ids b) (the lk) = Some a"
    "truthy xk \<Longrightarrow> map_of (b_data_access_analysis_ids b) (the xk) = Some a" by blast
  show ?thesis
    unfolding names_summary_def
  proof (rule exI [of _ sk], rule exI [of _ a], intro conjI impI)
    show "map_of (b_function_summary_ids b) sk = Some summary_id"
      using assms(1) by (simp add: known_function_summary_def)
    show "map_of (b_function_summary_analysis_ids b) sk = Some a" by (rule a(1))
    show "\<exists>n. map_of (b_function_summary_parameter_counts b) sk = Some n \<and> in_range index n" if "index \<noteq> None"
      using parameter_index_field_Inr [OF _ that] assms(3) that by simp
    show "owned_location b a location_id" unfolding owned_location_def
      by (rule owned_when_key [OF assms(4) [unfolded known_memory_location_def] a(2)])
    show "owned_access b a access_id" unfolding owned_access_def
      by (rule owned_when_key [OF assms(5) [unfolded known_data_access_def] a(3)])
  qed
qed

lemma when_key_None [simp]: "when_key f None = Inr None"
  by (simp add: when_key_def)

lemma summary_effect_fact_names:
  assumes "summary_effect_fact E b f = Inr x"
  shows "names_summary b (se_summary_id x) (se_parameter_index x) (se_location_id x) (se_source_access_id x)"
proof -
  have kept: "P" if "post_init_summary_effect y = Inr x" "x = y \<Longrightarrow> P" for P y
    using that by (simp add: post_init_summary_effect_def split: if_split_asm)
  from assms show ?thesis
    unfolding summary_effect_fact_def rbind_eq_Inr
    apply (elim exE conjE kept)
    apply (simp only: summary_effect.simps)
    apply (rule names_summaryI)
        apply assumption
       apply assumption
      apply (rule disjI2)
      apply assumption+
    done
qed

lemma summary_return_origin_fact_names:
  assumes "summary_return_origin_fact E b f = Inr x"
  shows "names_summary b (so_summary_id x) (so_parameter_index x) (so_location_id x) None"
proof -
  have kept: "P" if "post_init_summary_return_origin y = Inr x" "x = y \<Longrightarrow> P" for P y
    using that by (simp add: post_init_summary_return_origin_def split: if_split_asm)
  from assms show ?thesis
    unfolding summary_return_origin_fact_def rbind_eq_Inr
    apply (elim exE conjE kept)
    apply (simp only: summary_return_origin.simps)
    apply (rule names_summaryI)
        apply assumption
       apply assumption
      apply (rule disjI2)
      apply assumption+
    apply (rule when_key_None)
    done
qed

lemma call_argument_binding_fact_names:
  assumes "call_argument_binding_fact E b f = Inr x"
  shows "names_summary b (ab_caller_summary_id x) (ab_parameter_index x) (ab_location_id x) None"
proof -
  have kept: "P" if "post_init_call_argument_binding y = Inr x" "x = y \<Longrightarrow> P" for P y
    using that by (simp add: post_init_call_argument_binding_def split: if_split_asm)
  have guarded: "P" if "(if c then Inl m else r) = Inr x" "r = Inr x \<Longrightarrow> P" for P c m r and x :: call_argument_binding
    using that by (simp split: if_split_asm)
  from assms show ?thesis
    unfolding call_argument_binding_fact_def rbind_eq_Inr
    apply (elim exE conjE guarded)
    apply (unfold rbind_eq_Inr)
    apply (elim exE conjE kept)
    apply (simp only: call_argument_binding.simps)
    apply (rule names_summaryI)
        apply assumption
       apply assumption
      apply (rule disjI2)
      apply assumption+
    apply (rule when_key_None)
    done
qed

lemma call_result_binding_fact_names:
  assumes "call_result_binding_fact E b f = Inr x"
  shows "names_summary b (rb_caller_summary_id x) None (Some (rb_location_id x)) (Some (rb_definition_access_id x))"
proof -
  have kept: "P" if "post_init_call_result_binding y = Inr x" "x = y \<Longrightarrow> P" for P y
    using that by (simp add: post_init_call_result_binding_def split: if_split_asm)
  have nonempty: "when_key g (Some k) = Inr (Some v)" if "wire_string f n = Inr k" "g k = Inr v" for g n k and v :: string
    using that by (auto simp: when_key_def wire_string_def invalid_field_def split: option.splits json.splits if_split_asm)
  from assms show ?thesis
    unfolding call_result_binding_fact_def rbind_eq_Inr
    apply (elim exE conjE kept)
    apply (simp only: call_result_binding.simps)
    apply (rule names_summaryI)
        apply assumption
       apply assumption
      apply (rule disjI1)
      apply (rule refl)
     apply (erule nonempty, assumption)
    apply (erule nonempty [where n = "''definition_access_key''"], assumption)
    done
qed

section \<open>The batch\<close>

definition summary_with ::
    "builder \<Rightarrow> summary_batch \<Rightarrow> string \<Rightarrow> int option \<Rightarrow> string option \<Rightarrow> string option \<Rightarrow> bool" where
  "summary_with b batch summary_id index location_id access_id \<longleftrightarrow>
     (\<exists>s \<in> set (function_summaries batch). fact_id s = summary_id \<and>
        in_range index (length (fs_parameter_modes s)) \<and>
        owned_location b (fs_analysis_id s) location_id \<and> owned_access b (fs_analysis_id s) access_id)"

definition summary_consistent :: "builder \<Rightarrow> summary_batch \<Rightarrow> bool" where
  "summary_consistent b batch \<longleftrightarrow>
     (\<forall>e \<in> set (summary_effects batch).
        summary_with b batch (se_summary_id e) (se_parameter_index e) (se_location_id e) (se_source_access_id e)) \<and>
     (\<forall>r \<in> set (summary_return_origins batch).
        summary_with b batch (so_summary_id r) (so_parameter_index r) (so_location_id r) None) \<and>
     (\<forall>x \<in> set (call_argument_bindings batch).
        summary_with b batch (ab_caller_summary_id x) (ab_parameter_index x) (ab_location_id x) None) \<and>
     (\<forall>x \<in> set (call_result_bindings batch).
        summary_with b batch (rb_caller_summary_id x) None (Some (rb_location_id x)) (Some (rb_definition_access_id x)))"

lemma summary_row:
  assumes "rfold (register_summary E) fs b = Inr b'" and "summary_fresh b"
    and "rmap (function_summary_fact E b') fs = Inr summaries" and "set (function_summaries batch) = set summaries"
    and "names_summary b' summary_id index location_id access_id"
  shows "summary_with b' batch summary_id index location_id access_id"
proof -
  note reg = register_summaries [OF assms(1,2)]
  from assms(5) obtain k a where k: "map_of (b_function_summary_ids b') k = Some summary_id"
    "map_of (b_function_summary_analysis_ids b') k = Some a"
    "index \<noteq> None \<Longrightarrow> \<exists>n. map_of (b_function_summary_parameter_counts b') k = Some n \<and> in_range index n"
    "owned_location b' a location_id" "owned_access b' a access_id"
    unfolding names_summary_def by blast
  obtain n where n: "map_of (b_function_summary_parameter_counts b') k = Some n" using reg(2) [of k] k(2) by auto
  from reg(1) [of k "(n, a)"] n k(2) obtain f ak modes where f: "f \<in> set fs" "wire_string f ''key'' = Inr k"
    "wire_string f ''analysis_key'' = Inr ak" "map_of (b_data_flow_analysis_ids b') ak = Some a"
    "wire_string_list f ''parameter_modes'' = Inr modes" "length modes = n"
    by (auto simp: registered_summary_def summary_origin_def)
  obtain s where s: "s \<in> set summaries" "function_summary_fact E b' f = Inr s"
    using rmap_in_result [OF assms(3) f(1)] by blast
  have "fact_id s = summary_id" "fs_analysis_id s = a" "length (fs_parameter_modes s) = n"
    using f k(1) by (auto intro: function_summary_fact_Inr [OF s(2)])
  moreover have "in_range index n" using k(3) n by (cases index) (auto simp: in_range_def)
  ultimately show ?thesis unfolding summary_with_def assms(4) using s(1) k(4,5) by blast
qed

text \<open>
  Property C9.  The local summaries the solver starts from are closed: when
  \<open>_interprocedural_facts\<close> returns, every effect, return origin and call binding belongs to a
  summary of the batch, every parameter index is smaller than that summary's number of parameters,
  and the locations and accesses named were registered for that summary's analysis.
\<close>

theorem interprocedural_facts_consistent:
  assumes "interprocedural_facts E facts b = Inr (b', batch)" and "summary_fresh b"
  shows "summary_consistent b' batch"
proof -
  let ?ids = "b_wire_identities b"
  from assms(1) obtain fs summaries effects origins arguments results where
    reg: "rfold (register_summary E) fs b = Inr b'" "rmap (function_summary_fact E b') fs = Inr summaries" and
    rows: "map_facts E ?ids facts ''summary_effect_v1'' (summary_effect_fact E b') = Inr effects"
      "map_facts E ?ids facts ''summary_return_origin_v1'' (summary_return_origin_fact E b') = Inr origins"
      "map_facts E ?ids facts ''call_argument_binding_v1'' (call_argument_binding_fact E b') = Inr arguments"
      "map_facts E ?ids facts ''call_result_binding_v1'' (call_result_binding_fact E b') = Inr results" and
    batch: "set (function_summaries batch) = set summaries" "set (summary_effects batch) = set effects"
      "set (summary_return_origins batch) = set origins" "set (call_argument_bindings batch) = set arguments"
      "set (call_result_bindings batch) = set results"
    unfolding interprocedural_facts_def Let_def by (auto simp: rbind_eq_Inr)
  note row = summary_row [OF reg(1) assms(2) reg(2) batch(1)]
  note from_fact = map_facts_set(1) [OF rows(1)] map_facts_set(1) [OF rows(2)] map_facts_set(1) [OF rows(3)]
    map_facts_set(1) [OF rows(4)]
  show ?thesis
    unfolding summary_consistent_def batch
    using from_fact summary_effect_fact_names summary_return_origin_fact_names
      call_argument_binding_fact_names call_result_binding_fact_names row
    by (intro conjI ballI) metis+
qed

definition summary_builder :: builder where
  "summary_builder = flow_builder\<lparr>b_data_flow_analysis_ids := [(''D'', ''data_flow_1'')],
     b_data_flow_analysis_graph_ids := [(''D'', ''cfg_1'')], b_memory_location_ids := [(''L'', ''memory_1'')],
     b_memory_location_analysis_ids := [(''L'', ''data_flow_1'')], b_data_access_ids := [(''A0'', ''access_1'')],
     b_data_access_analysis_ids := [(''A0'', ''data_flow_1'')]\<rparr>"

definition sample_summary_facts :: "wire_fact list" where
  "sample_summary_facts =
     [[(''fact'', JStr ''function_summary_v1''), (''key'', JStr ''S''), (''analysis_key'', JStr ''D''),
       (''graph_key'', JStr ''G''), (''function_key'', JStr ''f''), (''parameter_modes'', JArr [JStr ''value'']),
       (''parameter_location_keys'', JArr [JStr ''L'']), (''local_incomplete_reasons'', JArr []),
       (''local_complete'', JBool True)],
      [(''fact'', JStr ''summary_effect_v1''), (''key'', JStr ''X''), (''summary_key'', JStr ''S''),
       (''location_key'', JStr ''L''), (''source_access_key'', JStr ''A0''), (''parameter_index'', JInt 0),
       (''kind'', JStr ''read''), (''location_kind'', JStr ''parameter''), (''certainty'', JStr ''certain''),
       (''reason'', JStr ''r''), (''access_path'', JArr [])]]"

theorem interprocedural_facts_consistent_witness:
  "\<exists>b' batch. interprocedural_facts sample_env sample_summary_facts summary_builder = Inr (b', batch) \<and>
     map se_parameter_index (summary_effects batch) = [Some 0] \<and> summary_consistent b' batch"
proof -
  have "case interprocedural_facts sample_env sample_summary_facts summary_builder of
      Inr (b', batch) \<Rightarrow> map se_parameter_index (summary_effects batch) = [Some 0] | Inl _ \<Rightarrow> False"
    by code_simp
  then obtain b' batch where run:
    "interprocedural_facts sample_env sample_summary_facts summary_builder = Inr (b', batch)"
    "map se_parameter_index (summary_effects batch) = [Some 0]"
    by (auto split: sum.splits)
  have "summary_fresh summary_builder"
    by (simp add: summary_fresh_def summary_builder_def flow_builder_def empty_builder_def)
  from interprocedural_facts_consistent [OF run(1) this] run show ?thesis by - (intro exI conjI, assumption+)
qed

end
