(* ===== verification/BuilderBatch.thy ===== *)
theory BuilderBatch
imports SummaryConsistency
begin

text \<open>
  \<open>_FactBatchBuilder.build\<close>: one pass over the facts of a translation unit that produces the
  ingestion batch, and \<open>_add_indexed_override_candidates\<close>, which completes virtual calls from the
  override edges of a build.
\<close>

section \<open>Chunked symbols\<close>

text \<open>
  The \<open>while chunks.pending\<close> loop: fragments are taken from the spool until the symbol is whole.
\<close>

fun drain_chunks ::
    "(string \<Rightarrow> string) \<Rightarrow> wire_fact list \<Rightarrow> symbol_text \<Rightarrow> wire_fact option
      \<Rightarrow> (wire_fact list \<times> symbol_text \<times> wire_fact option) result" where
  "drain_chunks H fragments s logical =
     (if \<not> pending s then Inr (fragments, s, logical)
      else case fragments of
        [] \<Rightarrow> rbind (finish_text s) (\<lambda>_. Inl AssertionError)
      | f # later \<Rightarrow> rbind (accept_text H f s) (\<lambda>(s', logical'). drain_chunks H later s' logical'))"

declare drain_chunks.simps [simp del]

definition symbol_step ::
    "builder_env \<Rightarrow> wire_fact \<Rightarrow> builder \<times> wire_fact list \<times> symbol_text
      \<Rightarrow> (builder \<times> wire_fact list \<times> symbol_text) result" where
  "symbol_step E f state =
     (let (b, fragments, s) = state in
      rbind (accept_text (be_hash E) f s) (\<lambda>(s1, logical1).
      rbind (drain_chunks (be_hash E) fragments s1 logical1) (\<lambda>(fragments', s', logical).
      case logical of
        None \<Rightarrow> Inl AssertionError
      | Some g \<Rightarrow> rmap_result (\<lambda>b'. (b', fragments', s')) (symbol_fact E g b))))"

definition symbols_pass :: "builder_env \<Rightarrow> wire_fact list \<Rightarrow> builder \<Rightarrow> builder result" where
  "symbols_pass E facts b =
     rbind (each_fact E (b_wire_identities b) facts ''symbol'' (symbol_step E)
        (b, of_kind SYMBOL_TEXT_CHUNK_KIND facts, new_symbol_text True)) (\<lambda>(b', fragments, _).
       if fragments \<noteq> [] then Inl (AnalyzerProtocolError ''analyzer emitted unused symbol text chunks'')
       else Inr b')"

section \<open>The batch\<close>

record ingestion_batch =
  ib_build_configurations :: "build_configuration list"
  ib_translation_units :: "translation_unit list"
  ib_symbols :: "code_symbol list"
  ib_occurrences :: "symbol_occurrence list"
  ib_edges :: "graph_edge list"
  ib_cfg :: cfg_batch
  ib_callsites :: "call_site list"
  ib_call_targets :: "call_target list"
  ib_flow :: flow_batch
  ib_summaries :: summary_batch

definition no_cfg :: cfg_batch where
  "no_cfg = \<lparr>cfg_graphs = [], cfg_blocks = [], cfg_elements = [], cfg_edges = []\<rparr>"

definition no_flow :: flow_batch where
  "no_flow = \<lparr>data_flow_analyses = [], memory_locations = [], data_accesses = [], data_flow_evidences = []\<rparr>"

definition no_summaries :: summary_batch where
  "no_summaries = \<lparr>function_summaries = [], summary_effects = [], summary_return_origins = [],
     call_argument_bindings = [], call_result_bindings = []\<rparr>"

definition include_step :: "builder_env \<Rightarrow> wire_fact \<Rightarrow> builder \<Rightarrow> builder result" where
  "include_step E f b =
     (case map_of f ''resolved_path'' of
        Some (JStr raw) \<Rightarrow> rbind (authorized_path E raw) (\<lambda>path. file_symbol E path None b)
      | _ \<Rightarrow> Inr b)"

definition edge_step ::
    "builder_env \<Rightarrow> builder \<Rightarrow> wire_fact \<Rightarrow> (string \<times> graph_edge) list \<Rightarrow> (string \<times> graph_edge) list result" where
  "edge_step E b f d =
     rmap_result (\<lambda>edge. case edge of None \<Rightarrow> d | Some e \<Rightarrow> AList.update (fact_id e) e d) (edge_fact E b f)"

text \<open>The passes every profile runs: files, symbols, includes, occurrences, edges, calls.\<close>

definition navigation_pass :: "builder_env \<Rightarrow> wire_fact list
      \<Rightarrow> (builder \<times> symbol_occurrence list \<times> graph_edge list \<times> call_site list \<times> call_target list) result" where
  "navigation_pass E facts =
     (let ids = [] in
      rbind (each_fact E ids facts ''file'' (file_fact E) empty_builder) (\<lambda>b1.
      rbind (symbols_pass E facts b1) (\<lambda>b2.
      rbind (each_fact E ids facts ''include'' (include_step E) b2) (\<lambda>b3.
      rbind (map_facts E ids facts ''occurrence'' (occurrence_fact E b3)) (\<lambda>occurrences.
      rbind (each_fact E ids facts ''edge'' (edge_step E b3) []) (\<lambda>edges1.
      rbind (each_fact E ids facts ''include'' (edge_step E b3) edges1) (\<lambda>edges.
      rbind (call_facts E facts b3) (\<lambda>(b4, callsites, targets).
        Inr (b4, map snd (dict_of (map (\<lambda>x. (fact_id x, x)) occurrences)), map snd edges,
             callsites, targets)))))))))"

text \<open>The passes of the full profile, over the compact keys.\<close>

definition advanced_pass ::
    "builder_env \<Rightarrow> wire_fact list \<Rightarrow> builder \<Rightarrow> (builder \<times> cfg_batch \<times> flow_batch \<times> summary_batch) result" where
  "advanced_pass E facts b =
     (if be_profile E = PROFILE_FULL
      then rbind (prepare_wire_keys (be_hash E) facts) (\<lambda>identities.
           rbind (cfg_facts E facts (b\<lparr>b_wire_identities := identities\<rparr>)) (\<lambda>(b1, cfg).
           rbind (data_flow_facts E facts b1) (\<lambda>(b2, flow).
           rbind (interprocedural_facts E facts b2) (\<lambda>(b3, summaries).
             Inr (b3, cfg, flow, summaries)))))
      else Inr (b, no_cfg, no_flow, no_summaries))"

definition file_hash :: "builder_env \<Rightarrow> string \<Rightarrow> string result" where
  "file_hash E path = (case fs_read (be_fs E) path of
     None \<Rightarrow> Inl OSError | Some content \<Rightarrow> Inr (be_hash E content))"

definition dependencies :: "builder_env \<Rightarrow> builder \<Rightarrow> (string \<times> string) list result" where
  "dependencies E b =
     rmap (\<lambda>path. rmap_result (Pair path) (file_hash E path))
       (sort_key path_parts (remdups (map snd (b_files b))))"

definition build_unit :: "builder_env \<Rightarrow> builder \<Rightarrow> translation_unit result" where
  "build_unit E b =
     (let c = be_configuration E; full = (be_profile E = PROFILE_FULL) in
      rbind (dependencies E b) (\<lambda>deps.
      rbind (file_hash E (bc_source_path c)) (\<lambda>content.
        Inr \<lparr>tu_id = unit_id E, tu_build_configuration_id = configuration_id E,
             tu_source_path = bc_source_path c, tu_content_hash = content, tu_dependencies = deps,
             tu_diagnostics = [], tu_build_variant = variant_name E,
             tu_analysis_backend = ''clang-libtooling'', tu_advanced_facts_complete = full,
             tu_index_profile = be_profile E, tu_navigation_facts_complete = Some True,
             tu_cfg_facts_complete = Some full, tu_data_flow_facts_complete = Some full,
             tu_summary_facts_complete = Some full, tu_analyzer_identity = be_analyzer_identity E\<rparr>)))"

definition build :: "builder_env \<Rightarrow> wire_fact list \<Rightarrow> ingestion_batch result" where
  "build E facts =
     rbind (navigation_pass E facts) (\<lambda>(b1, occurrences, edges, callsites, targets).
     rbind (advanced_pass E facts b1) (\<lambda>(b2, cfg, flow, summaries).
     rbind (build_unit E b2) (\<lambda>unit.
       Inr \<lparr>ib_build_configurations = [be_configuration E], ib_translation_units = [unit],
            ib_symbols = sort_key fact_id (map snd (b_symbols b2)),
            ib_occurrences = sort_key fact_id occurrences, ib_edges = sort_key fact_id edges,
            ib_cfg = cfg, ib_callsites = callsites, ib_call_targets = targets, ib_flow = flow,
            ib_summaries = summaries\<rparr>)))"

end
