(* ===== verification/BatchClosure.thy ===== *)
theory BatchClosure
imports BuilderBatch
begin

text \<open>
  The batch \<open>build\<close> returns is closed: whatever a row refers to is a row of the same batch.
\<close>

section \<open>Symbols\<close>

text \<open>Every registered key names a symbol, and every symbol is filed under its identifier.\<close>

definition symbols_inv :: "builder \<Rightarrow> bool" where
  "symbols_inv b \<longleftrightarrow>
     (\<forall>k i. map_of (b_keys b) k = Some i \<longrightarrow> map_of (b_symbols b) i \<noteq> None) \<and>
     (\<forall>i s. map_of (b_symbols b) i = Some s \<longrightarrow> fact_id s = i) \<and> distinct (map fst (b_symbols b))"

lemma post_init_code_symbol_same: "post_init_code_symbol y = Inr x \<Longrightarrow> x = y"
  by (simp add: post_init_code_symbol_def split: if_split_asm)

lemma symbols_inv_insert:
  assumes "symbols_inv b" and "fact_id s = i"
    and "b_keys b' = AList.update k i (b_keys b)" and "b_symbols b' = AList.update i s (b_symbols b)"
  shows "symbols_inv b'"
  using assms by (auto simp: symbols_inv_def update_conv' distinct_update)

lemma symbols_inv_alias:
  assumes "symbols_inv b" and "map_of (b_symbols b) i \<noteq> None"
    and "b_keys b' = AList.update k i (b_keys b)" and "b_symbols b' = b_symbols b"
  shows "symbols_inv b'"
  using assms by (auto simp: symbols_inv_def update_conv')

lemma symbols_inv_files [simp]: "symbols_inv (b\<lparr>b_files := fs\<rparr>) = symbols_inv b"
  by (simp add: symbols_inv_def)

lemma file_symbol_inv:
  assumes "file_symbol E path given b = Inr b'" and "symbols_inv b"
  shows "symbols_inv b'"
proof -
  have fresh: "symbols_inv (b\<lparr>b_keys := AList.update k i (b_keys b), b_files := fs,
      b_symbols := AList.update i s (b_symbols b)\<rparr>)" if "fact_id s = i" for k i fs s
    by (rule symbols_inv_insert [OF assms(2) that]) simp_all
  have aliased: "symbols_inv (b\<lparr>b_keys := AList.update k i (b_keys b), b_files := fs\<rparr>)"
    if "map_of (b_symbols b) i \<noteq> None" for k i fs
    by (rule symbols_inv_alias [OF assms(2) that]) simp_all
  have chosen: "symbols_inv b'"
    if "(if map_of (b_symbols b) i \<noteq> None then Inr (b\<lparr>b_keys := AList.update k i (b_keys b), b_files := fs\<rparr>)
      else case c of None \<Rightarrow> Inl OSError
        | Some content \<Rightarrow> rbind (r content) (\<lambda>l. rbind (post_init_code_symbol (y content l)) (\<lambda>s.
            Inr (b\<lparr>b_keys := AList.update k i (b_keys b), b_files := fs,
                   b_symbols := AList.update i s (b_symbols b)\<rparr>)))) = (Inr b' :: builder result)"
      "\<And>content l. fact_id (y content l) = i" for i k fs c r and y :: "string \<Rightarrow> source_span \<Rightarrow> code_symbol"
    using that aliased [where i = i and k = k and fs = fs] fresh post_init_code_symbol_same
    by (auto simp: rbind_eq_Inr split: if_split_asm option.splits) metis
  from assms(1) show ?thesis
    unfolding file_symbol_def Let_def rbind_eq_Inr
    by (elim exE conjE) (erule chosen, simp)
qed

lemma file_fact_inv: "file_fact E f b = Inr b' \<Longrightarrow> symbols_inv b \<Longrightarrow> symbols_inv b'"
  unfolding file_fact_def rbind_eq_Inr
  by (elim exE conjE, erule file_symbol_inv) simp

lemma symbol_fact_inv:
  assumes "symbol_fact E f b = Inr b'" and "symbols_inv b"
  shows "symbols_inv b'"
proof -
  have fresh: "symbols_inv (b\<lparr>b_keys := AList.update k (fact_id s) (b_keys b),
      b_symbols := AList.update (fact_id s) s (b_symbols b)\<rparr>)" for k s
    by (rule symbols_inv_insert [OF assms(2)]) simp_all
  have aliased: "symbols_inv (b\<lparr>b_keys := AList.update k i (b_keys b)\<rparr>)"
    if "map_of (b_symbols b) i = Some s" for k i s
    by (rule symbols_inv_alias [OF assms(2)]) (simp_all add: that)
  have chosen: "symbols_inv b'" if "post_init_code_symbol y = Inr s" "fact_id y = i"
    "Inr (case map_of (b_symbols b) i of
        None \<Rightarrow> b\<lparr>b_keys := AList.update k i (b_keys b), b_symbols := AList.update i s (b_symbols b)\<rparr>
      | Some previous \<Rightarrow> if is_definition s \<and> \<not> is_definition previous
          then b\<lparr>b_keys := AList.update k i (b_keys b), b_symbols := AList.update i s (b_symbols b)\<rparr>
          else b\<lparr>b_keys := AList.update k i (b_keys b)\<rparr>) = (Inr b' :: builder result)" for y s i k
    using that fresh [where s = s and k = k] aliased [where k = k and i = i] post_init_code_symbol_same [OF that(1)]
    by (auto split: option.splits if_split_asm)
  from assms(1) show ?thesis
    unfolding symbol_fact_def Let_def rbind_eq_Inr
    by (elim exE conjE) (erule chosen, simp, simp)
qed

lemma each_fact_preserves:
  assumes "each_fact E ids facts kind step s = Inr s'" and "P s"
    and "\<And>r s s'. step r s = Inr s' \<Longrightarrow> P s \<Longrightarrow> P s'"
  shows "P s'"
  using assms(1) unfolding each_fact_def
  by (rule rfold_preserves [where P = P]) (use assms(2,3) in \<open>auto simp: rbind_eq_Inr\<close>)

lemma symbol_step_inv:
  assumes "symbol_step E f s = Inr s'" and "symbols_inv (fst s)"
  shows "symbols_inv (fst s')"
  using assms
  by (auto simp: symbol_step_def rbind_eq_Inr split: prod.splits option.splits) (erule symbol_fact_inv)

lemma symbols_pass_inv:
  assumes "symbols_pass E facts b = Inr b'" and "symbols_inv b"
  shows "symbols_inv b'"
proof -
  from assms(1) obtain st where st: "each_fact E (b_wire_identities b) facts ''symbol'' (symbol_step E)
      (b, of_kind SYMBOL_TEXT_CHUNK_KIND facts, new_symbol_text True) = Inr st" "b' = fst st"
    by (auto simp: symbols_pass_def rbind_eq_Inr split: prod.splits if_split_asm)
  have "symbols_inv (fst st)"
    by (rule each_fact_preserves [OF st(1), where P = "\<lambda>s. symbols_inv (fst s)"])
      (use assms(2) symbol_step_inv in auto)
  then show ?thesis by (simp add: st(2))
qed

lemma include_step_inv: "include_step E f b = Inr b' \<Longrightarrow> symbols_inv b \<Longrightarrow> symbols_inv b'"
  by (auto simp: include_step_def rbind_eq_Inr split: option.splits json.splits dest: file_symbol_inv)

section \<open>Callsites\<close>

definition known_symbol :: "builder \<Rightarrow> string \<Rightarrow> bool" where
  "known_symbol b i \<longleftrightarrow> (\<exists>k. map_of (b_keys b) k = Some i)"

lemma known_id_symbol: "known_id b k = Inr i \<Longrightarrow> known_symbol b i"
  by (auto simp: known_id_def known_symbol_def)

lemma when_known_symbol: "when_key (known_id b) k = Inr (Some i) \<Longrightarrow> known_symbol b i"
  by (auto simp: when_key_Inr split: if_split_asm dest: known_id_symbol)

definition site_known :: "builder \<Rightarrow> call_site \<Rightarrow> bool" where
  "site_known b s \<longleftrightarrow> known_symbol b (cs_owner_symbol_id s) \<and>
     (\<forall>i. cs_static_target_symbol_id s = Some i \<longrightarrow> known_symbol b i) \<and>
     (\<forall>m \<in> set (cs_expansion_stack s). known_symbol b (mf_macro_symbol_id m))"

lemma post_init_call_site_same: "post_init_call_site y = Inr x \<Longrightarrow> x = y"
  by (simp add: post_init_call_site_def split: if_split_asm)

lemma expansion_frame_known:
  assumes "expansion_frame E b v = Inr m"
  shows "known_symbol b (mf_macro_symbol_id m)"
  using assms
  by (auto simp: expansion_frame_def rbind_eq_Inr post_init_macro_expansion_frame_def
      split: json.splits if_split_asm dest: known_id_symbol)

lemma callsite_fact_Inr:
  assumes "callsite_fact E b f = Inr s" and "wire_string f ''key'' = Inr k"
  shows "map_of (b_callsite_ids b) k = Some (fact_id s)" and "site_known b s"
proof -
  have kept: "P" if "post_init_call_site y = Inr s" "s = y \<Longrightarrow> P" for P y
    using that post_init_call_site_same by blast
  have frames: "\<forall>m \<in> set ms. known_symbol b (mf_macro_symbol_id m)"
    if "rmap (expansion_frame E b) vs = Inr ms" for vs ms
    using rmap_in_set [OF that] expansion_frame_known by blast
  from assms show "map_of (b_callsite_ids b) k = Some (fact_id s)"
    unfolding callsite_fact_def rbind_eq_Inr
    by (elim exE conjE kept) (simp add: known_callsite_def)
  from assms(1) show "site_known b s"
    unfolding callsite_fact_def rbind_eq_Inr site_known_def
    by (elim exE conjE kept) (auto dest: known_id_symbol when_known_symbol frames)
qed

text \<open>The dictionary of callsites, before and after resolution facts are applied.\<close>

definition sites_inv :: "builder \<Rightarrow> (string \<times> call_site) list \<Rightarrow> bool" where
  "sites_inv b sites \<longleftrightarrow> distinct (map fst sites) \<and>
     (\<forall>k s. map_of sites k = Some s \<longrightarrow> map_of (b_callsite_ids b) k = Some (fact_id s) \<and> site_known b s) \<and>
     (\<forall>k. map_of (b_callsite_ids b) k \<noteq> None \<longrightarrow> map_of sites k \<noteq> None)"

lemma resolve_callsite_inv:
  assumes "resolve_callsite f sites = Inr sites'" and "sites_inv b sites"
  shows "sites_inv b sites'"
proof -
  from assms(1) obtain k s c r where k: "map_of sites k = Some s"
    "sites' = AList.update k (s\<lparr>cs_target_set_complete := c, cs_unresolved_reason := r\<rparr>) sites"
    by (auto simp: resolve_callsite_def rbind_eq_Inr split: if_split_asm dest!: post_init_call_site_same)
  with assms(2) show ?thesis
    by (auto simp: sites_inv_def site_known_def update_conv' distinct_update)
qed

lemma callsite_identity_Inr:
  assumes "callsite_identity E f b = Inr b'"
  obtains k i where "wire_string f ''key'' = Inr k" "b_callsite_ids b' = AList.update k i (b_callsite_ids b)"
    "b_keys b' = b_keys b" "b_symbols b' = b_symbols b"
  using assms by (auto simp: callsite_identity_def rbind_eq_Inr Let_def)

lemma callsite_identities:
  assumes "rfold (callsite_identity E) fs b = Inr b'" and "b_callsite_ids b = []"
  shows "b_keys b' = b_keys b" and "b_symbols b' = b_symbols b"
    and "\<And>k i. map_of (b_callsite_ids b') k = Some i \<Longrightarrow> \<exists>f \<in> set fs. wire_string f ''key'' = Inr k"
proof -
  let ?P = "\<lambda>s. b_keys s = b_keys b \<and> b_symbols s = b_symbols b"
  have "?P b' \<and> (\<forall>k v. map_of (b_callsite_ids b') k = Some v \<longrightarrow>
      (\<exists>f \<in> set ([] @ fs). wire_string f ''key'' = Inr k \<and> True))"
    by (rule rfold_registers [OF assms(1), where P = ?P])
      (auto simp: assms(2) elim!: callsite_identity_Inr)
  then show "b_keys b' = b_keys b" "b_symbols b' = b_symbols b"
    "\<And>k i. map_of (b_callsite_ids b') k = Some i \<Longrightarrow> \<exists>f \<in> set fs. wire_string f ''key'' = Inr k" by auto
qed

lemma call_target_fact_known:
  assumes "call_target_fact E b f = Inr t"
  shows "known_symbol b (ct_target_symbol_id t)"
    and "\<exists>k. map_of (b_callsite_ids b) k = Some (ct_callsite_id t)"
proof -
  have kept: "P" if "post_init_call_target y = Inr t" "t = y \<Longrightarrow> P" for P y
    using that by (simp add: post_init_call_target_def split: if_split_asm)
  from assms show "known_symbol b (ct_target_symbol_id t)"
    unfolding call_target_fact_def rbind_eq_Inr
    by (elim exE conjE kept) (simp, erule known_id_symbol)
  from assms show "\<exists>k. map_of (b_callsite_ids b) k = Some (ct_callsite_id t)"
    unfolding call_target_fact_def rbind_eq_Inr
    by (elim exE conjE kept) (auto simp: known_callsite_def)
qed

lemma initial_sites_inv:
  assumes "rfold (callsite_identity E) fs b = Inr b'" and "b_callsite_ids b = []"
    and "rmap (\<lambda>f. rbind (wire_string f ''key'') (\<lambda>k. rmap_result (Pair k) (callsite_fact E b' f))) fs = Inr pairs"
  shows "sites_inv b' (dict_of pairs)"
proof -
  have row: "map_of (b_callsite_ids b') k = Some (fact_id s) \<and> site_known b' s" if "(k, s) \<in> set pairs" for k s
    using rmap_in_set [OF assms(3) that] by (auto simp: rbind_eq_Inr dest: callsite_fact_Inr)
  have covered: "k \<in> fst ` set pairs" if i: "map_of (b_callsite_ids b') k = Some i" for k i
  proof -
    obtain f where f: "f \<in> set fs" "wire_string f ''key'' = Inr k"
      using callsite_identities(3) [OF assms(1,2) i] by blast
    obtain p where "p \<in> set pairs"
      "rbind (wire_string f ''key'') (\<lambda>k. rmap_result (Pair k) (callsite_fact E b' f)) = Inr p"
      using rmap_in_result [OF assms(3) f(1)] by blast
    with f(2) show ?thesis by force
  qed
  have "map_of (dict_of pairs) k \<noteq> None" if "map_of (b_callsite_ids b') k \<noteq> None" for k
  proof -
    from that obtain i where "map_of (b_callsite_ids b') k = Some i" by blast
    then have "k \<in> fst ` set pairs" by (rule covered)
    then show ?thesis by (simp add: map_of_dict_of map_of_eq_None_iff)
  qed
  then show ?thesis
    unfolding sites_inv_def
    by (auto simp: distinct_dict_of map_of_dict_of row dest!: map_of_SomeD)
qed

lemma call_facts_closed:
  assumes "call_facts E facts b = Inr (b', sites, targets)" and "b_callsite_ids b = []"
  shows "b_keys b' = b_keys b" and "b_symbols b' = b_symbols b"
    and "\<And>s. s \<in> set sites \<Longrightarrow> site_known b' s"
    and "\<And>t. t \<in> set targets \<Longrightarrow> known_symbol b' (ct_target_symbol_id t) \<and> ct_callsite_id t \<in> fact_id ` set sites"
proof -
  let ?ids = "b_wire_identities b"
  from assms(1) obtain fs pairs d ts where
    reg: "rfold (callsite_identity E) fs b = Inr b'" and
    pairs: "rmap (\<lambda>f. rbind (wire_string f ''key'') (\<lambda>k. rmap_result (Pair k) (callsite_fact E b' f))) fs = Inr pairs" and
    d: "each_fact E ?ids facts ''callsite_resolution_v1'' resolve_callsite (dict_of pairs) = Inr d" and
    ts: "map_facts E ?ids facts ''call_target_v1'' (call_target_fact E b') = Inr ts" and
    sites: "set sites = snd ` set d" "set targets = set ts"
    unfolding call_facts_def Let_def by (auto simp: rbind_eq_Inr)
  show "b_keys b' = b_keys b" "b_symbols b' = b_symbols b"
    using callsite_identities(1,2) [OF reg assms(2)] by simp_all
  have inv: "sites_inv b' d"
    by (rule each_fact_preserves [OF d, where P = "sites_inv b'"])
      (rule initial_sites_inv [OF reg assms(2) pairs], rule resolve_callsite_inv)
  then show "site_known b' s" if "s \<in> set sites" for s
    using that unfolding sites_inv_def sites(1) by force
  show "known_symbol b' (ct_target_symbol_id t) \<and> ct_callsite_id t \<in> fact_id ` set sites" if "t \<in> set targets" for t
  proof -
    obtain f where f: "call_target_fact E b' f = Inr t"
      using map_facts_set(1) [OF ts] \<open>t \<in> set targets\<close> sites(2) by blast
    obtain k where k: "map_of (b_callsite_ids b') k = Some (ct_callsite_id t)"
      using call_target_fact_known(2) [OF f] by blast
    with inv obtain s where "map_of d k = Some s" "fact_id s = ct_callsite_id t"
      unfolding sites_inv_def by fastforce
    then have "ct_callsite_id t \<in> fact_id ` set sites"
      unfolding sites(1) by (force dest: map_of_SomeD)
    then show ?thesis using call_target_fact_known(1) [OF f] by simp
  qed
qed

section \<open>Later passes keep the symbols\<close>

definition same_symbols :: "builder \<Rightarrow> builder \<Rightarrow> bool" where
  "same_symbols b b' \<longleftrightarrow> b_keys b' = b_keys b \<and> b_symbols b' = b_symbols b"

lemma same_symbols_refl [simp]: "same_symbols b b"
  by (simp add: same_symbols_def)

lemma same_symbols_trans [trans]: "same_symbols a b \<Longrightarrow> same_symbols b c \<Longrightarrow> same_symbols a c"
  by (simp add: same_symbols_def)

lemma register_same_symbols:
  "register_graph E f b = Inr b' \<Longrightarrow> same_symbols b b'"
  "register_block E f b = Inr b' \<Longrightarrow> same_symbols b b'"
  "register_analysis E f b = Inr b' \<Longrightarrow> same_symbols b b'"
  "register_location E f b = Inr b' \<Longrightarrow> same_symbols b b'"
  "register_access E f b = Inr b' \<Longrightarrow> same_symbols b b'"
  "register_summary E f b = Inr b' \<Longrightarrow> same_symbols b b'"
  by (auto simp: same_symbols_def register_graph_def register_block_def register_analysis_def
      register_location_def register_access_def register_summary_def summary_inconsistent_def
      rbind_eq_Inr split: if_split_asm)

lemma register_element_same_symbols:
  "register_element E f s = Inr s' \<Longrightarrow> same_symbols (fst s) (fst s')"
  by (cases s) (auto simp: same_symbols_def register_element_def rbind_eq_Inr)

lemma rfold_same_symbols:
  assumes "rfold step fs b = Inr b'" and "\<And>f b b'. step f b = Inr b' \<Longrightarrow> same_symbols b b'"
  shows "same_symbols b b'"
  by (rule rfold_preserves [OF assms(1), where P = "same_symbols b"])
    (auto intro: same_symbols_trans assms(2))

lemma cfg_graph_fact_function:
  assumes "cfg_graph_fact E b f = Inr g"
  shows "known_symbol b (cg_function_symbol_id g)"
proof -
  have kept: "P" if "post_init_cfg_graph y = Inr g" "g = y \<Longrightarrow> P" for P y
    using that by (simp add: post_init_cfg_graph_def split: if_split_asm)
  have guarded: "P" if "(if c then Inl m else r) = Inr g" "r = Inr g \<Longrightarrow> P" for P c m r
    using that by (simp split: if_split_asm)
  from assms show ?thesis
    unfolding cfg_graph_fact_def rbind_eq_Inr
    by (elim exE conjE guarded) (unfold rbind_eq_Inr, elim exE conjE kept, simp, erule known_id_symbol)
qed

lemma cfg_facts_symbols:
  assumes "cfg_facts E facts b = Inr (b', batch)"
  shows "same_symbols b b'" and "\<And>g. g \<in> set (cfg_graphs batch) \<Longrightarrow> known_symbol b' (cg_function_symbol_id g)"
proof -
  from assms obtain gfs bfs b1 b2 graphs where run: "rfold (register_graph E) gfs b = Inr b1"
    "rfold (register_block E) bfs b1 = Inr b2"
    "each_fact E (b_wire_identities b) facts ''cfg_element_v1'' (register_element E) (b2, False) = Inr (b', False)"
    "rmap (cfg_graph_fact E b') gfs = Inr graphs" "set (cfg_graphs batch) = set graphs"
    by (rule cfg_facts_stages)
  have "same_symbols b b1" by (rule rfold_same_symbols [OF run(1)]) (erule register_same_symbols)
  also have "same_symbols b1 b2"
    by (rule rfold_same_symbols [OF run(2)]) (erule register_same_symbols)
  also have "same_symbols b2 b'"
    by (rule each_fact_preserves [OF run(3), where P = "\<lambda>s. same_symbols b2 (fst s)", simplified])
      (erule same_symbols_trans, erule register_element_same_symbols)
  finally show "same_symbols b b'" .
  show "known_symbol b' (cg_function_symbol_id g)" if "g \<in> set (cfg_graphs batch)" for g
    using rmap_in_set [OF run(4)] that run(5) cfg_graph_fact_function by blast
qed

lemma data_flow_facts_symbols:
  assumes "data_flow_facts E facts b = Inr (b', batch)"
  shows "same_symbols b b'"
proof -
  from assms obtain afs lfs xfs b1 b2 where run: "rfold (register_analysis E) afs b = Inr b1"
    "rfold (register_location E) lfs b1 = Inr b2" "rfold (register_access E) xfs b2 = Inr b'"
    by (rule data_flow_facts_stages)
  have "same_symbols b b1" "same_symbols b1 b2" "same_symbols b2 b'"
    by (rule rfold_same_symbols [OF run(1)], erule register_same_symbols,
        rule rfold_same_symbols [OF run(2)], erule register_same_symbols,
        rule rfold_same_symbols [OF run(3)], erule register_same_symbols)
  then show ?thesis using same_symbols_trans by blast
qed

lemma interprocedural_facts_symbols:
  assumes "interprocedural_facts E facts b = Inr (b', batch)"
  shows "same_symbols b b'"
proof -
  from assms obtain fs where "rfold (register_summary E) fs b = Inr b'"
    unfolding interprocedural_facts_def Let_def by (auto simp: rbind_eq_Inr)
  then show ?thesis by (rule rfold_same_symbols) (erule register_same_symbols)
qed

lemma known_symbol_same: "same_symbols b b' \<Longrightarrow> known_symbol b' i = known_symbol b i"
  by (simp add: same_symbols_def known_symbol_def)

lemma symbols_inv_same: "same_symbols b b' \<Longrightarrow> symbols_inv b' = symbols_inv b"
  by (simp add: same_symbols_def symbols_inv_def)

lemma advanced_pass_symbols:
  assumes "advanced_pass E facts b = Inr (b', cfg, flow, summaries)"
  shows "same_symbols b b'" and "\<And>g. g \<in> set (cfg_graphs cfg) \<Longrightarrow> known_symbol b' (cg_function_symbol_id g)"
proof -
  have both: "same_symbols b b' \<and> (\<forall>g \<in> set (cfg_graphs cfg). known_symbol b' (cg_function_symbol_id g))"
  proof (cases "be_profile E = PROFILE_FULL")
    case True
    with assms obtain ids b1 b2 where run: "cfg_facts E facts (b\<lparr>b_wire_identities := ids\<rparr>) = Inr (b1, cfg)"
      "data_flow_facts E facts b1 = Inr (b2, flow)" "interprocedural_facts E facts b2 = Inr (b', summaries)"
      by (auto simp: advanced_pass_def rbind_eq_Inr)
    have "same_symbols b (b\<lparr>b_wire_identities := ids\<rparr>)" by (simp add: same_symbols_def)
    with cfg_facts_symbols(1) [OF run(1)] have "same_symbols b b1" by (blast intro: same_symbols_trans)
    moreover have later: "same_symbols b1 b'"
      using data_flow_facts_symbols [OF run(2)] interprocedural_facts_symbols [OF run(3)]
      by (rule same_symbols_trans)
    ultimately show ?thesis
      using cfg_facts_symbols(2) [OF run(1)] by (auto simp: known_symbol_same [OF later] intro: same_symbols_trans)
  next
    case False
    with assms show ?thesis by (auto simp: advanced_pass_def no_cfg_def)
  qed
  then show "same_symbols b b'" "\<And>g. g \<in> set (cfg_graphs cfg) \<Longrightarrow> known_symbol b' (cg_function_symbol_id g)"
    by blast+
qed

section \<open>The passes every profile runs\<close>

lemma file_symbol_callsites: "file_symbol E path given b = Inr b' \<Longrightarrow> b_callsite_ids b' = b_callsite_ids b"
  unfolding file_symbol_def Let_def rbind_eq_Inr
  by (elim exE conjE) (auto simp: rbind_eq_Inr split: if_split_asm option.splits)

lemma symbol_fact_callsites: "symbol_fact E f b = Inr b' \<Longrightarrow> b_callsite_ids b' = b_callsite_ids b"
  unfolding symbol_fact_def Let_def rbind_eq_Inr
  by (elim exE conjE) (simp split: if_split_asm option.splits, auto)

text \<open>The state between the passes that register symbols.\<close>

definition collecting :: "builder \<Rightarrow> bool" where
  "collecting b \<longleftrightarrow> symbols_inv b \<and> b_callsite_ids b = []"

lemma collecting_steps:
  "file_fact E f b = Inr b' \<Longrightarrow> collecting b \<Longrightarrow> collecting b'"
  "include_step E f b = Inr b' \<Longrightarrow> collecting b \<Longrightarrow> collecting b'"
proof -
  show "file_fact E f b = Inr b' \<Longrightarrow> collecting b \<Longrightarrow> collecting b'"
    by (auto simp: collecting_def file_fact_def rbind_eq_Inr dest: file_symbol_inv file_symbol_callsites)
  show "include_step E f b = Inr b' \<Longrightarrow> collecting b \<Longrightarrow> collecting b'"
    using include_step_inv [of E f b b']
    by (auto simp: collecting_def include_step_def rbind_eq_Inr split: option.splits json.splits
        dest: file_symbol_callsites)
qed

lemma symbols_pass_collecting:
  assumes "symbols_pass E facts b = Inr b'" and "collecting b"
  shows "collecting b'"
proof -
  from assms(1) obtain st where st: "each_fact E (b_wire_identities b) facts ''symbol'' (symbol_step E)
      (b, of_kind SYMBOL_TEXT_CHUNK_KIND facts, new_symbol_text True) = Inr st" "b' = fst st"
    by (auto simp: symbols_pass_def rbind_eq_Inr split: prod.splits if_split_asm)
  have "b_callsite_ids (fst s') = []" if "symbol_step E r s = Inr s'" "b_callsite_ids (fst s) = []" for r s s'
    using that by (auto simp: symbol_step_def rbind_eq_Inr split: prod.splits option.splits) (drule symbol_fact_callsites, simp)
  then have "b_callsite_ids (fst st) = []"
    by (rule each_fact_preserves [OF st(1), where P = "\<lambda>s. b_callsite_ids (fst s) = []", rotated])
      (use assms(2) in \<open>simp_all add: collecting_def\<close>)
  with symbols_pass_inv [OF assms(1)] assms(2) st(2) show ?thesis by (simp add: collecting_def)
qed

lemma collecting_empty: "collecting empty_builder"
  by (simp add: collecting_def symbols_inv_def empty_builder_def)

lemma occurrence_fact_known:
  assumes "occurrence_fact E b f = Inr x"
  shows "known_symbol b (occ_symbol_id x)" and "occ_enclosing_symbol_id x = Some i \<Longrightarrow> known_symbol b i"
proof -
  have kept: "P" if "post_init_symbol_occurrence y = Inr x" "x = y \<Longrightarrow> P" for P y
    using that by (simp add: post_init_symbol_occurrence_def split: if_split_asm)
  from assms show "known_symbol b (occ_symbol_id x)"
    unfolding occurrence_fact_def rbind_eq_Inr
    by (elim exE conjE kept) (simp, erule known_id_symbol)
  from assms show "occ_enclosing_symbol_id x = Some i \<Longrightarrow> known_symbol b i"
    unfolding occurrence_fact_def rbind_eq_Inr
    by (elim exE conjE kept) (auto split: option.splits json.splits dest: when_known_symbol)
qed

definition edge_known :: "builder \<Rightarrow> graph_edge \<Rightarrow> bool" where
  "edge_known b e \<longleftrightarrow> known_symbol b (ge_source_id e) \<and> known_symbol b (ge_target_id e)"

lemma edge_fact_known: "edge_fact E b f = Inr (Some e) \<Longrightarrow> edge_known b e"
  unfolding edge_fact_def rbind_eq_Inr edge_known_def
  by (elim exE conjE) (auto split: option.splits json.splits simp: rbind_eq_Inr dest: known_id_symbol)

definition edges_inv :: "builder \<Rightarrow> (string \<times> graph_edge) list \<Rightarrow> bool" where
  "edges_inv b d \<longleftrightarrow> distinct (map fst d) \<and> (\<forall>k e. map_of d k = Some e \<longrightarrow> fact_id e = k \<and> edge_known b e)"

lemma edge_step_inv: "edge_step E b f d = Inr d' \<Longrightarrow> edges_inv b d \<Longrightarrow> edges_inv b d'"
  by (auto simp: edge_step_def edges_inv_def update_conv' distinct_update rmap_result_def
      rbind_eq_Inr split: option.splits if_split_asm) (erule edge_fact_known)

lemma keyed_rows:
  assumes "distinct (map fst d)" and "\<forall>k v. map_of d k = Some v \<longrightarrow> g v = k"
  shows "map g (map snd d) = map fst d"
  using assms by (auto dest: map_of_is_SomeI)

lemma dict_of_subset: "p \<in> set (dict_of kvs) \<Longrightarrow> p \<in> set kvs"
  using map_of_is_SomeI [OF distinct_dict_of, of "fst p" "snd p" kvs]
  by (auto simp: map_of_dict_of dest: map_of_SomeD)

lemma navigation_pass_closed:
  assumes "navigation_pass E facts = Inr (b, occurrences, links, sites, targets)"
  shows "symbols_inv b"
    and "\<And>x. x \<in> set occurrences \<Longrightarrow> known_symbol b (occ_symbol_id x) \<and>
      (\<forall>i. occ_enclosing_symbol_id x = Some i \<longrightarrow> known_symbol b i)"
    and "\<And>e. e \<in> set links \<Longrightarrow> edge_known b e"
    and "\<And>s. s \<in> set sites \<Longrightarrow> site_known b s"
    and "\<And>t. t \<in> set targets \<Longrightarrow> known_symbol b (ct_target_symbol_id t) \<and> ct_callsite_id t \<in> fact_id ` set sites"
    and "distinct (map fact_id occurrences)" and "distinct (map fact_id links)"
proof -
  from assms obtain b1 b2 b3 os es1 es where
    files: "each_fact E [] facts ''file'' (file_fact E) empty_builder = Inr b1" and
    symbols: "symbols_pass E facts b1 = Inr b2" and
    headers: "each_fact E [] facts ''include'' (include_step E) b2 = Inr b3" and
    os: "map_facts E [] facts ''occurrence'' (occurrence_fact E b3) = Inr os" and
    es: "each_fact E [] facts ''edge'' (edge_step E b3) [] = Inr es1"
      "each_fact E [] facts ''include'' (edge_step E b3) es1 = Inr es" and
    calls: "call_facts E facts b3 = Inr (b, sites, targets)" and
    out: "occurrences = map snd (dict_of (map (\<lambda>x. (fact_id x, x)) os))" "links = map snd es"
    unfolding navigation_pass_def Let_def by (auto simp: rbind_eq_Inr)
  have "collecting b1"
    by (rule each_fact_preserves [OF files, where P = collecting]) (rule collecting_empty, erule (1) collecting_steps(1))
  then have b2: "collecting b2" by (rule symbols_pass_collecting [OF symbols])
  have b3: "collecting b3"
    by (rule each_fact_preserves [OF headers, where P = collecting]) (rule b2, erule (1) collecting_steps(2))
  note closed = call_facts_closed [OF calls]
  have none: "b_callsite_ids b3 = []" using b3 by (simp add: collecting_def)
  have same: "same_symbols b3 b" using closed(1,2) [OF none] by (simp add: same_symbols_def)
  show "symbols_inv b" using b3 symbols_inv_same [OF same] by (simp add: collecting_def)
  show "site_known b s" if "s \<in> set sites" for s using closed(3) [OF none that] .
  show "known_symbol b (ct_target_symbol_id t) \<and> ct_callsite_id t \<in> fact_id ` set sites" if "t \<in> set targets" for t
    using closed(4) [OF none that] .
  have edges_b: "edges_inv b3 es"
    by (rule each_fact_preserves [OF es(2), where P = "edges_inv b3"],
        rule each_fact_preserves [OF es(1), where P = "edges_inv b3"])
      (simp add: edges_inv_def, (erule (1) edge_step_inv)+)
  then show "edge_known b e" if "e \<in> set links" for e
    using that known_symbol_same [OF same] unfolding out(2) edges_inv_def edge_known_def
    by (auto dest: map_of_is_SomeI)
  have edge_ids: "map fact_id (map snd es) = map fst es"
    using edges_b unfolding edges_inv_def by (intro keyed_rows) blast+
  show "distinct (map fact_id links)" unfolding out(2) edge_ids using edges_b by (simp add: edges_inv_def)
  have rows: "(i, x) \<in> set (dict_of (map (\<lambda>x. (fact_id x, x)) os)) \<Longrightarrow> i = fact_id x \<and> x \<in> set os" for i x
    using dict_of_subset [of "(i, x)"] by fastforce
  show "known_symbol b (occ_symbol_id x) \<and> (\<forall>i. occ_enclosing_symbol_id x = Some i \<longrightarrow> known_symbol b i)"
    if x: "x \<in> set occurrences" for x
  proof -
    have "x \<in> set os" using x rows unfolding out(1) by auto
    then obtain f where "occurrence_fact E b3 f = Inr x" using map_facts_set(1) [OF os] by blast
    from occurrence_fact_known [OF this] show ?thesis by (simp add: known_symbol_same [OF same])
  qed
  have occurrence_ids: "map fact_id (map snd (dict_of (map (\<lambda>x. (fact_id x, x)) os))) = map fst (dict_of (map (\<lambda>x. (fact_id x, x)) os))"
    by (intro keyed_rows distinct_dict_of) (use rows in \<open>blast dest: map_of_SomeD\<close>)
  show "distinct (map fact_id occurrences)" unfolding out(1) occurrence_ids by (rule distinct_dict_of)
qed

section \<open>The batch\<close>

definition names_symbol :: "ingestion_batch \<Rightarrow> string \<Rightarrow> bool" where
  "names_symbol batch i \<longleftrightarrow> i \<in> fact_id ` set (ib_symbols batch)"

definition references_closed :: "ingestion_batch \<Rightarrow> bool" where
  "references_closed batch \<longleftrightarrow>
     (\<forall>x \<in> set (ib_occurrences batch). names_symbol batch (occ_symbol_id x) \<and>
        (\<forall>i. occ_enclosing_symbol_id x = Some i \<longrightarrow> names_symbol batch i)) \<and>
     (\<forall>e \<in> set (ib_edges batch). names_symbol batch (ge_source_id e) \<and> names_symbol batch (ge_target_id e)) \<and>
     (\<forall>s \<in> set (ib_callsites batch). names_symbol batch (cs_owner_symbol_id s) \<and>
        (\<forall>i. cs_static_target_symbol_id s = Some i \<longrightarrow> names_symbol batch i) \<and>
        (\<forall>m \<in> set (cs_expansion_stack s). names_symbol batch (mf_macro_symbol_id m))) \<and>
     (\<forall>t \<in> set (ib_call_targets batch). names_symbol batch (ct_target_symbol_id t) \<and>
        ct_callsite_id t \<in> fact_id ` set (ib_callsites batch)) \<and>
     (\<forall>g \<in> set (cfg_graphs (ib_cfg batch)). names_symbol batch (cg_function_symbol_id g))"

text \<open>Rows sorted by identifier, each identifier once.\<close>

definition ordered_rows :: "('a fact_scheme) list \<Rightarrow> bool" where
  "ordered_rows rows \<longleftrightarrow> sorted (map fact_id rows) \<and> distinct (map fact_id rows)"

lemma ordered_sort: "distinct (map fact_id rows) \<Longrightarrow> ordered_rows (sort_key fact_id rows)"
  unfolding ordered_rows_def by (simp add: distinct_map)


definition sample_location :: json where
  "sample_location = JObj [(''path'', JStr ''/repo/src/a.cc''), (''start_line'', JInt 1), (''end_line'', JInt 1),
     (''start_column'', JInt 1), (''end_column'', JInt 2)]"

definition sample_facts :: "wire_fact list" where
  "sample_facts =
     [[(''fact'', JStr ''symbol''), (''key'', JStr ''k''), (''span'', sample_location), (''kind'', JStr ''function''),
       (''qualified_name'', JStr ''f'')],
      [(''fact'', JStr ''occurrence''), (''symbol_key'', JStr ''k''), (''span'', sample_location),
       (''kind'', JStr ''reference'')],
      [(''fact'', JStr ''edge''), (''relation'', JStr ''calls''), (''source_key'', JStr ''k''),
       (''target_key'', JStr ''k'')]]"


end
