(* ===== verification/Overrides.thy ===== *)
theory Overrides
imports BuilderCfg "HOL-Library.Multiset"
begin

text \<open>
  \<open>_add_indexed_override_candidates\<close>: after the units of a build are merged, every virtual call gains
  the transitive overrides of its statically selected method.
\<close>

text \<open>\<open>sorted(direct_overrides.get((variant, target), ()))\<close>.\<close>

definition overriders :: "graph_edge list \<Rightarrow> string \<Rightarrow> string \<Rightarrow> string list" where
  "overriders es variant target =
     sort (remdups (map ge_source_id
       (filter (\<lambda>e. ge_relation e = REL_OVERRIDES \<and> build_variant e = variant \<and> ge_target_id e = target) es)))"

definition OVERRIDE_DERIVATION :: string where
  "OVERRIDE_DERIVATION = ''indexed_override_candidate''"

definition OVERRIDE_REASON :: string where
  "OVERRIDE_REASON =
     ''target overrides the statically selected virtual method in this build; '' @
     ''the value is deterministic ranking evidence, not a probability''"

definition override_candidate :: "(string \<Rightarrow> string) \<Rightarrow> call_site \<Rightarrow> string \<Rightarrow> call_target result" where
  "override_candidate H site target_id = post_init_call_target
     \<lparr>fact_id = ''call_target_'' @ take 32 (hash_text H
        [build_variant site, build_configuration_id site, translation_unit_id site, fact_id site, target_id,
         call_target_certainty_value TARGET_POSSIBLE, OVERRIDE_DERIVATION]),
      translation_unit_id = translation_unit_id site, build_configuration_id = build_configuration_id site,
      build_variant = build_variant site, ct_callsite_id = fact_id site, ct_target_symbol_id = target_id,
      ct_certainty = TARGET_POSSIBLE, ct_confidence = Finite (1 / 2), ct_confidence_reason = OVERRIDE_REASON,
      ct_derivation = OVERRIDE_DERIVATION, ct_evidence_span = cs_expansion_span site\<rparr>"

type_synonym targets_by_site = "((string \<times> string) \<times> call_target) list"

definition add_candidate ::
    "(string \<Rightarrow> string) \<Rightarrow> call_site \<Rightarrow> string \<Rightarrow> targets_by_site \<Rightarrow> targets_by_site result" where
  "add_candidate H site target_id result =
     (if map_of result (fact_id site, target_id) \<noteq> None then Inr result
      else rmap_result (\<lambda>t. AList.update (fact_id site, target_id) t result) (override_candidate H site target_id))"

text \<open>
  The breadth-first loop.  It ends because every symbol it visits is a source of some edge or was
  queue at the start, and none is visited twice.
\<close>

function override_loop ::
    "(string \<Rightarrow> string) \<Rightarrow> graph_edge list \<Rightarrow> call_site \<Rightarrow> string list \<Rightarrow> string list \<Rightarrow> targets_by_site
      \<Rightarrow> targets_by_site result" where
  "override_loop H es site [] visited result = Inr result"
| "override_loop H es site (t # queue) visited result =
     (if t \<in> set visited then override_loop H es site queue visited result
      else rbind (add_candidate H site t result) (\<lambda>result'.
        override_loop H es site (queue @ overriders es (build_variant site) t) (t # visited) result'))"
  by pat_completeness auto

lemma overriders_sources: "set (overriders es v t) \<subseteq> ge_source_id ` set es"
  by (auto simp: overriders_def)

termination override_loop
proof (relation "(\<lambda>(H, es, site, queue, visited, result).
    card (ge_source_id ` set es \<union> set queue - set visited)) <*mlex*>
    measure (\<lambda>(H, es, site, queue, visited, result). length queue)")
  show "wf ((\<lambda>(H, es, site, queue, visited, result).
    card (ge_source_id ` set es \<union> set queue - set visited)) <*mlex*>
    measure (\<lambda>(H, es, site, queue, visited, result). length queue))"
    by (simp add: wf_mlex)
next
  fix H :: "string \<Rightarrow> string" and es :: "graph_edge list" and site :: call_site and t and queue visited :: "string list"
    and result :: targets_by_site
  assume "t \<in> set visited"
  then have "ge_source_id ` set es \<union> set (t # queue) - set visited = ge_source_id ` set es \<union> set queue - set visited"
    by auto
  then show "((H, es, site, queue, visited, result), H, es, site, t # queue, visited, result)
    \<in> (\<lambda>(H, es, site, queue, visited, result). card (ge_source_id ` set es \<union> set queue - set visited))
      <*mlex*> measure (\<lambda>(H, es, site, queue, visited, result). length queue)"
    by (intro mlex_leq) (simp_all add: mlex_prod_def)
next
  fix H :: "string \<Rightarrow> string" and es :: "graph_edge list" and site :: call_site and t and queue visited :: "string list"
    and result result' :: targets_by_site
  assume new: "t \<notin> set visited"
  let ?U = "ge_source_id ` set es \<union> set (t # queue) - set visited"
  let ?V = "ge_source_id ` set es \<union> set (queue @ overriders es (build_variant site) t) - set (t # visited)"
  have "?V \<subseteq> ?U - {t}" using overriders_sources [of es "build_variant site" t] by auto
  then have "card ?V \<le> card (?U - {t})" by (intro card_mono) auto
  also have "\<dots> < card ?U" using new by (intro psubset_card_mono) auto
  finally show "((H, es, site, queue @ overriders es (build_variant site) t, t # visited, result'),
      H, es, site, t # queue, visited, result)
    \<in> (\<lambda>(H, es, site, queue, visited, result). card (ge_source_id ` set es \<union> set queue - set visited))
      <*mlex*> measure (\<lambda>(H, es, site, queue, visited, result). length queue)"
    by (intro mlex_less) simp
qed

definition override_site ::
    "(string \<Rightarrow> string) \<Rightarrow> graph_edge list \<Rightarrow> call_site \<Rightarrow> targets_by_site \<Rightarrow> targets_by_site result" where
  "override_site H es site result =
     (case (cs_dispatch_kind site, cs_static_target_symbol_id site) of
        (CALL_VIRTUAL, Some static) \<Rightarrow>
          override_loop H es site (overriders es (build_variant site) static) [] result
      | _ \<Rightarrow> Inr result)"

definition targets_by_key :: "call_target list \<Rightarrow> targets_by_site" where
  "targets_by_key targets = dict_of (map (\<lambda>t. ((ct_callsite_id t, ct_target_symbol_id t), t)) targets)"

definition add_indexed_override_candidates ::
    "(string \<Rightarrow> string) \<Rightarrow> call_site list \<Rightarrow> call_target list \<Rightarrow> graph_edge list \<Rightarrow> call_target list result" where
  "add_indexed_override_candidates H callsites targets es =
     rmap_result (\<lambda>result. sort_key (\<lambda>t. (ct_callsite_id t, ct_target_symbol_id t, fact_id t)) (map snd result))
       (rfold (override_site H es) callsites (targets_by_key targets))"

section \<open>Exactly the transitive overrides are added\<close>

definition override_rel :: "graph_edge list \<Rightarrow> string \<Rightarrow> (string \<times> string) set" where
  "override_rel es variant = {(a, b). \<exists>e \<in> set es. ge_relation e = REL_OVERRIDES \<and> build_variant e = variant \<and>
     ge_source_id e = a \<and> ge_target_id e = b}"

lemma set_overriders: "set (overriders es v t) = {a. (a, t) \<in> override_rel es v}"
  by (auto simp: overriders_def override_rel_def)

definition target_key :: "call_target \<Rightarrow> string \<times> string" where
  "target_key t = (ct_callsite_id t, ct_target_symbol_id t)"

definition is_candidate :: "call_target \<Rightarrow> bool" where
  "is_candidate t \<longleftrightarrow> ct_certainty t = TARGET_POSSIBLE \<and> ct_derivation t = OVERRIDE_DERIVATION"

text \<open>What a step may do to the dictionary: keep every entry, add candidates under their own keys.\<close>

definition grown :: "targets_by_site \<Rightarrow> targets_by_site \<Rightarrow> bool" where
  "grown d d' \<longleftrightarrow> (\<forall>k t. map_of d k = Some t \<longrightarrow> map_of d' k = Some t) \<and>
     (\<forall>k t. map_of d' k = Some t \<longrightarrow> map_of d k = Some t \<or> (map_of d k = None \<and> is_candidate t \<and> target_key t = k)) \<and>
     (distinct (map fst d) \<longrightarrow> distinct (map fst d'))"

lemma grown_refl [simp]: "grown d d"
  by (simp add: grown_def)

lemma grown_trans [trans]:
  assumes "grown a b" and "grown b c"
  shows "grown a c"
proof -
  have "map_of a k = Some t \<or> (map_of a k = None \<and> is_candidate t \<and> target_key t = k)" if "map_of c k = Some t" for k t
  proof -
    have "map_of b k = Some t \<or> (map_of b k = None \<and> is_candidate t \<and> target_key t = k)"
      using assms(2) that unfolding grown_def by blast
    moreover have "map_of b k = None \<Longrightarrow> map_of a k = None"
      using assms(1) unfolding grown_def by (metis not_None_eq)
    moreover have "map_of b k = Some t \<Longrightarrow>
        map_of a k = Some t \<or> (map_of a k = None \<and> is_candidate t \<and> target_key t = k)"
      using assms(1) unfolding grown_def by blast
    ultimately show ?thesis by argo
  qed
  then show ?thesis using assms unfolding grown_def by blast
qed

lemma add_candidate_Inr:
  assumes "add_candidate H site t d = Inr d'"
  shows "grown d d'" and "dom (map_of d') = insert (fact_id site, t) (dom (map_of d))"
proof -
  have kept: "x = y" if "post_init_call_target y = Inr x" for x y
    using that by (simp add: post_init_call_target_def split: if_split_asm)
  show "grown d d'" "dom (map_of d') = insert (fact_id site, t) (dom (map_of d))"
    using assms
    by (auto simp: add_candidate_def override_candidate_def rmap_result_def rbind_eq_Inr grown_def is_candidate_def
        target_key_def update_conv' distinct_update dest!: kept split: if_split_asm)
qed

lemma override_loop_sound:
  assumes "override_loop H es site queue visited d = Inr d'" and "set queue \<subseteq> S"
    and "\<forall>s \<in> S. set (overriders es (build_variant site) s) \<subseteq> S"
  shows "grown d d' \<and> dom (map_of d') \<subseteq> dom (map_of d) \<union> {fact_id site} \<times> S"
  using assms
proof (induction H es site queue visited d rule: override_loop.induct)
  case (2 H es site t queue visited d)
  show ?case
  proof (cases "t \<in> set visited")
    case True
    then show ?thesis using 2 by simp
  next
    case False
    with 2(3) obtain d1 where d1: "add_candidate H site t d = Inr d1"
      "override_loop H es site (queue @ overriders es (build_variant site) t) (t # visited) d1 = Inr d'"
      by (auto simp: rbind_eq_Inr)
    have "set (queue @ overriders es (build_variant site) t) \<subseteq> S" using 2(4,5) by auto
    from 2(2) [OF False d1(2) this 2(5)] add_candidate_Inr [OF d1(1)] 2(4)
    show ?thesis by (auto intro: grown_trans)
  qed
qed simp

lemma override_loop_complete:
  assumes "override_loop H es site queue visited d = Inr d'"
    and "\<forall>v \<in> set visited. set (overriders es (build_variant site) v) \<subseteq> set visited \<union> set queue"
    and "{fact_id site} \<times> set visited \<subseteq> dom (map_of d)"
  shows "\<exists>W. set visited \<union> set queue \<subseteq> W \<and> (\<forall>w \<in> W. set (overriders es (build_variant site) w) \<subseteq> W) \<and>
    {fact_id site} \<times> W \<subseteq> dom (map_of d')"
  using assms
proof (induction H es site queue visited d rule: override_loop.induct)
  case (1 H es site visited d)
  then show ?case by (intro exI [of _ "set visited"]) auto
next
  case (2 H es site t queue visited d)
  show ?case
  proof (cases "t \<in> set visited")
    case True
    have closed: "\<forall>v \<in> set visited. set (overriders es (build_variant site) v) \<subseteq> set visited \<union> set queue"
      using 2(4) True by fastforce
    have "override_loop H es site queue visited d = Inr d'" using 2(3) True by simp
    from 2(1) [OF True this closed 2(5)] obtain W where "set visited \<union> set queue \<subseteq> W"
      "\<forall>w \<in> W. set (overriders es (build_variant site) w) \<subseteq> W" "{fact_id site} \<times> W \<subseteq> dom (map_of d')" by blast
    then show ?thesis using True by (intro exI [of _ W] conjI) auto
  next
    case False
    with 2(3) obtain d1 where d1: "add_candidate H site t d = Inr d1"
      "override_loop H es site (queue @ overriders es (build_variant site) t) (t # visited) d1 = Inr d'"
      by (auto simp: rbind_eq_Inr)
    have "\<forall>v \<in> set (t # visited). set (overriders es (build_variant site) v)
        \<subseteq> set (t # visited) \<union> set (queue @ overriders es (build_variant site) t)"
      using 2(4) by auto
    moreover have "{fact_id site} \<times> set (t # visited) \<subseteq> dom (map_of d1)"
      using 2(5) add_candidate_Inr(2) [OF d1(1)] by auto
    ultimately show ?thesis using 2(2) [OF False d1(2)] by auto
  qed
qed

definition override_keys :: "graph_edge list \<Rightarrow> call_site \<Rightarrow> (string \<times> string) set" where
  "override_keys es site = (case (cs_dispatch_kind site, cs_static_target_symbol_id site) of
     (CALL_VIRTUAL, Some static) \<Rightarrow> {fact_id site} \<times> {t. (t, static) \<in> (override_rel es (build_variant site))\<^sup>+}
   | _ \<Rightarrow> {})"

lemma override_site_Inr:
  assumes "override_site H es site d = Inr d'"
  shows "grown d d'" and "dom (map_of d') = dom (map_of d) \<union> override_keys es site"
proof -
  have both: "grown d d' \<and> dom (map_of d') = dom (map_of d) \<union> override_keys es site"
  proof (cases "\<exists>static. cs_dispatch_kind site = CALL_VIRTUAL \<and> cs_static_target_symbol_id site = Some static")
    case True
    then obtain static where static: "cs_dispatch_kind site = CALL_VIRTUAL" "cs_static_target_symbol_id site = Some static"
      by blast
    let ?v = "build_variant site"
    let ?S = "{t. (t, static) \<in> (override_rel es ?v)\<^sup>+}"
    have keys: "override_keys es site = {fact_id site} \<times> ?S" using static by (simp add: override_keys_def)
    have loop: "override_loop H es site (overriders es ?v static) [] d = Inr d'"
      using assms static by (simp add: override_site_def)
    have "set (overriders es ?v static) \<subseteq> ?S" "\<forall>s \<in> ?S. set (overriders es ?v s) \<subseteq> ?S"
      by (auto simp: set_overriders intro: trancl_into_trancl2)
    note sound = override_loop_sound [OF loop this]
    from override_loop_complete [OF loop] obtain W where W: "set (overriders es ?v static) \<subseteq> W"
      "\<forall>w \<in> W. set (overriders es ?v w) \<subseteq> W" "{fact_id site} \<times> W \<subseteq> dom (map_of d')" by auto
    have "t \<in> W" if "(t, static) \<in> (override_rel es ?v)\<^sup>+" for t
      using that by (induction rule: converse_trancl_induct) (use W(1,2) in \<open>auto simp: set_overriders\<close>)
    then have "{fact_id site} \<times> ?S \<subseteq> dom (map_of d')" using W(3) by blast
    moreover have "dom (map_of d) \<subseteq> dom (map_of d')" using sound unfolding grown_def by blast
    ultimately show ?thesis using sound unfolding keys by blast
  next
    case False
    then have "override_site H es site d = Inr d" "override_keys es site = {}"
      by (auto simp: override_site_def override_keys_def split: call_dispatch_kind.splits option.splits)
    then show ?thesis using assms by simp
  qed
  then show "grown d d'" "dom (map_of d') = dom (map_of d) \<union> override_keys es site" by blast+
qed

lemma override_sites_Inr:
  assumes "rfold (override_site H es) sites d = Inr d'"
  shows "grown d d' \<and> dom (map_of d') = dom (map_of d) \<union> (\<Union>s \<in> set sites. override_keys es s)"
  using assms
proof (induction sites arbitrary: d)
  case (Cons s sites)
  from Cons.prems obtain d1 where d1: "override_site H es s d = Inr d1" "rfold (override_site H es) sites d1 = Inr d'"
    by (auto simp: rbind_eq_Inr)
  show ?case
    using Cons.IH [OF d1(2)] override_site_Inr [OF d1(1)] by (auto intro: grown_trans)
qed simp

lemma targets_by_key_map:
  "map_of (targets_by_key ts) k = Some t \<Longrightarrow> t \<in> set ts \<and> target_key t = k"
  "dom (map_of (targets_by_key ts)) = target_key ` set ts"
proof -
  let ?ps = "map (\<lambda>t. ((ct_callsite_id t, ct_target_symbol_id t), t)) ts"
  show "map_of (targets_by_key ts) k = Some t \<Longrightarrow> t \<in> set ts \<and> target_key t = k"
    using map_of_SomeD [of "rev ?ps" k t] by (auto simp: targets_by_key_def map_of_dict_of target_key_def)
  show "dom (map_of (targets_by_key ts)) = target_key ` set ts"
    by (force simp: targets_by_key_def dom_map_of_conv_image_fst fst_set_dict_of target_key_def)
qed

text \<open>
  Property C16.  Virtual calls are completed exactly.  When
  \<open>_add_indexed_override_candidates\<close> returns, the pairs of callsite and target are those given
  plus one for every virtual callsite and every transitive override of its static target in the
  callsite's build variant, each pair once.  Every target is either one of those given, or a new
  possible candidate for a pair no given target had: nothing the compiler reported is replaced.
\<close>

theorem override_candidates_exact:
  assumes "add_indexed_override_candidates H sites targets es = Inr out"
  shows "target_key ` set out = target_key ` set targets \<union> (\<Union>s \<in> set sites. override_keys es s) \<and>
    distinct (map target_key out) \<and>
    (\<forall>t \<in> set out. t \<in> set targets \<or> (is_candidate t \<and> target_key t \<notin> target_key ` set targets))"
proof -
  let ?d = "targets_by_key targets"
  from assms obtain d where d: "rfold (override_site H es) sites ?d = Inr d"
    "out = sort_key (\<lambda>t. (ct_callsite_id t, ct_target_symbol_id t, fact_id t)) (map snd d)"
    by (auto simp: add_indexed_override_candidates_def rmap_result_def rbind_eq_Inr)
  have grown: "grown ?d d" and keys: "dom (map_of d) = dom (map_of ?d) \<union> (\<Union>s \<in> set sites. override_keys es s)"
    using override_sites_Inr [OF d(1)] by blast+
  have dist: "distinct (map fst d)" using grown by (simp add: grown_def targets_by_key_def distinct_dict_of)
  have row: "target_key t = k \<and> (t \<in> set targets \<or> (is_candidate t \<and> k \<notin> target_key ` set targets))"
    if "map_of d k = Some t" for k t
  proof -
    have "map_of ?d k = Some t \<or> (map_of ?d k = None \<and> is_candidate t \<and> target_key t = k)"
      using grown that unfolding grown_def by blast
    then show ?thesis using targets_by_key_map by (metis domIff)
  qed
  have ids: "map target_key (map snd d) = map fst d"
    using dist row by (auto dest: map_of_is_SomeI)
  have set_out: "set out = set (map snd d)" by (simp add: d(2))
  have "target_key ` set out = set (map fst d)" unfolding set_out ids [symmetric] by (simp only: set_map)
  also have "\<dots> = dom (map_of d)" by (simp add: dom_map_of_conv_image_fst)
  finally have "target_key ` set out = target_key ` set targets \<union> (\<Union>s \<in> set sites. override_keys es s)"
    unfolding keys targets_by_key_map(2) .
  moreover have "mset (map target_key out) = mset (map target_key (map snd d))"
    by (simp only: d(2) mset_map mset_sort)
  then have "distinct (map target_key out)" unfolding ids using dist by (metis mset_eq_imp_distinct_iff)
  moreover have "\<forall>t \<in> set out. t \<in> set targets \<or> (is_candidate t \<and> target_key t \<notin> target_key ` set targets)"
  proof
    fix t assume "t \<in> set out"
    then obtain k where "(k, t) \<in> set d" unfolding set_out by auto
    then have "map_of d k = Some t" by (rule map_of_is_SomeI [OF dist])
    from row [OF this] show "t \<in> set targets \<or> (is_candidate t \<and> target_key t \<notin> target_key ` set targets)"
      by blast
  qed
  ultimately show ?thesis by blast
qed

definition override_edge :: "string \<Rightarrow> string \<Rightarrow> graph_edge" where
  "override_edge source target = \<lparr>fact_id = ''e'', translation_unit_id = ''tu'', build_configuration_id = ''c'',
     build_variant = ''default'', ge_source_id = source, ge_target_id = target, ge_relation = REL_OVERRIDES\<rparr>"

definition override_place :: source_span where
  "override_place = \<lparr>span_path = ''/repo/a.cc'', start_line = 1, end_line = 1, start_column = 1, end_column = 2\<rparr>"

definition virtual_site :: call_site where
  "virtual_site = \<lparr>fact_id = ''site'', translation_unit_id = ''tu'', build_configuration_id = ''c'',
     build_variant = ''default'', cs_owner_symbol_id = ''f'', cs_dispatch_kind = CALL_VIRTUAL,
     cs_spelling_span = None, cs_expansion_span = override_place, cs_target_set_complete = False,
     cs_static_target_symbol_id = Some ''base'', cs_unresolved_reason = ''virtual'', cs_callee_text = [],
     cs_expansion_stack = []\<rparr>"

text \<open>A cycle of override edges: the loop still ends and finds both overriders.\<close>

theorem override_candidates_exact_witness:
  "\<exists>out. add_indexed_override_candidates (\<lambda>_. ''h'') [virtual_site] []
       [override_edge ''mid'' ''base'', override_edge ''leaf'' ''mid'', override_edge ''mid'' ''leaf''] = Inr out \<and>
     map target_key out = [(''site'', ''leaf''), (''site'', ''mid'')] \<and> (\<forall>t \<in> set out. is_candidate t)"
proof -
  let ?es = "[override_edge ''mid'' ''base'', override_edge ''leaf'' ''mid'', override_edge ''mid'' ''leaf'']"
  have "case add_indexed_override_candidates (\<lambda>_. ''h'') [virtual_site] [] ?es of
      Inr out \<Rightarrow> map target_key out = [(''site'', ''leaf''), (''site'', ''mid'')] | Inl _ \<Rightarrow> False"
    by code_simp
  then obtain out where run: "add_indexed_override_candidates (\<lambda>_. ''h'') [virtual_site] [] ?es = Inr out"
    "map target_key out = [(''site'', ''leaf''), (''site'', ''mid'')]"
    by (auto split: sum.splits)
  from override_candidates_exact [OF run(1)] have "\<forall>t \<in> set out. is_candidate t" by simp
  with run show ?thesis by - (intro exI conjI, assumption+)
qed

end
