(* ===== verification/Retrieval.thy ===== *)
theory Retrieval
imports SourcePaths "HOL-Library.Multiset"
begin

text \<open>
  Hybrid retrieval (\<open>retrieval/hybrid.py\<close>, \<open>retrieval/protocols.py\<close>, the query types of
  \<open>models.py\<close>): reciprocal-rank fusion of three searches, bounded expansion over the code graph,
  reranking and the packing of source excerpts under a character budget.

  The searches, the graph, the symbol store and the source reader are adapters the retriever is given;
  they are the functions of a record, each answering or raising.  A float is the rational it denotes: the
  record \<open>float_ops\<close> has the rounding of an exact result to binary64, \<open>math.sqrt\<close> and the \<open>.2f\<close> format; overflow to an
  infinity is outside the model.  The mutable \<open>_Candidate\<close> objects are shared between
  the dictionary and the work queue, so the queue holds their keys.
\<close>

section \<open>Data\<close>

record float_ops =
  fl :: "rat \<Rightarrow> rat"
  fl_sqrt :: "rat \<Rightarrow> rat"
  fl_fixed2 :: "pyfloat \<Rightarrow> string"

record search_query =
  sq_text :: string
  sq_limit :: int

definition post_init_search_query :: "search_query \<Rightarrow> search_query result" where
  "post_init_search_query q =
     (if blank (sq_text q) then Inl (ValueError ''search text must not be empty'')
      else if sq_limit q \<le> 0 then Inl (ValueError ''search limit must be greater than zero'')
      else Inr q)"

record search_hit =
  sh_symbol :: code_symbol
  sh_score :: rat
  sh_source :: string

record context_path_step =
  ps_source_id :: string
  ps_target_id :: string
  ps_relation :: graph_relation

record context_item =
  it_hit :: search_hit
  it_source_text :: "nat list"
  it_reason :: string
  it_path :: "context_path_step list"

record context_bundle =
  cx_query :: string
  cx_hits :: "search_hit list"
  cx_rendered_context :: "nat list"
  cx_estimated_tokens :: int
  cx_items :: "context_item list"
  cx_diagnostics :: "string list"
  cx_truncated :: bool
  cx_build_variants :: "string list"
  cx_scope_label :: string

record retrieval_config =
  search_limit :: int
  candidate_limit :: int
  seed_limit :: int
  rrf_k :: int
  graph_depth :: int
  max_expansion_steps :: int
  graph_node_budget :: int
  graph_edge_budget :: int
  per_node_edge_budget :: int
  graph_decay :: rat
  hub_threshold :: int
  chars_per_token :: rat
  max_context_chars :: "int option"
  relations :: "graph_relation list"
  source_weights :: "(string \<times> rat) list"

definition default_retrieval_config :: "float_ops \<Rightarrow> retrieval_config" where
  "default_retrieval_config FO =
     \<lparr>search_limit = 30, candidate_limit = 80, seed_limit = 6, rrf_k = 60, graph_depth = 2, max_expansion_steps = 2,
      graph_node_budget = 30, graph_edge_budget = 100, per_node_edge_budget = 20, graph_decay = fl FO (72 / 100),
      hub_threshold = 12, chars_per_token = 4, max_context_chars = None,
      relations = [REL_CALLS, REL_REFERENCES, REL_INHERITS, REL_OVERRIDES, REL_USES_TYPE, REL_CONTAINS],
      source_weights = [(''lexical'', 1), (''symbol'', fl FO (115 / 100)), (''vector'', fl FO (9 / 10))]\<rparr>"

definition post_init_retrieval_config :: "retrieval_config \<Rightarrow> retrieval_config result" where
  "post_init_retrieval_config c =
     (if min (search_limit c) (min (candidate_limit c) (min (seed_limit c) (min (rrf_k c)
          (min (graph_node_budget c) (min (graph_edge_budget c) (per_node_edge_budget c)))))) \<le> 0
      then Inl (ValueError ''retrieval limits must be greater than zero'')
      else if graph_depth c < 0 \<or> max_expansion_steps c < 0
      then Inl (ValueError ''graph depth and expansion steps must not be negative'')
      else if \<not> (0 < graph_decay c \<and> graph_decay c \<le> 1) then Inl (ValueError ''graph decay must be in (0, 1]'')
      else if hub_threshold c \<le> 0 \<or> chars_per_token c \<le> 0
      then Inl (ValueError ''hub threshold and chars per token must be positive'')
      else if (case max_context_chars c of None \<Rightarrow> False | Some m \<Rightarrow> m \<le> 0)
      then Inl (ValueError ''max context chars must be positive when set'')
      else if list_ex (\<lambda>w. snd w \<le> 0) (source_weights c) then Inl (ValueError ''source weights must be positive'')
      else Inr c)"

record candidate =
  ca_hit :: search_hit
  ca_reasons :: "string list"
  ca_path :: "context_path_step list"
  ca_is_seed :: bool
  ca_parent_id :: "string option"
  ca_hub_degree :: nat

abbreviation ca_symbol :: "candidate \<Rightarrow> code_symbol" where
  "ca_symbol c \<equiv> sh_symbol (ca_hit c)"

definition new_candidate :: "search_hit \<Rightarrow> string list \<Rightarrow> candidate" where
  "new_candidate hit reasons = \<lparr>ca_hit = hit, ca_reasons = reasons, ca_path = [], ca_is_seed = False,
     ca_parent_id = None, ca_hub_degree = 0\<rparr>"

text \<open>The adapters.  An optional method of an adapter is an option.\<close>

record code_graph =
  neighbors_bounded :: "string \<Rightarrow> graph_relation list \<Rightarrow> int \<Rightarrow> int \<Rightarrow> int \<Rightarrow> string list \<Rightarrow> graph_edge list result"
  neighbors_plain :: "string \<Rightarrow> graph_relation list \<Rightarrow> int \<Rightarrow> graph_edge list result"
  call_evidence :: "(string \<Rightarrow> bool \<Rightarrow> string list \<Rightarrow> int \<Rightarrow> (call_site \<times> call_target) list result) option"

record symbol_store =
  get_symbols :: "(string list \<Rightarrow> string list \<Rightarrow> code_symbol option list result) option"
  get_symbol_scoped :: "string \<Rightarrow> string list \<Rightarrow> code_symbol option result"
  get_symbol_plain :: "string \<Rightarrow> code_symbol option result"

record reader_api =
  rd_read_symbol :: "code_symbol \<Rightarrow> nat list result"
  rd_display_path :: "(string \<Rightarrow> string result) option"
  rd_project_root :: "string option"

record retriever =
  rt_lexical :: "search_query \<Rightarrow> search_hit list result"
  rt_symbol :: "search_query \<Rightarrow> search_hit list result"
  rt_vector :: "search_query \<Rightarrow> search_hit list result"
  rt_store :: symbol_store
  rt_reader :: reader_api
  rt_graph :: "code_graph option"
  rt_config :: retrieval_config
  rt_scope :: build_scope

definition searches :: "retriever \<Rightarrow> (string \<times> (search_query \<Rightarrow> search_hit list result)) list" where
  "searches r = [(''lexical'', rt_lexical r), (''symbol'', rt_symbol r), (''vector'', rt_vector r)]"

definition evidence_id :: "code_symbol \<Rightarrow> string" where
  "evidence_id s = (if sym_variant_id s \<noteq> [] then sym_variant_id s else build_variant s @ '':'' @ fact_id s)"

abbreviation ca_key :: "candidate \<Rightarrow> string" where
  "ca_key c \<equiv> evidence_id (ca_symbol c)"

text \<open>\<open>type(exc).__name__\<close>.\<close>

primrec exn_name :: "exn \<Rightarrow> string" where
  "exn_name (ValueError m) = ''ValueError''"
| "exn_name (RuntimeError m) = ''RuntimeError''"
| "exn_name (TypeError m) = ''TypeError''"
| "exn_name KeyError = ''KeyError''"
| "exn_name IndexError = ''IndexError''"
| "exn_name RecursionError = ''RecursionError''"
| "exn_name OverflowError = ''OverflowError''"
| "exn_name AssertionError = ''AssertionError''"
| "exn_name OSError = ''OSError''"
| "exn_name StructError = ''error''"
| "exn_name (AnalyzerProtocolError m) = ''AnalyzerProtocolError''"
| "exn_name (AnalyzerLimitError m) = ''AnalyzerLimitError''"
| "exn_name (AnalyzerSlotIdleError n) = ''AnalyzerSlotIdleError''"
| "exn_name (SummaryPayloadError m) = ''SummaryPayloadError''"
| "exn_name (CompilationDatabaseError m) = ''CompilationDatabaseError''"
| "exn_name (SourceReadError m) = ''SourceReadError''"
| "exn_name (EmbeddingProviderError m) = ''EmbeddingProviderError''"
| "exn_name (LLMProviderError m) = ''LLMProviderError''"

text \<open>\<open>sorted(xs, key=k, reverse=True)\<close>: descending, equal keys in their original order.\<close>

definition sort_desc :: "('a \<Rightarrow> 'k::linorder) \<Rightarrow> 'a list \<Rightarrow> 'a list" where
  "sort_desc k xs = rev (sort_key k (rev xs))"

lemma mset_sort_desc [simp]: "mset (sort_desc k xs) = mset xs"
  by (simp add: sort_desc_def)

lemma set_sort_desc [simp]: "set (sort_desc k xs) = set xs"
  by (simp add: sort_desc_def)

lemma length_sort_desc [simp]: "length (sort_desc k xs) = length xs"
  by (simp add: sort_desc_def)

lemma sort_desc_sorted: "sorted (rev (map k (sort_desc k xs)))"
  by (simp add: sort_desc_def rev_map)

section \<open>Fusion\<close>

record fuse_state =
  fu_scores :: "(string \<times> rat) list"
  fu_symbols :: "(string \<times> code_symbol) list"
  fu_reasons :: "(string \<times> string list) list"
  fu_successful :: nat
  fu_truncated :: bool
  fu_diagnostics :: "string list"

text \<open>The body of the loop over the hits of one search; the first component is \<open>seen_in_backend\<close>.\<close>

definition fuse_hit ::
    "float_ops \<Rightarrow> retrieval_config \<Rightarrow> string \<Rightarrow> nat \<times> search_hit \<Rightarrow> string list \<times> fuse_state \<Rightarrow> string list \<times> fuse_state" where
  "fuse_hit FO cfg name ranked acc =
     (let (rank, hit) = ranked; (seen, st) = acc; symbol_id = evidence_id (sh_symbol hit);
          weight = dict_get (source_weights cfg) name 1 in
      if symbol_id \<in> set seen then acc
      else (symbol_id # seen,
        st\<lparr>fu_scores := AList.update symbol_id
             (fl FO (dict_get (fu_scores st) symbol_id 0 + fl FO (weight / of_int (rrf_k cfg + int rank)))) (fu_scores st),
           fu_symbols := AList.update symbol_id (sh_symbol hit) (fu_symbols st),
           fu_reasons := dict_append symbol_id (name @ '' rank '' @ str_nat rank) (fu_reasons st)\<rparr>))"

definition fuse_search ::
    "float_ops \<Rightarrow> retrieval_config \<Rightarrow> search_query \<Rightarrow> string \<times> (search_query \<Rightarrow> search_hit list result)
      \<Rightarrow> fuse_state \<Rightarrow> fuse_state" where
  "fuse_search FO cfg query entry st =
     (case snd entry query of
        Inl e \<Rightarrow> st\<lparr>fu_diagnostics := fu_diagnostics st @ [fst entry @ '' search failed: '' @ exn_name e]\<rparr>
      | Inr raw_hits \<Rightarrow>
          snd (fold (fuse_hit FO cfg (fst entry)) (enumerate 1 (take (nat (sq_limit query)) raw_hits))
            ([], st\<lparr>fu_truncated := fu_truncated st \<or> sq_limit query \<le> int (length raw_hits),
                   fu_successful := fu_successful st + 1\<rparr>)))"

definition fused_candidate :: "fuse_state \<Rightarrow> string \<Rightarrow> (string \<times> candidate) result" where
  "fused_candidate st symbol_id =
     rbind (dict_index (fu_symbols st) symbol_id) (\<lambda>symbol.
     rbind (dict_index (fu_scores st) symbol_id) (\<lambda>score.
     Inr (symbol_id, new_candidate \<lparr>sh_symbol = symbol, sh_score = score, sh_source = ''hybrid''\<rparr>
       (dict_get (fu_reasons st) symbol_id []))))"

definition fuse ::
    "float_ops \<Rightarrow> retriever \<Rightarrow> string \<Rightarrow> string list \<Rightarrow> int \<Rightarrow> ((string \<times> candidate) list \<times> bool \<times> string list) result" where
  "fuse FO r qtext diagnostics result_limit =
     rbind (post_init_search_query \<lparr>sq_text = qtext, sq_limit = min (search_limit (rt_config r)) result_limit\<rparr>) (\<lambda>query.
     let st = fold (fuse_search FO (rt_config r) query) (searches r)
           \<lparr>fu_scores = [], fu_symbols = [], fu_reasons = [], fu_successful = 0, fu_truncated = False,
            fu_diagnostics = diagnostics\<rparr>;
         diagnostics' = fu_diagnostics st @ (if fu_successful st = 0 then [''all candidate searches failed''] else []);
         ordered_ids = map fst (sort_desc snd (fu_scores st)) in
     rbind (rmap (fused_candidate st) (take (nat (min (candidate_limit (rt_config r)) result_limit)) ordered_ids)) (\<lambda>cs.
     Inr (cs, fu_truncated st, diagnostics')))"

section \<open>Reranking\<close>

text \<open>\<open>[A-Za-z_][A-Za-z0-9_]*\<close>, every leftmost longest match.\<close>

definition word_start :: "char \<Rightarrow> bool" where
  "word_start c = (let n = (of_char c :: nat) in (65 \<le> n \<and> n \<le> 90) \<or> (97 \<le> n \<and> n \<le> 122) \<or> n = 95)"

definition word_char :: "char \<Rightarrow> bool" where
  "word_char c = (let n = (of_char c :: nat) in word_start c \<or> (48 \<le> n \<and> n \<le> 57))"

lemma length_dropWhile_less [termination_simp]: "length (dropWhile P xs) < Suc (length xs)"
  by (simp add: length_dropWhile_le less_Suc_eq_le)

fun words :: "string \<Rightarrow> string list" where
  "words [] = []"
| "words (c # cs) = (if word_start c then (c # takeWhile word_char cs) # words (dropWhile word_char cs) else words cs)"

text \<open>\<open>str.casefold\<close> on the code points below 256, as code points: U+00B5 folds to U+03BC, U+00DF to \<open>ss\<close>.\<close>

definition casefold_char :: "char \<Rightarrow> nat list" where
  "casefold_char c = (let n = of_char c in
     if (65 \<le> n \<and> n \<le> 90) \<or> (192 \<le> n \<and> n \<le> 222 \<and> n \<noteq> 215) then [n + 32]
     else if n = 181 then [956] else if n = 223 then [115, 115] else [n])"

definition casefold :: "string \<Rightarrow> nat list" where
  "casefold s = concat (map casefold_char s)"

definition occurs_in :: "'a list \<Rightarrow> 'a list \<Rightarrow> bool" where
  "occurs_in p s = list_ex (\<lambda>i. take (length p) (drop i s) = p) [0..<Suc (length s)]"

definition query_overlap :: "float_ops \<Rightarrow> string \<Rightarrow> code_symbol \<Rightarrow> rat" where
  "query_overlap FO query s =
     (let query_terms = remdups (map casefold (words query));
          symbol_terms = map casefold (words (sym_qualified_name s @ '' '' @ sym_signature s @ '' '' @ sym_documentation s)) in
      fl FO (of_nat (length (filter (\<lambda>t. t \<in> set symbol_terms) query_terms)) / of_nat (max 1 (length query_terms))))"

definition rerank_score :: "float_ops \<Rightarrow> retrieval_config \<Rightarrow> string \<Rightarrow> candidate \<Rightarrow> rat" where
  "rerank_score FO cfg query c =
     (let s = ca_symbol c;
          exact = (if occurs_in (casefold (sym_qualified_name s)) (casefold query) then 1 else 0 :: rat);
          boost = fl FO (fl FO (1 + fl FO (fl FO (35 / 100) * query_overlap FO query s)) + fl FO (fl FO (2 / 10) * exact));
          score = fl FO (sh_score (ca_hit c) * boost) in
      if hub_threshold cfg < int (ca_hub_degree c)
      then fl FO (score / fl_sqrt FO (fl FO (of_nat (ca_hub_degree c) / of_int (hub_threshold cfg))))
      else score)"

definition set_score :: "rat \<Rightarrow> candidate \<Rightarrow> candidate" where
  "set_score score c = c\<lparr>ca_hit := \<lparr>sh_symbol = ca_symbol c, sh_score = score, sh_source = sh_source (ca_hit c)\<rparr>\<rparr>"

definition rerank :: "float_ops \<Rightarrow> retrieval_config \<Rightarrow> string \<Rightarrow> (string \<times> candidate) list \<Rightarrow> bool \<Rightarrow> candidate list" where
  "rerank FO cfg query candidates update_scores =
     (let reranked = map (\<lambda>(k, c). (rerank_score FO cfg query c, c)) candidates;
          ordered = sort_desc (\<lambda>(score, c). (score, ca_is_seed c, sym_qualified_name (ca_symbol c))) reranked in
      map (\<lambda>(score, c). if update_scores then set_score score c else c) ordered)"

section \<open>Expansion\<close>

text \<open>The two nested \<open>try\<close> blocks: a \<open>TypeError\<close> of the bounded call retries with the original protocol.\<close>

definition neighbor_edges :: "retrieval_config \<Rightarrow> code_graph \<Rightarrow> code_symbol \<Rightarrow> graph_edge list result" where
  "neighbor_edges cfg G s =
     (case neighbors_bounded G (fact_id s) (relations cfg) 1 (per_node_edge_budget cfg + 1)
             (per_node_edge_budget cfg + 1) [build_variant s] of
        Inl (TypeError m) \<Rightarrow> neighbors_plain G (fact_id s) (relations cfg) 1
      | answer \<Rightarrow> answer)"

type_synonym evidence_map = "((string \<times> string) \<times> call_target) list"

definition add_call_evidence ::
    "call_site \<times> call_target \<Rightarrow> evidence_map \<times> graph_edge list \<Rightarrow> evidence_map \<times> graph_edge list" where
  "add_call_evidence item acc =
     (let (site, target) = item; (known, new_edges) = acc; key = (cs_owner_symbol_id site, ct_target_symbol_id target) in
      (if map_of known key = None \<or> ct_certainty target = TARGET_CERTAIN then AList.update key target known else known,
       new_edges @ [\<lparr>fact_id = fact_id target, translation_unit_id = translation_unit_id target,
         build_configuration_id = build_configuration_id target, build_variant = build_variant target,
         ge_source_id = cs_owner_symbol_id site, ge_target_id = ct_target_symbol_id target, ge_relation = REL_CALLS\<rparr>]))"

definition gather_direction ::
    "retrieval_config \<Rightarrow> (string \<Rightarrow> bool \<Rightarrow> string list \<Rightarrow> int \<Rightarrow> (call_site \<times> call_target) list result) \<Rightarrow> code_symbol
      \<Rightarrow> bool \<Rightarrow> evidence_map \<times> graph_edge list \<times> string list \<Rightarrow> evidence_map \<times> graph_edge list \<times> string list" where
  "gather_direction cfg lookup s incoming acc =
     (let (known, new_edges, diagnostics) = acc in
      case lookup (fact_id s) incoming [build_variant s] (per_node_edge_budget cfg + 1) of
        Inl e \<Rightarrow> (known, new_edges,
                  diagnostics @ [''call evidence lookup failed for '' @ fact_id s @ '': '' @ exn_name e])
      | Inr items \<Rightarrow> (let (known', new_edges') = fold add_call_evidence items (known, new_edges) in
                     (known', new_edges', diagnostics)))"

definition gather_evidence ::
    "retrieval_config \<Rightarrow> code_graph \<Rightarrow> code_symbol \<Rightarrow> string list \<Rightarrow> evidence_map \<times> graph_edge list \<times> string list" where
  "gather_evidence cfg G s diagnostics =
     (case call_evidence G of
        Some lookup \<Rightarrow> if REL_CALLS \<in> set (relations cfg)
          then fold (gather_direction cfg lookup s) [False, True] ([], [], diagnostics) else ([], [], diagnostics)
      | None \<Rightarrow> ([], [], diagnostics))"

definition edge_identity :: "graph_edge \<Rightarrow> string \<times> string \<times> graph_relation \<times> string" where
  "edge_identity e = (ge_source_id e, ge_target_id e, ge_relation e, build_variant e)"

definition edge_order :: "evidence_map \<Rightarrow> graph_edge \<Rightarrow> nat \<times> string \<times> string \<times> string" where
  "edge_order known e =
     (case map_of known (ge_source_id e, ge_target_id e) of
        Some t \<Rightarrow> if ct_certainty t = TARGET_CERTAIN then 0 else 1
      | None \<Rightarrow> 1, graph_relation_value (ge_relation e), ge_source_id e, ge_target_id e)"

definition relevant_edges :: "retrieval_config \<Rightarrow> evidence_map \<Rightarrow> graph_edge list \<Rightarrow> graph_edge list \<Rightarrow> graph_edge list" where
  "relevant_edges cfg known raw_edges evidence_edges =
     (let indexed = edge_identity ` set raw_edges;
          all_edges = raw_edges @ filter (\<lambda>e. edge_identity e \<notin> indexed) evidence_edges in
      sort_key (edge_order known) (filter (\<lambda>e. ge_relation e \<in> set (relations cfg)) all_edges))"

text \<open>The other end of an edge of the current symbol.\<close>

definition neighbor_of :: "string \<Rightarrow> graph_edge \<Rightarrow> string option" where
  "neighbor_of current e =
     (if ge_source_id e = current then Some (ge_target_id e)
      else if ge_target_id e = current then Some (ge_source_id e) else None)"

type_synonym symbol_cache = "((string \<times> string) \<times> code_symbol option) list"

definition grouped_neighbors :: "string \<Rightarrow> graph_edge list \<Rightarrow> (string \<times> string list) list" where
  "grouped_neighbors current es = dict_group (concat (map (\<lambda>e.
     case neighbor_of current e of Some n \<Rightarrow> [(build_variant e, n)] | None \<Rightarrow> []) es))"

definition prefetch_variant ::
    "(string list \<Rightarrow> string list \<Rightarrow> code_symbol option list result) \<Rightarrow> string \<times> string list \<Rightarrow> symbol_cache
      \<Rightarrow> symbol_cache result" where
  "prefetch_variant fetch entry cache =
     (let (variant, ids) = entry in
      rbind (fetch ids [variant]) (\<lambda>symbols.
      if length symbols \<noteq> length ids then Inl (ValueError ''zip() arguments have different lengths'')
      else Inr (fold (\<lambda>(n, s). AList.update (variant, n) s) (zip ids symbols) cache)))"

definition prefetch :: "symbol_store \<Rightarrow> string \<Rightarrow> graph_edge list \<Rightarrow> symbol_cache result" where
  "prefetch store current es =
     (case get_symbols store of
        None \<Rightarrow> Inr []
      | Some fetch \<Rightarrow> rfold (prefetch_variant fetch) (grouped_neighbors current es) [])"

definition lookup_symbol :: "symbol_store \<Rightarrow> symbol_cache \<Rightarrow> string \<Rightarrow> string \<Rightarrow> code_symbol option result" where
  "lookup_symbol store cache variant neighbor_id =
     (if cache \<noteq> [] then Inr (dict_get cache (variant, neighbor_id) None)
      else case get_symbol_scoped store neighbor_id [variant] of
        Inl (TypeError m) \<Rightarrow> get_symbol_plain store neighbor_id
      | answer \<Rightarrow> answer)"

record expand_state =
  ex_candidates :: "(string \<times> candidate) list"
  ex_queue :: "(string \<times> nat) list"
  ex_visited :: "string list"
  ex_edge_count :: nat
  ex_expanded_nodes :: nat
  ex_exhausted :: bool
  ex_diagnostics :: "string list"

definition evidence_reason :: "float_ops \<Rightarrow> call_target option \<Rightarrow> string" where
  "evidence_reason FO evidence =
     (case evidence of None \<Rightarrow> []
      | Some t \<Rightarrow> ''; call '' @ call_target_certainty_value (ct_certainty t) @ '', confidence '' @
          fl_fixed2 FO (ct_confidence t) @ '', derivation '' @ ct_derivation t @ '', build '' @ build_variant t)"

text \<open>The candidate recorded for an unvisited neighbor: new, or the fused candidate with the hop added.\<close>

definition reached_candidate ::
    "float_ops \<Rightarrow> retrieval_config \<Rightarrow> evidence_map \<Rightarrow> candidate \<Rightarrow> nat \<Rightarrow> nat \<Rightarrow> graph_edge \<Rightarrow> code_symbol
      \<Rightarrow> candidate option \<Rightarrow> candidate" where
  "reached_candidate FO cfg known current depth degree e symbol existing =
     (let path = ca_path current @
            [\<lparr>ps_source_id = ge_source_id e, ps_target_id = ge_target_id e, ps_relation = ge_relation e\<rparr>];
          graph_score = fl FO (sh_score (ca_hit current) * graph_decay cfg) in
      case existing of
        None \<Rightarrow> \<lparr>ca_hit = \<lparr>sh_symbol = symbol, sh_score = graph_score, sh_source = ''graph''\<rparr>,
          ca_reasons = [graph_relation_value (ge_relation e) @ '' neighbor at depth '' @ str_nat (depth + 1) @
              evidence_reason FO (map_of known (ge_source_id e, ge_target_id e)),
            ''hub degree '' @ str_nat degree],
          ca_path = path, ca_is_seed = False, ca_parent_id = Some (ca_key current), ca_hub_degree = degree\<rparr>
      | Some c \<Rightarrow> c\<lparr>ca_path := path, ca_parent_id := Some (ca_key current), ca_hub_degree := degree,
          ca_reasons := ca_reasons c @ [''reached through '' @ graph_relation_value (ge_relation e)],
          ca_hit := (if sh_score (ca_hit c) < graph_score
            then \<lparr>sh_symbol = symbol, sh_score = graph_score, sh_source = sh_source (ca_hit c)\<rparr> else ca_hit c)\<rparr>)"

record expand_env =
  ee_floats :: float_ops
  ee_config :: retrieval_config
  ee_store :: symbol_store
  ee_graph :: code_graph

text \<open>The body of the loop over \<open>limited_edges\<close> after its guard.\<close>

definition expand_edge ::
    "expand_env \<Rightarrow> evidence_map \<Rightarrow> symbol_cache \<Rightarrow> candidate \<Rightarrow> nat \<Rightarrow> nat \<Rightarrow> graph_edge \<Rightarrow> expand_state
      \<Rightarrow> expand_state result" where
  "expand_edge E known cache current depth degree e st0 =
     (let st = st0\<lparr>ex_edge_count := ex_edge_count st0 + 1\<rparr> in
      case neighbor_of (fact_id (ca_symbol current)) e of
        None \<Rightarrow> Inr st
      | Some neighbor_id \<Rightarrow>
          if build_variant e @ '':'' @ neighbor_id \<in> set (ex_visited st) then Inr st
          else rbind (lookup_symbol (ee_store E) cache (build_variant e) neighbor_id) (\<lambda>found.
            case found of
              None \<Rightarrow> Inr st
            | Some symbol \<Rightarrow>
                let key = evidence_id symbol in
                if key \<in> set (ex_visited st) then Inr st
                else Inr (st\<lparr>ex_visited := key # ex_visited st, ex_expanded_nodes := ex_expanded_nodes st + 1,
                  ex_candidates := AList.update key
                    (reached_candidate (ee_floats E) (ee_config E) known current depth degree e symbol
                      (map_of (ex_candidates st) key)) (ex_candidates st),
                  ex_queue := ex_queue st @ [(key, depth + 1)]\<rparr>)))"

text \<open>The loop itself: \<open>break\<close> when a budget is reached.\<close>

fun expand_edges ::
    "expand_env \<Rightarrow> evidence_map \<Rightarrow> symbol_cache \<Rightarrow> candidate \<Rightarrow> nat \<Rightarrow> nat \<Rightarrow> graph_edge list \<Rightarrow> expand_state
      \<Rightarrow> expand_state result" where
  "expand_edges E known cache current depth degree [] st = Inr st"
| "expand_edges E known cache current depth degree (e # es) st =
     (if graph_edge_budget (ee_config E) \<le> int (ex_edge_count st)
         \<or> graph_node_budget (ee_config E) \<le> int (ex_expanded_nodes st)
      then Inr (st\<lparr>ex_exhausted := True\<rparr>)
      else rbind (expand_edge E known cache current depth degree e st) (expand_edges E known cache current depth degree es))"

definition hard_depth :: "retrieval_config \<Rightarrow> int" where
  "hard_depth cfg = min (graph_depth cfg) (max_expansion_steps cfg)"

text \<open>What one turn of the \<open>while\<close> loop does with the node it popped.\<close>

definition visit_node :: "expand_env \<Rightarrow> candidate \<Rightarrow> nat \<Rightarrow> expand_state \<Rightarrow> expand_state result" where
  "visit_node E current depth st =
     (let cfg = ee_config E; s = ca_symbol current in
      case neighbor_edges cfg (ee_graph E) s of
        Inl x \<Rightarrow> Inr (st\<lparr>ex_diagnostics := ex_diagnostics st @
          [''graph expansion failed for '' @ fact_id s @ '': '' @ exn_name x]\<rparr>)
      | Inr raw_edges \<Rightarrow>
          let (known, evidence_edges, diagnostics) = gather_evidence cfg (ee_graph E) s (ex_diagnostics st);
              relevant = relevant_edges cfg known raw_edges evidence_edges;
              limited = take (nat (per_node_edge_budget cfg)) relevant in
          rbind (prefetch (ee_store E) (fact_id s) limited) (\<lambda>cache.
          expand_edges E known cache current depth (length relevant) limited
            (st\<lparr>ex_diagnostics := diagnostics,
               ex_exhausted := ex_exhausted st \<or> per_node_edge_budget cfg < int (length relevant)\<rparr>)))"

definition expand_node :: "expand_env \<Rightarrow> expand_state \<Rightarrow> expand_state result" where
  "expand_node E st0 =
     (case ex_queue st0 of
        [] \<Rightarrow> Inr st0
      | (key, depth) # rest \<Rightarrow>
          let st = st0\<lparr>ex_queue := rest\<rparr> in
          rbind (dict_index (ex_candidates st) key) (\<lambda>current.
          if hard_depth (ee_config E) \<le> int depth then Inr st
          else if graph_node_budget (ee_config E) \<le> int (ex_expanded_nodes st) then Inr (st\<lparr>ex_exhausted := True\<rparr>)
          else visit_node E current depth st))"

definition work_left :: "expand_env \<Rightarrow> expand_state \<Rightarrow> nat" where
  "work_left E st = 2 * (nat (graph_edge_budget (ee_config E)) - ex_edge_count st) + length (ex_queue st)"

lemma expand_edge_work:
  assumes "expand_edge E known cache current depth degree e st = Inr st'"
  shows "ex_edge_count st' = ex_edge_count st + 1 \<and> length (ex_queue st') \<le> length (ex_queue st) + 1"
  using assms
  by (auto simp: expand_edge_def Let_def rbind_eq_Inr split: option.splits if_splits)

lemma expand_edges_work:
  assumes "expand_edges E known cache current depth degree es st = Inr st'"
  shows "work_left E st' \<le> work_left E st"
  using assms
proof (induction es arbitrary: st)
  case (Cons e es)
  show ?case
  proof (cases "graph_edge_budget (ee_config E) \<le> int (ex_edge_count st)
      \<or> graph_node_budget (ee_config E) \<le> int (ex_expanded_nodes st)")
    case True
    then show ?thesis using Cons.prems by (auto simp: work_left_def)
  next
    case False
    then obtain st1 where step: "expand_edge E known cache current depth degree e st = Inr st1"
      and rest: "expand_edges E known cache current depth degree es st1 = Inr st'"
      using Cons.prems by (auto simp: rbind_eq_Inr)
    have "ex_edge_count st < nat (graph_edge_budget (ee_config E))" using False by linarith
    then have "work_left E st1 \<le> work_left E st"
      using expand_edge_work [OF step] unfolding work_left_def by linarith
    then show ?thesis using Cons.IH [OF rest] by simp
  qed
qed simp

lemma visit_node_work: "visit_node E current depth st = Inr st' \<Longrightarrow> work_left E st' \<le> work_left E st"
  by (auto simp: visit_node_def Let_def rbind_eq_Inr split: sum.splits prod.splits
      dest!: expand_edges_work) (simp_all add: work_left_def)

lemma expand_node_work:
  assumes "expand_node E st = Inr st'" and "ex_queue st \<noteq> []"
  shows "work_left E st' < work_left E st"
proof -
  obtain key depth rest where q: "ex_queue st = (key, depth) # rest"
    using assms(2) by (metis list.exhaust surj_pair)
  let ?st = "st\<lparr>ex_queue := rest\<rparr>"
  have less: "work_left E ?st < work_left E st" by (simp add: work_left_def q)
  from assms(1) q have "work_left E st' \<le> work_left E ?st"
    by (auto simp: expand_node_def Let_def rbind_eq_Inr split: if_splits dest!: visit_node_work)
      (simp_all add: work_left_def)
  with less show ?thesis by simp
qed

lemmas [fundef_cong] = rbind_cong

function expand_loop :: "expand_env \<Rightarrow> expand_state \<Rightarrow> expand_state result" where
  "expand_loop E st =
     (if ex_queue st = [] \<or> graph_edge_budget (ee_config E) \<le> int (ex_edge_count st) then Inr st
      else rbind (expand_node E st) (expand_loop E))"
  by pat_completeness auto
termination
  by (relation "measure (\<lambda>(E, st). work_left E st)") (auto dest: expand_node_work)

declare expand_loop.simps [simp del]

definition expand ::
    "float_ops \<Rightarrow> retriever \<Rightarrow> string list \<Rightarrow> (string \<times> candidate) list \<Rightarrow> string list
      \<Rightarrow> ((string \<times> candidate) list \<times> string list) result" where
  "expand FO r seeds candidates diagnostics =
     (case rt_graph r of
        None \<Rightarrow> Inr (candidates, diagnostics)
      | Some G \<Rightarrow>
          if graph_depth (rt_config r) = 0 then Inr (candidates, diagnostics)
          else rbind (expand_loop \<lparr>ee_floats = FO, ee_config = rt_config r, ee_store = rt_store r, ee_graph = G\<rparr>
             \<lparr>ex_candidates = candidates, ex_queue = map (\<lambda>k. (k, 0)) seeds, ex_visited = seeds, ex_edge_count = 0,
              ex_expanded_nodes = 0, ex_exhausted = False, ex_diagnostics = diagnostics\<rparr>) (\<lambda>st.
           Inr (ex_candidates st, ex_diagnostics st @
             (if ex_queue st \<noteq> [] \<or> ex_exhausted st then [''graph expansion stopped at configured budget''] else []))))"

section \<open>Packing\<close>

definition children_of :: "candidate list \<Rightarrow> (string \<times> candidate list) list" where
  "children_of ranked = map (\<lambda>(k, cs). (k, sort_desc (\<lambda>c. sh_score (ca_hit c)) cs))
     (dict_group (concat (map (\<lambda>c. case ca_parent_id c of
        Some parent \<Rightarrow> if ca_is_seed c then [] else [(parent, c)] | None \<Rightarrow> []) ranked)))"

definition pack_roots :: "candidate list \<Rightarrow> candidate list" where
  "pack_roots ranked =
     sort_desc (\<lambda>c. sh_score (ca_hit c)) (filter (\<lambda>c. ca_parent_id c = None \<or> ca_is_seed c) ranked)"

text \<open>
  One component, breadth first; \<open>ordered\<close> and \<open>seen\<close> grow together.  It ends because every candidate it
  visits is queued at the start or a child of another, and no key is visited twice.
\<close>

function component_order ::
    "(string \<times> candidate list) list \<Rightarrow> candidate list \<Rightarrow> string list \<Rightarrow> candidate list \<Rightarrow> string list \<times> candidate list" where
  "component_order by_parent [] seen ordered = (seen, ordered)"
| "component_order by_parent (c # queue) seen ordered =
     (if ca_key c \<in> set seen then component_order by_parent queue seen ordered
      else component_order by_parent (queue @ dict_get by_parent (ca_key c) []) (ca_key c # seen) (ordered @ [c]))"
  by pat_completeness auto

definition component_keys :: "(string \<times> candidate list) list \<Rightarrow> string set" where
  "component_keys by_parent = ca_key ` (\<Union>kcs \<in> set by_parent. set (snd kcs))"

lemma finite_component_keys [simp]: "finite (component_keys by_parent)"
  by (simp add: component_keys_def)

lemma children_keys: "ca_key ` set (dict_get by_parent k []) \<subseteq> component_keys by_parent"
proof (cases "map_of by_parent k")
  case (Some cs)
  then have "(k, cs) \<in> set by_parent" by (rule map_of_SomeD)
  then show ?thesis unfolding dict_get_Some [OF Some] component_keys_def by force
qed (simp add: dict_get_def)

termination component_order
proof (relation "(\<lambda>(by_parent, queue, seen, ordered). card (component_keys by_parent \<union> ca_key ` set queue - set seen))
    <*mlex*> measure (\<lambda>(by_parent, queue, seen, ordered). length queue)", goal_cases)
  case 1
  show ?case by (simp add: wf_mlex)
next
  case (2 by_parent c queue seen ordered)
  then have "component_keys by_parent \<union> ca_key ` set (c # queue) - set seen
      = component_keys by_parent \<union> ca_key ` set queue - set seen"
    by auto
  then show ?case by (intro mlex_leq) (simp_all add: mlex_prod_def)
next
  case (3 by_parent c queue seen ordered)
  let ?U = "component_keys by_parent \<union> ca_key ` set (c # queue) - set seen"
  let ?V = "component_keys by_parent \<union> ca_key ` set (queue @ dict_get by_parent (ca_key c) []) - set (ca_key c # seen)"
  have "?V \<subseteq> ?U - {ca_key c}" using children_keys [of by_parent "ca_key c"] by auto
  then have "card ?V \<le> card (?U - {ca_key c})" by (intro card_mono) auto
  also have "\<dots> < card ?U" using 3 by (intro psubset_card_mono) auto
  finally show ?case by (intro mlex_less) simp
qed

definition pack_order :: "candidate list \<Rightarrow> candidate list" where
  "pack_order ranked = snd (fold (\<lambda>c (seen, ordered). component_order (children_of ranked) [c] seen ordered)
     (pack_roots ranked) ([], []))"

definition display_location :: "fs \<Rightarrow> reader_api \<Rightarrow> string \<Rightarrow> string" where
  "display_location F rd path =
     (case rd_display_path rd of
        Some show_path \<Rightarrow> (case show_path path of Inr shown \<Rightarrow> shown | Inl e \<Rightarrow> ''<outside-project>'')
      | None \<Rightarrow>
          (case rd_project_root rd of
             None \<Rightarrow> py_path path
           | Some base \<Rightarrow>
               let project = fs_resolve F base;
                   resolved = fs_resolve F (if is_absolute path then path else path_join project path) in
               if is_relative_to resolved project then relative_to resolved project else py_path path))"

definition step_text :: "context_path_step \<Rightarrow> string" where
  "step_text p = ps_source_id p @ '' -['' @ graph_relation_value (ps_relation p) @ '']-> '' @ ps_target_id p"

definition NEWLINE_CHAR :: string where "NEWLINE_CHAR = [CHR 10]"

definition FENCE :: string where "FENCE = replicate 3 (CHR 0x60)"

definition shell_prefix :: "fs \<Rightarrow> reader_api \<Rightarrow> candidate \<Rightarrow> string \<Rightarrow> string" where
  "shell_prefix F rd c reason =
     (let s = ca_symbol c; sp = sym_span s;
          path = (if ca_path c \<noteq> [] then join '' -> '' (map step_text (ca_path c)) else ''search seed'') in
      join NEWLINE_CHAR
       [''### '' @ sym_qualified_name s, ''Symbol-ID: '' @ fact_id s, ''Build: '' @ build_variant s,
        ''Location: '' @ display_location F rd (span_path sp) @ '':'' @ str_int (start_line sp) @ ''-'' @ str_int (end_line sp),
        ''Selected: '' @ reason, ''Path: '' @ path, FENCE @ ''cpp'', []])"

definition SHELL_SUFFIX :: string where
  "SHELL_SUFFIX = join NEWLINE_CHAR [[], FENCE, [], []]"

text \<open>\<open>"\n... [truncated]"\<close>, written with the one-character ellipsis U+2026.\<close>

definition TRUNCATION_MARK :: "nat list" where
  "TRUNCATION_MARK = 10 # 8230 # bytes_of '' [truncated]''"

definition render :: "string \<Rightarrow> nat list \<Rightarrow> nat list" where
  "render prefix source = bytes_of prefix @ source @ bytes_of SHELL_SUFFIX"

record pack_state =
  pk_parts :: "nat list list"
  pk_items :: "context_item list"
  pk_used_chars :: int
  pk_truncated :: bool
  pk_diagnostics :: "string list"

definition pack_item :: "candidate \<Rightarrow> string \<Rightarrow> nat list \<Rightarrow> nat list \<Rightarrow> pack_state \<Rightarrow> pack_state" where
  "pack_item c reason source full st =
     st\<lparr>pk_items := pk_items st @ [\<lparr>it_hit = ca_hit c, it_source_text = source, it_reason = reason, it_path = ca_path c\<rparr>],
        pk_parts := pk_parts st @ [full], pk_used_chars := pk_used_chars st + int (length full)\<rparr>"

fun pack_loop :: "fs \<Rightarrow> reader_api \<Rightarrow> int \<Rightarrow> int \<Rightarrow> candidate list \<Rightarrow> pack_state \<Rightarrow> pack_state" where
  "pack_loop F rd char_budget max_results [] st = st"
| "pack_loop F rd char_budget max_results (c # cs) st =
     (if max_results \<le> int (length (pk_items st)) then st\<lparr>pk_truncated := True\<rparr>
      else case rd_read_symbol rd (ca_symbol c) of
        Inl e \<Rightarrow> pack_loop F rd char_budget max_results cs
          (st\<lparr>pk_diagnostics := pk_diagnostics st @
             [''source read failed for '' @ fact_id (ca_symbol c) @ '': '' @ exn_name e]\<rparr>)
      | Inr source \<Rightarrow>
          let reason = join ''; '' (fromkeys (ca_reasons c));
              prefix = shell_prefix F rd c reason;
              remaining = char_budget - pk_used_chars st;
              full = render prefix source in
          if remaining < int (length full)
          then let available = remaining - int (length prefix) - int (length SHELL_SUFFIX) - int (length TRUNCATION_MARK);
                   cut = take (nat available) source @ TRUNCATION_MARK in
            if available \<le> 0 then st\<lparr>pk_truncated := True\<rparr>
            else pack_item c reason cut (render prefix cut) (st\<lparr>pk_truncated := True\<rparr>)
          else pack_loop F rd char_budget max_results cs (pack_item c reason source full st))"

definition char_budget :: "float_ops \<Rightarrow> retrieval_config \<Rightarrow> int \<Rightarrow> int" where
  "char_budget FO cfg max_tokens =
     (let budget = \<lfloor>fl FO (fl FO (of_int max_tokens) * chars_per_token cfg)\<rfloor> in
      case max_context_chars cfg of None \<Rightarrow> budget | Some m \<Rightarrow> min budget m)"

definition scope_label :: "build_scope \<Rightarrow> string" where
  "scope_label s = (if is_union s then ''union'' else ''build'') @ '':'' @ join '','' (variants s)"

definition pack ::
    "fs \<Rightarrow> float_ops \<Rightarrow> retriever \<Rightarrow> string \<Rightarrow> candidate list \<Rightarrow> int \<Rightarrow> int \<Rightarrow> string list \<Rightarrow> bool \<Rightarrow> context_bundle" where
  "pack F FO r query ranked max_tokens max_results diagnostics candidates_truncated =
     (let ordered = pack_order ranked;
          st = pack_loop F (rt_reader r) (char_budget FO (rt_config r) max_tokens) max_results ordered
            \<lparr>pk_parts = [], pk_items = [], pk_used_chars = 0, pk_truncated = candidates_truncated,
             pk_diagnostics = diagnostics\<rparr>;
          rendered = concat (pk_parts st) in
      \<lparr>cx_query = query, cx_hits = map it_hit (pk_items st), cx_rendered_context = rendered,
       cx_estimated_tokens = \<lceil>fl FO (fl FO (of_nat (length rendered)) / chars_per_token (rt_config r))\<rceil>,
       cx_items = pk_items st, cx_diagnostics = fromkeys (pk_diagnostics st),
       cx_truncated = (pk_truncated st \<or> length (pk_items st) < length ordered),
       cx_build_variants = variants (rt_scope r), cx_scope_label = scope_label (rt_scope r)\<rparr>)"

section \<open>The whole operation\<close>

definition mark_seed :: "string \<Rightarrow> (string \<times> candidate) list \<Rightarrow> (string \<times> candidate) list" where
  "mark_seed key cs = map (\<lambda>(k, c).
     (k, if k = key then c\<lparr>ca_is_seed := True, ca_reasons := ca_reasons c @ [''selected as a fused search seed'']\<rparr> else c)) cs"

definition retrieve ::
    "fs \<Rightarrow> float_ops \<Rightarrow> retriever \<Rightarrow> string \<Rightarrow> int \<Rightarrow> int option \<Rightarrow> context_bundle result" where
  "retrieve F FO r query max_tokens max_results =
     (if blank query then Inl (ValueError ''query must not be empty'')
      else if max_tokens \<le> 0 then Inl (ValueError ''max_tokens must be greater than zero'')
      else if (case max_results of None \<Rightarrow> False | Some m \<Rightarrow> m \<le> 0)
      then Inl (ValueError ''max_results must be greater than zero'')
      else let cfg = rt_config r; result_limit = (case max_results of None \<Rightarrow> candidate_limit cfg | Some m \<Rightarrow> m) in
        rbind (fuse FO r query [] result_limit) (\<lambda>(candidates, candidates_truncated, diagnostics).
        if candidates = []
        then Inr \<lparr>cx_query = query, cx_hits = [], cx_rendered_context = [], cx_estimated_tokens = 0, cx_items = [],
                  cx_diagnostics = diagnostics, cx_truncated = False, cx_build_variants = variants (rt_scope r),
                  cx_scope_label = scope_label (rt_scope r)\<rparr>
        else let seeds = take (nat (seed_limit cfg)) (map ca_key (rerank FO cfg query candidates False)) in
          rbind (expand FO r seeds (fold mark_seed seeds candidates) diagnostics) (\<lambda>(expanded, diagnostics').
          Inr (pack F FO r query (rerank FO cfg query expanded True) max_tokens result_limit diagnostics'
                 candidates_truncated))))"

end
