(* ===== verification/RetrievalPack.thy ===== *)
theory RetrievalPack
imports Retrieval
begin

text \<open>
  The packing step of hybrid retrieval: what the packed context may contain, its budgets, and the order
  in which the candidates are offered to the packer.
\<close>

section \<open>Budgets\<close>

text \<open>What an item shows: the text the reader returned, or a proper prefix of it with the truncation mark.\<close>

definition excerpt :: "reader_api \<Rightarrow> context_item \<Rightarrow> bool" where
  "excerpt rd it \<longleftrightarrow> (\<exists>source. rd_read_symbol rd (sh_symbol (it_hit it)) = Inr source \<and>
     (it_source_text it = source \<or> (\<exists>n. it_source_text it = take n source @ TRUNCATION_MARK)))"

definition whole :: "reader_api \<Rightarrow> context_item \<Rightarrow> bool" where
  "whole rd it \<longleftrightarrow> rd_read_symbol rd (sh_symbol (it_hit it)) = Inr (it_source_text it)"

definition item_text :: "fs \<Rightarrow> reader_api \<Rightarrow> context_item \<Rightarrow> nat list" where
  "item_text F rd it = render (shell_prefix F rd
     \<lparr>ca_hit = it_hit it, ca_reasons = [], ca_path = it_path it, ca_is_seed = False, ca_parent_id = None, ca_hub_degree = 0\<rparr>
     (it_reason it)) (it_source_text it)"

lemma shell_prefix_cong:
  "ca_hit c = ca_hit d \<Longrightarrow> ca_path c = ca_path d \<Longrightarrow> shell_prefix F rd c reason = shell_prefix F rd d reason"
  by (simp add: shell_prefix_def)

definition packed :: "fs \<Rightarrow> reader_api \<Rightarrow> int \<Rightarrow> int \<Rightarrow> pack_state \<Rightarrow> bool" where
  "packed F rd budget limit st \<longleftrightarrow>
     pk_parts st = map (item_text F rd) (pk_items st) \<and> pk_used_chars st = int (length (concat (pk_parts st))) \<and>
     pk_used_chars st \<le> max 0 budget \<and> int (length (pk_items st)) \<le> limit \<and>
     list_all (excerpt rd) (pk_items st) \<and> (pk_truncated st \<or> list_all (whole rd) (pk_items st))"

lemma length_render: "length (render p s) = length p + length s + length SHELL_SUFFIX"
  by (simp add: render_def bytes_of_def)

lemma packed_cut: "packed F rd budget limit st \<Longrightarrow> packed F rd budget limit (st\<lparr>pk_truncated := True\<rparr>)"
  by (auto simp: packed_def)

lemma packed_diagnostics [simp]:
  "packed F rd budget limit (st\<lparr>pk_diagnostics := d\<rparr>) = packed F rd budget limit st"
  by (simp add: packed_def)

lemma packed_item:
  assumes st: "packed F rd budget limit st" and room: "int (length (pk_items st)) < limit"
    and reason: "reason = join ''; '' (fromkeys (ca_reasons c))"
    and full: "full = render (shell_prefix F rd c reason) shown"
    and fits: "int (length full) \<le> budget - pk_used_chars st"
    and source: "rd_read_symbol rd (ca_symbol c) = Inr source"
    and shown: "shown = source \<or> pk_truncated st \<and> (\<exists>n. shown = take n source @ TRUNCATION_MARK)"
  shows "packed F rd budget limit (pack_item c reason shown full st)"
proof -
  let ?it = "\<lparr>it_hit = ca_hit c, it_source_text = shown, it_reason = reason, it_path = ca_path c\<rparr>"
  have "shell_prefix F rd \<lparr>ca_hit = ca_hit c, ca_reasons = [], ca_path = ca_path c, ca_is_seed = False,
      ca_parent_id = None, ca_hub_degree = 0\<rparr> reason = shell_prefix F rd c reason"
    by (rule shell_prefix_cong) simp_all
  then have "item_text F rd ?it = full" by (simp add: item_text_def full)
  moreover have "excerpt rd ?it" using source shown by (auto simp: excerpt_def)
  moreover have "pk_truncated st \<or> whole rd ?it" using source shown by (auto simp: whole_def)
  moreover have "pk_used_chars st + int (length full) \<le> max 0 budget" using fits by linarith
  ultimately show ?thesis
    using st room by (cases st) (auto simp: packed_def pack_item_def)
qed

declare pack_loop.simps(2) [simp del]

lemma packed_loop:
  assumes "packed F rd budget limit st"
  shows "packed F rd budget limit (pack_loop F rd budget limit cs st)"
  using assms
proof (induction F rd budget limit cs st rule: pack_loop.induct)
  case (2 F rd budget limit c cs st)
  show ?case
  proof (cases "limit \<le> int (length (pk_items st))")
    case True
    then show ?thesis using packed_cut [OF 2(3)] by (simp add: pack_loop.simps(2))
  next
    case room: False
    show ?thesis
    proof (cases "rd_read_symbol rd (ca_symbol c)")
      case (Inl e)
      then show ?thesis using 2(1) [OF room Inl] 2(3) room
        by (simp add: pack_loop.simps(2) packed_diagnostics)
    next
      case (Inr source)
      define reason where "reason = join ''; '' (fromkeys (ca_reasons c))"
      define prefix where "prefix = shell_prefix F rd c reason"
      define full where "full = render prefix source"
      define available where "available = budget - pk_used_chars st - int (length prefix)
        - int (length SHELL_SUFFIX) - int (length TRUNCATION_MARK)"
      define cut where "cut = take (nat available) source @ TRUNCATION_MARK"
      let ?st = "st\<lparr>pk_truncated := True\<rparr>"
      have cutst: "packed F rd budget limit ?st" by (rule packed_cut [OF 2(3)])
      have step: "pack_loop F rd budget limit (c # cs) st
        = (if budget - pk_used_chars st < int (length full)
           then if available \<le> 0 then ?st else pack_item c reason cut (render prefix cut) ?st
           else pack_loop F rd budget limit cs (pack_item c reason source full st))"
        using room by (simp add: pack_loop.simps(2) Inr Let_def reason_def [symmetric] prefix_def [symmetric] full_def [symmetric]
            available_def [symmetric] cut_def [symmetric] del: of_nat_add)
      consider "budget - pk_used_chars st < int (length full)" "available \<le> 0"
        | "budget - pk_used_chars st < int (length full)" "0 < available"
        | "int (length full) \<le> budget - pk_used_chars st" by linarith
      then show ?thesis
      proof cases
        case 1
        then show ?thesis using step cutst by simp
      next
        case 2
        have "int (length (render prefix cut)) \<le> budget - pk_used_chars ?st"
          using 2 by (simp add: length_render cut_def available_def)
        then have "packed F rd budget limit (pack_item c reason cut (render prefix cut) ?st)"
          by (intro packed_item [OF cutst _ reason_def _ _ Inr]) (use room in \<open>auto simp: prefix_def cut_def\<close>)
        then show ?thesis using step 2 by simp
      next
        case 3
        then have "packed F rd budget limit (pack_item c reason source full st)"
          by (intro packed_item [OF 2(3) _ reason_def _ _ Inr]) (use room in \<open>auto simp: prefix_def full_def\<close>)
        then show ?thesis
          using step 3 2(2) [OF room Inr reason_def prefix_def refl full_def] by simp
      qed
    qed
  qed
qed simp

section \<open>The order of the candidates\<close>

definition is_root :: "candidate \<Rightarrow> bool" where
  "is_root c \<longleftrightarrow> ca_parent_id c = None \<or> ca_is_seed c"

lemma filter_parent:
  "map snd (filter (\<lambda>kv. fst kv = k) (concat (map (\<lambda>c. case ca_parent_id c of
       Some parent \<Rightarrow> if ca_is_seed c then [] else [(parent, c)] | None \<Rightarrow> []) cs)))
   = filter (\<lambda>c. \<not> is_root c \<and> ca_parent_id c = Some k) cs"
  by (induction cs) (auto simp: is_root_def split: option.splits)

lemma set_children: "set (dict_get (children_of cs) k []) = {c \<in> set cs. \<not> is_root c \<and> ca_parent_id c = Some k}"
proof -
  have map_values: "dict_get (map (\<lambda>(k, cs). (k, sort_desc f cs)) d) k [] = sort_desc f (dict_get d k [])"
    for f :: "candidate \<Rightarrow> rat" and d
    by (induction d) (auto simp: dict_get_def sort_desc_def)
  show ?thesis by (simp add: children_of_def map_values filter_parent)
qed

lemma set_pack_roots [simp]: "set (pack_roots cs) = {c \<in> set cs. is_root c}"
  by (auto simp: pack_roots_def is_root_def)

text \<open>
  The invariant of the traversal: \<open>seen\<close> is the keys of \<open>ordered\<close>, which are distinct; the children of
  every ordered candidate are ordered or queued, and every candidate but the roots comes after a parent.
\<close>

definition children_reached :: "candidate list \<Rightarrow> candidate list \<Rightarrow> string list \<Rightarrow> candidate list \<Rightarrow> bool" where
  "children_reached ranked queue seen ordered \<longleftrightarrow> (\<forall>c \<in> set ordered. \<forall>d \<in> set ranked.
     \<not> is_root d \<longrightarrow> ca_parent_id d = Some (ca_key c) \<longrightarrow> ca_key d \<in> set seen \<union> ca_key ` set queue)"

definition reachable :: "candidate list \<Rightarrow> candidate list \<Rightarrow> candidate \<Rightarrow> bool" where
  "reachable ranked ordered d \<longleftrightarrow>
     d \<in> set ranked \<and> (is_root d \<or> (\<exists>p \<in> set ordered. ca_parent_id d = Some (ca_key p)))"

definition parents_first :: "candidate list \<Rightarrow> candidate list \<Rightarrow> bool" where
  "parents_first ranked ordered \<longleftrightarrow> (\<forall>i < length ordered. reachable ranked (take i ordered) (ordered ! i))"

definition traversal :: "candidate list \<Rightarrow> candidate list \<Rightarrow> string list \<Rightarrow> candidate list \<Rightarrow> bool" where
  "traversal ranked queue seen ordered \<longleftrightarrow>
     set seen = ca_key ` set ordered \<and> distinct (map ca_key ordered) \<and> parents_first ranked ordered \<and>
     children_reached ranked queue seen ordered \<and> (\<forall>d \<in> set queue. reachable ranked ordered d)"

lemma parents_first_snoc:
  "parents_first ranked ordered \<Longrightarrow> reachable ranked ordered c \<Longrightarrow> parents_first ranked (ordered @ [c])"
  by (simp add: parents_first_def nth_append less_Suc_eq)

lemma parents_first_subset: "parents_first ranked ordered \<Longrightarrow> set ordered \<subseteq> set ranked"
  by (auto simp: parents_first_def reachable_def in_set_conv_nth)

lemma reachable_mono: "reachable ranked xs d \<Longrightarrow> set xs \<subseteq> set ys \<Longrightarrow> reachable ranked ys d"
  unfolding reachable_def by blast

lemma children_reached_mono:
  assumes "children_reached ranked queue seen ordered"
    and "set seen \<union> ca_key ` set queue \<subseteq> set seen' \<union> ca_key ` set queue'"
  shows "children_reached ranked queue' seen' ordered"
  using assms unfolding children_reached_def by (meson subsetD)

lemma children_reached_snoc:
  assumes "children_reached ranked queue seen ordered"
  shows "children_reached ranked (queue @ dict_get (children_of ranked) (ca_key c) []) seen (ordered @ [c])"
  using assms unfolding children_reached_def by (simp add: set_children image_Un) blast

lemma traversal_skip:
  assumes "traversal ranked (c # queue) seen ordered" and "ca_key c \<in> set seen"
  shows "traversal ranked queue seen ordered"
proof -
  have "children_reached ranked queue seen ordered"
    by (rule children_reached_mono [of _ "c # queue" seen]) (use assms in \<open>auto simp: traversal_def\<close>)
  then show ?thesis using assms(1) by (simp add: traversal_def)
qed

lemma traversal_visit:
  assumes t: "traversal ranked (c # queue) seen ordered" and new: "ca_key c \<notin> set seen"
  shows "traversal ranked (queue @ dict_get (children_of ranked) (ca_key c) []) (ca_key c # seen) (ordered @ [c])"
proof -
  let ?queue = "queue @ dict_get (children_of ranked) (ca_key c) []"
  have c: "reachable ranked ordered c" and q: "\<forall>d \<in> set queue. reachable ranked ordered d"
    and ch: "children_reached ranked (c # queue) seen ordered" using t by (simp_all add: traversal_def)
  have "children_reached ranked ?queue (ca_key c # seen) (ordered @ [c])"
    by (rule children_reached_snoc [OF children_reached_mono [OF ch]]) auto
  moreover have "reachable ranked (ordered @ [c]) d" if "d \<in> set ?queue" for d
    using that q reachable_mono [of ranked ordered d "ordered @ [c]"]
    by (auto simp: set_children) (simp add: reachable_def)
  ultimately show ?thesis
    using t new parents_first_snoc [OF _ c] unfolding traversal_def by simp
qed

lemma component_order_traversal:
  assumes "component_order (children_of ranked) queue seen ordered = (seen', ordered')"
    and "traversal ranked queue seen ordered"
  shows "traversal ranked [] seen' ordered' \<and> ca_key ` set queue \<union> set seen \<subseteq> set seen'"
  using assms
proof (induction "children_of ranked" queue seen ordered rule: component_order.induct)
  case (2 c queue seen ordered)
  show ?case
  proof (cases "ca_key c \<in> set seen")
    case True
    then show ?thesis using 2(1) [OF True] 2(3) traversal_skip [OF 2(4) True] by auto
  next
    case False
    then show ?thesis using 2(2) [OF False] 2(3) traversal_visit [OF 2(4) False] by auto
  qed
qed simp

lemma traversal_root:
  assumes "traversal ranked [] seen ordered" and "c \<in> set ranked" and "is_root c"
  shows "traversal ranked [c] seen ordered"
proof -
  have "children_reached ranked [c] seen ordered"
    by (rule children_reached_mono [of _ "[]" seen]) (use assms(1) in \<open>auto simp: traversal_def\<close>)
  then show ?thesis using assms by (simp add: traversal_def reachable_def)
qed

lemma roots_traversal:
  assumes "traversal ranked [] (fst a) (snd a)" and "\<forall>c \<in> set rs. c \<in> set ranked \<and> is_root c"
    and "b = fold (\<lambda>c (seen, ordered). component_order (children_of ranked) [c] seen ordered) rs a"
  shows "traversal ranked [] (fst b) (snd b) \<and> ca_key ` set rs \<union> set (fst a) \<subseteq> set (fst b)"
  using assms
proof (induction rs arbitrary: a)
  case (Cons c rs)
  obtain seen ordered where s: "component_order (children_of ranked) [c] (fst a) (snd a) = (seen, ordered)" by fastforce
  have "traversal ranked [c] (fst a) (snd a)"
    by (rule traversal_root [OF Cons.prems(1)]) (use Cons.prems(2) in simp_all)
  note component_order_traversal [OF s this]
  then have t: "traversal ranked [] seen ordered" and in_seen: "insert (ca_key c) (set (fst a)) \<subseteq> set seen"
    by simp_all
  have "traversal ranked [] (fst b) (snd b) \<and> ca_key ` set rs \<union> set (fst (seen, ordered)) \<subseteq> set (fst b)"
    by (rule Cons.IH) (use t Cons.prems(2,3) s in \<open>simp_all add: split_beta\<close>)
  then show ?case using in_seen by auto
qed simp

lemma pack_order_traversal:
  obtains seen where "traversal ranked [] seen (pack_order ranked)" and "ca_key ` {c \<in> set ranked. is_root c} \<subseteq> set seen"
proof -
  define b where "b = fold (\<lambda>c (seen, ordered). component_order (children_of ranked) [c] seen ordered)
    (pack_roots ranked) ([], [])"
  have "traversal ranked [] (fst ([], [])) (snd ([], []))"
    by (simp add: traversal_def parents_first_def children_reached_def)
  from roots_traversal [OF this _ b_def]
  have "traversal ranked [] (fst b) (snd b)" "ca_key ` {c \<in> set ranked. is_root c} \<subseteq> set (fst b)" by auto
  moreover have "pack_order ranked = snd b" by (simp only: pack_order_def b_def)
  ultimately show ?thesis by (intro that [of "fst b"]) simp_all
qed

definition has_parents :: "candidate list \<Rightarrow> bool" where
  "has_parents ranked \<longleftrightarrow> (\<forall>c \<in> set ranked. is_root c \<or>
     (\<exists>p \<in> set ranked. ca_parent_id c = Some (ca_key p) \<and> length (ca_path p) < length (ca_path c)))"

lemma pack_order_complete_aux:
  assumes keys: "distinct (map ca_key ranked)" and parents: "has_parents ranked"
  shows "mset (pack_order ranked) = mset ranked" and "parents_first ranked (pack_order ranked)"
proof -
  obtain seen where t: "traversal ranked [] seen (pack_order ranked)"
    and roots_seen: "ca_key ` {c \<in> set ranked. is_root c} \<subseteq> set seen"
    by (rule pack_order_traversal)
  then have seen: "set seen = ca_key ` set (pack_order ranked)" and dist: "distinct (map ca_key (pack_order ranked))"
    and first: "parents_first ranked (pack_order ranked)"
    and reached: "children_reached ranked [] seen (pack_order ranked)"
    by (simp_all add: traversal_def)
  have children: "ca_key d \<in> set seen" if "c \<in> set (pack_order ranked)" "d \<in> set ranked" "\<not> is_root d"
    "ca_parent_id d = Some (ca_key c)" for c d
    using reached that unfolding children_reached_def by simp
  have sub: "set (pack_order ranked) \<subseteq> set ranked" by (rule parents_first_subset [OF first])
  have inj: "inj_on ca_key (set ranked)" using keys by (simp add: distinct_map)
  have "ca_key c \<in> set seen" if "c \<in> set ranked" for c
    using that
  proof (induction "length (ca_path c)" arbitrary: c rule: less_induct)
    case less
    show ?case
    proof (cases "is_root c")
      case False
      then obtain p where p: "p \<in> set ranked" "ca_parent_id c = Some (ca_key p)" "length (ca_path p) < length (ca_path c)"
        using parents less.prems by (auto simp: has_parents_def)
      then have "ca_key p \<in> set seen" using less.hyps by blast
      then obtain q where "q \<in> set (pack_order ranked)" "ca_key q = ca_key p" unfolding seen by force
      then show ?thesis using children [of q c] less.prems False p by simp
    qed (use roots_seen less.prems in auto)
  qed
  then have keys_seen: "ca_key ` set ranked \<subseteq> ca_key ` set (pack_order ranked)" unfolding seen by blast
  have "set ranked \<subseteq> set (pack_order ranked)"
  proof
    fix c assume c: "c \<in> set ranked"
    then have "ca_key c \<in> ca_key ` set (pack_order ranked)" using keys_seen by blast
    then show "c \<in> set (pack_order ranked)" by (rule inj_on_image_mem_iff [THEN iffD1, OF inj c sub])
  qed
  then have same: "set (pack_order ranked) = set ranked" using sub by (rule subset_antisym [rotated])
  have "distinct (pack_order ranked)" "distinct ranked" using dist keys by (simp_all add: distinct_map)
  then show "mset (pack_order ranked) = mset ranked"
    using same by (simp add: set_eq_iff_mset_eq_distinct)
  show "parents_first ranked (pack_order ranked)" by (rule first)
qed

end
