(* ===== verification/RetrievalExpand.thy ===== *)
theory RetrievalExpand
imports RetrievalPack
begin

text \<open>
  The expansion step of hybrid retrieval: its budgets, and where a reached candidate comes from.
\<close>

section \<open>What the symbol store promises\<close>

text \<open>
  A symbol looked up by an identifier has that identifier, and the evidence key of a symbol (its variant identifier, or variant and
  identifier) determines the identifier: \<open>id_of\<close> is that function.
\<close>

definition answers :: "(string \<Rightarrow> string) \<Rightarrow> string \<Rightarrow> code_symbol option \<Rightarrow> bool" where
  "answers id_of i found \<longleftrightarrow> (\<forall>s. found = Some s \<longrightarrow> fact_id s = i \<and> id_of (evidence_id s) = i)"

definition store_lawful :: "symbol_store \<Rightarrow> (string \<Rightarrow> string) \<Rightarrow> bool" where
  "store_lawful store id_of \<longleftrightarrow>
     (\<forall>fetch ids scope found. get_symbols store = Some fetch \<longrightarrow> fetch ids scope = Inr found \<longrightarrow>
        list_all2 (answers id_of) ids found) \<and>
     (\<forall>i scope found. get_symbol_scoped store i scope = Inr found \<longrightarrow> answers id_of i found) \<and>
     (\<forall>i found. get_symbol_plain store i = Inr found \<longrightarrow> answers id_of i found)"

definition cache_lawful :: "(string \<Rightarrow> string) \<Rightarrow> symbol_cache \<Rightarrow> bool" where
  "cache_lawful id_of cache \<longleftrightarrow> (\<forall>((v, i), found) \<in> set cache. answers id_of i found)"

lemma answers_None [simp]: "answers id_of i None"
  by (simp add: answers_def)

lemma cache_lawful_update:
  "cache_lawful id_of cache \<Longrightarrow> answers id_of i found \<Longrightarrow> cache_lawful id_of (AList.update (v, i) found cache)"
  by (induction cache) (auto simp: cache_lawful_def)

lemma cache_lawful_zip:
  assumes "list_all2 (answers id_of) ids found" and "cache_lawful id_of cache"
  shows "cache_lawful id_of (fold (\<lambda>(i, s). AList.update (v, i) s) (zip ids found) cache)"
  using assms by (induction ids found arbitrary: cache rule: list_all2_induct) (simp_all add: cache_lawful_update)

lemma prefetch_lawful:
  assumes law: "store_lawful store id_of" and run: "prefetch store current es = Inr cache"
  shows "cache_lawful id_of cache"
proof (cases "get_symbols store")
  case None
  then show ?thesis using run by (simp add: prefetch_def cache_lawful_def)
next
  case (Some fetch)
  then have "rfold (prefetch_variant fetch) (grouped_neighbors current es) [] = Inr cache"
    using run by (simp add: prefetch_def)
  then show ?thesis
  proof (rule rfold_preserves)
    show "cache_lawful id_of []" by (simp add: cache_lawful_def)
  next
    fix entry c c' assume c: "cache_lawful id_of c" and step: "prefetch_variant fetch entry c = Inr c'"
    obtain v ids where entry: "entry = (v, ids)" by fastforce
    obtain found where found: "fetch ids [v] = Inr found"
      and c': "c' = fold (\<lambda>(i, s). AList.update (v, i) s) (zip ids found) c"
      using step by (auto simp: entry prefetch_variant_def rbind_eq_Inr split: if_splits)
    have "list_all2 (answers id_of) ids found"
      using law Some found by (auto simp: store_lawful_def)
    then show "cache_lawful id_of c'" unfolding c' using c by (rule cache_lawful_zip)
  qed
qed

lemma lookup_lawful:
  assumes law: "store_lawful store id_of" and cache: "cache_lawful id_of cache"
    and run: "lookup_symbol store cache v i = Inr found"
  shows "answers id_of i found"
proof (cases "cache = []")
  case True
  then show ?thesis using law run unfolding lookup_symbol_def store_lawful_def
    by (auto split: sum.splits exn.splits)
next
  case False
  then have "found = dict_get cache (v, i) None" using run by (simp add: lookup_symbol_def)
  then show ?thesis using cache
    by (cases "map_of cache (v, i)") (auto simp: dict_get_def cache_lawful_def dest!: map_of_SomeD)
qed

section \<open>Where candidates come from\<close>

text \<open>The edges the graph reported around a symbol, by either of its operations.\<close>

definition evidence_edge :: "call_site \<Rightarrow> call_target \<Rightarrow> graph_edge \<Rightarrow> bool" where
  "evidence_edge site target e \<longleftrightarrow> ge_source_id e = cs_owner_symbol_id site \<and>
     ge_target_id e = ct_target_symbol_id target \<and> ge_relation e = REL_CALLS \<and> build_variant e = build_variant target"

definition reported :: "retrieval_config \<Rightarrow> code_graph \<Rightarrow> code_symbol \<Rightarrow> graph_edge \<Rightarrow> bool" where
  "reported cfg G s e \<longleftrightarrow> (\<exists>es. neighbor_edges cfg G s = Inr es \<and> e \<in> set es) \<or>
     (\<exists>lookup incoming items site target. call_evidence G = Some lookup \<and>
        lookup (fact_id s) incoming [build_variant s] (per_node_edge_budget cfg + 1) = Inr items \<and>
        (site, target) \<in> set items \<and> evidence_edge site target e)"

definition path_step_of :: "graph_edge \<Rightarrow> context_path_step" where
  "path_step_of e = \<lparr>ps_source_id = ge_source_id e, ps_target_id = ge_target_id e, ps_relation = ge_relation e\<rparr>"

text \<open>One hop: an edge of a configured relation, reported around the parent, leads to the candidate.\<close>

definition hop :: "expand_env \<Rightarrow> candidate \<Rightarrow> context_path_step \<Rightarrow> candidate \<Rightarrow> bool" where
  "hop E p s c \<longleftrightarrow> (\<exists>e. reported (ee_config E) (ee_graph E) (ca_symbol p) e \<and> ge_relation e \<in> set (relations (ee_config E)) \<and>
     neighbor_of (fact_id (ca_symbol p)) e = Some (fact_id (ca_symbol c)) \<and> s = path_step_of e)"

definition linked :: "expand_env \<Rightarrow> (string \<times> candidate) list \<Rightarrow> candidate \<Rightarrow> bool" where
  "linked E cs c \<longleftrightarrow> (\<exists>p s. ca_parent_id c = Some (ca_key p) \<and> map_of cs (ca_key p) = Some p \<and>
     ca_path c = ca_path p @ [s] \<and> hop E p s c)"

text \<open>A candidate with provenance: a search seed, or one hop away from a candidate with provenance.\<close>

inductive provenance :: "expand_env \<Rightarrow> (string \<times> candidate) list \<Rightarrow> candidate \<Rightarrow> bool" for E cs where
  seed: "map_of cs (ca_key c) = Some c \<Longrightarrow> ca_is_seed c \<Longrightarrow> ca_path c = [] \<Longrightarrow> provenance E cs c"
| hop: "provenance E cs p \<Longrightarrow> hop E p s c \<Longrightarrow> map_of cs (ca_key c) = Some c \<Longrightarrow>
    ca_parent_id c = Some (ca_key p) \<Longrightarrow> ca_path c = ca_path p @ [s] \<Longrightarrow> provenance E cs c"

section \<open>The invariant\<close>

definition keyed :: "(string \<Rightarrow> string) \<Rightarrow> (string \<times> candidate) list \<Rightarrow> bool" where
  "keyed id_of cs \<longleftrightarrow> distinct (map fst cs) \<and> (\<forall>(k, c) \<in> set cs. ca_key c = k \<and> id_of k = fact_id (ca_symbol c))"

definition origin_known :: "expand_env \<Rightarrow> (string \<times> candidate) list \<Rightarrow> string list \<Rightarrow> string \<Rightarrow> candidate \<Rightarrow> bool" where
  "origin_known E cs visited k c \<longleftrightarrow>
     (if ca_path c = [] then ca_parent_id c = None \<and> (k \<in> set visited \<longrightarrow> ca_is_seed c)
      else k \<in> set visited \<and> linked E cs c \<and> the (ca_parent_id c) \<in> set visited \<and>
        int (length (ca_path c)) \<le> hard_depth (ee_config E))"

definition expanding :: "expand_env \<Rightarrow> (string \<Rightarrow> string) \<Rightarrow> (string \<times> candidate) list \<Rightarrow> expand_state \<Rightarrow> bool" where
  "expanding E id_of cs0 st \<longleftrightarrow>
     keyed id_of (ex_candidates st) \<and> set (ex_visited st) \<subseteq> fst ` set (ex_candidates st) \<and>
     (\<forall>k c. map_of (ex_candidates st) k = Some c \<longrightarrow> origin_known E (ex_candidates st) (ex_visited st) k c) \<and>
     (\<forall>(k, d) \<in> set (ex_queue st). k \<in> set (ex_visited st) \<and>
        (\<exists>c. map_of (ex_candidates st) k = Some c \<and> length (ca_path c) = d)) \<and>
     fst ` set cs0 \<subseteq> fst ` set (ex_candidates st) \<and>
     length (ex_candidates st) \<le> length cs0 + ex_expanded_nodes st \<and> ex_expanded_nodes st \<le> ex_edge_count st \<and>
     int (ex_expanded_nodes st) \<le> graph_node_budget (ee_config E) \<and>
     int (ex_edge_count st) \<le> graph_edge_budget (ee_config E)"

lemma expanding_flags [simp]:
  "expanding E id_of cs0 (st\<lparr>ex_diagnostics := d\<rparr>) = expanding E id_of cs0 st"
  "expanding E id_of cs0 (st\<lparr>ex_exhausted := b\<rparr>) = expanding E id_of cs0 st"
  by (simp_all add: expanding_def)

lemma keyed_key: "keyed id_of cs \<Longrightarrow> map_of cs k = Some c \<Longrightarrow> ca_key c = k \<and> id_of k = fact_id (ca_symbol c)"
  unfolding keyed_def by (auto dest!: map_of_SomeD)

lemma keyed_update:
  assumes "keyed id_of cs" and "ca_key c = k" and "id_of k = fact_id (ca_symbol c)"
  shows "keyed id_of (AList.update k c cs)"
  using assms unfolding keyed_def
proof (intro conjI)
  show "distinct (map fst (AList.update k c cs))" using assms(1) by (simp add: keyed_def distinct_update)
  have "set (AList.update k c cs) \<subseteq> insert (k, c) (set cs)"
    by (induction cs) auto
  then show "\<forall>(k', c') \<in> set (AList.update k c cs). ca_key c' = k' \<and> id_of k' = fact_id (ca_symbol c')"
    using assms unfolding keyed_def by (intro ballI) (drule (1) subsetD, auto)
qed

lemma dict_length_update: "length (AList.update k v d) \<le> Suc (length d)"
  by (induction d) auto

text \<open>The candidate recorded for a hop.\<close>

lemma reached_candidate_simps [simp]:
  "ca_path (reached_candidate FO cfg known p d deg e s old) = ca_path p @ [path_step_of e]"
  "ca_parent_id (reached_candidate FO cfg known p d deg e s old) = Some (ca_key p)"
  by (auto simp: reached_candidate_def path_step_of_def Let_def split: option.splits)

lemma reached_candidate_symbol:
  "ca_symbol (reached_candidate FO cfg known p d deg e s old) = s \<or>
   (\<exists>c. old = Some c \<and> ca_symbol (reached_candidate FO cfg known p d deg e s old) = ca_symbol c)"
  by (auto simp: reached_candidate_def Let_def split: option.splits)

lemma origin_known_update:
  assumes "origin_known E cs visited k c" and "k \<noteq> key" and "key \<notin> set visited" and "map_of cs k = Some c"
  shows "origin_known E (AList.update key c' cs) (key # visited) k c"
proof (cases "ca_path c = []")
  case True
  then show ?thesis using assms by (auto simp: origin_known_def)
next
  case False
  then obtain p s where p: "ca_parent_id c = Some (ca_key p)" "map_of cs (ca_key p) = Some p" "ca_path c = ca_path p @ [s]"
      "hop E p s c" "ca_key p \<in> set visited"
    using assms(1) by (auto simp: origin_known_def linked_def)
  moreover from p(5) assms(3) have "key \<noteq> ca_key p" by blast
  ultimately have "map_of (AList.update key c' cs) (ca_key p) = Some p" by (simp add: map_of_update_other)
  then have "linked E (AList.update key c' cs) c" using p unfolding linked_def by blast
  then show ?thesis using False assms(1) by (simp add: origin_known_def)
qed

lemma expand_edge_expanding:
  assumes inv: "expanding E id_of cs0 st" and law: "store_lawful (ee_store E) id_of" and cache: "cache_lawful id_of cache"
    and run: "expand_edge E known cache current depth degree e st = Inr st'"
    and budget: "int (ex_edge_count st) < graph_edge_budget (ee_config E)"
      "int (ex_expanded_nodes st) < graph_node_budget (ee_config E)"
    and current: "map_of (ex_candidates st) (ca_key current) = Some current" "ca_key current \<in> set (ex_visited st)"
      "length (ca_path current) = depth" "int depth < hard_depth (ee_config E)"
    and e: "reported (ee_config E) (ee_graph E) (ca_symbol current) e" "ge_relation e \<in> set (relations (ee_config E))"
  shows "expanding E id_of cs0 st' \<and> map_of (ex_candidates st') (ca_key current) = Some current \<and>
    ca_key current \<in> set (ex_visited st')"
proof -
  let ?counted = "st\<lparr>ex_edge_count := ex_edge_count st + 1\<rparr>"
  have counted: "expanding E id_of cs0 ?counted"
    using inv budget unfolding expanding_def by auto
  show ?thesis
  proof (cases "st' = ?counted")
    case True
    then show ?thesis using counted current by simp
  next
    case False
    then obtain i s where i: "neighbor_of (fact_id (ca_symbol current)) e = Some i"
      and found: "lookup_symbol (ee_store E) cache (build_variant e) i = Inr (Some s)"
      and new: "evidence_id s \<notin> set (ex_visited st)"
      and st': "st' = ?counted\<lparr>ex_visited := evidence_id s # ex_visited st, ex_expanded_nodes := ex_expanded_nodes st + 1,
        ex_candidates := AList.update (evidence_id s) (reached_candidate (ee_floats E) (ee_config E) known current depth degree e s
            (map_of (ex_candidates st) (evidence_id s))) (ex_candidates st),
        ex_queue := ex_queue st @ [(evidence_id s, depth + 1)]\<rparr>"
      using run by (auto simp: expand_edge_def Let_def rbind_eq_Inr split: option.splits if_splits)
    let ?key = "evidence_id s" and ?cs = "ex_candidates st"
    define c where "c = reached_candidate (ee_floats E) (ee_config E) known current depth degree e s (map_of ?cs ?key)"
    have keyed: "keyed id_of ?cs" using inv by (simp add: expanding_def)
    have s: "fact_id s = i" "id_of ?key = i"
      using lookup_lawful [OF law cache found] by (simp_all add: answers_def)
    have c_key: "ca_key c = ?key \<and> id_of ?key = fact_id (ca_symbol c)"
      using reached_candidate_symbol [of "ee_floats E" "ee_config E" known current depth degree e s "map_of ?cs ?key"]
        s keyed_key [OF keyed] by (auto simp: c_def [symmetric])
    let ?cs' = "AList.update ?key c ?cs"
    have neq: "ca_key current \<noteq> ?key" using current new by auto
    then have current': "map_of ?cs' (ca_key current) = Some current" using current by (simp add: map_of_update_other)
    have "hop E current (path_step_of e) c"
      using e i s c_key unfolding hop_def by auto
    then have "linked E ?cs' c"
      using current' unfolding linked_def c_def by auto
    then have own: "origin_known E ?cs' (?key # ex_visited st) ?key c"
      using current unfolding origin_known_def c_def by auto
    have others: "origin_known E ?cs' (?key # ex_visited st) k c'" if "map_of ?cs' k = Some c'" for k c'
    proof (cases "k = ?key")
      case True
      then show ?thesis using that own by simp
    next
      case False
      then have "map_of ?cs k = Some c'" using that by (simp add: map_of_update_other)
      moreover from this have "origin_known E ?cs (ex_visited st) k c'" using inv by (simp add: expanding_def)
      ultimately show ?thesis using False new by (intro origin_known_update) auto
    qed
    have queue: "k \<in> set (?key # ex_visited st) \<and> (\<exists>c. map_of ?cs' k = Some c \<and> length (ca_path c) = d)"
      if "(k, d) \<in> set (ex_queue st @ [(?key, depth + 1)])" for k d
    proof (cases "k = ?key \<and> d = depth + 1")
      case True
      then show ?thesis using current by (auto simp: c_def)
    next
      case False
      then have "k \<in> set (ex_visited st)" "\<exists>c. map_of ?cs k = Some c \<and> length (ca_path c) = d"
        using that inv by (auto simp: expanding_def)
      moreover from this have "k \<noteq> ?key" using new by auto
      ultimately show ?thesis by (auto simp: map_of_update_other)
    qed
    have "length ?cs' \<le> Suc (length cs0 + ex_expanded_nodes st)"
      using inv dict_length_update [of ?key c ?cs] by (simp add: expanding_def)
    moreover have "keyed id_of ?cs'" using keyed_update [OF keyed] c_key by blast
    moreover have "set (?key # ex_visited st) \<subseteq> fst ` set ?cs'" "fst ` set cs0 \<subseteq> fst ` set ?cs'"
      using inv by (auto simp: expanding_def)
    moreover have "int (Suc (ex_expanded_nodes st)) \<le> graph_node_budget (ee_config E)"
      "int (Suc (ex_edge_count st)) \<le> graph_edge_budget (ee_config E)" using budget by linarith+
    moreover have "ex_expanded_nodes st \<le> ex_edge_count st" using inv by (simp add: expanding_def)
    moreover have "\<forall>(k, d) \<in> set (ex_queue st @ [(?key, depth + 1)]). k \<in> set (?key # ex_visited st) \<and>
        (\<exists>c. map_of ?cs' k = Some c \<and> length (ca_path c) = d)"
      using queue by blast
    ultimately have "expanding E id_of cs0 st'"
      using others unfolding expanding_def st' c_def [symmetric] by (simp add: split_beta)
    then show ?thesis using current' current by (simp add: st' c_def)
  qed
qed

lemma expand_edges_expanding:
  assumes "expanding E id_of cs0 st" and law: "store_lawful (ee_store E) id_of" and cache: "cache_lawful id_of cache"
    and "expand_edges E known cache current depth degree es st = Inr st'"
    and "map_of (ex_candidates st) (ca_key current) = Some current" "ca_key current \<in> set (ex_visited st)"
    and depth: "length (ca_path current) = depth" "int depth < hard_depth (ee_config E)"
    and "\<forall>e \<in> set es. reported (ee_config E) (ee_graph E) (ca_symbol current) e \<and> ge_relation e \<in> set (relations (ee_config E))"
  shows "expanding E id_of cs0 st'"
  using assms(1,4,5,6,9)
proof (induction es arbitrary: st)
  case (Cons e es)
  show ?case
  proof (cases "graph_edge_budget (ee_config E) \<le> int (ex_edge_count st)
      \<or> graph_node_budget (ee_config E) \<le> int (ex_expanded_nodes st)")
    case True
    then have "st' = st\<lparr>ex_exhausted := True\<rparr>" using Cons.prems(2) by auto
    then show ?thesis using Cons.prems(1) by (simp add: expanding_def)
  next
    case False
    then obtain st1 where step: "expand_edge E known cache current depth degree e st = Inr st1"
      and rest: "expand_edges E known cache current depth degree es st1 = Inr st'"
      using Cons.prems(2) by (auto simp: rbind_eq_Inr)
    have "expanding E id_of cs0 st1 \<and> map_of (ex_candidates st1) (ca_key current) = Some current \<and>
        ca_key current \<in> set (ex_visited st1)"
      by (rule expand_edge_expanding [OF Cons.prems(1) law cache step _ _ Cons.prems(3,4) depth]) (use False Cons.prems(5) in auto)
    then show ?thesis using Cons.IH [OF _ rest] Cons.prems(5) by simp
  qed
qed simp

lemma gather_direction_reported:
  assumes "call_evidence G = Some lookup" and "\<forall>e \<in> set (fst (snd acc)). reported cfg G s e"
  shows "\<forall>e \<in> set (fst (snd (gather_direction cfg lookup s incoming acc))). reported cfg G s e"
proof (cases "lookup (fact_id s) incoming [build_variant s] (per_node_edge_budget cfg + 1)")
  case (Inr items)
  have "reported cfg G s e" if "e \<in> set (snd (fold add_call_evidence xs (known, new)))" and "set xs \<subseteq> set items"
    and "\<forall>e \<in> set new. reported cfg G s e" for xs known new e
    using that
  proof (induction xs arbitrary: known new)
    case (Cons x xs)
    obtain site target where x: "x = (site, target)" by fastforce
    obtain known' e' where step: "add_call_evidence x (known, new) = (known', new @ [e'])" and e': "evidence_edge site target e'"
      by (auto simp: x add_call_evidence_def Let_def evidence_edge_def)
    have "(site, target) \<in> set items" using Cons.prems(2) by (simp add: x)
    then have "reported cfg G s e'"
      unfolding reported_def using assms(1) Inr e' by blast
    then show ?case using Cons.IH [of known' "new @ [e']"] Cons.prems step by auto
  qed simp
  note gathered = this
  obtain known new diag where acc: "acc = (known, new, diag)" by (metis prod_cases3)
  show ?thesis using gathered [of _ items known new] assms(2) Inr
    by (auto simp: acc gather_direction_def split: prod.splits) 
next
  case (Inl e)
  then show ?thesis using assms(2) by (simp add: gather_direction_def split_beta)
qed

lemma gather_evidence_reported:
  assumes "gather_evidence cfg G s diagnostics = (known, new, diagnostics')"
  shows "\<forall>e \<in> set new. reported cfg G s e"
proof (cases "call_evidence G")
  case (Some lookup)
  let ?a = "gather_direction cfg lookup s False ([], [], diagnostics)"
  have "\<forall>e \<in> set (fst (snd (gather_direction cfg lookup s True ?a))). reported cfg G s e"
    by (intro gather_direction_reported [OF Some]) simp
  then show ?thesis using assms Some by (auto simp: gather_evidence_def split: if_splits)
qed (use assms in \<open>simp add: gather_evidence_def\<close>)

lemma visit_node_expanding:
  assumes inv: "expanding E id_of cs0 st" and law: "store_lawful (ee_store E) id_of"
    and run: "visit_node E current depth st = Inr st'"
    and current: "map_of (ex_candidates st) (ca_key current) = Some current" "ca_key current \<in> set (ex_visited st)"
      "length (ca_path current) = depth" "int depth < hard_depth (ee_config E)"
  shows "expanding E id_of cs0 st'"
proof (cases "neighbor_edges (ee_config E) (ee_graph E) (ca_symbol current)")
  case (Inl x)
  then show ?thesis using run inv by (auto simp: visit_node_def)
next
  case (Inr raw)
  let ?s = "ca_symbol current" and ?cfg = "ee_config E"
  obtain known new diag where g: "gather_evidence ?cfg (ee_graph E) ?s (ex_diagnostics st) = (known, new, diag)"
    by (metis prod_cases3)
  define limited where "limited = take (nat (per_node_edge_budget ?cfg)) (relevant_edges ?cfg known raw new)"
  define st1 where "st1 = st\<lparr>ex_diagnostics := diag,
    ex_exhausted := ex_exhausted st \<or> per_node_edge_budget ?cfg < int (length (relevant_edges ?cfg known raw new))\<rparr>"
  obtain cache where cache: "prefetch (ee_store E) (fact_id ?s) limited = Inr cache"
    and rest: "expand_edges E known cache current depth (length (relevant_edges ?cfg known raw new)) limited st1 = Inr st'"
    using run Inr g by (auto simp: visit_node_def Let_def rbind_eq_Inr limited_def st1_def)
  have "set limited \<subseteq> set (relevant_edges ?cfg known raw new)" by (simp add: limited_def set_take_subset)
  then have "\<forall>e \<in> set limited. ge_relation e \<in> set (relations ?cfg) \<and> e \<in> set raw \<union> set new"
    by (auto simp: relevant_edges_def Let_def)
  moreover have "\<forall>e \<in> set raw. reported ?cfg (ee_graph E) ?s e" using Inr by (auto simp: reported_def)
  ultimately have "\<forall>e \<in> set limited. reported ?cfg (ee_graph E) ?s e \<and> ge_relation e \<in> set (relations ?cfg)"
    using gather_evidence_reported [OF g] by blast
  moreover have "expanding E id_of cs0 st1" using inv by (simp add: st1_def)
  ultimately show ?thesis
    using expand_edges_expanding [OF _ law prefetch_lawful [OF law cache] rest] current by (simp add: st1_def)
qed

lemma expand_node_expanding:
  assumes inv: "expanding E id_of cs0 st" and law: "store_lawful (ee_store E) id_of"
    and run: "expand_node E st = Inr st'"
  shows "expanding E id_of cs0 st'"
proof (cases "ex_queue st")
  case (Cons q rest)
  obtain key depth where q: "q = (key, depth)" by fastforce
  let ?st = "st\<lparr>ex_queue := rest\<rparr>"
  obtain current where current: "map_of (ex_candidates st) key = Some current" "length (ca_path current) = depth" "key \<in> set (ex_visited st)"
    using inv Cons q by (auto simp: expanding_def)
  moreover have "ca_key current = key" using inv current keyed_key by (auto simp: expanding_def)
  moreover have popped: "expanding E id_of cs0 ?st" using inv Cons by (simp add: expanding_def)
  moreover have "expanding E id_of cs0 (?st\<lparr>ex_exhausted := True\<rparr>)" using popped by simp
  ultimately show ?thesis
    using run Cons q visit_node_expanding [OF popped law, of current depth st']
    by (auto simp: expand_node_def Let_def rbind_eq_Inr split: if_splits)
qed (use run inv in \<open>simp add: expand_node_def\<close>)

lemma expand_loop_expanding:
  assumes "expanding E id_of cs0 st" and "store_lawful (ee_store E) id_of" and "expand_loop E st = Inr st'"
  shows "expanding E id_of cs0 st'"
  using assms
proof (induction E st rule: expand_loop.induct)
  case (1 E st)
  show ?case
  proof (cases "ex_queue st = [] \<or> graph_edge_budget (ee_config E) \<le> int (ex_edge_count st)")
    case True
    then show ?thesis using 1(2,4) by (simp add: expand_loop.simps)
  next
    case False
    then obtain st1 where "expand_node E st = Inr st1" "expand_loop E st1 = Inr st'"
      using 1(4) by (subst (asm) expand_loop.simps) (auto simp: rbind_eq_Inr)
    then show ?thesis using 1(1) [OF False] 1(2,3) expand_node_expanding by blast
  qed
qed

text \<open>From the invariant to provenance: walking up the parents shortens the path.\<close>

lemma expanding_provenance:
  assumes inv: "expanding E id_of cs0 st" and "map_of (ex_candidates st) k = Some c" and "k \<in> set (ex_visited st)"
  shows "provenance E (ex_candidates st) c"
  using assms(2,3)
proof (induction "length (ca_path c)" arbitrary: k c rule: less_induct)
  case less
  have keyed: "keyed id_of (ex_candidates st)" using inv by (simp add: expanding_def)
  then have c: "map_of (ex_candidates st) (ca_key c) = Some c" using keyed_key less.prems by metis
  have origin: "origin_known E (ex_candidates st) (ex_visited st) k c" using inv less.prems by (simp add: expanding_def)
  show ?case
  proof (cases "ca_path c = []")
    case True
    then have "ca_is_seed c" using origin less.prems(2) by (simp add: origin_known_def)
    with c show ?thesis using True by (rule provenance.seed)
  next
    case False
    then have "linked E (ex_candidates st) c" and visited: "the (ca_parent_id c) \<in> set (ex_visited st)"
      using origin by (simp_all add: origin_known_def)
    then obtain p s where p: "ca_parent_id c = Some (ca_key p)" "map_of (ex_candidates st) (ca_key p) = Some p"
        "ca_path c = ca_path p @ [s]" "hop E p s c"
      unfolding linked_def by blast
    have "provenance E (ex_candidates st) p"
      by (rule less.hyps [OF _ p(2)]) (use p visited in simp_all)
    then show ?thesis using p(4) c p(1,3) by (rule provenance.hop)
  qed
qed

end
