(* ===== verification/RetrievalFuse.thy ===== *)
theory RetrievalFuse
imports RetrievalExpand
begin

text \<open>
  The fusion step of hybrid retrieval against its specification: the reciprocal-rank score of a symbol,
  summed search by search, and the candidates with the highest scores.
\<close>

section \<open>The specification\<close>

definition hit_key :: "search_hit \<Rightarrow> string" where
  "hit_key h = evidence_id (sh_symbol h)"

text \<open>The rank of the first hit for a key, counted from \<open>n\<close>.\<close>

primrec first_rank :: "string \<Rightarrow> nat \<Rightarrow> search_hit list \<Rightarrow> nat option" where
  "first_rank key n [] = None"
| "first_rank key n (h # hs) = (if hit_key h = key then Some n else first_rank key (Suc n) hs)"

definition considered_hits :: "int \<Rightarrow> search_hit list result \<Rightarrow> search_hit list" where
  "considered_hits limit answer = (case answer of Inl e \<Rightarrow> [] | Inr hits \<Rightarrow> take (nat limit) hits)"

definition add_contribution ::
    "float_ops \<Rightarrow> retrieval_config \<Rightarrow> string \<Rightarrow> nat option \<Rightarrow> rat option \<Rightarrow> rat option" where
  "add_contribution FO cfg name rank score =
     (case rank of None \<Rightarrow> score
      | Some n \<Rightarrow> Some (fl FO ((case score of None \<Rightarrow> 0 | Some s \<Rightarrow> s) +
          fl FO (dict_get (source_weights cfg) name 1 / of_int (rrf_k cfg + int n)))))"

text \<open>The fused score of a key: the sum over the searches that returned it; \<open>None\<close> when none did.\<close>

definition rrf_score :: "float_ops \<Rightarrow> retriever \<Rightarrow> search_query \<Rightarrow> string \<Rightarrow> rat option" where
  "rrf_score FO r query key =
     fold (\<lambda>(name, run). add_contribution FO (rt_config r) name
             (first_rank key 1 (considered_hits (sq_limit query) (run query)))) (searches r) None"

definition found_symbol :: "retriever \<Rightarrow> search_query \<Rightarrow> code_symbol \<Rightarrow> bool" where
  "found_symbol r query s \<longleftrightarrow> (\<exists>(name, run) \<in> set (searches r). \<exists>hits. run query = Inr hits \<and> s \<in> sh_symbol ` set hits)"

section \<open>The dictionaries of the loop\<close>

definition fuse_ok :: "(code_symbol \<Rightarrow> bool) \<Rightarrow> fuse_state \<Rightarrow> bool" where
  "fuse_ok P st \<longleftrightarrow> distinct (map fst (fu_scores st)) \<and> fst ` set (fu_scores st) = fst ` set (fu_symbols st) \<and>
     (\<forall>k s. map_of (fu_symbols st) k = Some s \<longrightarrow> evidence_id s = k \<and> P s)"

lemma fuse_hit_ok:
  assumes "fuse_ok P (snd acc)" and "P (sh_symbol h)"
  shows "fuse_ok P (snd (fuse_hit FO cfg name (n, h) acc))"
  using assms unfolding fuse_ok_def fuse_hit_def
  by (cases acc) (auto simp: Let_def distinct_update update_conv' split: if_splits)

lemma fuse_hits_ok:
  assumes "fuse_ok P (snd acc)" and "\<forall>h \<in> snd ` set ranked. P (sh_symbol h)"
  shows "fuse_ok P (snd (fold (fuse_hit FO cfg name) ranked acc))"
  using assms
proof (induction ranked arbitrary: acc)
  case (Cons x ranked)
  obtain n h where x: "x = (n, h)" by fastforce
  have "fuse_ok P (snd (fuse_hit FO cfg name x acc))"
    unfolding x by (rule fuse_hit_ok) (use Cons.prems x in auto)
  then show ?case using Cons.IH [of "fuse_hit FO cfg name x acc"] Cons.prems(2) by simp
qed simp

lemma fuse_hits_scores:
  "map_of (fu_scores (snd (fold (fuse_hit FO cfg name) (enumerate n hits) acc))) key
     = (if key \<in> set (fst acc) then map_of (fu_scores (snd acc)) key
        else add_contribution FO cfg name (first_rank key n hits) (map_of (fu_scores (snd acc)) key))"
proof (induction hits arbitrary: n acc)
  case Nil
  then show ?case by (simp add: add_contribution_def)
next
  case (Cons h hits)
  obtain seen st where acc: "acc = (seen, st)" by fastforce
  show ?case
  proof (cases "hit_key h \<in> set seen")
    case True
    then have "fuse_hit FO cfg name (n, h) acc = acc" by (simp add: acc fuse_hit_def hit_key_def)
    then show ?thesis using Cons.IH [of "Suc n" acc] True by (auto simp: acc)
  next
    case False
    then obtain st1 where step: "fuse_hit FO cfg name (n, h) acc = (hit_key h # seen, st1)"
      and scores: "map_of (fu_scores st1) key = (if hit_key h = key
        then add_contribution FO cfg name (Some n) (map_of (fu_scores st) key) else map_of (fu_scores st) key)"
      by (auto simp: acc fuse_hit_def hit_key_def Let_def update_conv' add_contribution_def dict_get_def)
    show ?thesis using Cons.IH [of "Suc n" "(hit_key h # seen, st1)"] step scores False
      by (auto simp: acc)
  qed
qed

lemma fuse_search_scores:
  "map_of (fu_scores (fuse_search FO cfg query (name, run) st)) key
     = add_contribution FO cfg name (first_rank key 1 (considered_hits (sq_limit query) (run query)))
         (map_of (fu_scores st) key)"
  by (cases "run query")
    (simp_all add: fuse_search_def considered_hits_def fuse_hits_scores add_contribution_def)

lemma fuse_search_ok:
  assumes "fuse_ok P st" and "\<And>hits s. snd entry query = Inr hits \<Longrightarrow> s \<in> sh_symbol ` set hits \<Longrightarrow> P s"
  shows "fuse_ok P (fuse_search FO cfg query entry st)"
proof (cases "snd entry query")
  case (Inl e)
  then show ?thesis using assms(1) by (simp add: fuse_search_def fuse_ok_def)
next
  case (Inr hits)
  have "\<forall>h \<in> snd ` set (enumerate 1 (take (nat (sq_limit query)) hits)). P (sh_symbol h)"
    using assms(2) [OF Inr] by (auto simp: in_set_enumerate_eq dest!: in_set_takeD nth_mem)
  moreover have "fuse_ok P (st\<lparr>fu_truncated := t, fu_successful := m\<rparr>)" for t m
    using assms(1) by (simp add: fuse_ok_def)
  ultimately show ?thesis
    using fuse_hits_ok [of P "([], st')" for st'] by (simp add: fuse_search_def Inr)
qed

definition fused_state :: "float_ops \<Rightarrow> retriever \<Rightarrow> search_query \<Rightarrow> string list \<Rightarrow> fuse_state" where
  "fused_state FO r query diagnostics = fold (fuse_search FO (rt_config r) query) (searches r)
     \<lparr>fu_scores = [], fu_symbols = [], fu_reasons = [], fu_successful = 0, fu_truncated = False,
      fu_diagnostics = diagnostics\<rparr>"

lemma fused_state_scores: "map_of (fu_scores (fused_state FO r query ds)) key = rrf_score FO r query key"
  unfolding fused_state_def rrf_score_def searches_def by (simp add: fuse_search_scores)

lemma fused_state_ok: "fuse_ok (found_symbol r query) (fused_state FO r query ds)"
proof -
  have "fuse_ok (found_symbol r query) (fold (fuse_search FO (rt_config r) query) es st)"
    if "set es \<subseteq> set (searches r)" and "fuse_ok (found_symbol r query) st" for es st
    using that
  proof (induction es arbitrary: st)
    case (Cons e es)
    have "fuse_ok (found_symbol r query) (fuse_search FO (rt_config r) query e st)"
      by (rule fuse_search_ok [OF Cons.prems(2)])
        (use Cons.prems(1) in \<open>auto simp: found_symbol_def intro!: bexI [of _ e]\<close>)
    then show ?case using Cons.IH Cons.prems(1) by simp
  qed simp
  note folded = this
  show ?thesis unfolding fused_state_def by (rule folded [OF subset_refl]) (simp add: fuse_ok_def)
qed

section \<open>The candidates\<close>

definition fresh_candidate :: "candidate \<Rightarrow> bool" where
  "fresh_candidate c \<longleftrightarrow> ca_path c = [] \<and> ca_parent_id c = None \<and> \<not> ca_is_seed c \<and> ca_hub_degree c = 0"

definition candidate_of :: "fuse_state \<Rightarrow> string \<Rightarrow> candidate" where
  "candidate_of st k = new_candidate \<lparr>sh_symbol = the (map_of (fu_symbols st) k), sh_score = the (map_of (fu_scores st) k),
     sh_source = ''hybrid''\<rparr> (dict_get (fu_reasons st) k [])"

lemma fused_candidates:
  assumes ok: "fuse_ok P st" and ks: "set ks \<subseteq> fst ` set (fu_scores st)"
  shows "rmap (fused_candidate st) ks = Inr (map (\<lambda>k. (k, candidate_of st k)) ks)"
proof (rule rmap_Inr_map)
  fix k assume "k \<in> set ks"
  then have "k \<in> fst ` set (fu_scores st)" "k \<in> fst ` set (fu_symbols st)" using ok ks by (auto simp: fuse_ok_def)
  then obtain v s where "map_of (fu_scores st) k = Some v" "map_of (fu_symbols st) k = Some s"
    by (metis map_of_eq_None_iff not_None_eq)
  then show "fused_candidate st k = Inr (k, candidate_of st k)"
    by (simp add: fused_candidate_def candidate_of_def dict_index_def)
qed

definition ranked_ids :: "fuse_state \<Rightarrow> string list" where
  "ranked_ids st = map fst (sort_desc snd (fu_scores st))"

lemma ranked_ids_set: "set (ranked_ids st) = fst ` set (fu_scores st)"
  by (simp add: ranked_ids_def)

lemma ranked_ids_distinct: "fuse_ok P st \<Longrightarrow> distinct (ranked_ids st)"
  unfolding ranked_ids_def fuse_ok_def by (metis mset_map mset_sort_desc mset_eq_imp_distinct_iff)

definition fuse_answer ::
    "float_ops \<Rightarrow> retriever \<Rightarrow> search_query \<Rightarrow> string list \<Rightarrow> int \<Rightarrow> (string \<times> candidate) list \<times> bool \<times> string list" where
  "fuse_answer FO r query ds limit =
     (let st = fused_state FO r query ds in
      (map (\<lambda>k. (k, candidate_of st k)) (take (nat (min (candidate_limit (rt_config r)) limit)) (ranked_ids st)),
       fu_truncated st, fu_diagnostics st @ (if fu_successful st = 0 then [''all candidate searches failed''] else [])))"

lemma fuse_eq:
  defines "query \<equiv> \<lambda>r q limit. \<lparr>sq_text = q, sq_limit = min (search_limit (rt_config r)) limit\<rparr>"
  shows "fuse FO r q ds limit = rbind (post_init_search_query (query r q limit)) (\<lambda>_. Inr (fuse_answer FO r (query r q limit) ds limit))"
proof (cases "post_init_search_query (query r q limit)")
  case (Inl e)
  then show ?thesis by (simp add: fuse_def query_def)
next
  case (Inr x)
  then have x: "x = query r q limit" by (auto simp: post_init_search_query_def split: if_splits)
  with Inr have ok: "post_init_search_query x = Inr x" by simp
  let ?st = "fused_state FO r x ds"
  have "set (take n (ranked_ids ?st)) \<subseteq> fst ` set (fu_scores ?st)" for n
    using ranked_ids_set set_take_subset by metis
  then have run: "rmap (fused_candidate ?st) (take n (ranked_ids ?st)) = Inr (map (\<lambda>k. (k, candidate_of ?st k)) (take n (ranked_ids ?st)))" for n
    by (rule fused_candidates [OF fused_state_ok])
  have "fuse FO r q ds limit = rbind (rmap (fused_candidate ?st) (take (nat (min (candidate_limit (rt_config r)) limit)) (ranked_ids ?st)))
      (\<lambda>cs. Inr (cs, fu_truncated ?st, fu_diagnostics ?st @ (if fu_successful ?st = 0 then [''all candidate searches failed''] else [])))"
    using Inr unfolding fuse_def query_def by (simp only: rbind_simps Let_def fused_state_def ranked_ids_def)
  then show ?thesis by (simp only: run rbind_simps ok fuse_answer_def Let_def x [symmetric])
qed

lemma fuse_result:
  assumes "fuse FO r q ds limit = Inr (cs, truncated, ds')"
  shows "(cs, truncated, ds') = fuse_answer FO r \<lparr>sq_text = q, sq_limit = min (search_limit (rt_config r)) limit\<rparr> ds limit"
  using assms unfolding fuse_eq rbind_eq_Inr by (elim exE conjE) (simp only: sum.inject)

lemma fuse_candidates:
  assumes "fuse FO r q ds limit = Inr (cs, truncated, ds')"
  shows "distinct (map fst cs)" and "length cs \<le> nat (min (candidate_limit (rt_config r)) limit)"
    and "\<And>k c. (k, c) \<in> set cs \<Longrightarrow> ca_key c = k \<and> fresh_candidate c \<and>
      found_symbol r \<lparr>sq_text = q, sq_limit = min (search_limit (rt_config r)) limit\<rparr> (ca_symbol c)"
proof -
  let ?query = "\<lparr>sq_text = q, sq_limit = min (search_limit (rt_config r)) limit\<rparr>"
  let ?st = "fused_state FO r ?query ds"
  have cs: "cs = map (\<lambda>k. (k, candidate_of ?st k)) (take (nat (min (candidate_limit (rt_config r)) limit)) (ranked_ids ?st))"
    using fuse_result [OF assms] by (simp add: fuse_answer_def Let_def)
  have ok: "fuse_ok (found_symbol r ?query) ?st" by (rule fused_state_ok)
  show "distinct (map fst cs)" using ranked_ids_distinct [OF ok] by (simp add: cs comp_def distinct_take)
  show "length cs \<le> nat (min (candidate_limit (rt_config r)) limit)" by (simp add: cs)
  fix k c assume "(k, c) \<in> set cs"
  then have k: "k \<in> set (ranked_ids ?st)" and c: "c = candidate_of ?st k" by (auto simp: cs dest: in_set_takeD)
  then have "k \<in> fst ` set (fu_symbols ?st)" using ok ranked_ids_set by (auto simp: fuse_ok_def)
  then obtain s where s: "map_of (fu_symbols ?st) k = Some s" by (metis map_of_eq_None_iff not_None_eq)
  then have "evidence_id s = k" "found_symbol r ?query s" using ok by (auto simp: fuse_ok_def)
  then show "ca_key c = k \<and> fresh_candidate c \<and> found_symbol r ?query (ca_symbol c)"
    by (simp add: c candidate_of_def new_candidate_def fresh_candidate_def s)
qed

end
