(* ===== verification/RetrievalErrors.thy ===== *)
theory RetrievalErrors
imports RetrievalFuse
begin

text \<open>
  The failure boundaries of hybrid retrieval.  Diagnostics are a log: each step appends to it and nothing
  reads it, so a step commutes with a prefix of the log (the lemmas named \<open>logged\<close>).
\<close>

section \<open>The log of the expansion\<close>

definition logged :: "string list \<Rightarrow> expand_state \<Rightarrow> expand_state" where
  "logged d st = st\<lparr>ex_diagnostics := d @ ex_diagnostics st\<rparr>"

lemma logged_simps [simp]:
  "ex_candidates (logged d st) = ex_candidates st" "ex_queue (logged d st) = ex_queue st"
  "ex_visited (logged d st) = ex_visited st" "ex_edge_count (logged d st) = ex_edge_count st"
  "ex_expanded_nodes (logged d st) = ex_expanded_nodes st" "ex_exhausted (logged d st) = ex_exhausted st"
  "ex_diagnostics (logged d st) = d @ ex_diagnostics st"
  by (simp_all add: logged_def)

lemma logged_updates:
  "(logged d st)\<lparr>ex_edge_count := n\<rparr> = logged d (st\<lparr>ex_edge_count := n\<rparr>)"
  "(logged d st)\<lparr>ex_exhausted := b\<rparr> = logged d (st\<lparr>ex_exhausted := b\<rparr>)"
  "(logged d st)\<lparr>ex_queue := q\<rparr> = logged d (st\<lparr>ex_queue := q\<rparr>)"
  "(logged d st)\<lparr>ex_visited := v\<rparr> = logged d (st\<lparr>ex_visited := v\<rparr>)"
  "(logged d st)\<lparr>ex_expanded_nodes := m\<rparr> = logged d (st\<lparr>ex_expanded_nodes := m\<rparr>)"
  "(logged d st)\<lparr>ex_candidates := cs\<rparr> = logged d (st\<lparr>ex_candidates := cs\<rparr>)"
  "(logged d st)\<lparr>ex_diagnostics := d @ x\<rparr> = logged d (st\<lparr>ex_diagnostics := x\<rparr>)"
  by (simp_all add: logged_def)

lemma rmap_result_bind: "rmap_result g (rbind r f) = rbind r (\<lambda>x. rmap_result g (f x))"
  by (cases r) simp_all

lemma rbind_rmap_result: "rbind (rmap_result g r) f = rbind r (\<lambda>x. f (g x))"
  by (cases r) simp_all

lemma expand_edge_logged:
  "expand_edge E known cache current depth degree e (logged d st)
     = rmap_result (logged d) (expand_edge E known cache current depth degree e st)"
  unfolding expand_edge_def Let_def logged_simps logged_updates
  by (auto simp: rmap_result_bind split: option.splits intro!: arg_cong2 [where f = rbind] ext)

lemma expand_edges_logged:
  "expand_edges E known cache current depth degree es (logged d st)
     = rmap_result (logged d) (expand_edges E known cache current depth degree es st)"
  by (induction es arbitrary: st)
    (simp_all add: logged_updates expand_edge_logged rbind_rmap_result rmap_result_bind)

lemma gather_evidence_logged:
  "gather_evidence cfg G s (d @ ds) = (case gather_evidence cfg G s ds of (known, new, ds') \<Rightarrow> (known, new, d @ ds'))"
proof -
  have "gather_direction cfg lookup s b (known, new, d @ ds)
      = (case gather_direction cfg lookup s b (known, new, ds) of (known', new', ds') \<Rightarrow> (known', new', d @ ds'))"
    for lookup b known new ds
    by (simp add: gather_direction_def split_beta split: sum.splits)
  then show ?thesis by (auto simp: gather_evidence_def split_beta split: option.splits)
qed

lemma visit_node_logged:
  "visit_node E current depth (logged d st) = rmap_result (logged d) (visit_node E current depth st)"
proof (cases "neighbor_edges (ee_config E) (ee_graph E) (ca_symbol current)")
  case (Inl x)
  then show ?thesis by (simp add: visit_node_def logged_def)
next
  case (Inr raw)
  obtain known new ds where "gather_evidence (ee_config E) (ee_graph E) (ca_symbol current) (ex_diagnostics st) = (known, new, ds)"
    by (metis prod_cases3)
  then show ?thesis using Inr
    by (simp add: visit_node_def Let_def gather_evidence_logged logged_updates expand_edges_logged rmap_result_bind)
qed

lemma expand_node_logged: "expand_node E (logged d st) = rmap_result (logged d) (expand_node E st)"
  by (auto simp: expand_node_def Let_def logged_updates visit_node_logged rmap_result_bind split: list.splits
      intro!: rbind_cong)

lemma expand_loop_logged: "expand_loop E (logged d st) = rmap_result (logged d) (expand_loop E st)"
proof (induction E st rule: expand_loop.induct)
  case (1 E st)
  show ?case
  proof (cases "ex_queue st = [] \<or> graph_edge_budget (ee_config E) \<le> int (ex_edge_count st)")
    case True
    then show ?thesis by (simp add: expand_loop.simps)
  next
    case False
    then have "expand_loop E (logged d st) = rbind (expand_node E st) (\<lambda>x. expand_loop E (logged d x))"
      by (subst expand_loop.simps) (simp add: expand_node_logged rbind_rmap_result)
    also have "\<dots> = rbind (expand_node E st) (\<lambda>x. rmap_result (logged d) (expand_loop E x))"
      using 1 [OF False] by (rule rbind_cong [OF refl])
    also have "\<dots> = rmap_result (logged d) (expand_loop E st)"
      using False by (subst (2) expand_loop.simps) (simp add: rmap_result_bind)
    finally show ?thesis .
  qed
qed

lemma expand_logged:
  "expand FO r seeds cs (d @ ds) = rmap_result (\<lambda>(cs', ds'). (cs', d @ ds')) (expand FO r seeds cs ds)"
proof (cases "rt_graph r")
  case (Some G)
  let ?E = "\<lparr>ee_floats = FO, ee_config = rt_config r, ee_store = rt_store r, ee_graph = G\<rparr>"
  let ?st = "\<lparr>ex_candidates = cs, ex_queue = map (\<lambda>k. (k, 0)) seeds, ex_visited = seeds, ex_edge_count = 0,
    ex_expanded_nodes = 0, ex_exhausted = False, ex_diagnostics = ds\<rparr>"
  have eq: "\<lparr>ex_candidates = cs, ex_queue = map (\<lambda>k. (k, 0)) seeds, ex_visited = seeds, ex_edge_count = 0,
    ex_expanded_nodes = 0, ex_exhausted = False, ex_diagnostics = d @ ds\<rparr> = logged d ?st" by (simp add: logged_def)
  show ?thesis unfolding expand_def eq expand_loop_logged
    by (simp add: Some rmap_result_bind rbind_rmap_result)
qed (simp add: expand_def)

section \<open>The log of the packer\<close>

definition pack_logged :: "string list \<Rightarrow> pack_state \<Rightarrow> pack_state" where
  "pack_logged d st = st\<lparr>pk_diagnostics := d @ pk_diagnostics st\<rparr>"

lemma pack_logged_simps [simp]:
  "pk_parts (pack_logged d st) = pk_parts st" "pk_items (pack_logged d st) = pk_items st"
  "pk_used_chars (pack_logged d st) = pk_used_chars st" "pk_truncated (pack_logged d st) = pk_truncated st"
  "pk_diagnostics (pack_logged d st) = d @ pk_diagnostics st"
  "(pack_logged d st)\<lparr>pk_truncated := b\<rparr> = pack_logged d (st\<lparr>pk_truncated := b\<rparr>)"
  "(pack_logged d st)\<lparr>pk_diagnostics := d @ x\<rparr> = pack_logged d (st\<lparr>pk_diagnostics := x\<rparr>)"
  "pack_item c reason source full (pack_logged d st) = pack_logged d (pack_item c reason source full st)"
  by (simp_all add: pack_logged_def pack_item_def)

lemma pack_loop_logged:
  "pack_loop F rd budget limit cs (pack_logged d st) = pack_logged d (pack_loop F rd budget limit cs st)"
  by (induction cs arbitrary: st) (simp_all add: pack_loop.simps(2) Let_def split: sum.splits)

lemma pack_diagnostics:
  "(pack F FO r query ranked mt limit (d @ ds) tr)\<lparr>cx_diagnostics := []\<rparr>
     = (pack F FO r query ranked mt limit ds tr)\<lparr>cx_diagnostics := []\<rparr>" (is ?same)
  "set d \<subseteq> set (cx_diagnostics (pack F FO r query ranked mt limit (d @ ds) tr))" (is ?kept)
proof -
  let ?st = "\<lparr>pk_parts = [], pk_items = [], pk_used_chars = 0, pk_truncated = tr, pk_diagnostics = ds\<rparr>"
  have "?st\<lparr>pk_diagnostics := d @ ds\<rparr> = pack_logged d ?st" by (simp add: pack_logged_def)
  then have "pack_loop F (rt_reader r) (char_budget FO (rt_config r) mt) limit (pack_order ranked) (?st\<lparr>pk_diagnostics := d @ ds\<rparr>)
     = pack_logged d (pack_loop F (rt_reader r) (char_budget FO (rt_config r) mt) limit (pack_order ranked) ?st)"
    by (simp only: pack_loop_logged)
  then show ?same ?kept by (simp_all add: pack_def Let_def)
qed

section \<open>A failing search\<close>

text \<open>\<open>r'\<close> is \<open>r\<close> with some searches that fail replaced by searches that find nothing.\<close>

definition same_but_failing ::
    "(search_query \<Rightarrow> search_hit list result) \<Rightarrow> (search_query \<Rightarrow> search_hit list result) \<Rightarrow> bool" where
  "same_but_failing run run' \<longleftrightarrow> (\<forall>q. run' q = run q \<or> (\<exists>e. run q = Inl e) \<and> run' q = Inr [])"

definition degraded :: "retriever \<Rightarrow> retriever \<Rightarrow> bool" where
  "degraded r r' \<longleftrightarrow> same_but_failing (rt_lexical r) (rt_lexical r') \<and> same_but_failing (rt_symbol r) (rt_symbol r') \<and>
     same_but_failing (rt_vector r) (rt_vector r') \<and>
     r' = r\<lparr>rt_lexical := rt_lexical r', rt_symbol := rt_symbol r', rt_vector := rt_vector r'\<rparr>"

definition same_scores :: "fuse_state \<Rightarrow> fuse_state \<Rightarrow> bool" where
  "same_scores st st' \<longleftrightarrow> fu_scores st' = fu_scores st \<and> fu_symbols st' = fu_symbols st \<and>
     fu_reasons st' = fu_reasons st \<and> fu_truncated st' = fu_truncated st"

lemma fuse_hit_same:
  assumes "same_scores st st'"
  shows "\<exists>seen' st1 st1'. fuse_hit FO cfg name x (seen, st) = (seen', st1) \<and>
    fuse_hit FO cfg name x (seen, st') = (seen', st1') \<and> same_scores st1 st1'"
  using assms by (auto simp: fuse_hit_def same_scores_def Let_def split_beta)

lemma fuse_hits_same:
  assumes "same_scores st st'"
  shows "same_scores (snd (fold (fuse_hit FO cfg name) xs (seen, st))) (snd (fold (fuse_hit FO cfg name) xs (seen, st')))"
  using assms
proof (induction xs arbitrary: seen st st')
  case (Cons x xs)
  then show ?case using fuse_hit_same [OF Cons.prems, of FO cfg name x seen] by fastforce
qed simp

lemma fuse_search_same:
  assumes "same_scores st st'" and "same_but_failing run run'" and "0 < sq_limit query"
  shows "same_scores (fuse_search FO cfg query (name, run) st) (fuse_search FO cfg query (name, run') st')"
proof (cases "run' query = run query")
  case True
  show ?thesis
  proof (cases "run query")
    case (Inl e)
    then show ?thesis using True assms(1) by (simp add: fuse_search_def same_scores_def)
  next
    case (Inr hits)
    then show ?thesis using True assms(1) unfolding fuse_search_def
      by simp (rule fuse_hits_same, simp add: same_scores_def)
  qed
next
  case False
  then obtain e where "run query = Inl e" "run' query = Inr []" using assms(2) by (metis same_but_failing_def)
  then show ?thesis using assms(1,3) by (simp add: fuse_search_def same_scores_def)
qed

lemma degraded_fields:
  assumes "degraded r r'"
  shows "rt_config r' = rt_config r" "rt_graph r' = rt_graph r" "rt_store r' = rt_store r" "rt_reader r' = rt_reader r"
    "rt_scope r' = rt_scope r"
proof -
  from assms have eq: "r' = r\<lparr>rt_lexical := rt_lexical r', rt_symbol := rt_symbol r', rt_vector := rt_vector r'\<rparr>"
    by (simp only: degraded_def)
  show "rt_config r' = rt_config r" "rt_graph r' = rt_graph r" "rt_store r' = rt_store r" "rt_reader r' = rt_reader r"
    "rt_scope r' = rt_scope r"
    by (subst eq, simp)+
qed

lemma fused_state_same:
  assumes deg: "degraded r r'" and limit: "0 < sq_limit query"
  shows "same_scores (fused_state FO r query ds) (fused_state FO r' query ds')"
proof -
  let ?init = "\<lambda>ds. \<lparr>fu_scores = [], fu_symbols = [], fu_reasons = [], fu_successful = 0, fu_truncated = False,
      fu_diagnostics = ds\<rparr>"
  have unrolled: "fused_state FO r query ds = fuse_search FO (rt_config r) query (''vector'', rt_vector r)
      (fuse_search FO (rt_config r) query (''symbol'', rt_symbol r)
        (fuse_search FO (rt_config r) query (''lexical'', rt_lexical r) (?init ds)))" for r ds
    by (simp add: fused_state_def searches_def)
  have "same_scores (?init ds) (?init ds')" by (simp add: same_scores_def)
  moreover have "same_but_failing (rt_lexical r) (rt_lexical r')" "same_but_failing (rt_symbol r) (rt_symbol r')"
    "same_but_failing (rt_vector r) (rt_vector r')" using deg by (simp_all only: degraded_def)
  ultimately show ?thesis
    unfolding unrolled degraded_fields(1) [OF deg] by (intro fuse_search_same limit)
qed

lemma fuse_answer_same:
  assumes "degraded r r'" and "0 < sq_limit query"
  shows "\<exists>d d'. fuse_answer FO r query ds limit = (fst (fuse_answer FO r query ds limit), fst (snd (fuse_answer FO r query ds limit)), d) \<and>
    fuse_answer FO r' query ds limit = (fst (fuse_answer FO r query ds limit), fst (snd (fuse_answer FO r query ds limit)), d')"
  using fused_state_same [OF assms, of FO ds ds] degraded_fields(1) [OF assms(1)]
  by (simp add: fuse_answer_def Let_def same_scores_def candidate_of_def ranked_ids_def)

definition quiet :: "context_bundle \<Rightarrow> context_bundle" where
  "quiet b = b\<lparr>cx_diagnostics := []\<rparr>"

text \<open>Everything after the fusion, as a function of its answer.\<close>

definition after_fusion :: "fs \<Rightarrow> float_ops \<Rightarrow> retriever \<Rightarrow> string \<Rightarrow> int \<Rightarrow> int
    \<Rightarrow> (string \<times> candidate) list \<times> bool \<times> string list \<Rightarrow> context_bundle result" where
  "after_fusion F FO r query max_tokens result_limit answer =
     (let (candidates, candidates_truncated, diagnostics) = answer; cfg = rt_config r in
      if candidates = []
      then Inr \<lparr>cx_query = query, cx_hits = [], cx_rendered_context = [], cx_estimated_tokens = 0, cx_items = [],
                cx_diagnostics = diagnostics, cx_truncated = False, cx_build_variants = variants (rt_scope r),
                cx_scope_label = scope_label (rt_scope r)\<rparr>
      else let seeds = take (nat (seed_limit cfg)) (map ca_key (rerank FO cfg query candidates False)) in
        rbind (expand FO r seeds (fold mark_seed seeds candidates) diagnostics) (\<lambda>(expanded, diagnostics').
        Inr (pack F FO r query (rerank FO cfg query expanded True) max_tokens result_limit diagnostics'
               candidates_truncated)))"

definition wanted_results :: "retriever \<Rightarrow> int option \<Rightarrow> int" where
  "wanted_results r max_results = (case max_results of None \<Rightarrow> candidate_limit (rt_config r) | Some m \<Rightarrow> m)"

definition query_of :: "retriever \<Rightarrow> string \<Rightarrow> int \<Rightarrow> search_query" where
  "query_of r q limit = \<lparr>sq_text = q, sq_limit = min (search_limit (rt_config r)) limit\<rparr>"

lemma retrieve_eq:
  "retrieve F FO r q mt mr =
     (if blank q then Inl (ValueError ''query must not be empty'')
      else if mt \<le> 0 then Inl (ValueError ''max_tokens must be greater than zero'')
      else if (case mr of None \<Rightarrow> False | Some m \<Rightarrow> m \<le> 0) then Inl (ValueError ''max_results must be greater than zero'')
      else rbind (post_init_search_query (query_of r q (wanted_results r mr))) (\<lambda>_.
        after_fusion F FO r q mt (wanted_results r mr)
          (fuse_answer FO r (query_of r q (wanted_results r mr)) [] (wanted_results r mr))))"
  unfolding retrieve_def fuse_eq rbind_assoc rbind_simps after_fusion_def Let_def wanted_results_def query_of_def
  by (simp only: split_beta)

lemma pack_reader:
  assumes "degraded r r'"
  shows "pack F FO r' query ranked mt limit ds tr = pack F FO r query ranked mt limit ds tr"
    and "expand FO r' seeds cs ds = expand FO r seeds cs ds"
  by (simp_all only: pack_def expand_def degraded_fields [OF assms])

lemma after_fusion_same:
  assumes "degraded r r'"
  shows "rmap_result quiet (after_fusion F FO r q mt limit (cs, tr, d))
    = rmap_result quiet (after_fusion F FO r' q mt limit (cs, tr, d'))"
proof (cases "cs = []")
  case True
  then show ?thesis by (simp add: after_fusion_def quiet_def degraded_fields [OF assms])
next
  case False
  define seeds where "seeds = take (nat (seed_limit (rt_config r))) (map ca_key (rerank FO (rt_config r) q cs False))"
  have run: "after_fusion F FO r q mt limit (cs, tr, d) =
      rbind (expand FO r seeds (fold mark_seed seeds cs) []) (\<lambda>(expanded, ds).
        Inr (pack F FO r q (rerank FO (rt_config r) q expanded True) mt limit (d @ ds) tr))"
    if "seeds = take (nat (seed_limit (rt_config r))) (map ca_key (rerank FO (rt_config r) q cs False))" for r d
    using expand_logged [of FO r seeds "fold mark_seed seeds cs" d "[]"] False
    by (simp add: after_fusion_def Let_def that [symmetric] rbind_rmap_result split_beta)
  have "quiet (pack F FO r q rk mt limit (d @ ds) tr) = quiet (pack F FO r q rk mt limit (d' @ ds) tr)" for rk ds
    by (simp only: quiet_def pack_diagnostics)
  then show ?thesis
    unfolding run [OF seeds_def] run [OF seeds_def [folded degraded_fields(1) [OF assms]]] pack_reader [OF assms]
      degraded_fields(1) [OF assms]
    by (simp add: rmap_result_bind split_beta)
qed

lemma retrieve_degraded:
  assumes "degraded r r'"
  shows "rmap_result quiet (retrieve F FO r q mt mr) = rmap_result quiet (retrieve F FO r' q mt mr)"
proof -
  let ?query = "query_of r q (wanted_results r mr)"
  have same: "query_of r' q limit = query_of r q limit" "wanted_results r' mr = wanted_results r mr" for limit
    by (simp_all only: query_of_def wanted_results_def degraded_fields [OF assms])
  show ?thesis
  proof (cases "post_init_search_query ?query")
    case (Inl e)
    then show ?thesis unfolding retrieve_eq same by (simp add: rmap_result_def)
  next
    case (Inr x)
    then have "0 < sq_limit ?query" by (simp add: post_init_search_query_def split: if_splits)
    from fuse_answer_same [OF assms this, of FO "[]" "wanted_results r mr"]
    obtain cs tr d d' where "fuse_answer FO r ?query [] (wanted_results r mr) = (cs, tr, d)"
      "fuse_answer FO r' ?query [] (wanted_results r mr) = (cs, tr, d')" by metis
    then show ?thesis
      unfolding retrieve_eq same by (simp add: Inr after_fusion_same [OF assms, of _ _ _ _ _ cs tr d d'])
  qed
qed

section \<open>What is reported\<close>

lemma fuse_search_report:
  "run query = Inl e \<Longrightarrow> name @ '' search failed: '' @ exn_name e \<in> set (fu_diagnostics (fuse_search FO cfg query (name, run) st))"
  by (simp add: fuse_search_def)

lemma fuse_hits_diagnostics: "fu_diagnostics (snd (fold (fuse_hit FO cfg name) xs acc)) = fu_diagnostics (snd acc)"
  by (induction xs arbitrary: acc) (simp_all add: fuse_hit_def Let_def split_beta)

lemma fuse_search_keeps: "x \<in> set (fu_diagnostics st) \<Longrightarrow> x \<in> set (fu_diagnostics (fuse_search FO cfg query entry st))"
  by (cases "snd entry query") (simp_all add: fuse_search_def fuse_hits_diagnostics)

lemma fused_state_report:
  assumes "(name, run) \<in> set (searches r)" and "run query = Inl e"
  shows "name @ '' search failed: '' @ exn_name e \<in> set (fu_diagnostics (fused_state FO r query ds))"
proof -
  have "name @ '' search failed: '' @ exn_name e \<in> set (fu_diagnostics (fold (fuse_search FO (rt_config r) query) es st))"
    if "(name, run) \<in> set es \<or> name @ '' search failed: '' @ exn_name e \<in> set (fu_diagnostics st)" for es st
    using that
  proof (induction es arbitrary: st)
    case (Cons x es)
    then show ?case using fuse_search_report [where run = run and query = query, OF assms(2)] fuse_search_keeps
      by (simp del: append.simps) blast
  qed simp
  then show ?thesis using assms(1) by (simp add: fused_state_def)
qed

lemma after_fusion_report:
  assumes "after_fusion F FO r q mt limit (cs, tr, d) = Inr b" and "x \<in> set d"
  shows "x \<in> set (cx_diagnostics b)"
proof (cases "cs = []")
  case True
  then show ?thesis using assms by (auto simp: after_fusion_def)
next
  case False
  define seeds where "seeds = take (nat (seed_limit (rt_config r))) (map ca_key (rerank FO (rt_config r) q cs False))"
  obtain expanded ds where "b = pack F FO r q (rerank FO (rt_config r) q expanded True) mt limit (d @ ds) tr"
    using assms(1) expand_logged [of FO r seeds "fold mark_seed seeds cs" d "[]"] False
    by (auto simp: after_fusion_def Let_def seeds_def [symmetric] rbind_rmap_result rbind_eq_Inr split_beta)
  then show ?thesis using pack_diagnostics(2) assms(2) by (simp only:) blast
qed

lemma retrieve_report:
  assumes "retrieve F FO r q mt mr = Inr b" and "(name, run) \<in> set (searches r)"
    and "run (query_of r q (wanted_results r mr)) = Inl e"
  shows "name @ '' search failed: '' @ exn_name e \<in> set (cx_diagnostics b)"
proof -
  let ?query = "query_of r q (wanted_results r mr)"
  obtain cs tr d where a: "fuse_answer FO r ?query [] (wanted_results r mr) = (cs, tr, d)" by (metis prod_cases3)
  have "after_fusion F FO r q mt (wanted_results r mr) (cs, tr, d) = Inr b"
    using assms(1) by (auto simp: retrieve_eq a rbind_eq_Inr split: if_splits)
  then show ?thesis
    by (rule after_fusion_report) (use fused_state_report [OF assms(2,3), of FO "[]"] a in \<open>auto simp: fuse_answer_def Let_def\<close>)
qed

section \<open>A store that answers\<close>

text \<open>The one adapter whose failures propagate: lookups succeed, batches answer every identifier.\<close>

definition store_answers :: "symbol_store \<Rightarrow> bool" where
  "store_answers store \<longleftrightarrow>
     (\<forall>fetch ids scope. get_symbols store = Some fetch \<longrightarrow> (\<exists>found. fetch ids scope = Inr found \<and> length found = length ids)) \<and>
     (\<forall>i scope. (\<exists>found. get_symbol_scoped store i scope = Inr found) \<or>
        (\<exists>m found. get_symbol_scoped store i scope = Inl (TypeError m) \<and> get_symbol_plain store i = Inr found))"

lemma prefetch_answers: "store_answers store \<Longrightarrow> \<exists>cache. prefetch store current es = Inr cache"
proof -
  assume answers: "store_answers store"
  show ?thesis
  proof (cases "get_symbols store")
    case (Some fetch)
    have "\<exists>cache. rfold (prefetch_variant fetch) (grouped_neighbors current es) [] = Inr cache \<and> True"
    proof (rule rfold_invariant)
      fix entry :: "string \<times> string list" and c :: symbol_cache
      obtain v ids where "entry = (v, ids)" by fastforce
      moreover obtain found where "fetch ids [v] = Inr found" "length found = length ids"
        using answers Some unfolding store_answers_def by blast
      ultimately show "\<exists>c'. prefetch_variant fetch entry c = Inr c' \<and> True" by (simp add: prefetch_variant_def)
    qed simp
    then show ?thesis using Some by (simp add: prefetch_def)
  qed (simp add: prefetch_def)
qed

lemma lookup_answers: "store_answers store \<Longrightarrow> \<exists>found. lookup_symbol store cache v i = Inr found"
proof -
  assume "store_answers store"
  then consider found where "get_symbol_scoped store i [v] = Inr found"
    | m found where "get_symbol_scoped store i [v] = Inl (TypeError m)" "get_symbol_plain store i = Inr found"
    unfolding store_answers_def by blast
  then show ?thesis by cases (simp_all add: lookup_symbol_def)
qed

definition queued :: "expand_state \<Rightarrow> bool" where
  "queued st \<longleftrightarrow> fst ` set (ex_queue st) \<subseteq> fst ` set (ex_candidates st)"

lemma queued_flags [simp]:
  "queued (st\<lparr>ex_exhausted := b\<rparr>) = queued st" "queued (st\<lparr>ex_diagnostics := d\<rparr>) = queued st"
  "queued (st\<lparr>ex_edge_count := n\<rparr>) = queued st"
  by (simp_all add: queued_def)

lemma expand_edge_answers:
  assumes "store_answers (ee_store E)" and st: "queued st"
  shows "\<exists>st'. expand_edge E known cache current depth degree e st = Inr st' \<and> queued st'"
proof (cases "neighbor_of (fact_id (ca_symbol current)) e")
  case None
  then show ?thesis using st by (simp add: expand_edge_def)
next
  case (Some i)
  obtain found where "lookup_symbol (ee_store E) cache (build_variant e) i = Inr found"
    using lookup_answers [OF assms(1)] by blast
  then show ?thesis using Some st
    by (cases found) (auto simp: expand_edge_def Let_def queued_def)
qed

lemma expand_edges_answers:
  assumes "store_answers (ee_store E)" and "queued st"
  shows "\<exists>st'. expand_edges E known cache current depth degree es st = Inr st' \<and> queued st'"
  using assms(2)
proof (induction es arbitrary: st)
  case (Cons e es)
  obtain st1 where "expand_edge E known cache current depth degree e st = Inr st1" "queued st1"
    using expand_edge_answers [OF assms(1) Cons.prems] by blast
  then show ?case using Cons.IH Cons.prems by simp
qed simp

lemma expand_node_answers:
  assumes answers: "store_answers (ee_store E)" and st: "queued st"
  shows "\<exists>st'. expand_node E st = Inr st' \<and> queued st'"
proof (cases "ex_queue st")
  case (Cons x rest)
  obtain key depth where x: "x = (key, depth)" by fastforce
  have rest: "queued (st\<lparr>ex_queue := rest\<rparr>)" using st Cons by (auto simp: queued_def)
  have "key \<in> fst ` set (ex_candidates st)" using st Cons x by (auto simp: queued_def)
  then obtain current where current: "map_of (ex_candidates st) key = Some current"
    by (metis map_of_eq_None_iff not_None_eq)
  have "\<exists>st'. visit_node E current depth (st\<lparr>ex_queue := rest\<rparr>) = Inr st' \<and> queued st'"
  proof (cases "neighbor_edges (ee_config E) (ee_graph E) (ca_symbol current)")
    case (Inl e)
    then show ?thesis using rest by (simp add: visit_node_def)
  next
    case (Inr raw)
    obtain known new ds where g: "gather_evidence (ee_config E) (ee_graph E) (ca_symbol current)
        (ex_diagnostics (st\<lparr>ex_queue := rest\<rparr>)) = (known, new, ds)" by (metis prod_cases3)
    define limited where "limited = take (nat (per_node_edge_budget (ee_config E))) (relevant_edges (ee_config E) known raw new)"
    obtain cache where "prefetch (ee_store E) (fact_id (ca_symbol current)) limited = Inr cache"
      using prefetch_answers [OF answers] by blast
    then show ?thesis using Inr g
      by (simp add: visit_node_def Let_def limited_def [symmetric] expand_edges_answers [OF answers] rest)
  qed
  moreover have "dict_index (ex_candidates (st\<lparr>ex_queue := rest\<rparr>)) key = Inr current" using current by simp
  ultimately show ?thesis using Cons x rest
    by (simp only: expand_node_def list.case prod.case Let_def rbind_simps) (simp split: if_splits)
qed (use st in \<open>simp add: expand_node_def\<close>)

lemma expand_loop_answers:
  assumes "store_answers (ee_store E)" and "queued st"
  shows "\<exists>st'. expand_loop E st = Inr st'"
  using assms
proof (induction E st rule: expand_loop.induct)
  case (1 E st)
  obtain st1 where st1: "expand_node E st = Inr st1" "queued st1" using expand_node_answers [OF 1(2,3)] by blast
  show ?case
  proof (cases "ex_queue st = [] \<or> graph_edge_budget (ee_config E) \<le> int (ex_edge_count st)")
    case True
    then show ?thesis by (simp add: expand_loop.simps)
  next
    case False
    then show ?thesis using 1(1) [OF False st1(1) 1(2) st1(2)] st1 by (subst expand_loop.simps) simp
  qed
qed

lemma expand_answers:
  assumes "store_answers (rt_store r)" and "set seeds \<subseteq> fst ` set cs"
  shows "\<exists>x. expand FO r seeds cs d = Inr x"
proof (cases "rt_graph r")
  case (Some G)
  let ?E = "\<lparr>ee_floats = FO, ee_config = rt_config r, ee_store = rt_store r, ee_graph = G\<rparr>"
  let ?st = "\<lparr>ex_candidates = cs, ex_queue = map (\<lambda>k. (k, 0)) seeds, ex_visited = seeds, ex_edge_count = 0,
    ex_expanded_nodes = 0, ex_exhausted = False, ex_diagnostics = d\<rparr>"
  have "queued ?st" using assms(2) by (auto simp: queued_def)
  then obtain st where "expand_loop ?E ?st = Inr st" using expand_loop_answers [of ?E ?st] assms(1) by auto
  then show ?thesis by (simp add: expand_def Some)
qed (simp add: expand_def)

end
