(* ===== verification/RetrievalSpec.thy ===== *)
theory RetrievalSpec
imports RetrievalErrors
begin

text \<open>
  The properties of hybrid retrieval: the budgets of the packed context, the provenance of expanded
  candidates, the fused scores, and what a failing adapter can do to a query.
\<close>

section \<open>Reranking\<close>

lemma set_score_simps [simp]:
  "ca_symbol (set_score x c) = ca_symbol c" "ca_path (set_score x c) = ca_path c"
  "ca_parent_id (set_score x c) = ca_parent_id c" "ca_is_seed (set_score x c) = ca_is_seed c"
  "is_root (set_score x c) = is_root c"
  by (simp_all add: set_score_def is_root_def)

lemma set_rerank_False: "set (rerank FO cfg q cs False) = snd ` set cs"
  by (force simp: rerank_def)

lemma set_rerank_True: "set (rerank FO cfg q cs True) = (\<lambda>c. set_score (rerank_score FO cfg q c) c) ` snd ` set cs"
  by (force simp: rerank_def)

lemma mset_rerank_keys: "mset (map ca_key (rerank FO cfg q cs b)) = mset (map (\<lambda>kc. ca_key (snd kc)) cs)"
proof -
  have "map ca_key (rerank FO cfg q cs b) = map (\<lambda>x. ca_key (snd x))
      (sort_desc (\<lambda>(score, c). (score, ca_is_seed c, sym_qualified_name (ca_symbol c)))
        (map (\<lambda>(k, c). (rerank_score FO cfg q c, c)) cs))"
    unfolding rerank_def Let_def map_map by (rule map_cong [OF refl]) auto
  then have "mset (map ca_key (rerank FO cfg q cs b)) = image_mset (\<lambda>x. ca_key (snd x))
      (mset (map (\<lambda>(k, c). (rerank_score FO cfg q c, c)) cs))"
    by (simp only: mset_map mset_sort_desc)
  also have "\<dots> = mset (map (\<lambda>kc. ca_key (snd kc)) cs)"
    by (simp add: split_beta image_mset.compositionality comp_def)
  finally show ?thesis .
qed

lemma distinct_rerank:
  assumes "keyed id_of cs"
  shows "distinct (map ca_key (rerank FO cfg q cs b))"
proof -
  have "map (\<lambda>kc. ca_key (snd kc)) cs = map fst cs" using assms by (auto simp: keyed_def)
  then have "mset (map ca_key (rerank FO cfg q cs b)) = mset (map fst cs)" by (simp only: mset_rerank_keys)
  then show ?thesis using assms mset_eq_imp_distinct_iff unfolding keyed_def by blast
qed

section \<open>Marking the seeds\<close>

lemma mark_seeds_keys: "map fst (fold mark_seed seeds cs) = map fst cs"
  by (induction seeds arbitrary: cs) (simp_all add: mark_seed_def split_beta comp_def)

lemma mark_seeds_candidates:
  assumes "(k, c) \<in> set (fold mark_seed seeds cs)"
  shows "\<exists>c0. (k, c0) \<in> set cs \<and> ca_hit c = ca_hit c0 \<and> ca_path c = ca_path c0 \<and> ca_parent_id c = ca_parent_id c0 \<and>
    (k \<in> set seeds \<or> ca_is_seed c0 \<longrightarrow> ca_is_seed c)"
  using assms
proof (induction seeds arbitrary: cs)
  case (Cons s seeds)
  then obtain c1 where c1: "(k, c1) \<in> set (mark_seed s cs)" "ca_hit c = ca_hit c1" "ca_path c = ca_path c1"
      "ca_parent_id c = ca_parent_id c1" "k \<in> set seeds \<or> ca_is_seed c1 \<longrightarrow> ca_is_seed c"
    by fastforce
  from c1(1) obtain c0 where "(k, c0) \<in> set cs"
    "c1 = (if k = s then c0\<lparr>ca_is_seed := True, ca_reasons := ca_reasons c0 @ [''selected as a fused search seed'']\<rparr> else c0)"
    unfolding mark_seed_def by auto
  then show ?case using c1 by (intro exI [of _ c0]) (auto split: if_splits)
qed auto

section \<open>The start of the expansion\<close>

definition seeds_of :: "float_ops \<Rightarrow> retriever \<Rightarrow> string \<Rightarrow> (string \<times> candidate) list \<Rightarrow> string list" where
  "seeds_of FO r q cs = take (nat (seed_limit (rt_config r))) (map ca_key (rerank FO (rt_config r) q cs False))"

definition start_state :: "float_ops \<Rightarrow> retriever \<Rightarrow> string \<Rightarrow> (string \<times> candidate) list \<Rightarrow> string list \<Rightarrow> expand_state" where
  "start_state FO r q cs d = \<lparr>ex_candidates = fold mark_seed (seeds_of FO r q cs) cs,
     ex_queue = map (\<lambda>k. (k, 0)) (seeds_of FO r q cs), ex_visited = seeds_of FO r q cs, ex_edge_count = 0,
     ex_expanded_nodes = 0, ex_exhausted = False, ex_diagnostics = d\<rparr>"

lemma seeds_known:
  assumes "\<And>k c. (k, c) \<in> set cs \<Longrightarrow> ca_key c = k"
  shows "set (seeds_of FO r q cs) \<subseteq> fst ` set cs"
proof -
  have "set (seeds_of FO r q cs) \<subseteq> set (map ca_key (rerank FO (rt_config r) q cs False))"
    unfolding seeds_of_def by (rule set_take_subset)
  also have "\<dots> = ca_key ` snd ` set cs" by (simp only: set_map set_rerank_False)
  also have "\<dots> \<subseteq> fst ` set cs"
  proof
    fix x assume "x \<in> ca_key ` snd ` set cs"
    then obtain k c where "(k, c) \<in> set cs" "x = ca_key c" by auto
    then show "x \<in> fst ` set cs" using assms by force
  qed
  finally show ?thesis .
qed

lemma guard_Inr: "(if c then Inl m else r) = Inr x \<longleftrightarrow> \<not> c \<and> r = Inr x"
  by simp

lemma valid_limits:
  assumes "post_init_retrieval_config cfg = Inr cfg'"
  shows "0 < graph_node_budget cfg" "0 < graph_edge_budget cfg" "0 < search_limit cfg" "0 < candidate_limit cfg"
    "0 < seed_limit cfg" "0 \<le> graph_depth cfg" "0 < chars_per_token cfg"
  using assms unfolding post_init_retrieval_config_def guard_Inr min_le_iff_disj de_Morgan_disj not_le not_less
  by (simp_all only: simp_thms)

lemma start_expanding:
  assumes fused: "fuse FO r q [] limit = Inr (cs, tr, d)"
    and coherent: "\<And>s. found_symbol r (query_of r q limit) s \<Longrightarrow> id_of (evidence_id s) = fact_id s"
    and cfg: "post_init_retrieval_config (rt_config r) = Inr cfg" and E: "ee_config E = rt_config r"
  shows "expanding E id_of cs (start_state FO r q cs d)"
proof -
  note cand = fuse_candidates [OF fused]
  let ?cs = "fold mark_seed (seeds_of FO r q cs) cs"
  have keys: "fst ` set ?cs = fst ` set cs" by (metis mark_seeds_keys set_map)
  have seeds: "set (seeds_of FO r q cs) \<subseteq> fst ` set cs" by (rule seeds_known) (use cand(3) in blast)
  have known: "ca_key c = k \<and> id_of k = fact_id (ca_symbol c) \<and> ca_path c = [] \<and> ca_parent_id c = None \<and>
      (k \<in> set (seeds_of FO r q cs) \<longrightarrow> ca_is_seed c)" if kc: "(k, c) \<in> set ?cs" for k c
  proof -
    obtain c0 where c0: "(k, c0) \<in> set cs" "ca_hit c = ca_hit c0" "ca_path c = ca_path c0" "ca_parent_id c = ca_parent_id c0"
        "k \<in> set (seeds_of FO r q cs) \<or> ca_is_seed c0 \<longrightarrow> ca_is_seed c"
      using mark_seeds_candidates [OF kc] by blast
    then show ?thesis using cand(3) [OF c0(1)] coherent by (auto simp: fresh_candidate_def query_of_def)
  qed
  have "keyed id_of ?cs" unfolding keyed_def using cand(1) known by (auto simp: mark_seeds_keys)
  moreover have "origin_known E ?cs (seeds_of FO r q cs) k c" if "map_of ?cs k = Some c" for k c
    using known [OF map_of_SomeD [OF that]] by (simp add: origin_known_def)
  moreover have "\<exists>c. map_of ?cs k = Some c \<and> length (ca_path c) = 0" if "k \<in> set (seeds_of FO r q cs)" for k
  proof -
    have "k \<in> fst ` set ?cs" using that seeds keys by blast
    then obtain c where "map_of ?cs k = Some c" by (metis map_of_eq_None_iff not_None_eq)
    then show ?thesis using known map_of_SomeD by fastforce
  qed
  moreover have "length ?cs = length cs" by (metis length_map mark_seeds_keys)
  moreover have "0 < graph_node_budget (rt_config r)" "0 < graph_edge_budget (rt_config r)"
    using valid_limits [OF cfg] by simp_all
  ultimately show ?thesis
    using seeds keys unfolding expanding_def start_state_def expand_state.simps E by (intro conjI) auto
qed

lemma expand_result:
  assumes fused: "fuse FO r q [] limit = Inr (cs, tr, d)"
    and coherent: "\<And>s. found_symbol r (query_of r q limit) s \<Longrightarrow> id_of (evidence_id s) = fact_id s"
    and law: "store_lawful (rt_store r) id_of"
    and cfg: "post_init_retrieval_config (rt_config r) = Inr cfg" and G: "rt_graph r = Some G"
    and run: "expand FO r (seeds_of FO r q cs) (fold mark_seed (seeds_of FO r q cs) cs) d = Inr (cs', d')"
  defines "E \<equiv> \<lparr>ee_floats = FO, ee_config = rt_config r, ee_store = rt_store r, ee_graph = G\<rparr>"
  shows "\<exists>st. expanding E id_of cs st \<and> ex_candidates st = cs'"
proof -
  have start: "expanding E id_of cs (start_state FO r q cs d)"
    by (rule start_expanding [OF fused coherent cfg]) (simp_all add: E_def)
  show ?thesis
  proof (cases "graph_depth (rt_config r) = 0")
    case True
    then show ?thesis using start run G by (auto simp: expand_def start_state_def)
  next
    case False
    then obtain st where "expand_loop E (start_state FO r q cs d) = Inr st" "cs' = ex_candidates st"
      using run G by (auto simp: expand_def start_state_def E_def rbind_eq_Inr)
    then show ?thesis using expand_loop_expanding [OF start] law by (auto simp: E_def)
  qed
qed

lemma expanded_parents:
  assumes inv: "expanding E id_of cs0 st"
  shows "has_parents (rerank FO cfg q (ex_candidates st) True)"
  unfolding has_parents_def
proof
  fix c' assume "c' \<in> set (rerank FO cfg q (ex_candidates st) True)"
  then obtain k c where c: "(k, c) \<in> set (ex_candidates st)" and c': "c' = set_score (rerank_score FO cfg q c) c"
    by (auto simp: set_rerank_True)
  have keyed: "keyed id_of (ex_candidates st)" using inv by (simp add: expanding_def)
  then have "map_of (ex_candidates st) k = Some c" using c by (simp add: keyed_def)
  then have origin: "origin_known E (ex_candidates st) (ex_visited st) k c" using inv by (simp add: expanding_def)
  show "is_root c' \<or> (\<exists>p \<in> set (rerank FO cfg q (ex_candidates st) True). ca_parent_id c' = Some (ca_key p) \<and>
      length (ca_path p) < length (ca_path c'))"
  proof (cases "ca_path c = []")
    case True
    then have "is_root c'" using origin by (simp add: c' origin_known_def is_root_def)
    then show ?thesis ..
  next
    case False
    then have "linked E (ex_candidates st) c" using origin by (simp add: origin_known_def)
    then obtain p s where p: "ca_parent_id c = Some (ca_key p)" "map_of (ex_candidates st) (ca_key p) = Some p" "ca_path c = ca_path p @ [s]"
      unfolding linked_def by blast
    then have "set_score (rerank_score FO cfg q p) p \<in> set (rerank FO cfg q (ex_candidates st) True)"
      by (force simp: set_rerank_True dest!: map_of_SomeD)
    then show ?thesis using p by (intro disjI2 bexI) (auto simp: c')
  qed
qed

section \<open>From the query to the bundle\<close>

lemma after_fusion_answers:
  assumes "store_answers (rt_store r)" and "\<And>k c. (k, c) \<in> set cs \<Longrightarrow> ca_key c = k"
  shows "\<exists>b. after_fusion F FO r q mt limit (cs, tr, d) = Inr b"
proof (cases "cs = []")
  case False
  have "set (seeds_of FO r q cs) \<subseteq> fst ` set (fold mark_seed (seeds_of FO r q cs) cs)"
    using seeds_known [OF assms(2)] by (metis mark_seeds_keys set_map)
  from expand_answers [OF assms(1) this, of FO d] False show ?thesis
    by (auto simp: after_fusion_def Let_def seeds_of_def)
qed (simp add: after_fusion_def)

lemma retrieve_answers:
  assumes answers: "store_answers (rt_store r)" and q: "\<not> blank q" and mt: "0 < mt"
    and limit: "0 < wanted_results r mr" and cfg: "0 < search_limit (rt_config r)"
    and mr: "\<And>m. mr = Some m \<Longrightarrow> 0 < m"
  shows "\<exists>b. retrieve F FO r q mt mr = Inr b"
proof -
  let ?limit = "wanted_results r mr"
  have ok: "post_init_search_query (query_of r q ?limit) = Inr (query_of r q ?limit)"
    using q limit cfg by (simp add: post_init_search_query_def query_of_def)
  obtain cs tr d where a: "fuse_answer FO r (query_of r q ?limit) [] ?limit = (cs, tr, d)" by (metis prod_cases3)
  then have "fuse FO r q [] ?limit = Inr (cs, tr, d)" using ok by (simp add: fuse_eq query_of_def)
  note keys = fuse_candidates(3) [OF this]
  have "\<exists>b. after_fusion F FO r q mt ?limit (cs, tr, d) = Inr b"
    by (rule after_fusion_answers [OF answers]) (use keys in blast)
  then show ?thesis using q mt mr by (auto simp: retrieve_eq ok a split: option.splits)
qed

lemma retrieve_Inr:
  assumes "retrieve F FO r q mt mr = Inr b"
  obtains cs tr d where "0 < mt" "0 < wanted_results r mr"
    "after_fusion F FO r q mt (wanted_results r mr) (cs, tr, d) = Inr b"
proof -
  obtain cs tr d where a: "fuse_answer FO r (query_of r q (wanted_results r mr)) [] (wanted_results r mr) = (cs, tr, d)"
    by (metis prod_cases3)
  have "0 < mt" "\<exists>x. post_init_search_query (query_of r q (wanted_results r mr)) = Inr x"
    "after_fusion F FO r q mt (wanted_results r mr) (cs, tr, d) = Inr b"
    using assms by (auto simp: retrieve_eq a rbind_eq_Inr split: if_splits)
  moreover from this(2) have "0 < wanted_results r mr"
    by (auto simp: post_init_search_query_def query_of_def split: if_splits)
  ultimately show ?thesis by (intro that)
qed

definition bounded_bundle :: "fs \<Rightarrow> float_ops \<Rightarrow> retriever \<Rightarrow> int \<Rightarrow> int \<Rightarrow> context_bundle \<Rightarrow> bool" where
  "bounded_bundle F FO r mt limit b \<longleftrightarrow>
     int (length (cx_rendered_context b)) \<le> max 0 (char_budget FO (rt_config r) mt) \<and> int (length (cx_items b)) \<le> limit \<and>
     cx_rendered_context b = concat (map (item_text F (rt_reader r)) (cx_items b)) \<and> cx_hits b = map it_hit (cx_items b) \<and>
     list_all (excerpt (rt_reader r)) (cx_items b) \<and> (cx_truncated b \<or> list_all (whole (rt_reader r)) (cx_items b))"

lemma pack_bounded:
  assumes "0 < limit"
  shows "bounded_bundle F FO r mt limit (pack F FO r q ranked mt limit d tr)"
proof -
  let ?start = "\<lparr>pk_parts = [], pk_items = [], pk_used_chars = 0, pk_truncated = tr, pk_diagnostics = d\<rparr>"
  define st where "st = pack_loop F (rt_reader r) (char_budget FO (rt_config r) mt) limit (pack_order ranked) ?start"
  have "packed F (rt_reader r) (char_budget FO (rt_config r) mt) limit ?start" using assms by (simp add: packed_def)
  then have "packed F (rt_reader r) (char_budget FO (rt_config r) mt) limit st"
    unfolding st_def by (rule packed_loop)
  then show ?thesis
    unfolding bounded_bundle_def pack_def Let_def st_def [symmetric] context_bundle.simps packed_def by auto
qed

lemma retrieve_bounded:
  assumes "retrieve F FO r q mt mr = Inr b"
  shows "bounded_bundle F FO r mt (wanted_results r mr) b"
    and "cx_estimated_tokens b = \<lceil>fl FO (fl FO (of_nat (length (cx_rendered_context b))) / chars_per_token (rt_config r))\<rceil>
      \<or> cx_rendered_context b = [] \<and> cx_estimated_tokens b = 0"
proof -
  obtain cs tr d where limit: "0 < wanted_results r mr"
    and b: "after_fusion F FO r q mt (wanted_results r mr) (cs, tr, d) = Inr b"
    using retrieve_Inr [OF assms] by metis
  show "bounded_bundle F FO r mt (wanted_results r mr) b"
  proof (cases "cs = []")
    case True
    then show ?thesis using b limit by (auto simp: after_fusion_def bounded_bundle_def)
  next
    case False
    then show ?thesis using b pack_bounded [OF limit] by (auto simp: after_fusion_def Let_def rbind_eq_Inr)
  qed
  show "cx_estimated_tokens b = \<lceil>fl FO (fl FO (of_nat (length (cx_rendered_context b))) / chars_per_token (rt_config r))\<rceil>
      \<or> cx_rendered_context b = [] \<and> cx_estimated_tokens b = 0"
  proof (cases "cs = []")
    case True
    then show ?thesis using b by (auto simp: after_fusion_def)
  next
    case False
    then show ?thesis using b by (auto simp: after_fusion_def Let_def rbind_eq_Inr pack_def)
  qed
qed

section \<open>A sample retriever\<close>

definition sample_ops :: float_ops where
  "sample_ops = \<lparr>fl = \<lambda>x. x, fl_sqrt = \<lambda>x. x, fl_fixed2 = \<lambda>_. ''1.00''\<rparr>"

definition sample_symbol :: "string \<Rightarrow> code_symbol" where
  "sample_symbol name = \<lparr>fact_id = name, translation_unit_id = ''tu'', build_configuration_id = ''bc'', build_variant = ''b'',
     sym_qualified_name = name, sym_kind = SYM_FUNCTION,
     sym_span = \<lparr>span_path = ''/p/a.cpp'', start_line = 1, end_line = 2, start_column = 1, end_column = 1\<rparr>,
     sym_signature = ''void '' @ name, sym_documentation = [], sym_source_hash = [], sym_source_text = [], sym_variant_id = [],
     sym_metadata = []\<rparr>"

definition sample_edge :: "string \<Rightarrow> string \<Rightarrow> graph_edge" where
  "sample_edge a b = \<lparr>fact_id = a @ b, translation_unit_id = ''tu'', build_configuration_id = ''bc'', build_variant = ''b'',
     ge_source_id = a, ge_target_id = b, ge_relation = REL_CALLS\<rparr>"

definition sample_graph :: code_graph where
  "sample_graph = \<lparr>neighbors_bounded = \<lambda>i rs d m p sc. Inr (filter (\<lambda>e. ge_source_id e = i \<or> ge_target_id e = i)
       [sample_edge ''f'' ''g'', sample_edge ''h'' ''g'', sample_edge ''h'' ''k'']),
     neighbors_plain = \<lambda>i rs d. Inl KeyError, call_evidence = None\<rparr>"

definition sample_store :: symbol_store where
  "sample_store = \<lparr>get_symbols = None, get_symbol_scoped = \<lambda>i sc. Inr (Some (sample_symbol i)), get_symbol_plain = \<lambda>i. Inr None\<rparr>"

definition sample_retriever :: retriever where
  "sample_retriever = \<lparr>rt_lexical = \<lambda>q. Inr [\<lparr>sh_symbol = sample_symbol ''f'', sh_score = 1, sh_source = ''lexical''\<rparr>],
     rt_symbol = \<lambda>q. Inl OSError, rt_vector = \<lambda>q. Inr [], rt_store = sample_store,
     rt_reader = \<lparr>rd_read_symbol = \<lambda>s. Inr [102, 40, 41], rd_display_path = None, rd_project_root = None\<rparr>,
     rt_graph = Some sample_graph, rt_config = default_retrieval_config sample_ops, rt_scope = \<lparr>variants = [''b'']\<rparr>\<rparr>"

lemma sample_store_answers: "store_answers (rt_store sample_retriever)"
  by (simp add: sample_retriever_def sample_store_def store_answers_def)

lemma sample_limits:
  "0 < wanted_results sample_retriever None" "0 < search_limit (rt_config sample_retriever)" "\<not> blank ''f''"
  by (simp_all add: wanted_results_def sample_retriever_def default_retrieval_config_def blank_iff is_space_def)

lemma sample_answers: "\<exists>b. retrieve F sample_ops sample_retriever ''f'' 1000 None = Inr b"
  by (rule retrieve_answers [OF sample_store_answers]) (simp_all add: sample_limits)

section \<open>Properties\<close>

text \<open>
  Property C17.  A successful query stays within its budgets and shows nothing but source text: the rendered
  context is at most the character budget long (empty for a budget below one), there are at most as many
  items as asked for, the context is exactly the concatenation of the rendered items, each of which shows the
  text the source reader returns for its symbol or a prefix of it with the truncation mark; and a result
  that is not labelled truncated shows every item whole.
\<close>

theorem retrieve_within_budget:
  assumes "retrieve F FO r q max_tokens max_results = Inr b"
  shows "int (length (cx_rendered_context b)) \<le> max 0 (char_budget FO (rt_config r) max_tokens) \<and>
    int (length (cx_items b)) \<le> (case max_results of None \<Rightarrow> candidate_limit (rt_config r) | Some m \<Rightarrow> m) \<and>
    cx_rendered_context b = concat (map (item_text F (rt_reader r)) (cx_items b)) \<and> cx_hits b = map it_hit (cx_items b) \<and>
    (\<forall>it \<in> set (cx_items b). excerpt (rt_reader r) it \<and> (\<not> cx_truncated b \<longrightarrow> whole (rt_reader r) it))"
  using retrieve_bounded(1) [OF assms] unfolding bounded_bundle_def wanted_results_def by (auto simp: list_all_iff)

theorem retrieve_within_budget_witness:
  "\<exists>b. retrieve (sample_fs []) sample_ops sample_retriever ''f'' 1000 None = Inr b \<and>
     int (length (cx_rendered_context b)) \<le> 4000"
proof -
  obtain b where b: "retrieve (sample_fs []) sample_ops sample_retriever ''f'' 1000 None = Inr b"
    using sample_answers by blast
  have "char_budget sample_ops (rt_config sample_retriever) 1000 = 4000"
    by (simp add: char_budget_def sample_retriever_def default_retrieval_config_def sample_ops_def)
  then show ?thesis using retrieve_within_budget [OF b] b by auto
qed

text \<open>
  With four characters per token, the default, and arithmetic that is exact on the quarters
  a float holds exactly, the reported token estimate never exceeds the tokens the caller allowed.
\<close>

theorem token_estimate_within_limit:
  assumes "retrieve F FO r q max_tokens max_results = Inr b"
    and "chars_per_token (rt_config r) = 4"
    and exact: "\<forall>n. \<bar>n\<bar> \<le> 2 ^ 53 \<longrightarrow> fl FO (of_int n) = of_int n \<and> fl FO (of_int n / 4) = of_int n / 4"
    and small: "max_tokens \<le> 2 ^ 51"
  shows "cx_estimated_tokens b \<le> max_tokens"
proof -
  obtain cs tr d where mt: "0 < max_tokens" using retrieve_Inr [OF assms(1)] by metis
  let ?n = "int (length (cx_rendered_context b))"
  have four: "of_int max_tokens * 4 = (of_int (max_tokens * 4) :: rat)" by simp
  have "fl FO (of_int max_tokens) = of_int max_tokens" using exact mt small by simp
  moreover have "fl FO (of_int (max_tokens * 4)) = of_int (max_tokens * 4)"
    using spec [OF exact, of "max_tokens * 4"] mt small by simp
  ultimately have "\<lfloor>fl FO (fl FO (of_int max_tokens) * 4)\<rfloor> = max_tokens * 4" by (simp only: four floor_of_int)
  then have "char_budget FO (rt_config r) max_tokens \<le> max_tokens * 4"
    by (simp add: char_budget_def Let_def assms(2) split: option.splits)
  then have n: "?n \<le> max_tokens * 4"
    using retrieve_bounded(1) [OF assms(1)] mt by (auto simp: bounded_bundle_def)
  then have "fl FO (of_int ?n) = of_int ?n" "fl FO (of_int ?n / 4) = of_int ?n / 4"
    using spec [OF exact, of ?n] n small by simp_all
  moreover have "(of_int ?n :: rat) \<le> of_int (max_tokens * 4)" using n by (rule of_int_le_iff [THEN iffD2])
  then have "\<lceil>of_int ?n / 4 :: rat\<rceil> \<le> max_tokens" by (intro ceiling_le) simp
  ultimately have "\<lceil>fl FO (fl FO (of_nat (length (cx_rendered_context b))) / 4)\<rceil> \<le> max_tokens"
    by (simp only: of_int_of_nat_eq)
  then show ?thesis using retrieve_bounded(2) [OF assms(1)] assms(2) mt by auto
qed

theorem token_estimate_within_limit_witness:
  "\<exists>b. retrieve (sample_fs []) sample_ops sample_retriever ''f'' 1000 None = Inr b \<and> cx_estimated_tokens b \<le> 1000"
proof -
  obtain b where b: "retrieve (sample_fs []) sample_ops sample_retriever ''f'' 1000 None = Inr b"
    using sample_answers by blast
  have "cx_estimated_tokens b \<le> 1000"
    by (rule token_estimate_within_limit [OF b])
      (simp_all add: sample_retriever_def default_retrieval_config_def sample_ops_def)
  then show ?thesis using b by blast
qed

text \<open>
  Property C20.  The searches, the graph and the source reader cannot abort a query: whatever they answer or
  raise, a query with text and positive limits returns a bundle, as long as the symbol store answers.
\<close>

theorem retrieve_never_aborts:
  assumes "store_answers (rt_store r)" and "\<not> blank q" and "0 < max_tokens"
    and "post_init_retrieval_config (rt_config r) = Inr cfg" and "\<forall>m. max_results = Some m \<longrightarrow> 0 < m"
  shows "\<exists>b. retrieve F FO r q max_tokens max_results = Inr b"
proof (rule retrieve_answers [OF assms(1-3)])
  show "0 < search_limit (rt_config r)" by (rule valid_limits [OF assms(4)])
  show "0 < wanted_results r max_results"
    using valid_limits(4) [OF assms(4)] assms(5) by (simp add: wanted_results_def split: option.splits)
qed (use assms(5) in simp)

theorem retrieve_never_aborts_witness:
  "\<exists>b. retrieve (sample_fs []) sample_ops (sample_retriever\<lparr>rt_lexical := \<lambda>q. Inl KeyError, rt_vector := \<lambda>q. Inl OSError\<rparr>)
     ''f'' 1000 (Some 3) = Inr b"
  by (rule retrieve_never_aborts [where cfg = "default_retrieval_config sample_ops"])
    (use sample_store_answers sample_limits(3) in \<open>simp_all add: sample_retriever_def post_init_retrieval_config_def
        default_retrieval_config_def sample_ops_def\<close>)

text \<open>
  Property C19.  A failing search is a search that finds nothing, reported: replacing searches that raise by searches
  that return no hits changes neither the result (or the error) of a query nor anything in the bundle but its diagnostics,
  and every failure is named in the diagnostics of the bundle.
\<close>

theorem failing_search_isolated:
  assumes "degraded r r'"
  shows "rmap_result (\<lambda>b. b\<lparr>cx_diagnostics := []\<rparr>) (retrieve F FO r q max_tokens max_results)
      = rmap_result (\<lambda>b. b\<lparr>cx_diagnostics := []\<rparr>) (retrieve F FO r' q max_tokens max_results) \<and>
    (\<forall>b name run e. retrieve F FO r q max_tokens max_results = Inr b \<longrightarrow> (name, run) \<in> set (searches r) \<longrightarrow>
       run (query_of r q (wanted_results r max_results)) = Inl e \<longrightarrow>
       name @ '' search failed: '' @ exn_name e \<in> set (cx_diagnostics b))"
  using retrieve_degraded [OF assms, of F FO q max_tokens max_results] retrieve_report
  unfolding quiet_def by blast

theorem failing_search_isolated_witness:
  "\<exists>b. retrieve (sample_fs []) sample_ops sample_retriever ''f'' 1000 None = Inr b \<and>
     ''symbol search failed: OSError'' \<in> set (cx_diagnostics b)"
proof -
  obtain b where b: "retrieve (sample_fs []) sample_ops sample_retriever ''f'' 1000 None = Inr b"
    using sample_answers by blast
  have "degraded sample_retriever (sample_retriever\<lparr>rt_symbol := \<lambda>q. Inr []\<rparr>)"
    by (simp add: degraded_def same_but_failing_def sample_retriever_def)
  from failing_search_isolated [OF this] b
  have "name @ '' search failed: '' @ exn_name e \<in> set (cx_diagnostics b)"
    if "(name, run) \<in> set (searches sample_retriever)" "run (query_of sample_retriever ''f'' (wanted_results sample_retriever None)) = Inl e"
    for name run e using that by blast
  from this [of "''symbol''" "rt_symbol sample_retriever" OSError] b show ?thesis
    by (simp add: searches_def sample_retriever_def)
qed

lemma descending_append:
  assumes "sorted (rev (xs @ ys))"
  shows "sorted (rev xs)" and "x \<in> set xs \<Longrightarrow> y \<in> set ys \<Longrightarrow> y \<le> x"
  using assms by (auto simp: sorted_append)

text \<open>
  Property C21.  The fused candidates are the symbols with the highest reciprocal-rank scores: each has the score of the
  specification (the sum over the searches that returned it of weight / (k + first rank)), they are distinct and in
  descending order, there are at most as many as asked for, and a found symbol that is left out
  scores no more than any candidate, when the limit is reached.
\<close>

theorem fuse_top_scores:
  assumes "fuse FO r q diagnostics limit = Inr (cs, truncated, diagnostics')"
  shows "distinct (map fst cs) \<and> sorted (rev (map (\<lambda>(k, c). sh_score (ca_hit c)) cs)) \<and>
    (\<forall>(k, c) \<in> set cs. ca_key c = k \<and> found_symbol r (query_of r q limit) (ca_symbol c) \<and>
       rrf_score FO r (query_of r q limit) k = Some (sh_score (ca_hit c))) \<and>
    length cs \<le> nat (min (candidate_limit (rt_config r)) limit) \<and>
    (\<forall>k s. rrf_score FO r (query_of r q limit) k = Some s \<longrightarrow> k \<notin> fst ` set cs \<longrightarrow>
       length cs = nat (min (candidate_limit (rt_config r)) limit) \<and> (\<forall>(k', c) \<in> set cs. s \<le> sh_score (ca_hit c)))"
proof -
  define st where "st = fused_state FO r (query_of r q limit) diagnostics"
  define n where "n = nat (min (candidate_limit (rt_config r)) limit)"
  note cand = fuse_candidates [OF assms]
  have cs: "cs = map (\<lambda>k. (k, candidate_of st k)) (take n (ranked_ids st))"
    using fuse_result [OF assms] by (simp add: fuse_answer_def Let_def st_def n_def query_of_def)
  have scores: "map_of (fu_scores st) k = rrf_score FO r (query_of r q limit) k" for k
    unfolding st_def by (rule fused_state_scores)
  have dist: "distinct (map fst (fu_scores st))"
    using fused_state_ok [of r "query_of r q limit" FO diagnostics] by (simp add: fuse_ok_def st_def)
  define ranked where "ranked = sort_desc snd (fu_scores st)"
  have ids: "ranked_ids st = map fst ranked" by (simp add: ranked_ids_def ranked_def)
  have score_of: "map_of (fu_scores st) (fst x) = Some (snd x)" if "x \<in> set ranked" for x
    using that dist by (simp add: ranked_def)
  have score: "sh_score (ca_hit (candidate_of st (fst x))) = snd x" if "x \<in> set ranked" for x
    using score_of [OF that] by (simp add: candidate_of_def new_candidate_def)
  have cs_scores: "map (\<lambda>(k, c). sh_score (ca_hit c)) cs = map snd (take n ranked)"
    unfolding cs ids by (auto simp: take_map comp_def dest!: in_set_takeD intro!: score)
  have "sorted (rev (map snd ranked))" unfolding ranked_def by (rule sort_desc_sorted)
  then have desc: "sorted (rev (map snd (take n ranked) @ map snd (drop n ranked)))"
    by (simp only: map_append [symmetric] append_take_drop_id)
  then have "sorted (rev (map (\<lambda>(k, c). sh_score (ca_hit c)) cs))" unfolding cs_scores by (rule descending_append)
  moreover have "rrf_score FO r (query_of r q limit) k = Some (sh_score (ca_hit c))" if "(k, c) \<in> set cs" for k c
  proof -
    from that obtain x where "x \<in> set ranked" "k = fst x" "c = candidate_of st k"
      by (auto simp: cs ids dest!: in_set_takeD)
    then show ?thesis using score_of score scores by metis
  qed
  moreover have "length cs = n \<and> (\<forall>(k', c) \<in> set cs. s \<le> sh_score (ca_hit c))"
    if s: "rrf_score FO r (query_of r q limit) k = Some s" and out: "k \<notin> fst ` set cs" for k s
  proof -
    have "(k, s) \<in> set ranked" using s scores map_of_SomeD unfolding ranked_def set_sort_desc by metis
    moreover have "(k, s) \<notin> set (take n ranked)" using out by (force simp: cs ids take_map)
    ultimately have left: "(k, s) \<in> set (drop n ranked)" by (metis Un_iff append_take_drop_id set_append)
    then have "n < length ranked" by (metis drop_all empty_iff list.set(1) not_le_imp_less)
    moreover have "s \<le> x" if x: "x \<in> set (map (\<lambda>(k, c). sh_score (ca_hit c)) cs)" for x
      using x left unfolding cs_scores by (intro descending_append(2) [OF desc]) force+
    ultimately show ?thesis by (auto simp: cs ids)
  qed
  ultimately show ?thesis
    using cand unfolding n_def query_of_def by (intro conjI) auto
qed

definition sample_hop_count :: nat where
  "sample_hop_count =
     (case fuse sample_ops sample_retriever ''f'' [] 80 of
        Inl e \<Rightarrow> 0
      | Inr (cs, tr, d) \<Rightarrow> (case expand sample_ops sample_retriever (seeds_of sample_ops sample_retriever ''f'' cs)
          (fold mark_seed (seeds_of sample_ops sample_retriever ''f'' cs) cs) d of
            Inl e \<Rightarrow> 0 | Inr (cs', d') \<Rightarrow> length (concat (map (\<lambda>kc. ca_path (snd kc)) cs'))))"

lemma sample_hops: "sample_hop_count = 3"
  by code_simp

theorem fuse_top_scores_witness:
  "\<exists>cs tr d. fuse sample_ops sample_retriever ''f'' [] 80 = Inr (cs, tr, d) \<and> length cs = 1 \<and>
     sorted (rev (map (\<lambda>(k, c). sh_score (ca_hit c)) cs))"
proof -
  have "case fuse sample_ops sample_retriever ''f'' [] 80 of Inl e \<Rightarrow> False | Inr (cs, tr, d) \<Rightarrow> length cs = 1"
    by code_simp
  then obtain cs tr d where "fuse sample_ops sample_retriever ''f'' [] 80 = Inr (cs, tr, d)" "length cs = 1"
    by (auto split: sum.splits)
  then show ?thesis using fuse_top_scores by blast
qed


lemma sample_store_lawful: "store_lawful (rt_store sample_retriever) (drop 2)"
  by (simp add: sample_retriever_def sample_store_def store_lawful_def answers_def evidence_id_def sample_symbol_def)

lemma sample_config: "post_init_retrieval_config (rt_config sample_retriever) = Inr (rt_config sample_retriever)"
  by (simp add: sample_retriever_def post_init_retrieval_config_def default_retrieval_config_def sample_ops_def)

lemma sample_found: "found_symbol sample_retriever query s \<Longrightarrow> drop 2 (evidence_id s) = fact_id s"
  by (auto simp: found_symbol_def searches_def sample_retriever_def evidence_id_def sample_symbol_def)


end
