(* ===== verification/Pipeline.thy ===== *)
theory Pipeline
imports Prelude
begin

text \<open>
  The native ingestion pipeline (\<open>NativeClangIngestor.iter_configuration_batches\<close> of \<open>ingestion/native.py\<close>): analyzer
  workers, a coordinator thread and converters feed a generator that publishes one batch per configuration
  in input order.

  Every access to the shared state happens under one condition variable, so the state machine below has
  one step per critical section (a look and a resumption of the generator, its leaving), two for
  a turn of the coordinator's loop, and one each for the start and the end of a submitted callable.  A future is the
  value of \<open>concurrent.futures.Future\<close>; an executor runs a queued callable at any time.  \<open>'r\<close> is the registry an
  analysis returns and \<open>'b\<close> the batch of a conversion; what they compute is a
  parameter (\<open>analyses\<close>, \<open>conversions\<close>: the outcomes they may have), since both are modelled elsewhere.  \<open>pl_opened\<close> and \<open>pl_closed\<close>
  record which registries have been returned by an analysis and which have been closed.
\<close>

section \<open>State\<close>

datatype 'a future = Queued | Running | Finished "'a result" | Cancelled

definition future_done :: "'a future \<Rightarrow> bool" where
  "future_done f = (case f of Finished out \<Rightarrow> True | Cancelled \<Rightarrow> True | _ \<Rightarrow> False)"

definition cancel_future :: "'a future \<Rightarrow> 'a future" where
  "cancel_future f = (case f of Queued \<Rightarrow> Cancelled | _ \<Rightarrow> f)"

datatype ending = Completed | Raised exn | CancelledError | GeneratorExit

text \<open>
  The generator: waiting for a configuration, suspended at a \<open>yield\<close>, past the last \<open>yield\<close> or with an exception, in
  the outer \<open>finally\<close> block after its first critical section, ended.
\<close>

datatype consumer = Awaiting nat | Holding nat | Quitting ending | Leaving ending | Gone ending

record pipeline_config =
  pc_total :: nat
  pc_workers :: nat
  pc_spool_registries :: int
  pc_domain_batches :: nat
  pc_observed :: bool

text \<open>
  \<open>analysis_futures\<close> and \<open>analysis_slots\<close> have the same keys: one list of configuration index, slot and
  future.  \<open>pl_updates\<close> is the sequence of scheduler states sent to the observer.
\<close>

record ('r, 'b) pipeline =
  pl_analysis :: "(nat \<times> nat option \<times> 'r future) list"
  pl_available :: "nat list"
  pl_pending :: "(nat \<times> 'r) list"
  pl_conversion :: "(nat \<times> 'b future) list"
  pl_registries :: "(nat \<times> 'r) list"
  pl_next_configuration :: nat
  pl_next_conversion :: nat
  pl_held :: int
  pl_stopped :: bool
  pl_cancelled :: bool
  pl_failure :: "exn option"
  pl_coordinating :: bool
  pl_checking :: bool
  pl_consumer :: consumer
  pl_published :: "(nat \<times> 'b) list"
  pl_updates :: "(nat \<times> int) list"
  pl_opened :: "nat list"
  pl_closed :: "nat list"

definition initial_pipeline :: "pipeline_config \<Rightarrow> ('r, 'b) pipeline" where
  "initial_pipeline C = \<lparr>pl_analysis = [], pl_available = [0..<pc_workers C], pl_pending = [], pl_conversion = [],
     pl_registries = [], pl_next_configuration = 0, pl_next_conversion = 0, pl_held = 0, pl_stopped = False,
     pl_cancelled = False, pl_failure = None, pl_coordinating = True, pl_checking = False, pl_consumer = Awaiting 0, pl_published = [],
     pl_updates = [], pl_opened = [], pl_closed = []\<rparr>"

text \<open>\<open>telemetry.update_state\<close>, when there is an observer.\<close>

definition update_state :: "pipeline_config \<Rightarrow> ('r, 'b) pipeline \<Rightarrow> ('r, 'b) pipeline" where
  "update_state C st = (if pc_observed C
     then st\<lparr>pl_updates := pl_updates st @ [(pc_total C - pl_next_configuration st, pl_held st)]\<rparr> else st)"

section \<open>The coordinator\<close>

definition cancel_futures :: "('r, 'b) pipeline \<Rightarrow> ('r, 'b) pipeline" where
  "cancel_futures st = st\<lparr>pl_cancelled := True,
     pl_analysis := map (\<lambda>(i, slot, f). (i, slot, cancel_future f)) (pl_analysis st),
     pl_conversion := map (\<lambda>(i, f). (i, cancel_future f)) (pl_conversion st)\<rparr>"

text \<open>The common end of both failing branches: keep the cause, cancel what has not started, return.\<close>

definition abort_pipeline :: "exn \<Rightarrow> ('r, 'b) pipeline \<Rightarrow> ('r, 'b) pipeline" where
  "abort_pipeline e st = (cancel_futures st)\<lparr>pl_failure := Some e, pl_coordinating := False\<rparr>"

text \<open>The defensive handler around the loop.\<close>

definition crash_pipeline :: "exn \<Rightarrow> ('r, 'b) pipeline \<Rightarrow> ('r, 'b) pipeline" where
  "crash_pipeline e st = st\<lparr>pl_failure := (case pl_failure st of None \<Rightarrow> Some e | Some x \<Rightarrow> Some x), pl_cancelled := True,
     pl_coordinating := False\<rparr>"

definition collect_analysis ::
    "pipeline_config \<Rightarrow> nat \<times> nat option \<times> 'r future \<Rightarrow> ('r, 'b) pipeline \<times> (nat \<times> exn) list
      \<Rightarrow> ('r, 'b) pipeline \<times> (nat \<times> exn) list" where
  "collect_analysis C entry acc =
     (let (index, slot, f) = entry; (st0, failures) = acc;
          st = st0\<lparr>pl_analysis := filter (\<lambda>x. fst x \<noteq> index) (pl_analysis st0),
                  pl_available := (case slot of Some s \<Rightarrow> sort (pl_available st0 @ [s]) | None \<Rightarrow> pl_available st0)\<rparr> in
      case f of
        Finished (Inl e) \<Rightarrow> (st, failures @ [(index, e)])
      | Finished (Inr r) \<Rightarrow> (st\<lparr>pl_pending := AList.update index r (pl_pending st)\<rparr>, failures)
      | _ \<Rightarrow> (st, failures))"

definition completed_analysis :: "('r, 'b) pipeline \<Rightarrow> (nat \<times> nat option \<times> 'r future) list" where
  "completed_analysis st = sort_key fst (filter (\<lambda>(i, slot, f). future_done f) (pl_analysis st))"

definition conversion_failures :: "('r, 'b) pipeline \<Rightarrow> (nat \<times> exn) list" where
  "conversion_failures st = concat (map (\<lambda>(i, f). case f of Finished (Inl e) \<Rightarrow> [(i, e)] | _ \<Rightarrow> [])
     (sort_key fst (pl_conversion st)))"

text \<open>\<open>min(completed_failures, key=lambda item: item[0])[1]\<close>: the first of the smallest index.\<close>

definition earliest_failure :: "(nat \<times> exn) list \<Rightarrow> exn" where
  "earliest_failure failures = snd (hd (sort_key fst failures))"

text \<open>The bodies of the two submitting loops, and the loops.\<close>

definition start_conversion :: "'r \<Rightarrow> ('r, 'b) pipeline \<Rightarrow> ('r, 'b) pipeline" where
  "start_conversion r st =
     (let i = pl_next_conversion st in
      st\<lparr>pl_next_conversion := i + 1, pl_pending := filter (\<lambda>x. fst x \<noteq> i) (pl_pending st),
         pl_registries := AList.update i r (pl_registries st),
         pl_conversion := AList.update i Queued (pl_conversion st)\<rparr>)"

function start_conversions :: "pipeline_config \<Rightarrow> ('r, 'b) pipeline \<Rightarrow> ('r, 'b) pipeline" where
  "start_conversions C st =
     (case map_of (pl_pending st) (pl_next_conversion st) of
        None \<Rightarrow> st
      | Some r \<Rightarrow> if length (pl_conversion st) < pc_domain_batches C
                  then start_conversions C (start_conversion r st) else st)"
  by pat_completeness auto

lemma filter_key_shorter: "map_of d k = Some v \<Longrightarrow> length (filter (\<lambda>x. fst x \<noteq> k) d) < length d"
  by (rule length_filter_less [of "(k, v)"]) (auto dest: map_of_SomeD)

termination start_conversions
  by (relation "measure (\<lambda>(C, st). length (pl_pending st))") (auto simp: start_conversion_def Let_def filter_key_shorter)

declare start_conversions.simps [simp del]

definition schedule_analysis :: "pipeline_config \<Rightarrow> nat option \<Rightarrow> ('r, 'b) pipeline \<Rightarrow> ('r, 'b) pipeline" where
  "schedule_analysis C slot st =
     (let i = pl_next_configuration st;
          st1 = update_state C (st\<lparr>pl_available := (case slot of None \<Rightarrow> pl_available st | Some s \<Rightarrow> tl (pl_available st)),
            pl_next_configuration := i + 1, pl_held := pl_held st + 1\<rparr>) in
      st1\<lparr>pl_analysis := pl_analysis st1 @ [(i, slot, Queued)]\<rparr>)"

text \<open>With an observer the slot is \<open>available_slots.pop(0)\<close>, which would raise on an empty list.\<close>

function schedule_analyses :: "pipeline_config \<Rightarrow> ('r, 'b) pipeline \<Rightarrow> ('r, 'b) pipeline \<times> exn option" where
  "schedule_analyses C st =
     (if pl_next_configuration st < pc_total C \<and> length (pl_analysis st) < pc_workers C
         \<and> pl_held st < pc_spool_registries C
      then if \<not> pc_observed C then schedule_analyses C (schedule_analysis C None st)
           else (case pl_available st of
                   [] \<Rightarrow> (st, Some IndexError)
                 | slot # slots \<Rightarrow> schedule_analyses C (schedule_analysis C (Some slot) st))
      else (st, None))"
  by pat_completeness auto
termination
  by (relation "measure (\<lambda>(C, st). pc_total C - pl_next_configuration st)")
    (auto simp: update_state_def schedule_analysis_def Let_def)

declare schedule_analyses.simps [simp del]

definition pipeline_finished :: "pipeline_config \<Rightarrow> ('r, 'b) pipeline \<Rightarrow> bool" where
  "pipeline_finished C st \<longleftrightarrow> pl_next_configuration st = pc_total C \<and> pl_analysis st = [] \<and> pl_pending st = [] \<and>
     list_all (\<lambda>x. future_done (snd x)) (pl_conversion st)"

text \<open>
  One turn of \<open>coordinate\<close>, up to the test for the end; \<open>request\<close> is what \<open>request_failure\<close> returned.  The lock is kept until
  \<open>check_finished\<close> (\<open>pl_checking\<close>), but a callable may end in between.
\<close>

definition coordinate :: "pipeline_config \<Rightarrow> exn option \<Rightarrow> ('r, 'b) pipeline \<Rightarrow> ('r, 'b) pipeline" where
  "coordinate C request st =
     (if pl_stopped st then st\<lparr>pl_coordinating := False\<rparr>
      else case request of
        Some e \<Rightarrow> abort_pipeline e st
      | None \<Rightarrow>
          let (st1, failed) = fold (collect_analysis C) (completed_analysis st) (st, []);
              failures = failed @ conversion_failures st1 in
          if failures \<noteq> [] then abort_pipeline (earliest_failure failures) st1
          else case schedule_analyses C (start_conversions C st1) of
            (st3, Some e) \<Rightarrow> crash_pipeline e st3
          | (st3, None) \<Rightarrow> st3\<lparr>pl_checking := True\<rparr>)"

text \<open>The end of the turn: return when everything is done, wait otherwise.\<close>

definition check_finished :: "pipeline_config \<Rightarrow> ('r, 'b) pipeline \<Rightarrow> ('r, 'b) pipeline" where
  "check_finished C st = st\<lparr>pl_checking := False, pl_coordinating := \<not> pipeline_finished C st\<rparr>"

section \<open>The generator\<close>

text \<open>The first critical section of the outer \<open>finally\<close>.\<close>

definition leave_pipeline :: "ending \<Rightarrow> ('r, 'b) pipeline \<Rightarrow> ('r, 'b) pipeline" where
  "leave_pipeline e st = (cancel_futures st)\<lparr>pl_stopped := True, pl_consumer := Leaving e\<rparr>"

text \<open>One turn of the waiting loop for configuration \<open>i\<close>.\<close>

definition look :: "exn option \<Rightarrow> nat \<Rightarrow> ('r, 'b) pipeline \<Rightarrow> ('r, 'b) pipeline" where
  "look request i st =
     (case request of
        Some e \<Rightarrow> st\<lparr>pl_consumer := Quitting (Raised e)\<rparr>
      | None \<Rightarrow>
          (case pl_failure st of
             Some e \<Rightarrow> st\<lparr>pl_consumer := Quitting (Raised e)\<rparr>
           | None \<Rightarrow>
               (case map_of (pl_conversion st) i of
                  Some (Finished (Inr b)) \<Rightarrow> st\<lparr>pl_published := pl_published st @ [(i, b)], pl_consumer := Holding i\<rparr>
                | Some (Finished (Inl e)) \<Rightarrow> st\<lparr>pl_consumer := Quitting (Raised e)\<rparr>
                | Some Cancelled \<Rightarrow> st\<lparr>pl_consumer := Quitting CancelledError\<rparr>
                | _ \<Rightarrow> st)))"

text \<open>The inner \<open>finally\<close>, after the batch was consumed or the generator closed.\<close>

definition drop_batch :: "pipeline_config \<Rightarrow> nat \<Rightarrow> ('r, 'b) pipeline \<Rightarrow> ('r, 'b) pipeline" where
  "drop_batch C i st = update_state C (st\<lparr>pl_conversion := filter (\<lambda>x. fst x \<noteq> i) (pl_conversion st),
     pl_registries := filter (\<lambda>x. fst x \<noteq> i) (pl_registries st), pl_held := pl_held st - 1\<rparr>)"

text \<open>\<open>changed\<close>: the analyzer identity differs from the one read at the start.\<close>

definition resume :: "pipeline_config \<Rightarrow> bool \<Rightarrow> nat \<Rightarrow> ('r, 'b) pipeline \<Rightarrow> ('r, 'b) pipeline" where
  "resume C changed i st =
     (let st1 = drop_batch C i st in
      if i + 1 < pc_total C then st1\<lparr>pl_consumer := Awaiting (i + 1)\<rparr>
      else st1\<lparr>pl_consumer := Quitting
        (if changed then Raised (RuntimeError ''analyzer changed during indexing'') else Completed)\<rparr>)"

definition close_generator :: "pipeline_config \<Rightarrow> nat \<Rightarrow> ('r, 'b) pipeline \<Rightarrow> ('r, 'b) pipeline" where
  "close_generator C i st = (drop_batch C i st)\<lparr>pl_consumer := Quitting GeneratorExit\<rparr>"

text \<open>
  The end of the outer \<open>finally\<close>: the coordinator has been joined and the executors shut down, so
  every future is done; the registries still held are closed, and then the telemetry dispatcher, whose
  failure is raised unless there is another.
\<close>

definition returned_registry :: "nat \<times> nat option \<times> 'r future \<Rightarrow> nat list" where
  "returned_registry entry = (case entry of (i, slot, Finished (Inr r)) \<Rightarrow> [i] | _ \<Rightarrow> [])"

definition release_pipeline :: "ending \<Rightarrow> exn option \<Rightarrow> ('r, 'b) pipeline \<Rightarrow> ('r, 'b) pipeline" where
  "release_pipeline e telemetry_error st = st\<lparr>pl_closed := pl_closed st @ map fst (pl_pending st) @ map fst (pl_registries st) @
     concat (map returned_registry (pl_analysis st)),
     pl_consumer := Gone (case telemetry_error of None \<Rightarrow> e | Some t \<Rightarrow> if pl_failure st = None then Raised t else e)\<rparr>"

section \<open>The callables\<close>

definition set_analysis :: "nat \<Rightarrow> 'r future \<Rightarrow> ('r, 'b) pipeline \<Rightarrow> ('r, 'b) pipeline" where
  "set_analysis i f st = st\<lparr>pl_analysis := map (\<lambda>(j, slot, g). (j, slot, if j = i then f else g)) (pl_analysis st)\<rparr>"

text \<open>\<open>analyze\<close> returns an open registry or closes it and raises.\<close>

definition finish_analysis :: "nat \<Rightarrow> 'r result \<Rightarrow> ('r, 'b) pipeline \<Rightarrow> ('r, 'b) pipeline" where
  "finish_analysis i out st = (set_analysis i (Finished out) st)\<lparr>pl_opened := pl_opened st @
     (case out of Inl e \<Rightarrow> [] | Inr r \<Rightarrow> [i])\<rparr>"

definition set_conversion :: "nat \<Rightarrow> 'b future \<Rightarrow> ('r, 'b) pipeline \<Rightarrow> ('r, 'b) pipeline" where
  "set_conversion i f st = st\<lparr>pl_conversion := map (\<lambda>(j, g). (j, if j = i then f else g)) (pl_conversion st)\<rparr>"

text \<open>\<open>convert\<close> closes its registry whatever happens.\<close>

definition finish_conversion :: "nat \<Rightarrow> 'b result \<Rightarrow> ('r, 'b) pipeline \<Rightarrow> ('r, 'b) pipeline" where
  "finish_conversion i out st = (set_conversion i (Finished out) st)\<lparr>pl_closed := pl_closed st @ [i]\<rparr>"

section \<open>The step relation\<close>

record ('r, 'b) callables =
  analyses :: "nat \<Rightarrow> 'r result \<Rightarrow> bool"
  conversions :: "nat \<Rightarrow> 'r \<Rightarrow> 'b result \<Rightarrow> bool"
  request_failures :: "exn \<Rightarrow> bool"

definition may_request :: "('r, 'b) callables \<Rightarrow> exn option \<Rightarrow> bool" where
  "may_request P request = (case request of None \<Rightarrow> True | Some e \<Rightarrow> request_failures P e)"

inductive pipeline_step ::
    "pipeline_config \<Rightarrow> ('r, 'b) callables \<Rightarrow> ('r, 'b) pipeline \<Rightarrow> ('r, 'b) pipeline \<Rightarrow> bool" for C P where
  Coordinate: "pl_coordinating st \<Longrightarrow> \<not> pl_checking st \<Longrightarrow> may_request P request \<Longrightarrow> pipeline_step C P st (coordinate C request st)"
| Check: "pl_checking st \<Longrightarrow> pipeline_step C P st (check_finished C st)"
| Look: "pl_consumer st = Awaiting i \<Longrightarrow> \<not> pl_checking st \<Longrightarrow> may_request P request \<Longrightarrow> pipeline_step C P st (look request i st)"
| Resume: "pl_consumer st = Holding i \<Longrightarrow> \<not> pl_checking st \<Longrightarrow> pipeline_step C P st (resume C changed i st)"
| Close: "pl_consumer st = Holding i \<Longrightarrow> \<not> pl_checking st \<Longrightarrow> pipeline_step C P st (close_generator C i st)"
| Quit: "pl_consumer st = Quitting e \<Longrightarrow> \<not> pl_checking st \<Longrightarrow> pipeline_step C P st (leave_pipeline e st)"
| Release: "pl_consumer st = Leaving e \<Longrightarrow> \<not> pl_coordinating st \<Longrightarrow>
    list_all (\<lambda>x. future_done (snd (snd x))) (pl_analysis st) \<Longrightarrow> list_all (\<lambda>x. future_done (snd x)) (pl_conversion st) \<Longrightarrow>
    (telemetry_error \<noteq> None \<longrightarrow> pc_observed C) \<Longrightarrow> may_request P telemetry_error \<Longrightarrow>
    pipeline_step C P st (release_pipeline e telemetry_error st)"
| Start_analysis: "(i, slot, Queued) \<in> set (pl_analysis st) \<Longrightarrow> pipeline_step C P st (set_analysis i Running st)"
| Finish_analysis: "(i, slot, Running) \<in> set (pl_analysis st) \<Longrightarrow> analyses P i out \<Longrightarrow>
    pipeline_step C P st (finish_analysis i out st)"
| Start_conversion: "(i, Queued) \<in> set (pl_conversion st) \<Longrightarrow> pipeline_step C P st (set_conversion i Running st)"
| Finish_conversion: "(i, Running) \<in> set (pl_conversion st) \<Longrightarrow> map_of (pl_registries st) i = Some r \<Longrightarrow>
    conversions P i r out \<Longrightarrow> pipeline_step C P st (finish_conversion i out st)"

inductive pipeline_reachable ::
    "pipeline_config \<Rightarrow> ('r, 'b) callables \<Rightarrow> ('r, 'b) pipeline \<Rightarrow> bool" for C P where
  Initial: "pipeline_reachable C P (initial_pipeline C)"
| Step: "pipeline_reachable C P st \<Longrightarrow> pipeline_step C P st st' \<Longrightarrow> pipeline_reachable C P st'"

end
