(* ===== verification/PipelineInv.thy ===== *)
theory PipelineInv
imports Pipeline "HOL-Library.Multiset"
begin

text \<open>
  The invariant of the native ingestion pipeline: where each configuration is, the bounds, the slots, the
  flags, what was computed and which registries are open; and that every step keeps it.
\<close>

section \<open>The invariant\<close>

text \<open>How many batches the consumer has given back.\<close>

definition popped_by :: "consumer \<Rightarrow> nat \<Rightarrow> nat" where
  "popped_by c published = (case c of Holding i \<Rightarrow> i | _ \<Rightarrow> published)"

definition popped :: "('r, 'b) pipeline \<Rightarrow> nat" where
  "popped st = popped_by (pl_consumer st) (length (pl_published st))"

definition consumer_at :: "nat \<Rightarrow> consumer \<Rightarrow> nat \<Rightarrow> bool" where
  "consumer_at n c published =
     (case c of
        Awaiting i \<Rightarrow> published = i \<and> i < n
      | Holding i \<Rightarrow> published = Suc i
      | Quitting e \<Rightarrow> e = Completed \<longrightarrow> published = n
      | Leaving e \<Rightarrow> e = Completed \<longrightarrow> published = n
      | Gone e \<Rightarrow> e = Completed \<longrightarrow> published = n)"

definition consumer_ok :: "pipeline_config \<Rightarrow> ('r, 'b) pipeline \<Rightarrow> bool" where
  "consumer_ok C st \<longleftrightarrow> map fst (pl_published st) = [0..<length (pl_published st)] \<and>
     consumer_at (pc_total C) (pl_consumer st) (length (pl_published st))"

text \<open>
  Configurations below \<open>popped\<close> are done, those below \<open>next_conversion\<close> are being converted, those
  below \<open>next_configuration\<close> are pending, being analyzed or, for \<open>lost\<close>, just found to have failed.
\<close>

definition placed :: "nat list \<Rightarrow> ('r, 'b) pipeline \<Rightarrow> nat list" where
  "placed lost st = map fst (pl_pending st) @ map fst (pl_analysis st) @ lost"

definition places_ok :: "pipeline_config \<Rightarrow> nat list \<Rightarrow> ('r, 'b) pipeline \<Rightarrow> bool" where
  "places_ok C lost st \<longleftrightarrow>
     popped st \<le> pl_next_conversion st \<and> length (pl_published st) \<le> pl_next_conversion st \<and>
     pl_next_conversion st \<le> pl_next_configuration st \<and>
     pl_next_configuration st \<le> pc_total C \<and>
     map fst (pl_conversion st) = [popped st..<pl_next_conversion st] \<and>
     map fst (pl_registries st) = [popped st..<pl_next_conversion st] \<and>
     distinct (placed lost st) \<and> set (placed lost st) \<subseteq> {pl_next_conversion st..<pl_next_configuration st} \<and>
     (\<not> pl_cancelled st \<longrightarrow> set (placed lost st) = {pl_next_conversion st..<pl_next_configuration st})"

definition bounds_ok :: "pipeline_config \<Rightarrow> ('r, 'b) pipeline \<Rightarrow> bool" where
  "bounds_ok C st \<longleftrightarrow> pl_held st = int (pl_next_configuration st) - int (popped st) \<and>
     pl_held st \<le> pc_spool_registries C \<and> length (pl_conversion st) \<le> pc_domain_batches C \<and>
     length (pl_analysis st) \<le> pc_workers C"

definition used_slots :: "(nat \<times> nat option \<times> 'r future) list \<Rightarrow> nat list" where
  "used_slots an = concat (map (\<lambda>(i, slot, f). case slot of None \<Rightarrow> [] | Some s \<Rightarrow> [s]) an)"

definition slots_ok :: "pipeline_config \<Rightarrow> ('r, 'b) pipeline \<Rightarrow> bool" where
  "slots_ok C st \<longleftrightarrow> mset (pl_available st) + mset (used_slots (pl_analysis st)) = mset [0..<pc_workers C] \<and>
     (\<forall>(i, slot, f) \<in> set (pl_analysis st). (slot \<noteq> None) = pc_observed C)"

definition leaving :: "consumer \<Rightarrow> bool" where
  "leaving c = (case c of Leaving e \<Rightarrow> True | Gone e \<Rightarrow> True | _ \<Rightarrow> False)"

definition flags_ok :: "pipeline_config \<Rightarrow> ('r, 'b) pipeline \<Rightarrow> bool" where
  "flags_ok C st \<longleftrightarrow> (pl_cancelled st \<longleftrightarrow> pl_failure st \<noteq> None \<or> pl_stopped st) \<and>
     (pl_stopped st \<longleftrightarrow> leaving (pl_consumer st)) \<and>
     (pl_coordinating st \<longrightarrow> pl_failure st = None) \<and>
     (\<not> pl_cancelled st \<longrightarrow> (\<forall>(i, slot, f) \<in> set (pl_analysis st). f \<noteq> Cancelled) \<and>
        (\<forall>(i, f) \<in> set (pl_conversion st). f \<noteq> Cancelled)) \<and>
     (pl_checking st \<longrightarrow> pl_coordinating st \<and> \<not> pl_cancelled st) \<and>
     (\<forall>e. pl_consumer st = Gone e \<longrightarrow> \<not> pl_coordinating st \<and> list_all (\<lambda>x. future_done (snd (snd x))) (pl_analysis st)) \<and>
     (\<not> pl_coordinating st \<longrightarrow> \<not> pl_cancelled st \<longrightarrow> pipeline_finished C st)"

definition known_failure :: "('r, 'b) callables \<Rightarrow> exn \<Rightarrow> bool" where
  "known_failure P e \<longleftrightarrow> request_failures P e \<or> (\<exists>i. analyses P i (Inl e)) \<or>
     (\<exists>i r. analyses P i (Inr r) \<and> conversions P i r (Inl e))"

text \<open>
  What the generator may end with.  \<open>CancelledError\<close>, the cancellation of the future it waits for, is
  not among it: the failure that made the coordinator cancel is raised first.
\<close>

definition ending_of :: "consumer \<Rightarrow> ending option" where
  "ending_of c = (case c of Quitting e \<Rightarrow> Some e | Leaving e \<Rightarrow> Some e | Gone e \<Rightarrow> Some e | _ \<Rightarrow> None)"

definition known_ending :: "('r, 'b) callables \<Rightarrow> ending \<Rightarrow> bool" where
  "known_ending P e = (case e of Raised x \<Rightarrow> known_failure P x \<or> x = RuntimeError ''analyzer changed during indexing''
     | CancelledError \<Rightarrow> False | _ \<Rightarrow> True)"

definition genuine_ok :: "('r, 'b) callables \<Rightarrow> (nat \<times> exn) list \<Rightarrow> ('r, 'b) pipeline \<Rightarrow> bool" where
  "genuine_ok P failures st \<longleftrightarrow>
     (\<forall>(i, slot, f) \<in> set (pl_analysis st). \<forall>out. f = Finished out \<longrightarrow> analyses P i out) \<and>
     (\<forall>(i, r) \<in> set (pl_pending st). analyses P i (Inr r)) \<and>
     (\<forall>(i, r) \<in> set (pl_registries st). analyses P i (Inr r)) \<and>
     (\<forall>(i, f) \<in> set (pl_conversion st). \<forall>out. f = Finished out \<longrightarrow> (\<exists>r. analyses P i (Inr r) \<and> conversions P i r out)) \<and>
     (\<forall>(i, b) \<in> set (pl_published st). \<exists>r. analyses P i (Inr r) \<and> conversions P i r (Inr b)) \<and>
     (\<forall>e. pl_failure st = Some e \<longrightarrow> known_failure P e) \<and>
     (\<forall>e. ending_of (pl_consumer st) = Some e \<longrightarrow> known_ending P e) \<and> (\<forall>(i, e) \<in> set failures. analyses P i (Inl e))"

definition held_registries :: "('r, 'b) pipeline \<Rightarrow> nat set" where
  "held_registries st = set (map fst (pl_pending st)) \<union> set (map fst (pl_registries st)) \<union>
     {i. \<exists>slot r. (i, slot, Finished (Inr r)) \<in> set (pl_analysis st)}"

lemma set_returned: "set (concat (map returned_registry an)) = {i. \<exists>slot r. (i, slot, Finished (Inr r)) \<in> set an}"
  by (induction an) (auto simp: returned_registry_def split: future.splits sum.splits)

definition registries_ok :: "('r, 'b) pipeline \<Rightarrow> bool" where
  "registries_ok st \<longleftrightarrow> set (pl_opened st) \<subseteq> set (pl_closed st) \<union> held_registries st \<and>
     (\<forall>(i, f) \<in> set (pl_conversion st). \<forall>out. f = Finished out \<longrightarrow> i \<in> set (pl_closed st)) \<and>
     (\<forall>i. pl_consumer st = Holding i \<longrightarrow> i \<in> set (pl_closed st)) \<and>
     (\<forall>e. pl_consumer st = Gone e \<longrightarrow> set (pl_opened st) \<subseteq> set (pl_closed st))"

definition pipeline_inv ::
    "pipeline_config \<Rightarrow> ('r, 'b) callables \<Rightarrow> (nat \<times> exn) list \<Rightarrow> ('r, 'b) pipeline \<Rightarrow> bool" where
  "pipeline_inv C P failures st \<longleftrightarrow> consumer_ok C st \<and> places_ok C (map fst failures) st \<and> bounds_ok C st \<and>
     slots_ok C st \<and> genuine_ok P failures st \<and> registries_ok st"

lemmas parts = consumer_ok_def popped_def places_ok_def placed_def bounds_ok_def

section \<open>A rule for one turn of the coordinator\<close>

lemma completed_analysis_set:
  "x \<in> set (completed_analysis st) \<longleftrightarrow> x \<in> set (pl_analysis st) \<and> future_done (snd (snd x))"
  by (auto simp: completed_analysis_def)

lemma collect_analysis_keeps:
  "pl_analysis (fst (collect_analysis C x acc)) = filter (\<lambda>y. fst y \<noteq> fst x) (pl_analysis (fst acc))"
  by (auto simp: collect_analysis_def Let_def split_beta split: future.splits sum.splits)

lemma collect_fold_rule:
  assumes "P fs st" and "\<And>x. x \<in> set xs \<Longrightarrow> x \<in> set (pl_analysis st) \<and> future_done (snd (snd x))" and "distinct (map fst xs)"
    and step: "\<And>fs st x. P fs st \<Longrightarrow> x \<in> set (pl_analysis st) \<Longrightarrow> future_done (snd (snd x)) \<Longrightarrow>
      P (snd (collect_analysis C x (st, fs))) (fst (collect_analysis C x (st, fs)))"
  shows "P (snd (fold (collect_analysis C) xs (st, fs))) (fst (fold (collect_analysis C) xs (st, fs)))"
  using assms(1-3)
proof (induction xs arbitrary: fs st)
  case (Cons x xs)
  obtain st1 fs1 where c: "collect_analysis C x (st, fs) = (st1, fs1)" by fastforce
  have "P fs1 st1" using step [OF Cons.prems(1), of x] Cons.prems(2) c by simp
  moreover have "pl_analysis st1 = filter (\<lambda>y. fst y \<noteq> fst x) (pl_analysis st)"
    using collect_analysis_keeps [of C x "(st, fs)"] c by simp
  then have "y \<in> set (pl_analysis st1) \<and> future_done (snd (snd y))" if y: "y \<in> set xs" for y
  proof -
    have "fst y \<noteq> fst x" using y Cons.prems(3) by (metis distinct.simps(2) image_eqI list.simps(9) set_map)
    then show ?thesis using y Cons.prems(2) [of y] \<open>pl_analysis st1 = _\<close> by simp
  qed
  ultimately show ?case using Cons.IH [of fs1 st1] Cons.prems(3) c by simp
qed simp

lemma start_conversions_rule:
  assumes "P st"
    and step: "\<And>st r. P st \<Longrightarrow> map_of (pl_pending st) (pl_next_conversion st) = Some r \<Longrightarrow>
      length (pl_conversion st) < pc_domain_batches C \<Longrightarrow> P (start_conversion r st)"
  shows "P (start_conversions C st)"
  using assms(1)
proof (induction "length (pl_pending st)" arbitrary: st rule: less_induct)
  case less
  show ?case
  proof (cases "map_of (pl_pending st) (pl_next_conversion st)")
    case None
    then show ?thesis using less.prems by (subst start_conversions.simps) simp
  next
    case (Some r)
    then have "length (pl_pending (start_conversion r st)) < length (pl_pending st)"
      by (simp add: start_conversion_def Let_def filter_key_shorter)
    from less.hyps [OF this] step [OF less.prems Some] less.prems Some show ?thesis
      by (subst start_conversions.simps) simp
  qed
qed

lemma schedule_analyses_rule:
  assumes "P st" and "schedule_analyses C st = (st', crash)"
    and step: "\<And>st slot. P st \<Longrightarrow> pl_next_configuration st < pc_total C \<Longrightarrow> length (pl_analysis st) < pc_workers C \<Longrightarrow>
      pl_held st < pc_spool_registries C \<Longrightarrow>
      (if pc_observed C then \<exists>s slots. slot = Some s \<and> pl_available st = s # slots else slot = None) \<Longrightarrow>
      P (schedule_analysis C slot st)"
  shows "P st' \<and> (\<forall>e. crash = Some e \<longrightarrow> e = IndexError \<and> pc_observed C \<and> pl_available st' = [] \<and>
    length (pl_analysis st') < pc_workers C)"
  using assms(1,2)
proof (induction "pc_total C - pl_next_configuration st" arbitrary: st rule: less_induct)
  case less
  show ?case
  proof (cases "pl_next_configuration st < pc_total C \<and> length (pl_analysis st) < pc_workers C
      \<and> pl_held st < pc_spool_registries C")
    case False
    then have "schedule_analyses C st = (st, None)" by (subst schedule_analyses.simps) (simp only: if_False)
    then show ?thesis using less.prems by simp
  next
    case guard: True
    then have shorter: "pc_total C - pl_next_configuration (schedule_analysis C slot st) < pc_total C - pl_next_configuration st" for slot
      by (auto simp: schedule_analysis_def update_state_def Let_def)
    consider "\<not> pc_observed C" | "pc_observed C" "pl_available st = []"
      | s slots where "pc_observed C" "pl_available st = s # slots"
      by (cases "pc_observed C"; cases "pl_available st") simp_all
    then show ?thesis
    proof cases
      case 1
      then have "schedule_analyses C st = schedule_analyses C (schedule_analysis C None st)"
        using guard by (subst schedule_analyses.simps) simp
      moreover have "P (schedule_analysis C None st)" by (rule step [OF less.prems(1)]) (use guard 1 in simp_all)
      ultimately show ?thesis using less.hyps [OF shorter, of None] less.prems(2) by simp
    next
      case 2
      then have "schedule_analyses C st = (st, Some IndexError)" using guard by (subst schedule_analyses.simps) simp
      then show ?thesis using less.prems guard 2 by simp
    next
      case (3 s slots)
      then have "schedule_analyses C st = schedule_analyses C (schedule_analysis C (Some s) st)"
        using guard by (subst schedule_analyses.simps) simp
      moreover have "P (schedule_analysis C (Some s) st)" by (rule step [OF less.prems(1)]) (use guard 3 in simp_all)
      ultimately show ?thesis using less.hyps [OF shorter, of "Some s"] less.prems(2) by simp
    qed
  qed
qed

lemma distinct_map_sort_key: "distinct (map f (sort_key g xs)) \<longleftrightarrow> distinct (map f xs)"
  by (rule mset_eq_imp_distinct_iff) simp

lemma coordinate_rule:
  assumes start: "P [] st" and go: "\<not> pl_stopped st"
    and dist: "\<And>fs st. P fs st \<Longrightarrow> distinct (map fst (pl_analysis st))"
    and abort: "\<And>fs st e. P fs st \<Longrightarrow> request = Some e \<or> e \<in> snd ` set fs \<or> (\<exists>i. (i, Finished (Inl e)) \<in> set (pl_conversion st)) \<Longrightarrow>
      Q (abort_pipeline e st)"
    and collect: "\<And>fs st x. P fs st \<Longrightarrow> x \<in> set (pl_analysis st) \<Longrightarrow> future_done (snd (snd x)) \<Longrightarrow>
      P (snd (collect_analysis C x (st, fs))) (fst (collect_analysis C x (st, fs)))"
    and convert: "\<And>st r. P [] st \<Longrightarrow> map_of (pl_pending st) (pl_next_conversion st) = Some r \<Longrightarrow>
      length (pl_conversion st) < pc_domain_batches C \<Longrightarrow> P [] (start_conversion r st)"
    and schedule: "\<And>st slot. P [] st \<Longrightarrow> pl_next_configuration st < pc_total C \<Longrightarrow> length (pl_analysis st) < pc_workers C \<Longrightarrow>
      pl_held st < pc_spool_registries C \<Longrightarrow>
      (if pc_observed C then \<exists>s slots. slot = Some s \<and> pl_available st = s # slots else slot = None) \<Longrightarrow>
      P [] (schedule_analysis C slot st)"
    and crash: "\<And>st. P [] st \<Longrightarrow> pc_observed C \<Longrightarrow> pl_available st = [] \<Longrightarrow> length (pl_analysis st) < pc_workers C \<Longrightarrow>
      Q (crash_pipeline IndexError st)"
    and wait: "\<And>st. P [] st \<Longrightarrow> Q (st\<lparr>pl_checking := True\<rparr>)"
  shows "Q (coordinate C request st)"
proof (cases request)
  case (Some e)
  then show ?thesis using go abort [OF start, of e] by (simp add: coordinate_def)
next
  case None
  obtain st1 failed where c: "fold (collect_analysis C) (completed_analysis st) (st, []) = (st1, failed)" by fastforce
  have "distinct (map fst (completed_analysis st))"
    using dist [OF start] by (simp add: completed_analysis_def distinct_map_filter distinct_map_sort_key)
  then have collected: "P failed st1"
    using collect_fold_rule [of P "[]" st "completed_analysis st" C] start collect c by (simp add: completed_analysis_set)
  let ?failures = "failed @ conversion_failures st1"
  show ?thesis
  proof (cases "?failures = []")
    case False
    then have "hd (sort_key fst ?failures) \<in> set ?failures" by (metis hd_in_set set_sort sort_key_Nil_iff)
    then have "earliest_failure ?failures \<in> snd ` set failed \<or> (\<exists>i. (i, Finished (Inl (earliest_failure ?failures))) \<in> set (pl_conversion st1))"
      by (force simp: earliest_failure_def conversion_failures_def split: future.splits sum.splits)
    then have "Q (abort_pipeline (earliest_failure ?failures) st1)" using abort [OF collected] by blast
    then show ?thesis using go None c False by (simp add: coordinate_def)
  next
    case True
    then have "P [] st1" using collected by simp
    then have "P [] (start_conversions C st1)" by (rule start_conversions_rule) (rule convert)
    moreover obtain st3 x where s: "schedule_analyses C (start_conversions C st1) = (st3, x)" by fastforce
    ultimately have st3: "P [] st3 \<and> (\<forall>e. x = Some e \<longrightarrow> e = IndexError \<and> pc_observed C \<and> pl_available st3 = [] \<and>
        length (pl_analysis st3) < pc_workers C)"
      by (rule schedule_analyses_rule) (rule schedule)
    then show ?thesis using go None c True s crash [of st3] wait [of st3]
      by (cases x) (simp_all add: coordinate_def)
  qed
qed

section \<open>The operations of the coordinator\<close>

definition scanning :: "('r, 'b) pipeline \<Rightarrow> bool" where
  "scanning st \<longleftrightarrow> pl_coordinating st \<and> \<not> pl_checking st \<and> \<not> pl_stopped st \<and> \<not> pl_cancelled st \<and> pl_failure st = None \<and>
     \<not> leaving (pl_consumer st) \<and> (\<forall>(i, slot, f) \<in> set (pl_analysis st). f \<noteq> Cancelled) \<and>
     (\<forall>(i, f) \<in> set (pl_conversion st). f \<noteq> Cancelled)"

lemma used_slots_remove:
  assumes "distinct (map fst an)" and "(i, slot, f) \<in> set an"
  shows "mset (used_slots an) = mset (case slot of None \<Rightarrow> [] | Some s \<Rightarrow> [s]) + mset (used_slots (filter (\<lambda>y. fst y \<noteq> i) an))"
  using assms
proof (induction an)
  case (Cons x an)
  show ?case
  proof (cases "fst x = i")
    case True
    then have "i \<notin> fst ` set an" using Cons.prems(1) by simp
    then have "filter (\<lambda>y. fst y \<noteq> i) an = an" "(i, slot, f) \<notin> set an" by (force simp: filter_id_conv)+
    moreover from this have "x = (i, slot, f)" using Cons.prems(2) by simp
    ultimately show ?thesis by (simp add: used_slots_def)
  next
    case False
    then have "(i, slot, f) \<in> set an" using Cons.prems(2) by auto
    with Cons False show ?thesis by (auto simp: used_slots_def)
  qed
qed simp

lemma filter_keys: "map fst (filter (\<lambda>y. fst y \<noteq> i) xs) = filter (\<lambda>k. k \<noteq> i) (map fst xs)"
  by (induction xs) auto

lemma pairs_update_subset: "set (AList.update k v d) \<subseteq> insert (k, v) (set d)"
  by (induction d) auto

text \<open>The state after one collected analysis, with the failure it reports.\<close>

definition without_analysis :: "nat \<Rightarrow> nat option \<Rightarrow> ('r, 'b) pipeline \<Rightarrow> ('r, 'b) pipeline" where
  "without_analysis i slot st = st\<lparr>pl_analysis := filter (\<lambda>y. fst y \<noteq> i) (pl_analysis st),
     pl_available := (case slot of Some s \<Rightarrow> sort (pl_available st @ [s]) | None \<Rightarrow> pl_available st)\<rparr>"

lemma collect_cases:
  "collect_analysis C (i, slot, Finished (Inl e)) (st, fs) = (without_analysis i slot st, fs @ [(i, e)])"
  "collect_analysis C (i, slot, Finished (Inr r)) (st, fs)
     = ((without_analysis i slot st)\<lparr>pl_pending := AList.update i r (pl_pending st)\<rparr>, fs)"
  by (simp_all add: collect_analysis_def without_analysis_def Let_def)

lemma without_analysis_simps [simp]:
  "pl_analysis (without_analysis i slot st) = filter (\<lambda>y. fst y \<noteq> i) (pl_analysis st)"
  "pl_pending (without_analysis i slot st) = pl_pending st" "pl_conversion (without_analysis i slot st) = pl_conversion st"
  "pl_registries (without_analysis i slot st) = pl_registries st" "pl_published (without_analysis i slot st) = pl_published st"
  "pl_consumer (without_analysis i slot st) = pl_consumer st" "popped (without_analysis i slot st) = popped st"
  "pl_next_configuration (without_analysis i slot st) = pl_next_configuration st"
  "pl_next_conversion (without_analysis i slot st) = pl_next_conversion st" "pl_held (without_analysis i slot st) = pl_held st"
  "pl_cancelled (without_analysis i slot st) = pl_cancelled st" "pl_stopped (without_analysis i slot st) = pl_stopped st"
  "pl_checking (without_analysis i slot st) = pl_checking st"
  "pl_failure (without_analysis i slot st) = pl_failure st" "pl_coordinating (without_analysis i slot st) = pl_coordinating st"
  "pl_opened (without_analysis i slot st) = pl_opened st" "pl_closed (without_analysis i slot st) = pl_closed st"
  by (simp_all add: without_analysis_def popped_def)

lemma popped_updates [simp]:
  "popped (st\<lparr>pl_pending := p\<rparr>) = popped st" "popped (st\<lparr>pl_analysis := a\<rparr>) = popped st"
  "popped (st\<lparr>pl_conversion := c\<rparr>) = popped st" "popped (st\<lparr>pl_coordinating := b\<rparr>) = popped st"
  "popped (st\<lparr>pl_closed := cl\<rparr>) = popped st" "popped (st\<lparr>pl_opened := op\<rparr>) = popped st"
  "popped (st\<lparr>pl_updates := u\<rparr>) = popped st" "popped (st\<lparr>pl_checking := b\<rparr>) = popped st"
  by (simp_all add: popped_def)

lemma slots_without:
  assumes "slots_ok C st" and "distinct (map fst (pl_analysis st))" and "(i, slot, f) \<in> set (pl_analysis st)"
  shows "slots_ok C (without_analysis i slot st)"
  using assms used_slots_remove [OF assms(2,3)]
  by (auto simp: slots_ok_def without_analysis_def ac_simps split: option.splits)

end
