(* ===== verification/PipelineStep.thy ===== *)
theory PipelineStep
imports PipelineInv
begin

lemma in_update: "(a, b) \<in> set (AList.update k v d) \<Longrightarrow> a = k \<and> b = v \<or> (a, b) \<in> set d"
  using pairs_update_subset [of k v d] by blast

lemma collect_inv:
  assumes inv: "pipeline_inv C P fs st" and scan: "scanning st"
    and x: "x \<in> set (pl_analysis st)" and fin: "future_done (snd (snd x))"
  shows "pipeline_inv C P (snd (collect_analysis C x (st, fs))) (fst (collect_analysis C x (st, fs))) \<and>
    scanning (fst (collect_analysis C x (st, fs)))"
proof -
  obtain i slot f where xf: "x = (i, slot, f)" by (metis prod_cases3)
  then obtain out where out: "f = Finished out" using scan x fin by (cases f) (auto simp: scanning_def future_done_def)
  have mem: "(i, slot, Finished out) \<in> set (pl_analysis st)" using x xf out by simp
  have places: "places_ok C (map fst fs) st" and bounds: "bounds_ok C st" and slots: "slots_ok C st"
    and gen: "genuine_ok P fs st" and reg: "registries_ok st" and cons: "consumer_ok C st"
    using inv by (simp_all add: pipeline_inv_def)
  have dist: "distinct (map fst (pl_pending st) @ map fst (pl_analysis st) @ map fst fs)"
    using places by (simp add: places_ok_def placed_def)
  have i: "i \<in> set (map fst (pl_analysis st))" using mem by force
  then have fresh: "i \<notin> set (map fst (pl_pending st))" "i \<notin> set (map fst fs)" using dist by auto
  have run: "analyses P i out" using gen mem by (auto simp: genuine_ok_def)
  have only: "(i, a) \<in> set (pl_analysis st) \<Longrightarrow> a = (slot, Finished out)" for a
    using dist mem by (auto intro: eq_key_imp_eq_value)
  have slots': "slots_ok C (without_analysis i slot st)" using slots_without [OF slots _ mem] dist by simp
  have shorter: "length (filter (\<lambda>y. fst y \<noteq> i) (pl_analysis st)) \<le> pc_workers C"
    using bounds le_trans [OF length_filter_le] by (auto simp: bounds_ok_def)
  show ?thesis
  proof (cases out)
    case (Inl e)
    let ?st = "without_analysis i slot st"
    have "consumer_ok C ?st" using cons by (simp add: consumer_ok_def)
    moreover have "places_ok C (map fst (fs @ [(i, e)])) ?st"
      using places i fresh unfolding places_ok_def placed_def by (auto simp: filter_keys)
    moreover have "bounds_ok C ?st" using bounds shorter by (simp add: bounds_ok_def)
    moreover have "genuine_ok P (fs @ [(i, e)]) ?st" using gen run Inl unfolding genuine_ok_def by auto
    moreover have "held_registries ?st = held_registries st" using only Inl by (auto simp: held_registries_def)
    then have "registries_ok ?st" using reg by (simp add: registries_ok_def)
    moreover have "scanning ?st" using scan unfolding scanning_def by auto
    ultimately show ?thesis using slots' by (simp add: xf out Inl collect_cases pipeline_inv_def)
  next
    case (Inr r)
    let ?st = "(without_analysis i slot st)\<lparr>pl_pending := AList.update i r (pl_pending st)\<rparr>"
    have keys: "map fst (AList.update i r (pl_pending st)) = map fst (pl_pending st) @ [i]"
      using fresh by (simp add: update_keys)
    have "consumer_ok C ?st" using cons by (simp add: consumer_ok_def)
    moreover have "places_ok C (map fst fs) ?st"
      using places i fresh unfolding places_ok_def placed_def by (auto simp: filter_keys keys)
    moreover have "bounds_ok C ?st" using bounds shorter by (simp add: bounds_ok_def)
    moreover have "genuine_ok P fs ?st"
      using gen run Inr unfolding genuine_ok_def by (auto dest!: in_update)
    moreover have "held_registries ?st = held_registries st" using only mem Inr by (auto simp: held_registries_def keys)
    then have "registries_ok ?st" using reg by (simp add: registries_ok_def)
    moreover have "slots_ok C ?st" using slots' by (simp add: slots_ok_def)
    moreover have "scanning ?st" using scan unfolding scanning_def by auto
    ultimately show ?thesis by (simp add: xf out Inr collect_cases pipeline_inv_def)
  qed
qed

lemma start_conversion_inv:
  assumes inv: "pipeline_inv C P [] st" and scan: "scanning st"
    and r: "map_of (pl_pending st) (pl_next_conversion st) = Some r" and room: "length (pl_conversion st) < pc_domain_batches C"
  shows "pipeline_inv C P [] (start_conversion r st) \<and> scanning (start_conversion r st)"
proof -
  define i where "i = pl_next_conversion st"
  let ?st = "start_conversion r st"
  have places: "places_ok C [] st" and bounds: "bounds_ok C st" and slots: "slots_ok C st"
    and gen: "genuine_ok P [] st" and reg: "registries_ok st" and cons: "consumer_ok C st"
    using inv by (simp_all add: pipeline_inv_def)
  have st: "pl_next_conversion ?st = i + 1" "pl_pending ?st = filter (\<lambda>x. fst x \<noteq> i) (pl_pending st)"
    "pl_registries ?st = AList.update i r (pl_registries st)" "pl_conversion ?st = AList.update i Queued (pl_conversion st)"
    "pl_analysis ?st = pl_analysis st" "pl_available ?st = pl_available st" "pl_published ?st = pl_published st"
    "pl_consumer ?st = pl_consumer st" "pl_next_configuration ?st = pl_next_configuration st" "pl_held ?st = pl_held st"
    "pl_cancelled ?st = pl_cancelled st" "pl_stopped ?st = pl_stopped st" "pl_failure ?st = pl_failure st"
    "pl_coordinating ?st = pl_coordinating st" "pl_checking ?st = pl_checking st" "pl_opened ?st = pl_opened st" "pl_closed ?st = pl_closed st"
    by (simp_all add: start_conversion_def Let_def i_def)
  have pop: "popped ?st = popped st" by (simp add: popped_def st)
  have mem: "(i, r) \<in> set (pl_pending st)" using r map_of_SomeD by (auto simp: i_def)
  have i: "i \<in> set (map fst (pl_pending st))" using mem by force
  have keys: "map fst (pl_conversion st) = [popped st..<i]" "map fst (pl_registries st) = [popped st..<i]" "popped st \<le> i"
    using places by (simp_all add: places_ok_def i_def)
  have new: "map fst (AList.update i x d) = [popped st..<Suc i]" if "map fst d = [popped st..<i]" for x d
    using that keys(3) by (simp add: update_keys)
  have "set (placed [] st) = {i..<pl_next_configuration st}" "distinct (placed [] st)"
    using places scan by (simp_all add: places_ok_def scanning_def i_def)
  then have "set (placed [] ?st) = {i..<pl_next_configuration st} - {i}" and dist: "distinct (placed [] ?st)"
    using i by (auto simp: placed_def st filter_keys)
  moreover have "{i..<n} - {i} = {Suc i..<n}" for n by auto
  ultimately have places': "set (placed [] ?st) = {Suc i..<pl_next_configuration st}" by (simp only:)
  have "i < pl_next_configuration st" using i places by (auto simp: places_ok_def placed_def)
  moreover have "pl_next_configuration st \<le> pc_total C" "length (pl_published ?st) \<le> Suc i"
    using places by (simp_all add: places_ok_def st(7) i_def)
  ultimately have "places_ok C [] ?st"
    unfolding places_ok_def pop st(1,3,4,9) using keys(3) new [OF keys(1)] new [OF keys(2)] places' dist by simp
  moreover have "length (pl_conversion ?st) = Suc (length (pl_conversion st))"
    using arg_cong [OF new [OF keys(1), of Queued], of length] arg_cong [OF keys(1), of length] keys(3) by (simp add: st)
  then have "bounds_ok C ?st" using bounds room by (simp add: bounds_ok_def st pop)
  moreover have "genuine_ok P [] ?st"
    using gen mem unfolding genuine_ok_def by (auto simp: st dest!: in_update)
  moreover have "held_registries ?st = held_registries st"
    using i keys new [OF keys(2), of r] by (auto simp: held_registries_def st filter_keys)
  then have "registries_ok ?st"
    using reg unfolding registries_ok_def by (auto simp: st dest!: in_update)
  moreover have "consumer_ok C ?st" "slots_ok C ?st" using cons slots by (simp_all add: consumer_ok_def slots_ok_def st)
  moreover have "scanning ?st"
    using scan unfolding scanning_def by (auto simp: st dest!: in_update)
  ultimately show ?thesis by (simp add: pipeline_inv_def)
qed

lemma update_state_simps [simp]:
  "pl_analysis (update_state C st) = pl_analysis st" "pl_available (update_state C st) = pl_available st"
  "pl_pending (update_state C st) = pl_pending st" "pl_conversion (update_state C st) = pl_conversion st"
  "pl_registries (update_state C st) = pl_registries st" "pl_published (update_state C st) = pl_published st"
  "pl_consumer (update_state C st) = pl_consumer st" "pl_next_configuration (update_state C st) = pl_next_configuration st"
  "pl_next_conversion (update_state C st) = pl_next_conversion st" "pl_held (update_state C st) = pl_held st"
  "pl_cancelled (update_state C st) = pl_cancelled st" "pl_stopped (update_state C st) = pl_stopped st"
  "pl_failure (update_state C st) = pl_failure st" "pl_coordinating (update_state C st) = pl_coordinating st"
  "pl_checking (update_state C st) = pl_checking st" "pl_opened (update_state C st) = pl_opened st" "pl_closed (update_state C st) = pl_closed st"
  by (simp_all add: update_state_def)

lemma schedule_analysis_simps [simp]:
  "pl_analysis (schedule_analysis C slot st) = pl_analysis st @ [(pl_next_configuration st, slot, Queued)]"
  "pl_available (schedule_analysis C slot st) = (case slot of None \<Rightarrow> pl_available st | Some s \<Rightarrow> tl (pl_available st))"
  "pl_pending (schedule_analysis C slot st) = pl_pending st" "pl_conversion (schedule_analysis C slot st) = pl_conversion st"
  "pl_registries (schedule_analysis C slot st) = pl_registries st" "pl_published (schedule_analysis C slot st) = pl_published st"
  "pl_consumer (schedule_analysis C slot st) = pl_consumer st"
  "pl_next_configuration (schedule_analysis C slot st) = Suc (pl_next_configuration st)"
  "pl_next_conversion (schedule_analysis C slot st) = pl_next_conversion st" "pl_held (schedule_analysis C slot st) = pl_held st + 1"
  "pl_cancelled (schedule_analysis C slot st) = pl_cancelled st" "pl_stopped (schedule_analysis C slot st) = pl_stopped st"
  "pl_failure (schedule_analysis C slot st) = pl_failure st" "pl_coordinating (schedule_analysis C slot st) = pl_coordinating st"
  "pl_checking (schedule_analysis C slot st) = pl_checking st" "pl_opened (schedule_analysis C slot st) = pl_opened st" "pl_closed (schedule_analysis C slot st) = pl_closed st"
  by (simp_all add: schedule_analysis_def Let_def)

lemma schedule_analysis_inv:
  assumes inv: "pipeline_inv C P [] st" and scan: "scanning st" and total: "pl_next_configuration st < pc_total C"
    and room: "length (pl_analysis st) < pc_workers C" "pl_held st < pc_spool_registries C"
    and slot: "if pc_observed C then \<exists>s slots. slot = Some s \<and> pl_available st = s # slots else slot = None"
  shows "pipeline_inv C P [] (schedule_analysis C slot st) \<and> scanning (schedule_analysis C slot st)"
proof -
  let ?st = "schedule_analysis C slot st" and ?i = "pl_next_configuration st"
  have places: "places_ok C [] st" and bounds: "bounds_ok C st" and slots: "slots_ok C st"
    and gen: "genuine_ok P [] st" and reg: "registries_ok st" and cons: "consumer_ok C st"
    using inv by (simp_all add: pipeline_inv_def)
  have pop: "popped ?st = popped st" by (simp add: popped_def)
  have set: "set (placed [] st) = {pl_next_conversion st..<?i}" "distinct (placed [] st)" "pl_next_conversion st \<le> ?i"
    using places scan by (simp_all add: places_ok_def scanning_def)
  then have "?i \<notin> set (placed [] st)" by simp
  then have "distinct (placed [] ?st)" using set(2) by (auto simp: placed_def)
  moreover have "set (placed [] ?st) = insert ?i (set (placed [] st))" by (auto simp: placed_def)
  then have "set (placed [] ?st) = {pl_next_conversion st..<Suc ?i}" using set by auto
  ultimately have "places_ok C [] ?st" using places total by (simp add: places_ok_def pop)
  moreover have "bounds_ok C ?st" using bounds room by (simp add: bounds_ok_def pop)
  moreover have "slots_ok C ?st" using slots slot unfolding slots_ok_def by (auto simp: used_slots_def split: if_splits)
  moreover have "genuine_ok P [] ?st" using gen by (simp add: genuine_ok_def)
  moreover have "held_registries ?st = held_registries st" by (simp add: held_registries_def)
  then have "registries_ok ?st" using reg by (simp add: registries_ok_def)
  moreover have "consumer_ok C ?st" using cons by (simp add: consumer_ok_def)
  moreover have "scanning ?st" using scan by (simp add: scanning_def)
  ultimately show ?thesis by (simp add: pipeline_inv_def)
qed

lemma slots_left:
  assumes "slots_ok C st" and "pc_observed C"
  shows "length (pl_available st) + length (pl_analysis st) = pc_workers C"
proof -
  have "length (used_slots an) = length an" if "\<forall>(i, slot, f) \<in> set an. slot \<noteq> None" for an :: "(nat \<times> nat option \<times> 'a future) list"
    using that by (induction an) (auto simp: used_slots_def)
  then have "length (used_slots (pl_analysis st)) = length (pl_analysis st)" using assms unfolding slots_ok_def by simp
  moreover have "size (mset (pl_available st) + mset (used_slots (pl_analysis st))) = size (mset [0..<pc_workers C])"
    using assms(1) by (simp only: slots_ok_def)
  ultimately show ?thesis by simp
qed

section \<open>Cancelling\<close>

lemma cancel_keys [simp]:
  "map fst (pl_analysis (cancel_futures st)) = map fst (pl_analysis st)"
  "map fst (pl_conversion (cancel_futures st)) = map fst (pl_conversion st)"
  by (auto simp: cancel_futures_def split_beta)

lemma cancel_length [simp]:
  "length (pl_analysis (cancel_futures st)) = length (pl_analysis st)"
  "length (pl_conversion (cancel_futures st)) = length (pl_conversion st)"
  by (simp_all add: cancel_futures_def)

lemma cancel_simps [simp]:
  "pl_available (cancel_futures st) = pl_available st" "pl_pending (cancel_futures st) = pl_pending st"
  "pl_registries (cancel_futures st) = pl_registries st" "pl_published (cancel_futures st) = pl_published st"
  "pl_consumer (cancel_futures st) = pl_consumer st" "pl_next_configuration (cancel_futures st) = pl_next_configuration st"
  "pl_next_conversion (cancel_futures st) = pl_next_conversion st" "pl_held (cancel_futures st) = pl_held st"
  "pl_cancelled (cancel_futures st)" "pl_stopped (cancel_futures st) = pl_stopped st"
  "pl_failure (cancel_futures st) = pl_failure st" "pl_coordinating (cancel_futures st) = pl_coordinating st"
  "pl_checking (cancel_futures st) = pl_checking st" "pl_opened (cancel_futures st) = pl_opened st" "pl_closed (cancel_futures st) = pl_closed st"
  "popped (cancel_futures st) = popped st"
  by (simp_all add: cancel_futures_def popped_def)

lemma cancel_future_Finished [simp]:
  "cancel_future f = Finished out \<longleftrightarrow> f = Finished out" "Finished out = cancel_future f \<longleftrightarrow> f = Finished out"
  by (cases f; auto simp: cancel_future_def)+

lemma cancel_analysis_Finished:
  "(i, slot, Finished out) \<in> set (pl_analysis (cancel_futures st)) \<longleftrightarrow> (i, slot, Finished out) \<in> set (pl_analysis st)"
  by (auto simp: cancel_futures_def intro!: rev_image_eqI)

lemma cancel_conversion_Finished:
  "(i, Finished out) \<in> set (pl_conversion (cancel_futures st)) \<longleftrightarrow> (i, Finished out) \<in> set (pl_conversion st)"
  by (auto simp: cancel_futures_def intro!: rev_image_eqI)

lemma used_slots_cancel: "used_slots (pl_analysis (cancel_futures st)) = used_slots (pl_analysis st)"
  by (simp add: used_slots_def cancel_futures_def comp_def split_def)

end
