(* ===== verification/PipelineKeep.thy ===== *)
theory PipelineKeep
imports PipelineStep
begin

text \<open>
  Every step of the native ingestion pipeline keeps its invariant: the failing ends of a turn of the
  coordinator, the callables and the generator.
\<close>

section \<open>The end of a turn of the coordinator\<close>

definition kept :: "pipeline_config \<Rightarrow> ('r, 'b) callables \<Rightarrow> ('r, 'b) pipeline \<Rightarrow> bool" where
  "kept C P st \<longleftrightarrow> pipeline_inv C P [] st \<and> flags_ok C st"

lemma genuine_iff:
  "genuine_ok P failures st \<longleftrightarrow>
     (\<forall>i slot out. (i, slot, Finished out) \<in> set (pl_analysis st) \<longrightarrow> analyses P i out) \<and>
     (\<forall>i r. (i, r) \<in> set (pl_pending st) \<longrightarrow> analyses P i (Inr r)) \<and>
     (\<forall>i r. (i, r) \<in> set (pl_registries st) \<longrightarrow> analyses P i (Inr r)) \<and>
     (\<forall>i out. (i, Finished out) \<in> set (pl_conversion st) \<longrightarrow> (\<exists>r. analyses P i (Inr r) \<and> conversions P i r out)) \<and>
     (\<forall>i b. (i, b) \<in> set (pl_published st) \<longrightarrow> (\<exists>r. analyses P i (Inr r) \<and> conversions P i r (Inr b))) \<and>
     (\<forall>e. pl_failure st = Some e \<longrightarrow> known_failure P e) \<and>
     (\<forall>e. ending_of (pl_consumer st) = Some e \<longrightarrow> known_ending P e) \<and> (\<forall>i e. (i, e) \<in> set failures \<longrightarrow> analyses P i (Inl e))"
  unfolding genuine_ok_def by (intro arg_cong2 [where f = "(\<and>)"] refl; simp only: Ball_def split_paired_All prod.case; blast)

lemma registries_iff:
  "registries_ok st \<longleftrightarrow> set (pl_opened st) \<subseteq> set (pl_closed st) \<union> held_registries st \<and>
     (\<forall>i out. (i, Finished out) \<in> set (pl_conversion st) \<longrightarrow> i \<in> set (pl_closed st)) \<and>
     (\<forall>i. pl_consumer st = Holding i \<longrightarrow> i \<in> set (pl_closed st)) \<and>
     (\<forall>e. pl_consumer st = Gone e \<longrightarrow> set (pl_opened st) \<subseteq> set (pl_closed st))"
  unfolding registries_ok_def by (intro arg_cong2 [where f = "(\<and>)"] refl; simp only: Ball_def split_paired_All prod.case; blast)

lemma held_simps [simp]:
  "held_registries (st\<lparr>pl_coordinating := a\<rparr>) = held_registries st" "held_registries (st\<lparr>pl_checking := a\<rparr>) = held_registries st"
  "held_registries (st\<lparr>pl_stopped := a\<rparr>) = held_registries st" "held_registries (st\<lparr>pl_failure := f\<rparr>) = held_registries st"
  "held_registries (st\<lparr>pl_consumer := c\<rparr>) = held_registries st" "held_registries (st\<lparr>pl_published := p\<rparr>) = held_registries st"
  "held_registries (st\<lparr>pl_opened := l\<rparr>) = held_registries st" "held_registries (st\<lparr>pl_closed := l\<rparr>) = held_registries st"
  "held_registries (st\<lparr>pl_held := h\<rparr>) = held_registries st" "held_registries (st\<lparr>pl_conversion := cs\<rparr>) = held_registries st"
  by (simp_all add: held_registries_def)

lemma cancel_inv:
  assumes inv: "pipeline_inv C P fs st"
  shows "pipeline_inv C P [] (cancel_futures st)"
proof -
  let ?st = "cancel_futures st"
  have places: "places_ok C (map fst fs) st" and bounds: "bounds_ok C st" and slots: "slots_ok C st"
    and gen: "genuine_ok P fs st" and reg: "registries_ok st" and cons: "consumer_ok C st"
    using inv by (simp_all add: pipeline_inv_def)
  have "consumer_ok C ?st" using cons by (simp add: consumer_ok_def)
  moreover have "places_ok C [] ?st" using places unfolding places_ok_def placed_def by auto
  moreover have "bounds_ok C ?st" using bounds by (simp add: bounds_ok_def)
  moreover have "(\<forall>(i, slot, f) \<in> set (pl_analysis ?st). (slot \<noteq> None) = pc_observed C)"
    using slots unfolding slots_ok_def cancel_futures_def by auto
  then have "slots_ok C ?st" using slots by (simp add: slots_ok_def used_slots_cancel)
  moreover have "genuine_ok P [] ?st"
    using gen by (simp add: genuine_iff cancel_analysis_Finished cancel_conversion_Finished)
  moreover have "held_registries ?st = held_registries st"
    by (simp add: held_registries_def cancel_analysis_Finished)
  then have "registries_ok ?st" using reg by (simp add: registries_iff cancel_conversion_Finished)
  ultimately show ?thesis by (simp add: pipeline_inv_def)
qed

lemma flag_inv:
  assumes "pipeline_inv C P [] st"
  shows "pipeline_inv C P [] (st\<lparr>pl_coordinating := a\<rparr>)" "pipeline_inv C P [] (st\<lparr>pl_checking := a\<rparr>)"
    "pipeline_inv C P [] (st\<lparr>pl_stopped := a\<rparr>)"
  using assms
  by (simp_all add: pipeline_inv_def consumer_ok_def places_ok_def placed_def popped_def bounds_ok_def slots_ok_def genuine_iff
      registries_iff)

lemma failure_inv:
  assumes "pipeline_inv C P [] st" and "known_failure P e"
  shows "pipeline_inv C P [] (st\<lparr>pl_failure := Some e\<rparr>)"
  using assms
  by (simp add: pipeline_inv_def consumer_ok_def places_ok_def placed_def popped_def bounds_ok_def slots_ok_def genuine_iff
      registries_iff)

lemma abort_kept:
  assumes inv: "pipeline_inv C P fs st" and scan: "scanning st" and e: "known_failure P e"
  shows "kept C P (abort_pipeline e st)"
proof -
  have "pipeline_inv C P [] (abort_pipeline e st)"
    using failure_inv [OF cancel_inv [OF inv] e] flag_inv(1) by (fastforce simp: abort_pipeline_def)
  moreover have "flags_ok C (abort_pipeline e st)"
    using scan by (auto simp: flags_ok_def abort_pipeline_def scanning_def leaving_def)
  ultimately show ?thesis by (simp add: kept_def)
qed

lemma coordinate_kept:
  assumes inv: "kept C P st" and on: "pl_coordinating st" "\<not> pl_checking st" and request: "may_request P request"
  shows "kept C P (coordinate C request st)"
proof (cases "pl_stopped st")
  case True
  then show ?thesis
    using inv on by (auto simp: kept_def coordinate_def flag_inv flags_ok_def)
next
  case False
  then have scan: "scanning st" using inv on by (simp add: kept_def flags_ok_def scanning_def)
  show ?thesis
  proof (rule coordinate_rule [where P = "\<lambda>fs st. pipeline_inv C P fs st \<and> scanning st"])
    show "pipeline_inv C P [] st \<and> scanning st" using inv scan by (simp add: kept_def)
    show "\<not> pl_stopped st" by (rule False)
    show "distinct (map fst (pl_analysis st))" if "pipeline_inv C P fs st \<and> scanning st" for fs st
      using that by (simp add: pipeline_inv_def places_ok_def placed_def)
    show "kept C P (abort_pipeline e st)"
      if inv: "pipeline_inv C P fs st \<and> scanning st"
        and e: "request = Some e \<or> e \<in> snd ` set fs \<or> (\<exists>i. (i, Finished (Inl e)) \<in> set (pl_conversion st))" for fs st e
    proof (rule abort_kept [of C P fs])
      have gen: "genuine_ok P fs st" using inv by (simp add: pipeline_inv_def)
      show "known_failure P e"
        using e gen request by (fastforce simp: genuine_ok_def known_failure_def may_request_def)
    qed (use inv in simp_all)
    show "kept C P (crash_pipeline IndexError st)"
      if inv: "pipeline_inv C P [] st \<and> scanning st" and "pc_observed C" "pl_available st = []" "length (pl_analysis st) < pc_workers C" for st
      using slots_left [of C st] that by (simp add: pipeline_inv_def)
    show "kept C P (st\<lparr>pl_checking := True\<rparr>)" if "pipeline_inv C P [] st \<and> scanning st" for st
      using that by (auto simp: kept_def flag_inv flags_ok_def scanning_def leaving_def)
  qed (erule conjE, rule collect_inv start_conversion_inv schedule_analysis_inv; assumption)+
qed

lemma check_finished_kept:
  assumes "kept C P st" and "pl_checking st"
  shows "kept C P (check_finished C st)"
  using assms by (auto simp: kept_def check_finished_def flag_inv flags_ok_def pipeline_finished_def)

section \<open>The callables\<close>

lemma flags_iff:
  "flags_ok C st \<longleftrightarrow> (pl_cancelled st \<longleftrightarrow> pl_failure st \<noteq> None \<or> pl_stopped st) \<and>
     (pl_stopped st \<longleftrightarrow> leaving (pl_consumer st)) \<and>
     (pl_coordinating st \<longrightarrow> pl_failure st = None) \<and>
     (\<not> pl_cancelled st \<longrightarrow> (\<forall>i slot. (i, slot, Cancelled) \<notin> set (pl_analysis st)) \<and>
        (\<forall>i. (i, Cancelled) \<notin> set (pl_conversion st))) \<and>
     (pl_checking st \<longrightarrow> pl_coordinating st \<and> \<not> pl_cancelled st) \<and>
     (\<forall>e. pl_consumer st = Gone e \<longrightarrow> \<not> pl_coordinating st \<and> list_all (\<lambda>x. future_done (snd (snd x))) (pl_analysis st)) \<and>
     (\<not> pl_coordinating st \<longrightarrow> \<not> pl_cancelled st \<longrightarrow> pipeline_finished C st)"
proof -
  have "(\<forall>(i, slot, f) \<in> set (pl_analysis st). f \<noteq> Cancelled) \<longleftrightarrow> (\<forall>i slot. (i, slot, Cancelled) \<notin> set (pl_analysis st))"
    "(\<forall>(i, f) \<in> set (pl_conversion st). f \<noteq> Cancelled) \<longleftrightarrow> (\<forall>i. (i, Cancelled) \<notin> set (pl_conversion st))"
    by blast+
  then show ?thesis unfolding flags_ok_def by (simp only:)
qed

lemma set_analysis_set:
  assumes "distinct (map fst (pl_analysis st))" and "(i, slot, g) \<in> set (pl_analysis st)"
  shows "(j, s, f) \<in> set (pl_analysis (set_analysis i new st)) \<longleftrightarrow>
    (if j = i then s = slot \<and> f = new else (j, s, f) \<in> set (pl_analysis st))"
proof -
  have "(i, s, f') \<in> set (pl_analysis st) \<longleftrightarrow> s = slot \<and> f' = g" for f'
    using eq_key_imp_eq_value [OF assms(1)] assms(2) by fastforce
  then show ?thesis using assms(2) by (force simp: set_analysis_def)
qed

lemma set_conversion_set:
  assumes "distinct (map fst (pl_conversion st))" and "(i, g) \<in> set (pl_conversion st)"
  shows "(j, f) \<in> set (pl_conversion (set_conversion i new st)) \<longleftrightarrow>
    (if j = i then f = new else (j, f) \<in> set (pl_conversion st))"
proof -
  have "(i, f') \<in> set (pl_conversion st) \<longleftrightarrow> f' = g" for f'
    using eq_key_imp_eq_value [OF assms(1)] assms(2) by fastforce
  then show ?thesis using assms(2) by (force simp: set_conversion_def)
qed

lemma set_analysis_simps [simp]:
  "map fst (pl_analysis (set_analysis i f st)) = map fst (pl_analysis st)"
  "length (pl_analysis (set_analysis i f st)) = length (pl_analysis st)"
  "used_slots (pl_analysis (set_analysis i f st)) = used_slots (pl_analysis st)"
  "pl_available (set_analysis i f st) = pl_available st" "pl_conversion (set_analysis i f st) = pl_conversion st"
  "pl_pending (set_analysis i f st) = pl_pending st" "pl_registries (set_analysis i f st) = pl_registries st"
  "pl_published (set_analysis i f st) = pl_published st" "pl_consumer (set_analysis i f st) = pl_consumer st"
  "pl_next_configuration (set_analysis i f st) = pl_next_configuration st"
  "pl_next_conversion (set_analysis i f st) = pl_next_conversion st" "pl_held (set_analysis i f st) = pl_held st"
  "pl_cancelled (set_analysis i f st) = pl_cancelled st" "pl_stopped (set_analysis i f st) = pl_stopped st"
  "pl_failure (set_analysis i f st) = pl_failure st" "pl_coordinating (set_analysis i f st) = pl_coordinating st"
  "pl_checking (set_analysis i f st) = pl_checking st" "pl_opened (set_analysis i f st) = pl_opened st"
  "pl_closed (set_analysis i f st) = pl_closed st" "popped (set_analysis i f st) = popped st"
  by (simp_all add: set_analysis_def used_slots_def popped_def comp_def split_def)

lemma set_conversion_simps [simp]:
  "map fst (pl_conversion (set_conversion i f st)) = map fst (pl_conversion st)"
  "length (pl_conversion (set_conversion i f st)) = length (pl_conversion st)"
  "pl_available (set_conversion i f st) = pl_available st" "pl_analysis (set_conversion i f st) = pl_analysis st"
  "pl_pending (set_conversion i f st) = pl_pending st" "pl_registries (set_conversion i f st) = pl_registries st"
  "pl_published (set_conversion i f st) = pl_published st" "pl_consumer (set_conversion i f st) = pl_consumer st"
  "pl_next_configuration (set_conversion i f st) = pl_next_configuration st"
  "pl_next_conversion (set_conversion i f st) = pl_next_conversion st" "pl_held (set_conversion i f st) = pl_held st"
  "pl_cancelled (set_conversion i f st) = pl_cancelled st" "pl_stopped (set_conversion i f st) = pl_stopped st"
  "pl_failure (set_conversion i f st) = pl_failure st" "pl_coordinating (set_conversion i f st) = pl_coordinating st"
  "pl_checking (set_conversion i f st) = pl_checking st" "pl_opened (set_conversion i f st) = pl_opened st"
  "pl_closed (set_conversion i f st) = pl_closed st" "popped (set_conversion i f st) = popped st"
  by (simp_all add: set_conversion_def popped_def comp_def split_def)

text \<open>A live callable's future becomes \<open>f\<close>; \<open>opened\<close> records the registry it returned.\<close>

lemma set_analysis_kept:
  assumes kept: "kept C P st" and mem: "(i, slot, g) \<in> set (pl_analysis st)"
    and live: "\<not> future_done g" and f: "f \<noteq> Cancelled" "\<And>out. f = Finished out \<Longrightarrow> analyses P i out"
    and opened: "set opened \<subseteq> set (pl_opened st) \<union> {j. j = i \<and> (\<exists>r. f = Finished (Inr r))}"
  shows "kept C P ((set_analysis i f st)\<lparr>pl_opened := opened\<rparr>)"
proof -
  let ?st = "(set_analysis i f st)\<lparr>pl_opened := opened\<rparr>"
  have places: "places_ok C [] st" and bounds: "bounds_ok C st" and slots: "slots_ok C st"
    and gen: "genuine_ok P [] st" and reg: "registries_ok st" and cons: "consumer_ok C st" and flags: "flags_ok C st"
    using kept by (simp_all add: kept_def pipeline_inv_def)
  have dist: "distinct (map fst (pl_analysis st))" using places by (simp add: places_ok_def placed_def)
  note entries = set_analysis_set [OF dist mem]
  have old: "(i, s, Finished out) \<notin> set (pl_analysis st)" for s out
    using eq_key_imp_eq_value [OF dist] mem live by (fastforce simp: future_done_def)
  have coordinating: "pl_cancelled st \<or> pl_coordinating st"
    using flags mem by (auto simp: flags_ok_def pipeline_finished_def)
  have cons': "consumer_ok C ?st" using cons by (simp add: consumer_ok_def)
  have places': "places_ok C [] ?st" using places by (simp add: places_ok_def placed_def)
  have bounds': "bounds_ok C ?st" using bounds by (simp add: bounds_ok_def)
  have "(\<forall>(j, s, h) \<in> set (pl_analysis (set_analysis i f st)). (s \<noteq> None) = pc_observed C)"
    using slots by (auto simp: slots_ok_def set_analysis_def)
  then have slots': "slots_ok C ?st" using slots by (simp add: slots_ok_def)
  have gen': "genuine_ok P [] ?st" using gen f(2) by (simp add: genuine_iff entries)
  have "held_registries st \<union> {j. j = i \<and> (\<exists>r. f = Finished (Inr r))} \<subseteq> held_registries ?st"
    by (auto simp: held_registries_def entries) (metis old)
  moreover have gone: "pl_consumer st \<noteq> Gone e" for e
    using flags mem live by (auto simp: flags_ok_def list_all_iff)
  moreover have "set (pl_opened st) \<subseteq> set (pl_closed st) \<union> held_registries st" using reg by (simp add: registries_iff)
  ultimately have "set opened \<subseteq> set (pl_closed st) \<union> held_registries ?st" using opened by blast
  then have "registries_ok ?st" using reg gone by (simp add: registries_iff)
  moreover have "flags_ok C ?st"
    using flags coordinating f(1) gone by (auto simp: flags_iff entries)
  ultimately show ?thesis using cons' places' bounds' slots' gen' by (simp add: kept_def pipeline_inv_def)
qed

lemma set_conversion_kept:
  assumes kept: "kept C P st" and mem: "(i, g) \<in> set (pl_conversion st)"
    and live: "\<not> future_done g" and f: "f \<noteq> Cancelled" "\<And>out. f = Finished out \<Longrightarrow> \<exists>r. analyses P i (Inr r) \<and> conversions P i r out"
    and closed: "set (pl_closed st) \<subseteq> set closed" "\<And>out. f = Finished out \<Longrightarrow> i \<in> set closed"
  shows "kept C P ((set_conversion i f st)\<lparr>pl_closed := closed\<rparr>)"
proof -
  let ?st = "(set_conversion i f st)\<lparr>pl_closed := closed\<rparr>"
  have places: "places_ok C [] st" and bounds: "bounds_ok C st" and slots: "slots_ok C st"
    and gen: "genuine_ok P [] st" and reg: "registries_ok st" and cons: "consumer_ok C st" and flags: "flags_ok C st"
    using kept by (simp_all add: kept_def pipeline_inv_def)
  have dist: "distinct (map fst (pl_conversion st))" using places by (simp add: places_ok_def)
  note entries = set_conversion_set [OF dist mem]
  have coordinating: "pl_cancelled st \<or> pl_coordinating st"
    using flags mem live by (auto simp: flags_ok_def pipeline_finished_def list_all_iff)
  have "consumer_ok C ?st" using cons by (simp add: consumer_ok_def)
  moreover have "places_ok C [] ?st" using places by (simp add: places_ok_def placed_def)
  moreover have "bounds_ok C ?st" using bounds by (simp add: bounds_ok_def)
  moreover have "slots_ok C ?st" using slots by (simp add: slots_ok_def)
  moreover have "genuine_ok P [] ?st" using gen f(2) by (simp add: genuine_iff entries)
  moreover have "held_registries ?st = held_registries st" by (simp add: held_registries_def)
  then have "registries_ok ?st" using reg closed by (auto simp: registries_iff entries)
  moreover have "flags_ok C ?st"
    using flags coordinating f(1) by (auto simp: flags_iff entries)
  ultimately show ?thesis by (simp add: kept_def pipeline_inv_def)
qed

section \<open>The generator\<close>

lemma consumer_kept:
  assumes kept: "kept C P st" and consumer: "consumer_at (pc_total C) c (length (pl_published st))"
    and popped: "popped_by c (length (pl_published st)) = popped st" and flags: "leaving c = leaving (pl_consumer st)"
    and ending: "\<And>e. ending_of c = Some e \<Longrightarrow> known_ending P e" and calm: "\<And>i. c \<noteq> Holding i" "\<And>e. c \<noteq> Gone e"
  shows "kept C P (st\<lparr>pl_consumer := c\<rparr>)"
proof -
  let ?st = "st\<lparr>pl_consumer := c\<rparr>"
  have pop: "popped ?st = popped st" using popped by (simp add: popped_def)
  show ?thesis
    using kept unfolding kept_def pipeline_inv_def
  proof (elim conjE, intro conjI)
    show "consumer_ok C st \<Longrightarrow> consumer_ok C ?st" using consumer by (simp add: consumer_ok_def)
    show "places_ok C (map fst []) st \<Longrightarrow> places_ok C (map fst []) ?st" by (simp add: places_ok_def placed_def pop)
    show "bounds_ok C st \<Longrightarrow> bounds_ok C ?st" by (simp add: bounds_ok_def pop)
    show "slots_ok C st \<Longrightarrow> slots_ok C ?st" by (simp add: slots_ok_def)
    show "genuine_ok P [] st \<Longrightarrow> genuine_ok P [] ?st" using ending by (simp add: genuine_iff)
    show "registries_ok st \<Longrightarrow> registries_ok ?st" using calm by (simp add: registries_iff)
    show "flags_ok C st \<Longrightarrow> flags_ok C ?st" using flags calm by (auto simp: flags_ok_def pipeline_finished_def)
  qed
qed

lemma raise_kept:
  assumes kept: "kept C P st" and wait: "pl_consumer st = Awaiting i" and e: "known_ending P (Raised e)"
  shows "kept C P (st\<lparr>pl_consumer := Quitting (Raised e)\<rparr>)"
  by (rule consumer_kept [OF kept]) (use wait e in \<open>auto simp: consumer_at_def popped_def popped_by_def leaving_def ending_of_def\<close>)

lemma publish_kept:
  assumes kept: "kept C P st" and wait: "pl_consumer st = Awaiting i" and b: "map_of (pl_conversion st) i = Some (Finished (Inr b))"
  shows "kept C P (st\<lparr>pl_published := pl_published st @ [(i, b)], pl_consumer := Holding i\<rparr>)"
proof -
  let ?st = "st\<lparr>pl_published := pl_published st @ [(i, b)], pl_consumer := Holding i\<rparr>"
  have places: "places_ok C [] st" and bounds: "bounds_ok C st" and slots: "slots_ok C st"
    and gen: "genuine_ok P [] st" and reg: "registries_ok st" and cons: "consumer_ok C st" and flags: "flags_ok C st"
    using kept by (simp_all add: kept_def pipeline_inv_def)
  have n: "length (pl_published st) = i" "i < pc_total C" using cons wait by (simp_all add: consumer_ok_def consumer_at_def)
  have pop: "popped ?st = popped st" "popped st = i" using wait n by (simp_all add: popped_def popped_by_def)
  have mem: "(i, Finished (Inr b)) \<in> set (pl_conversion st)" using b by (rule map_of_SomeD)
  have "i \<in> set (map fst (pl_conversion st))" using mem by force
  moreover have "map fst (pl_conversion st) = [i..<pl_next_conversion st]" using places pop(2) by (simp add: places_ok_def)
  ultimately have "i < pl_next_conversion st" by (simp only: set_upt atLeastLessThan_iff)
  then have "places_ok C [] ?st" using places n by (simp add: places_ok_def placed_def pop(1))
  moreover have "consumer_ok C ?st" using cons n by (simp add: consumer_ok_def consumer_at_def)
  moreover have "bounds_ok C ?st" using bounds by (simp add: bounds_ok_def pop(1))
  moreover have "slots_ok C ?st" using slots by (simp add: slots_ok_def)
  moreover have "genuine_ok P [] ?st" using gen mem by (auto simp: genuine_iff ending_of_def)
  moreover have "registries_ok ?st" using reg mem by (auto simp: registries_iff)
  moreover have "flags_ok C ?st" using flags wait by (simp add: flags_ok_def leaving_def pipeline_finished_def)
  ultimately show ?thesis by (simp add: kept_def pipeline_inv_def)
qed

lemma look_kept:
  assumes kept: "kept C P st" and wait: "pl_consumer st = Awaiting i" and request: "may_request P request"
  shows "kept C P (look request i st)"
proof (cases request)
  case (Some e)
  then have "known_ending P (Raised e)" using request by (simp add: may_request_def known_ending_def known_failure_def)
  from raise_kept [OF kept wait this] show ?thesis using Some by (simp add: look_def)
next
  case request: None
  have gen: "genuine_ok P [] st" and flags: "flags_ok C st" using kept by (simp_all add: kept_def pipeline_inv_def)
  show ?thesis
  proof (cases "pl_failure st")
    case (Some e)
    then have "known_ending P (Raised e)" using gen by (simp add: genuine_iff known_ending_def)
    from raise_kept [OF kept wait this] show ?thesis using Some request by (simp add: look_def)
  next
    case None
    then have calm: "(i, Cancelled) \<notin> set (pl_conversion st)" using flags wait by (auto simp: flags_iff leaving_def)
    show ?thesis
    proof (cases "map_of (pl_conversion st) i")
      case (Some f)
      then have mem: "(i, f) \<in> set (pl_conversion st)" by (rule map_of_SomeD)
      show ?thesis
      proof (cases f)
        case (Finished out)
        show ?thesis
        proof (cases out)
          case (Inl e)
          then have "known_failure P e" using gen mem Finished unfolding genuine_iff known_failure_def by blast
          then have "known_ending P (Raised e)" by (simp add: known_ending_def)
          from raise_kept [OF kept wait this] show ?thesis using Some None request Finished Inl by (simp add: look_def)
        next
          case (Inr b)
          then show ?thesis using publish_kept [OF kept wait] Some None request Finished by (simp add: look_def)
        qed
      qed (use mem calm kept Some None request in \<open>simp_all add: look_def\<close>)
    qed (use kept None request in \<open>simp add: look_def\<close>)
  qed
qed

end
