(* ===== verification/PipelineSafe.thy ===== *)
theory PipelineSafe
imports PipelineKeep
begin

text \<open>
  The rest of the generator's steps keep the invariant of the native ingestion pipeline, so every
  reachable state has it.
\<close>

lemma drop_batch_kept:
  assumes kept: "kept C P st" and hold: "pl_consumer st = Holding i" and at: "consumer_at (pc_total C) c (Suc i)"
    and c: "popped_by c (Suc i) = Suc i" "\<not> leaving c" "\<And>j. c \<noteq> Holding j" "\<And>e. ending_of c = Some e \<Longrightarrow> known_ending P e"
  shows "kept C P ((drop_batch C i st)\<lparr>pl_consumer := c\<rparr>)"
proof -
  let ?st = "(drop_batch C i st)\<lparr>pl_consumer := c\<rparr>"
  have places: "places_ok C [] st" and bounds: "bounds_ok C st" and slots: "slots_ok C st"
    and gen: "genuine_ok P [] st" and reg: "registries_ok st" and cons: "consumer_ok C st" and flags: "flags_ok C st"
    using kept by (simp_all add: kept_def pipeline_inv_def)
  have st: "pl_analysis ?st = pl_analysis st" "pl_available ?st = pl_available st" "pl_pending ?st = pl_pending st"
    "pl_conversion ?st = filter (\<lambda>x. fst x \<noteq> i) (pl_conversion st)" "pl_registries ?st = filter (\<lambda>x. fst x \<noteq> i) (pl_registries st)"
    "pl_next_configuration ?st = pl_next_configuration st" "pl_next_conversion ?st = pl_next_conversion st"
    "pl_held ?st = pl_held st - 1" "pl_stopped ?st = pl_stopped st" "pl_cancelled ?st = pl_cancelled st"
    "pl_failure ?st = pl_failure st" "pl_coordinating ?st = pl_coordinating st" "pl_checking ?st = pl_checking st"
    "pl_consumer ?st = c" "pl_published ?st = pl_published st" "pl_opened ?st = pl_opened st" "pl_closed ?st = pl_closed st"
    by (simp_all add: drop_batch_def)
  have n: "length (pl_published st) = Suc i" using cons hold by (simp add: consumer_ok_def consumer_at_def)
  have pop: "popped st = i" "popped ?st = Suc i" using hold n c(1) by (simp_all add: popped_def popped_by_def st)
  have less: "i < pl_next_conversion st" using places n by (simp add: places_ok_def)
  have upt: "filter (\<lambda>k. k \<noteq> i) [i..<pl_next_conversion st] = [Suc i..<pl_next_conversion st]"
    using less by (simp add: upt_conv_Cons filter_id_conv)
  have keys: "map fst (pl_conversion st) = [i..<pl_next_conversion st]" "map fst (pl_registries st) = [i..<pl_next_conversion st]"
    using places pop by (simp_all add: places_ok_def)
  have keys': "map fst (pl_conversion ?st) = [Suc i..<pl_next_conversion st]" "map fst (pl_registries ?st) = [Suc i..<pl_next_conversion st]"
    by (simp_all add: st filter_keys keys upt)
  have "consumer_ok C ?st" using cons n at by (simp add: consumer_ok_def st)
  moreover have "places_ok C [] ?st"
    using places less unfolding places_ok_def pop(2) keys' by (simp add: st placed_def n)
  moreover have "length (pl_conversion ?st) \<le> pc_domain_batches C"
    using bounds unfolding st bounds_ok_def by (meson le_trans length_filter_le)
  then have "bounds_ok C ?st" using bounds pop by (simp add: bounds_ok_def st)
  moreover have "slots_ok C ?st" using slots by (simp add: slots_ok_def st)
  moreover have "genuine_ok P [] ?st" using gen c(4) by (auto simp: genuine_iff st)
  moreover have "held_registries st \<subseteq> insert i (held_registries ?st)" by (auto simp: held_registries_def st filter_keys)
  moreover have "i \<in> set (pl_closed st)" "set (pl_opened st) \<subseteq> set (pl_closed st) \<union> held_registries st"
    using reg hold by (simp_all add: registries_iff)
  ultimately have "pipeline_inv C P [] ?st"
    using reg c(2,3) unfolding pipeline_inv_def registries_iff by (auto simp: st leaving_def)
  moreover have "flags_ok C ?st"
    using flags hold c(2) by (auto simp: flags_iff st leaving_def pipeline_finished_def list_all_iff)
  ultimately show ?thesis by (simp add: kept_def)
qed

lemma resume_kept:
  assumes "kept C P st" and "pl_consumer st = Holding i"
  shows "kept C P (resume C changed i st)"
proof -
  have at: "Suc i \<le> pc_total C" if "kept C P st"
    using that assms(2) by (simp add: kept_def pipeline_inv_def consumer_ok_def consumer_at_def places_ok_def)
  show ?thesis
    using drop_batch_kept [OF assms, of "Awaiting (Suc i)"] drop_batch_kept [OF assms, of "Quitting Completed"]
      drop_batch_kept [OF assms, of "Quitting (Raised (RuntimeError ''analyzer changed during indexing''))"] at [OF assms(1)]
    by (simp add: resume_def Let_def consumer_at_def popped_by_def leaving_def ending_of_def known_ending_def)
qed

lemma close_kept:
  assumes "kept C P st" and "pl_consumer st = Holding i"
  shows "kept C P (close_generator C i st)"
  unfolding close_generator_def
  by (rule drop_batch_kept [OF assms]) (auto simp: consumer_at_def popped_by_def leaving_def ending_of_def known_ending_def)

lemma leave_kept:
  assumes kept: "kept C P st" and quit: "pl_consumer st = Quitting e" and idle: "\<not> pl_checking st"
  shows "kept C P (leave_pipeline e st)"
proof -
  let ?c = "cancel_futures st"
  have inv: "pipeline_inv C P [] (?c\<lparr>pl_stopped := True\<rparr>)" using kept flag_inv(3) [OF cancel_inv] by (auto simp: kept_def)
  then have "consumer_ok C (?c\<lparr>pl_stopped := True\<rparr>)" "places_ok C [] (?c\<lparr>pl_stopped := True\<rparr>)"
    "bounds_ok C (?c\<lparr>pl_stopped := True\<rparr>)" "slots_ok C (?c\<lparr>pl_stopped := True\<rparr>)" "genuine_ok P [] (?c\<lparr>pl_stopped := True\<rparr>)"
    "registries_ok (?c\<lparr>pl_stopped := True\<rparr>)" by (simp_all add: pipeline_inv_def)
  note known = this
  have pop: "popped (leave_pipeline e st) = popped (?c\<lparr>pl_stopped := True\<rparr>)"
    using quit by (simp add: popped_def popped_by_def leave_pipeline_def)
  have "consumer_ok C (leave_pipeline e st)" using known(1) quit by (simp add: consumer_ok_def leave_pipeline_def consumer_at_def)
  moreover have "places_ok C [] (leave_pipeline e st)"
    using known(2) unfolding places_ok_def pop by (simp add: leave_pipeline_def placed_def)
  moreover have "bounds_ok C (leave_pipeline e st)" using known(3) unfolding bounds_ok_def pop by (simp add: leave_pipeline_def)
  moreover have "slots_ok C (leave_pipeline e st)" using known(4) by (simp add: slots_ok_def leave_pipeline_def)
  moreover have "genuine_ok P [] (leave_pipeline e st)"
    using known(5) quit by (simp add: genuine_iff leave_pipeline_def ending_of_def)
  moreover have "held_registries (leave_pipeline e st) = held_registries (?c\<lparr>pl_stopped := True\<rparr>)"
    by (simp add: held_registries_def leave_pipeline_def)
  then have "registries_ok (leave_pipeline e st)" using known(6) by (simp add: registries_iff leave_pipeline_def)
  moreover have "flags_ok C (leave_pipeline e st)"
    using kept idle by (simp add: kept_def flags_ok_def leave_pipeline_def leaving_def)
  ultimately show ?thesis by (simp add: kept_def pipeline_inv_def)
qed

lemma release_kept:
  assumes kept: "kept C P st" and leave: "pl_consumer st = Leaving e" and over: "\<not> pl_coordinating st"
    and fin: "list_all (\<lambda>x. future_done (snd (snd x))) (pl_analysis st)" and request: "may_request P telemetry_error"
  shows "kept C P (release_pipeline e telemetry_error st)"
proof -
  define last where "last = (case telemetry_error of None \<Rightarrow> e | Some t \<Rightarrow> if pl_failure st = None then Raised t else e)"
  define closed where "closed = pl_closed st @ map fst (pl_pending st) @ map fst (pl_registries st) @
    concat (map returned_registry (pl_analysis st))"
  have st: "release_pipeline e telemetry_error st = st\<lparr>pl_closed := closed, pl_consumer := Gone last\<rparr>" (is "_ = ?st")
    by (simp add: release_pipeline_def last_def closed_def)
  have places: "places_ok C [] st" and bounds: "bounds_ok C st" and slots: "slots_ok C st"
    and gen: "genuine_ok P [] st" and reg: "registries_ok st" and cons: "consumer_ok C st" and flags: "flags_ok C st"
    using kept by (simp_all add: kept_def pipeline_inv_def)
  have last: "last = Completed \<Longrightarrow> e = Completed" "known_ending P last"
    using gen leave request
    by (auto simp: last_def genuine_iff ending_of_def may_request_def known_ending_def known_failure_def
        split: option.splits if_splits)
  have pop: "popped ?st = popped st" using leave by (simp add: popped_def popped_by_def)
  have "consumer_ok C ?st" using cons leave last(1) by (auto simp: consumer_ok_def consumer_at_def)
  moreover have "places_ok C [] ?st" using places unfolding places_ok_def pop by (simp add: placed_def)
  moreover have "bounds_ok C ?st" using bounds unfolding bounds_ok_def pop by simp
  moreover have "slots_ok C ?st" using slots by (simp add: slots_ok_def)
  moreover have "genuine_ok P [] ?st" using gen last(2) by (simp add: genuine_iff ending_of_def)
  moreover have all: "set closed = set (pl_closed st) \<union> held_registries st"
    unfolding closed_def held_registries_def by (simp add: set_returned [simplified] Un_assoc)
  then have "registries_ok ?st" using reg by (auto simp: registries_iff)
  moreover have "flags_ok C ?st" using flags leave over fin by (simp add: flags_ok_def leaving_def pipeline_finished_def)
  ultimately show ?thesis by (simp add: st kept_def pipeline_inv_def)
qed

section \<open>Reachable states\<close>

lemma initial_kept:
  assumes "0 < pc_total C" and "0 \<le> pc_spool_registries C"
  shows "kept C P (initial_pipeline C)"
proof -
  have "finite {0..<pc_workers C}" by simp
  then show ?thesis
    using assms
    by (simp add: kept_def pipeline_inv_def initial_pipeline_def consumer_ok_def consumer_at_def places_ok_def placed_def popped_def
        popped_by_def bounds_ok_def slots_ok_def used_slots_def genuine_ok_def registries_ok_def flags_ok_def leaving_def ending_of_def)
qed

lemma step_kept:
  assumes "pipeline_step C P st st'" and kept: "kept C P st"
  shows "kept C P st'"
  using assms(1)
proof cases
  case (Start_analysis i slot)
  have "kept C P ((set_analysis i Running st)\<lparr>pl_opened := pl_opened st\<rparr>)"
    by (rule set_analysis_kept [OF kept Start_analysis(2)]) (simp_all add: future_done_def)
  then show ?thesis using Start_analysis(1) by (simp add: set_analysis_def)
next
  case (Finish_analysis i slot out)
  show ?thesis
    unfolding Finish_analysis(1) finish_analysis_def
    by (rule set_analysis_kept [OF kept Finish_analysis(2)])
      (use Finish_analysis(3) in \<open>auto simp: future_done_def split: sum.splits\<close>)
next
  case (Start_conversion i)
  have "kept C P ((set_conversion i Running st)\<lparr>pl_closed := pl_closed st\<rparr>)"
    by (rule set_conversion_kept [OF kept Start_conversion(2)]) (simp_all add: future_done_def)
  then show ?thesis using Start_conversion(1) by (simp add: set_conversion_def)
next
  case (Finish_conversion i r out)
  have "(i, r) \<in> set (pl_registries st)" using Finish_conversion(3) by (rule map_of_SomeD)
  then have r: "analyses P i (Inr r)" using kept by (simp add: kept_def pipeline_inv_def genuine_iff)
  show ?thesis
    unfolding Finish_conversion(1) finish_conversion_def
    by (rule set_conversion_kept [OF kept Finish_conversion(2)])
      (use Finish_conversion(4) r in \<open>auto simp: future_done_def\<close>)
qed (use kept coordinate_kept check_finished_kept look_kept resume_kept close_kept leave_kept release_kept in \<open>simp_all\<close>)

lemma reachable_kept:
  assumes "pipeline_reachable C P st" and "0 < pc_total C" and "0 \<le> pc_spool_registries C"
  shows "kept C P st"
  using assms(1) by induction (use initial_kept assms(2,3) step_kept in blast)+

end
