(* ===== verification/PipelineLive.thy ===== *)
theory PipelineLive
imports PipelineSafe
begin

text \<open>
  Progress of the native ingestion pipeline: a turn of the coordinator leaves nothing undone that it could
  do, no step raises the work that remains, and as long as the generator has not ended some steps lower it.
\<close>

section \<open>What a turn of the coordinator leaves\<close>

definition coordinator_idle :: "pipeline_config \<Rightarrow> ('r, 'b) pipeline \<Rightarrow> bool" where
  "coordinator_idle C st \<longleftrightarrow> (\<forall>x \<in> set (pl_analysis st). \<not> future_done (snd (snd x))) \<and>
     \<not> (pl_next_conversion st \<in> fst ` set (pl_pending st) \<and> length (pl_conversion st) < pc_domain_batches C) \<and>
     \<not> (pl_next_configuration st < pc_total C \<and> length (pl_analysis st) < pc_workers C \<and> pl_held st < pc_spool_registries C)"

lemma schedule_analyses_exit:
  "schedule_analyses C st = (st', None) \<Longrightarrow>
     \<not> (pl_next_configuration st' < pc_total C \<and> length (pl_analysis st') < pc_workers C \<and> pl_held st' < pc_spool_registries C)"
proof (induction "pc_total C - pl_next_configuration st" arbitrary: st rule: less_induct)
  case less
  show ?case
  proof (cases "pl_next_configuration st < pc_total C \<and> length (pl_analysis st) < pc_workers C
      \<and> pl_held st < pc_spool_registries C")
    case False
    then have "schedule_analyses C st = (st, None)" by (subst schedule_analyses.simps) (simp only: if_False)
    then show ?thesis using less.prems False by simp
  next
    case guard: True
    then have shorter: "pc_total C - pl_next_configuration (schedule_analysis C slot st) < pc_total C - pl_next_configuration st" for slot
      by (simp add: diff_less_mono2)
    have "\<exists>slot. schedule_analyses C (schedule_analysis C slot st) = (st', None)"
    proof (cases "pc_observed C")
      case False
      then have "schedule_analyses C st = schedule_analyses C (schedule_analysis C None st)"
        using guard by (subst schedule_analyses.simps) simp
      then show ?thesis using less.prems by auto
    next
      case True
      show ?thesis
      proof (cases "pl_available st")
        case Nil
        then have "schedule_analyses C st = (st, Some IndexError)" using guard True by (subst schedule_analyses.simps) simp
        then show ?thesis using less.prems by simp
      next
        case (Cons s slots)
        then have "schedule_analyses C st = schedule_analyses C (schedule_analysis C (Some s) st)"
          using guard True by (subst schedule_analyses.simps) simp
        then show ?thesis using less.prems by auto
      qed
    qed
    then show ?thesis using less.hyps [OF shorter] by blast
  qed
qed

lemma start_conversions_exit:
  "map_of (pl_pending (start_conversions C st)) (pl_next_conversion (start_conversions C st)) = Some r \<Longrightarrow>
     \<not> length (pl_conversion (start_conversions C st)) < pc_domain_batches C"
proof (induction "length (pl_pending st)" arbitrary: st rule: less_induct)
  case less
  show ?case
  proof (cases "map_of (pl_pending st) (pl_next_conversion st)")
    case None
    then have "start_conversions C st = st" by (subst start_conversions.simps) simp
    then show ?thesis using less.prems None by simp
  next
    case (Some q)
    show ?thesis
    proof (cases "length (pl_conversion st) < pc_domain_batches C")
      case True
      then have "start_conversions C st = start_conversions C (start_conversion q st)"
        using Some by (subst start_conversions.simps) simp
      moreover have "length (pl_pending (start_conversion q st)) < length (pl_pending st)"
        using Some by (simp add: start_conversion_def Let_def filter_key_shorter)
      ultimately show ?thesis using less.hyps less.prems by simp
    next
      case False
      then have "start_conversions C st = st" using Some by (subst start_conversions.simps) simp
      then show ?thesis using False by simp
    qed
  qed
qed

lemma collect_fold_analysis:
  "pl_analysis (fst (fold (collect_analysis C) xs acc)) = filter (\<lambda>y. fst y \<notin> fst ` set xs) (pl_analysis (fst acc))"
  by (induction xs arbitrary: acc) (simp_all add: collect_analysis_keeps conj_commute)

lemma coordinate_idle:
  assumes "\<not> pl_checking st" and "pl_checking (coordinate C request st)"
  shows "coordinator_idle C (coordinate C request st)"
proof -
  have scan: "pl_checking (fst (collect_analysis C x acc)) = pl_checking (fst acc)" for x acc
    by (auto simp: collect_analysis_def Let_def split_beta split: future.splits sum.splits)
  have fold_checking: "pl_checking (fst (fold (collect_analysis C) xs acc)) = pl_checking (fst acc)" for xs acc
    by (induction xs arbitrary: acc) (simp_all add: scan)
  obtain st1 failed where c: "fold (collect_analysis C) (completed_analysis st) (st, []) = (st1, failed)" by fastforce
  define st2 where "st2 = start_conversions C st1"
  obtain st3 crash where s: "schedule_analyses C st2 = (st3, crash)" by fastforce
  have st2: "pl_analysis st2 = pl_analysis st1 \<and> pl_checking st2 = pl_checking st1" unfolding st2_def
    by (rule start_conversions_rule [where P = "\<lambda>s. pl_analysis s = pl_analysis st1 \<and> pl_checking s = pl_checking st1"])
      (simp_all add: start_conversion_def Let_def)
  have st1: "\<not> future_done (snd (snd x))" if "x \<in> set (pl_analysis st1)" for x
    using that collect_fold_analysis [of C "completed_analysis st" "(st, [])"] c
    by (auto simp: completed_analysis_set image_iff)
  have st3: "(\<forall>x \<in> set (pl_analysis st3). \<not> future_done (snd (snd x))) \<and> pl_pending st3 = pl_pending st2 \<and>
      pl_next_conversion st3 = pl_next_conversion st2 \<and> pl_conversion st3 = pl_conversion st2 \<and> pl_checking st3 = pl_checking st2"
    using schedule_analyses_rule [where P = "\<lambda>s. (\<forall>x \<in> set (pl_analysis s). \<not> future_done (snd (snd x))) \<and> pl_pending s = pl_pending st2 \<and>
      pl_next_conversion s = pl_next_conversion st2 \<and> pl_conversion s = pl_conversion st2 \<and> pl_checking s = pl_checking st2", OF _ s] st1 st2
    by (simp add: future_done_def)
  have "\<not> pl_checking st1" using fold_checking [of "completed_analysis st" "(st, [])"] c assms(1) by simp
  then have "coordinate C request st = st3\<lparr>pl_checking := True\<rparr> \<and> crash = None"
    using assms c s st2 st3
    by (auto simp: coordinate_def abort_pipeline_def crash_pipeline_def st2_def split: option.splits if_splits)
  moreover from this have "\<not> (pl_next_configuration st3 < pc_total C \<and> length (pl_analysis st3) < pc_workers C \<and> pl_held st3 < pc_spool_registries C)"
    using schedule_analyses_exit s by blast
  moreover have "\<not> (pl_next_conversion st2 \<in> fst ` set (pl_pending st2) \<and> length (pl_conversion st2) < pc_domain_batches C)"
  proof
    assume ready: "pl_next_conversion st2 \<in> fst ` set (pl_pending st2) \<and> length (pl_conversion st2) < pc_domain_batches C"
    then obtain r where "map_of (pl_pending st2) (pl_next_conversion st2) = Some r"
      by (metis map_of_eq_None_iff not_None_eq)
    then show False using ready start_conversions_exit [of C st1] by (simp add: st2_def)
  qed
  ultimately show ?thesis using st3 by (simp add: coordinator_idle_def)
qed

section \<open>The work that remains\<close>

definition future_work :: "'a future \<Rightarrow> nat" where
  "future_work f = (case f of Queued \<Rightarrow> 2 | Running \<Rightarrow> 1 | _ \<Rightarrow> 0)"

definition consumer_work :: "nat \<Rightarrow> consumer \<Rightarrow> nat" where
  "consumer_work n c = (case c of Awaiting i \<Rightarrow> 3 * (n - i) + 5 | Holding i \<Rightarrow> 3 * (n - i) + 4 | Quitting e \<Rightarrow> 2
     | Leaving e \<Rightarrow> 1 | Gone e \<Rightarrow> 0)"

definition remaining_work :: "pipeline_config \<Rightarrow> ('r, 'b) pipeline \<Rightarrow> nat" where
  "remaining_work C st = 7 * (pc_total C - pl_next_configuration st) +
     sum_list (map (\<lambda>x. 4 + future_work (snd (snd x))) (pl_analysis st)) + 3 * length (pl_pending st) +
     sum_list (map (\<lambda>x. future_work (snd x)) (pl_conversion st)) + consumer_work (pc_total C) (pl_consumer st) +
     (if pl_coordinating st then 1 else 0)"

lemma sum_filter_le: "sum_list (map f (filter p xs)) \<le> sum_list (map f xs)" for f :: "'a \<Rightarrow> nat"
  by (induction xs) auto

lemma sum_filter_less:
  fixes f :: "'a \<Rightarrow> nat"
  assumes "x \<in> set xs" and "\<not> p x"
  shows "sum_list (map f (filter p xs)) + f x \<le> sum_list (map f xs)"
  using assms
proof (induction xs)
  case (Cons y xs)
  then show ?case using sum_filter_le [of f p xs] by (cases "x = y") auto
qed simp

lemma sum_update_le: "sum_list (map f (AList.update k v d)) \<le> sum_list (map f d) + f (k, v)" for f :: "'a \<times> 'b \<Rightarrow> nat"
  by (induction d) auto

lemma length_update_le: "length (AList.update k v d) \<le> Suc (length d)"
  by (induction d) auto

lemma sum_set:
  fixes f :: "'a \<times> 'c \<Rightarrow> nat"
  assumes "distinct (map fst d)" and "y \<in> set d"
  shows "sum_list (map (\<lambda>x. if fst x = fst y then a else f x) d) + f y = sum_list (map f d) + a"
  using assms
proof (induction d)
  case (Cons x d)
  show ?case
  proof (cases "x = y")
    case True
    have "map (\<lambda>x. if fst x = fst y then a else f x) d = map f d"
      using Cons.prems(1) True by (intro map_cong refl) (auto simp: rev_image_eqI)
    from arg_cong [OF this, of sum_list] show ?thesis using True by simp
  next
    case False
    then have "y \<in> set d" "fst x \<noteq> fst y" using Cons.prems by (auto simp: rev_image_eqI)
    then show ?thesis using Cons by simp
  qed
qed simp

lemma collect_work:
  assumes "x \<in> set (pl_analysis st)"
  shows "remaining_work C (fst (collect_analysis C' x (st, fs))) < remaining_work C st"
proof -
  let ?f = "\<lambda>x. 4 + future_work (snd (snd x))"
  have "sum_list (map ?f (filter (\<lambda>y. fst y \<noteq> fst x) (pl_analysis st))) + 4 \<le> sum_list (map ?f (pl_analysis st))"
    using sum_filter_less [OF assms, of "\<lambda>y. fst y \<noteq> fst x" ?f] by simp
  note less = this
  show ?thesis
  proof (cases "\<exists>r. snd (snd x) = Finished (Inr r)")
    case True
    then obtain r where "snd (snd x) = Finished (Inr r)" by blast
    then show ?thesis
      using less length_update_le [of "fst x" r "pl_pending st"] by (simp add: collect_analysis_def Let_def remaining_work_def split_beta)
  next
    case False
    then show ?thesis
      using less by (auto simp: collect_analysis_def Let_def remaining_work_def split_beta split: future.splits sum.splits)
  qed
qed

lemma start_conversion_work:
  assumes "map_of (pl_pending st) (pl_next_conversion st) = Some r"
  shows "remaining_work C (start_conversion r st) < remaining_work C st"
  using filter_key_shorter [OF assms] sum_update_le [of "\<lambda>x. future_work (snd x)" "pl_next_conversion st" Queued "pl_conversion st"]
  by (simp add: start_conversion_def Let_def remaining_work_def future_work_def)

lemma schedule_analysis_work:
  assumes "pl_next_configuration st < pc_total C"
  shows "remaining_work C (schedule_analysis C slot st) < remaining_work C st"
  using assms by (simp add: remaining_work_def future_work_def)

lemma cancel_work: "remaining_work C (cancel_futures st) \<le> remaining_work C st"
proof -
  have "future_work (cancel_future f) \<le> future_work f" for f :: "'c future"
    by (simp add: future_work_def cancel_future_def split: future.splits)
  then have "sum_list (map (\<lambda>x. 4 + future_work (snd (snd x))) (pl_analysis (cancel_futures st)))
      \<le> sum_list (map (\<lambda>x. 4 + future_work (snd (snd x))) (pl_analysis st))"
    "sum_list (map (\<lambda>x. future_work (snd x)) (pl_conversion (cancel_futures st))) \<le> sum_list (map (\<lambda>x. future_work (snd x)) (pl_conversion st))"
    by (auto simp: cancel_futures_def comp_def split_def intro!: sum_list_mono)
  then show ?thesis by (simp add: remaining_work_def)
qed

lemma flag_work:
  "remaining_work C (st\<lparr>pl_checking := b\<rparr>) = remaining_work C st" "remaining_work C (st\<lparr>pl_failure := f\<rparr>) = remaining_work C st"
  "remaining_work C (st\<lparr>pl_opened := l\<rparr>) = remaining_work C st" "remaining_work C (st\<lparr>pl_closed := l\<rparr>) = remaining_work C st"
  "remaining_work C (st\<lparr>pl_stopped := b\<rparr>) = remaining_work C st" "remaining_work C (st\<lparr>pl_published := p\<rparr>) = remaining_work C st"
  by (simp_all add: remaining_work_def)

lemma return_work:
  "pl_coordinating st \<Longrightarrow> remaining_work C (st\<lparr>pl_coordinating := False\<rparr>) < remaining_work C st"
  by (simp add: remaining_work_def)

lemma consumer_less_work:
  "consumer_work (pc_total C) c < consumer_work (pc_total C) (pl_consumer st) \<Longrightarrow>
     remaining_work C (st\<lparr>pl_consumer := c\<rparr>) < remaining_work C st"
  by (simp add: remaining_work_def)

lemma coordinate_work:
  assumes kept: "kept C P st" and on: "pl_coordinating st" "\<not> pl_checking st" and request: "may_request P request"
  shows "pl_consumer (coordinate C request st) = pl_consumer st \<and>
    (remaining_work C (coordinate C request st) < remaining_work C st \<or> coordinate C request st = st\<lparr>pl_checking := True\<rparr>)"
proof (cases "pl_stopped st")
  case True
  then show ?thesis using return_work [OF on(1)] by (simp add: coordinate_def)
next
  case False
  have scan: "scanning st" using kept on False by (simp add: kept_def flags_ok_def scanning_def)
  have fails: "remaining_work C (abort_pipeline e s) < remaining_work C s \<and> pl_consumer (abort_pipeline e s) = pl_consumer s"
    if "scanning s" for e s
  proof -
    have "remaining_work C ((cancel_futures s)\<lparr>pl_coordinating := False\<rparr>) < remaining_work C (cancel_futures s)"
      by (rule return_work) (use that in \<open>simp add: scanning_def\<close>)
    then show ?thesis using cancel_work [of C s] by (simp add: abort_pipeline_def remaining_work_def)
  qed
  let ?P = "\<lambda>fs s. pipeline_inv C P fs s \<and> scanning s \<and> pl_consumer s = pl_consumer st \<and>
    (remaining_work C s < remaining_work C st \<or> s = st \<and> fs = [])"
  show ?thesis
  proof (rule coordinate_rule [where P = ?P])
    show "?P [] st" using kept scan by (simp add: kept_def)
    show "\<not> pl_stopped st" by (rule False)
    show "distinct (map fst (pl_analysis s))" if "?P fs s" for fs s
      using that by (simp add: pipeline_inv_def places_ok_def placed_def)
    show "pl_consumer (abort_pipeline e s) = pl_consumer st \<and>
        (remaining_work C (abort_pipeline e s) < remaining_work C st \<or> abort_pipeline e s = st\<lparr>pl_checking := True\<rparr>)"
      if "?P fs s" for fs s e
      using that fails [of s e] less_trans by auto
    show "?P (snd (collect_analysis C x (s, fs))) (fst (collect_analysis C x (s, fs)))"
      if p: "?P fs s" and x: "x \<in> set (pl_analysis s)" and fin: "future_done (snd (snd x))" for fs s x
    proof -
      have "pl_consumer (fst (collect_analysis C x (s, fs))) = pl_consumer s"
        by (auto simp: collect_analysis_def Let_def split_beta split: future.splits sum.splits)
      moreover have "remaining_work C (fst (collect_analysis C x (s, fs))) < remaining_work C st"
        using collect_work [OF x, of C C fs] p by auto
      ultimately show ?thesis using collect_inv [of C P fs s, OF _ _ x fin] p by simp
    qed
    show "?P [] (start_conversion r s)"
      if p: "?P [] s" and r: "map_of (pl_pending s) (pl_next_conversion s) = Some r" and room: "length (pl_conversion s) < pc_domain_batches C" for s r
    proof -
      have "pl_consumer (start_conversion r s) = pl_consumer s" by (simp add: start_conversion_def Let_def)
      moreover have "remaining_work C (start_conversion r s) < remaining_work C st"
        using start_conversion_work [OF r, of C] p by auto
      ultimately show ?thesis using start_conversion_inv [of C P s, OF _ _ r room] p by simp
    qed
    show "?P [] (schedule_analysis C slot s)"
      if p: "?P [] s" and n: "pl_next_configuration s < pc_total C" and room: "length (pl_analysis s) < pc_workers C"
        "pl_held s < pc_spool_registries C"
        and slot: "if pc_observed C then \<exists>t slots. slot = Some t \<and> pl_available s = t # slots else slot = None" for s slot
      using p schedule_analysis_work [OF n, of slot] schedule_analysis_inv [OF _ _ n room slot, of P] by auto
    show "pl_consumer (crash_pipeline IndexError s) = pl_consumer st \<and>
        (remaining_work C (crash_pipeline IndexError s) < remaining_work C st \<or> crash_pipeline IndexError s = st\<lparr>pl_checking := True\<rparr>)"
      if "?P [] s" "pc_observed C" "pl_available s = []" "length (pl_analysis s) < pc_workers C" for s
      using slots_left [of C s] that by (simp add: pipeline_inv_def)
    show "pl_consumer (s\<lparr>pl_checking := True\<rparr>) = pl_consumer st \<and>
        (remaining_work C (s\<lparr>pl_checking := True\<rparr>) < remaining_work C st \<or> s\<lparr>pl_checking := True\<rparr> = st\<lparr>pl_checking := True\<rparr>)"
      if "?P [] s" for s
      using that by (auto simp: flag_work)
  qed
qed

lemma set_analysis_work:
  assumes "distinct (map fst (pl_analysis st))" and "(i, slot, g) \<in> set (pl_analysis st)" and "future_work f < future_work g"
  shows "remaining_work C (set_analysis i f st) < remaining_work C st"
proof -
  have "map (\<lambda>x. 4 + future_work (snd (snd x))) (pl_analysis (set_analysis i f st))
      = map (\<lambda>x. if fst x = i then 4 + future_work f else 4 + future_work (snd (snd x))) (pl_analysis st)"
    by (auto simp: set_analysis_def)
  then have "sum_list (map (\<lambda>x. 4 + future_work (snd (snd x))) (pl_analysis (set_analysis i f st))) + (4 + future_work g)
      = sum_list (map (\<lambda>x. 4 + future_work (snd (snd x))) (pl_analysis st)) + (4 + future_work f)"
    using sum_set [OF assms(1,2), of "4 + future_work f" "\<lambda>x. 4 + future_work (snd (snd x))"] by simp
  then show ?thesis using assms(3) by (simp add: remaining_work_def)
qed

lemma set_conversion_work:
  assumes "distinct (map fst (pl_conversion st))" and "(i, g) \<in> set (pl_conversion st)" and "future_work f < future_work g"
  shows "remaining_work C (set_conversion i f st) < remaining_work C st"
proof -
  have "map (\<lambda>x. future_work (snd x)) (pl_conversion (set_conversion i f st))
      = map (\<lambda>x. if fst x = i then future_work f else future_work (snd x)) (pl_conversion st)"
    by (auto simp: set_conversion_def)
  then have "sum_list (map (\<lambda>x. future_work (snd x)) (pl_conversion (set_conversion i f st))) + future_work g
      = sum_list (map (\<lambda>x. future_work (snd x)) (pl_conversion st)) + future_work f"
    using sum_set [OF assms(1,2), of "future_work f" "\<lambda>x. future_work (snd x)"] by simp
  then show ?thesis using assms(3) by (simp add: remaining_work_def)
qed

end
