(* ===== verification/PipelineEnd.thy ===== *)
theory PipelineEnd
imports PipelineLive
begin

text \<open>
  The native ingestion pipeline ends: no step raises the work that remains, from every reachable state steps lower it
  until the generator has ended, and without failures it ends with every batch published.
\<close>

lemma look_cases:
  "look request i st = st \<or> (\<exists>e. look request i st = st\<lparr>pl_consumer := Quitting e\<rparr>) \<or>
     (\<exists>b. look request i st = st\<lparr>pl_published := pl_published st @ [(i, b)], pl_consumer := Holding i\<rparr>)"
proof (cases "request = None \<and> pl_failure st = None")
  case True
  then show ?thesis
    by (cases "map_of (pl_conversion st) i") (auto simp: look_def split: future.split sum.split)
next
  case False
  then show ?thesis by (auto simp: look_def split: option.split)
qed

lemma look_work: "pl_consumer st = Awaiting i \<Longrightarrow> remaining_work C (look request i st) < remaining_work C st \<or> look request i st = st"
proof -
  assume wait: "pl_consumer st = Awaiting i"
  have "remaining_work C (st\<lparr>pl_consumer := Quitting e\<rparr>) < remaining_work C st" for e
    by (rule consumer_less_work) (simp add: wait consumer_work_def)
  moreover have "remaining_work C (st\<lparr>pl_published := p, pl_consumer := Holding i\<rparr>) < remaining_work C st" for p
    by (simp add: wait remaining_work_def consumer_work_def)
  ultimately show ?thesis using look_cases [of request i st] by metis
qed

lemma drop_batch_work:
  assumes hold: "pl_consumer st = Holding i" and c: "consumer_work (pc_total C) c < consumer_work (pc_total C) (Holding i)"
  shows "remaining_work C ((drop_batch C i st)\<lparr>pl_consumer := c\<rparr>) < remaining_work C st"
  using c sum_filter_le [of "\<lambda>x. future_work (snd x)" "\<lambda>x. fst x \<noteq> i" "pl_conversion st"]
  by (simp add: remaining_work_def drop_batch_def hold)

lemma resume_work:
  assumes "pl_consumer st = Holding i"
  shows "remaining_work C (resume C changed i st) < remaining_work C st"
  using drop_batch_work [OF assms, of C] by (auto simp: resume_def Let_def consumer_work_def diff_less_mono2)

lemma close_work:
  assumes "pl_consumer st = Holding i"
  shows "remaining_work C (close_generator C i st) < remaining_work C st"
  using drop_batch_work [OF assms, of C] by (auto simp: close_generator_def consumer_work_def)

lemma leave_work:
  assumes "pl_consumer st = Quitting e"
  shows "remaining_work C (leave_pipeline e st) < remaining_work C st"
proof -
  have "remaining_work C ((cancel_futures st)\<lparr>pl_consumer := Leaving e\<rparr>) < remaining_work C (cancel_futures st)"
    by (rule consumer_less_work) (simp add: assms consumer_work_def)
  moreover have "remaining_work C (leave_pipeline e st) = remaining_work C ((cancel_futures st)\<lparr>pl_consumer := Leaving e\<rparr>)"
    by (simp add: leave_pipeline_def remaining_work_def)
  ultimately show ?thesis using cancel_work [of C st] by simp
qed

lemma release_work:
  assumes "pl_consumer st = Leaving e"
  shows "remaining_work C (release_pipeline e t st) < remaining_work C st"
  by (simp add: release_pipeline_def remaining_work_def assms consumer_work_def)

lemma step_work:
  assumes "pipeline_step C P st st'" and kept: "kept C P st"
  shows "remaining_work C st' \<le> remaining_work C st"
proof -
  have dist: "distinct (map fst (pl_analysis st))" "distinct (map fst (pl_conversion st))"
    using kept by (simp_all add: kept_def pipeline_inv_def places_ok_def placed_def)
  show ?thesis
    using assms(1)
  proof cases
    case (Coordinate request)
    then show ?thesis using coordinate_work [OF kept] by (fastforce simp: flag_work)
  next
    case Check
    then have "pl_coordinating st" using kept by (simp add: kept_def flags_ok_def)
    then show ?thesis using Check by (simp add: check_finished_def remaining_work_def)
  next
    case (Look i request)
    then show ?thesis using look_work [of st i C request] by auto
  next
    case (Start_analysis i slot)
    then show ?thesis using set_analysis_work [OF dist(1) Start_analysis(2), of Running C] by (simp add: future_work_def)
  next
    case (Finish_analysis i slot out)
    then show ?thesis using set_analysis_work [OF dist(1) Finish_analysis(2), of "Finished out" C]
      by (simp add: future_work_def finish_analysis_def flag_work)
  next
    case (Start_conversion i)
    then show ?thesis using set_conversion_work [OF dist(2) Start_conversion(2), of Running C] by (simp add: future_work_def)
  next
    case (Finish_conversion i r out)
    then show ?thesis using set_conversion_work [OF dist(2) Finish_conversion(2), of "Finished out" C]
      by (simp add: future_work_def finish_conversion_def flag_work)
  qed (simp_all add: resume_work close_work leave_work release_work less_imp_le)
qed

section \<open>Progress\<close>

text \<open>What makes progress possible: room for one configuration, and callables that end.\<close>

definition runnable :: "pipeline_config \<Rightarrow> ('r, 'b) callables \<Rightarrow> bool" where
  "runnable C P \<longleftrightarrow> 0 < pc_total C \<and> 0 < pc_workers C \<and> 0 < pc_spool_registries C \<and> 0 < pc_domain_batches C \<and>
     (\<forall>i. \<exists>out. analyses P i out) \<and> (\<forall>i r. \<exists>out. conversions P i r out)"

text \<open>The generator has not failed and has not been closed.\<close>

definition undisturbed :: "('r, 'b) pipeline \<Rightarrow> bool" where
  "undisturbed st \<longleftrightarrow> (\<forall>e. ending_of (pl_consumer st) = Some e \<longrightarrow> e = Completed)"

definition advance :: "pipeline_config \<Rightarrow> ('r, 'b) callables \<Rightarrow> ('r, 'b) pipeline \<Rightarrow> ('r, 'b) pipeline \<Rightarrow> bool" where
  "advance C P st st' \<longleftrightarrow> pipeline_step C P st st' \<and> remaining_work C st' < remaining_work C st \<and>
     ((\<forall>e. \<not> known_failure P e) \<longrightarrow> undisturbed st \<longrightarrow> undisturbed st')"

lemma advance_same_consumer:
  assumes "pipeline_step C P st st'" and "remaining_work C st' < remaining_work C st" and "pl_consumer st' = pl_consumer st"
  shows "advance C P st st'"
  using assms by (simp add: advance_def undisturbed_def)

lemma advance_analysis:
  assumes kept: "kept C P st" and run: "runnable C P" and mem: "(i, slot, f) \<in> set (pl_analysis st)" and live: "\<not> future_done f"
  shows "\<exists>st'. advance C P st st'"
proof -
  have dist: "distinct (map fst (pl_analysis st))"
    using kept by (simp add: kept_def pipeline_inv_def places_ok_def placed_def)
  show ?thesis
  proof (cases f)
    case Queued
    show ?thesis
      by (rule exI, rule advance_same_consumer [OF pipeline_step.Start_analysis [of i slot]])
        (use mem Queued set_analysis_work [OF dist mem, of Running C] in \<open>simp_all add: future_work_def\<close>)
  next
    case Running
    obtain out where "analyses P i out" using run unfolding runnable_def by blast
    then show ?thesis
      by (intro exI, rule_tac advance_same_consumer [OF pipeline_step.Finish_analysis [of i slot]])
        (use mem Running set_analysis_work [OF dist mem, of "Finished out" C] in \<open>simp_all add: future_work_def finish_analysis_def flag_work\<close>)
  qed (use live in \<open>simp_all add: future_done_def\<close>)
qed

lemma advance_conversion:
  assumes kept: "kept C P st" and run: "runnable C P" and mem: "(i, f) \<in> set (pl_conversion st)" and live: "\<not> future_done f"
  shows "\<exists>st'. advance C P st st'"
proof -
  have keys: "distinct (map fst (pl_conversion st))" "map fst (pl_registries st) = map fst (pl_conversion st)"
    using kept by (simp_all add: kept_def pipeline_inv_def places_ok_def)
  show ?thesis
  proof (cases f)
    case Queued
    show ?thesis
      by (rule exI, rule advance_same_consumer [OF pipeline_step.Start_conversion [of i]])
        (use mem Queued set_conversion_work [OF keys(1) mem, of Running C] in \<open>simp_all add: future_work_def\<close>)
  next
    case Running
    have "i \<in> set (map fst (pl_registries st))" using keys(2) mem by force
    then obtain r where "map_of (pl_registries st) i = Some r" by (metis list.set_map map_of_eq_None_iff not_None_eq)
    moreover obtain out where "conversions P i r out" using run unfolding runnable_def by blast
    ultimately show ?thesis
      by (intro exI, rule_tac advance_same_consumer [OF pipeline_step.Finish_conversion [of i]])
        (use mem Running set_conversion_work [OF keys(1) mem, of "Finished out" C] in \<open>simp_all add: future_work_def finish_conversion_def flag_work\<close>)
  qed (use live in \<open>simp_all add: future_done_def\<close>)
qed

text \<open>While the generator waits for a batch that is not being converted, the coordinator has something to do.\<close>

lemma waiting_not_idle:
  assumes kept: "kept C P st" and run: "runnable C P" and wait: "pl_consumer st = Awaiting i"
    and calm: "pl_failure st = None" and none: "map_of (pl_conversion st) i = None"
    and fin: "\<And>x. x \<in> set (pl_analysis st) \<Longrightarrow> future_done (snd (snd x))"
  shows "pl_coordinating st \<and> \<not> coordinator_idle C st"
proof -
  have places: "places_ok C [] st" and bounds: "bounds_ok C st" and cons: "consumer_ok C st" and flags: "flags_ok C st"
    using kept by (simp_all add: kept_def pipeline_inv_def)
  have n: "length (pl_published st) = i" "i < pc_total C" using cons wait by (simp_all add: consumer_ok_def consumer_at_def)
  have pop: "popped st = i" using wait n by (simp add: popped_def popped_by_def)
  have keys: "map fst (pl_conversion st) = [i..<pl_next_conversion st]" "i \<le> pl_next_conversion st"
    using places pop by (simp_all add: places_ok_def)
  have "i \<notin> set (map fst (pl_conversion st))" using none by (simp add: map_of_eq_None_iff)
  then have "i \<notin> set [i..<pl_next_conversion st]" unfolding keys(1) .
  then have nc: "pl_next_conversion st = i" using keys(2) by simp
  then have empty: "pl_conversion st = []" using keys(1) by simp
  have running: "\<not> pl_cancelled st" using flags calm wait by (simp add: flags_ok_def leaving_def)
  then have full: "set (placed [] st) = {i..<pl_next_configuration st}" using places nc by (simp add: places_ok_def)
  have coordinating: "pl_coordinating st"
  proof (rule ccontr)
    assume "\<not> pl_coordinating st"
    then have "pipeline_finished C st" using flags running by (simp add: flags_ok_def)
    then have "placed [] st = []" "pl_next_configuration st = pc_total C" by (simp_all add: pipeline_finished_def placed_def)
    then show False using full n by simp
  qed
  moreover have "\<not> coordinator_idle C st"
  proof
    assume idle: "coordinator_idle C st"
    then have "\<forall>x \<in> set (pl_analysis st). \<not> future_done (snd (snd x))" by (simp add: coordinator_idle_def)
    then have analysis: "pl_analysis st = []" using fin [of "hd (pl_analysis st)"] by (metis hd_in_set)
    then have pend: "set (map fst (pl_pending st)) = {i..<pl_next_configuration st}" using full by (simp add: placed_def)
    show False
    proof (cases "i < pl_next_configuration st")
      case True
      then have "i \<in> fst ` set (pl_pending st)" using pend by simp
      then show False using idle run empty nc by (simp add: coordinator_idle_def runnable_def)
    next
      case False
      then have "pl_held st = 0" "pl_next_configuration st = i" using bounds pop places nc by (simp_all add: bounds_ok_def places_ok_def)
      then show False using idle run n(2) analysis by (simp add: coordinator_idle_def runnable_def)
    qed
  qed
  ultimately show ?thesis by blast
qed

lemma idle_checking:
  "coordinator_idle C (st\<lparr>pl_checking := True\<rparr>) = coordinator_idle C st" "pl_checking (st\<lparr>pl_checking := True\<rparr>)"
  by (simp_all add: coordinator_idle_def)

lemma advance_unlocked:
  assumes kept: "kept C P st" and run: "runnable C P" and open_lock: "\<not> pl_checking st" and unended: "\<And>e. pl_consumer st \<noteq> Gone e"
  shows "\<exists>st'. advance C P st st'"
proof (cases "(\<forall>(i, slot, f) \<in> set (pl_analysis st). future_done f) \<and> (\<forall>(i, f) \<in> set (pl_conversion st). future_done f)")
  case False
  then show ?thesis using advance_analysis [OF kept run] advance_conversion [OF kept run] by blast
next
  case True
  then have fin: "list_all (\<lambda>x. future_done (snd (snd x))) (pl_analysis st)" "list_all (\<lambda>x. future_done (snd x)) (pl_conversion st)"
    by (auto simp: list_all_iff)
  have request: "may_request P None" by (simp add: may_request_def)
  show ?thesis
  proof (cases "pl_consumer st")
    case (Holding i)
    have "advance C P st (resume C False i st)"
      unfolding advance_def undisturbed_def using pipeline_step.Resume [OF Holding open_lock] resume_work [OF Holding]
      by (simp add: resume_def Let_def ending_of_def)
    then show ?thesis by blast
  next
    case (Quitting e)
    have "advance C P st (leave_pipeline e st)"
      unfolding advance_def undisturbed_def using pipeline_step.Quit [OF Quitting open_lock] leave_work [OF Quitting]
      by (simp add: leave_pipeline_def ending_of_def Quitting)
    then show ?thesis by blast
  next
    case (Leaving e)
    show ?thesis
    proof (cases "pl_coordinating st")
      case True
      have "pl_stopped st" using kept Leaving by (simp add: kept_def flags_ok_def leaving_def)
      then have "advance C P st (coordinate C None st)"
        using pipeline_step.Coordinate [OF True open_lock request] return_work [OF True]
        by (intro advance_same_consumer) (simp_all add: coordinate_def)
      then show ?thesis by blast
    next
      case False
      have "advance C P st (release_pipeline e None st)"
        unfolding advance_def undisturbed_def
        using pipeline_step.Release [OF Leaving False fin, of None] request release_work [OF Leaving, of C None]
        by (simp add: release_pipeline_def ending_of_def Leaving)
      then show ?thesis by blast
    qed
  next
    case (Awaiting i)
    have gen: "genuine_ok P [] st" and flags: "flags_ok C st" using kept by (simp_all add: kept_def pipeline_inv_def)
    show ?thesis
    proof (cases "pl_failure st = None \<and> map_of (pl_conversion st) i = None")
      case True
      then have wait: "pl_coordinating st \<and> \<not> coordinator_idle C st"
        using waiting_not_idle [OF kept run Awaiting] fin(1) by (simp add: list_all_iff)
      then have "coordinate C None st \<noteq> st\<lparr>pl_checking := True\<rparr>"
        using coordinate_idle [OF open_lock, of C None] by (metis idle_checking(1,2))
      then have "advance C P st (coordinate C None st)"
        using coordinate_work [OF kept _ open_lock request] pipeline_step.Coordinate [OF _ open_lock request] wait
        by (intro advance_same_consumer) auto
      then show ?thesis by blast
    next
      case False
      have "look None i st \<noteq> st \<and> ((\<forall>e. \<not> known_failure P e) \<longrightarrow> undisturbed (look None i st))"
      proof (cases "pl_failure st")
        case (Some e)
        then show ?thesis using gen Awaiting by (auto simp: look_def genuine_iff dest!: arg_cong [of _ _ pl_consumer])
      next
        case None
        then obtain f where f: "map_of (pl_conversion st) i = Some f" using False by auto
        then have mem: "(i, f) \<in> set (pl_conversion st)" by (rule map_of_SomeD)
        then have "future_done f" using fin(2) by (auto simp: list_all_iff)
        moreover have "f \<noteq> Cancelled" using flags mem None Awaiting by (auto simp: flags_iff leaving_def)
        ultimately obtain out where out: "f = Finished out" by (cases f) (simp_all add: future_done_def)
        show ?thesis
        proof (cases out)
          case (Inl e)
          then have "known_failure P e" using gen mem out unfolding genuine_iff known_failure_def by blast
          then show ?thesis using Awaiting None f out Inl by (auto simp: look_def dest!: arg_cong [of _ _ pl_consumer])
        next
          case (Inr b)
          then show ?thesis using Awaiting None f out
            by (auto simp: look_def undisturbed_def ending_of_def dest!: arg_cong [of _ _ pl_consumer])
        qed
      qed
      then have "advance C P st (look None i st)"
        unfolding advance_def using pipeline_step.Look [OF Awaiting open_lock request] look_work [OF Awaiting, of C None] by auto
      then show ?thesis by blast
    qed
  qed (use unended in simp)
qed

lemma progress:
  assumes kept: "kept C P st" and run: "runnable C P" and unended: "\<And>e. pl_consumer st \<noteq> Gone e"
  shows "\<exists>st'. (pipeline_step C P)\<^sup>*\<^sup>* st st' \<and> remaining_work C st' < remaining_work C st \<and>
    ((\<forall>e. \<not> known_failure P e) \<longrightarrow> undisturbed st \<longrightarrow> undisturbed st')"
proof (cases "pl_checking st")
  case False
  from advance_unlocked [OF kept run False unended] show ?thesis by (auto simp: advance_def)
next
  case True
  let ?st = "check_finished C st"
  have step: "pipeline_step C P st ?st" using True by (rule pipeline_step.Check)
  have on: "pl_coordinating st" using kept True by (simp add: kept_def flags_ok_def)
  have same: "pl_consumer ?st = pl_consumer st" "\<not> pl_checking ?st" by (simp_all add: check_finished_def)
  show ?thesis
  proof (cases "pipeline_finished C st")
    case True
    then have "remaining_work C ?st < remaining_work C st" using on by (simp add: check_finished_def remaining_work_def)
    moreover have "undisturbed ?st = undisturbed st" by (simp only: undisturbed_def same)
    ultimately show ?thesis using step by blast
  next
    case False
    have work: "remaining_work C ?st = remaining_work C st" using on False by (simp add: check_finished_def remaining_work_def)
    have "kept C P ?st" using check_finished_kept [OF kept True] .
    from advance_unlocked [OF this run same(2)] unended same(1) obtain st' where "advance C P ?st st'" by auto
    then have st': "pipeline_step C P ?st st'" "remaining_work C st' < remaining_work C st"
      "(\<forall>e. \<not> known_failure P e) \<longrightarrow> undisturbed ?st \<longrightarrow> undisturbed st'" using work by (simp_all add: advance_def)
    moreover have "undisturbed ?st = undisturbed st" by (simp only: undisturbed_def same)
    moreover have "(pipeline_step C P)\<^sup>*\<^sup>* st st'" using step st'(1) by (rule converse_rtranclp_into_rtranclp [OF _ r_into_rtranclp])
    ultimately show ?thesis by blast
  qed
qed

lemma reaches_the_end:
  assumes "kept C P st" and run: "runnable C P"
  shows "\<exists>st' e. (pipeline_step C P)\<^sup>*\<^sup>* st st' \<and> pl_consumer st' = Gone e \<and>
    ((\<forall>e. \<not> known_failure P e) \<longrightarrow> undisturbed st \<longrightarrow> e = Completed)"
  using assms(1)
proof (induction "remaining_work C st" arbitrary: st rule: less_induct)
  case less
  show ?case
  proof (cases "\<exists>e. pl_consumer st = Gone e")
    case True
    then show ?thesis by (auto simp: undisturbed_def ending_of_def)
  next
    case False
    then obtain st1 where st1: "(pipeline_step C P)\<^sup>*\<^sup>* st st1" "remaining_work C st1 < remaining_work C st"
      "(\<forall>e. \<not> known_failure P e) \<longrightarrow> undisturbed st \<longrightarrow> undisturbed st1"
      using progress [OF less.prems run] by blast
    have "kept C P st1" using st1(1) less.prems by (induction rule: rtranclp_induct) (blast intro: step_kept)+
    from less.hyps [OF st1(2) this] obtain st' e where "(pipeline_step C P)\<^sup>*\<^sup>* st1 st'" "pl_consumer st' = Gone e"
      "(\<forall>e. \<not> known_failure P e) \<longrightarrow> undisturbed st1 \<longrightarrow> e = Completed" by blast
    moreover from this st1(1) have "(pipeline_step C P)\<^sup>*\<^sup>* st st'" by (blast intro: rtranclp_trans)
    ultimately show ?thesis using st1(3) by blast
  qed
qed

end
