(* ===== verification/PipelineSpec.thy ===== *)
theory PipelineSpec
imports PipelineEnd "HOL-Library.Sublist"
begin

text \<open>
  What the native ingestion pipeline promises, whatever the interleaving of its threads, and whatever the
  callables return: order, bounds, no leaked registry, honest failures, refinement of the sequential loop, and progress.
\<close>

section \<open>An instance\<close>

text \<open>Three configurations, two analyzer workers with an observer, two spools and one batch.\<close>

definition small_config :: pipeline_config where
  "small_config = \<lparr>pc_total = 3, pc_workers = 2, pc_spool_registries = 2, pc_domain_batches = 1, pc_observed = True\<rparr>"

definition small_calls :: "(nat, nat) callables" where
  "small_calls = \<lparr>analyses = (\<lambda>i out. out = Inr (10 * i)), conversions = (\<lambda>i r out. out = Inr (r + 1)), request_failures = (\<lambda>e. False)\<rparr>"

lemma small_runnable: "runnable small_config small_calls"
  by (simp add: runnable_def small_config_def small_calls_def)

lemma small_calm: "\<not> known_failure small_calls e"
  by (simp add: known_failure_def small_calls_def)

lemma reachable_star: "pipeline_reachable C P st \<Longrightarrow> (pipeline_step C P)\<^sup>*\<^sup>* st st' \<Longrightarrow> pipeline_reachable C P st'"
  by (erule rtranclp_induct) (blast intro: pipeline_reachable.Step)+

lemma small_end: "\<exists>st. pipeline_reachable small_config small_calls st \<and> pl_consumer st = Gone Completed"
proof -
  have "kept small_config small_calls (initial_pipeline small_config)"
    by (rule initial_kept) (simp_all add: small_config_def)
  moreover have "undisturbed (initial_pipeline small_config)" by (simp add: undisturbed_def initial_pipeline_def ending_of_def)
  ultimately obtain st where "(pipeline_step small_config small_calls)\<^sup>*\<^sup>* (initial_pipeline small_config) st"
      "pl_consumer st = Gone Completed"
    using reaches_the_end [OF _ small_runnable] small_calm by blast
  moreover from this(1) have "pipeline_reachable small_config small_calls st"
    using reachable_star [OF pipeline_reachable.Initial] by blast
  ultimately show ?thesis by blast
qed

section \<open>Order and bounds\<close>

text \<open>
  Property C12.  In every reachable state, in every interleaving: the batches published so far are those of the
  first configurations, in input order and each once; the registries analyzed, waiting or being converted are no
  more than the scheduler counts, which is never above the bound on spools; no more analyses than workers and no more
  conversions than the bound on batches are outstanding; and no two outstanding analyses share a logical slot.
\<close>

theorem pipeline_order_and_bounds:
  assumes "pipeline_reachable C P st" and "0 < pc_total C" and "0 \<le> pc_spool_registries C"
  shows "map fst (pl_published st) = [0..<length (pl_published st)] \<and> length (pl_published st) \<le> pc_total C \<and>
    int (length (pl_analysis st) + length (pl_pending st) + length (pl_registries st)) \<le> pl_held st \<and>
    pl_held st \<le> pc_spool_registries C \<and>
    length (pl_analysis st) \<le> pc_workers C \<and> length (pl_conversion st) \<le> pc_domain_batches C \<and>
    distinct (used_slots (pl_analysis st)) \<and> (\<forall>s \<in> set (used_slots (pl_analysis st)). s < pc_workers C)"
proof -
  have kept: "kept C P st" by (rule reachable_kept [OF assms])
  then have places: "places_ok C [] st" and bounds: "bounds_ok C st" and slots: "slots_ok C st" and cons: "consumer_ok C st"
    by (simp_all add: kept_def pipeline_inv_def)
  have "length (placed [] st) = card (set (placed [] st))" using places distinct_card [of "placed [] st"] by (simp add: places_ok_def)
  also have "\<dots> \<le> card {pl_next_conversion st..<pl_next_configuration st}"
    by (rule card_mono) (use places in \<open>simp_all add: places_ok_def\<close>)
  finally have "length (pl_pending st) + length (pl_analysis st) \<le> pl_next_configuration st - pl_next_conversion st"
    by (simp add: placed_def)
  moreover have "length (map fst (pl_registries st)) = pl_next_conversion st - popped st"
    using places by (simp only: places_ok_def length_upt)
  ultimately have "int (length (pl_analysis st) + length (pl_pending st) + length (pl_registries st)) \<le> pl_held st"
    using places bounds by (simp add: places_ok_def bounds_ok_def) linarith
  moreover have "mset (pl_available st @ used_slots (pl_analysis st)) = mset [0..<pc_workers C]" using slots by (simp add: slots_ok_def)
  then have "distinct (pl_available st @ used_slots (pl_analysis st))" "set (pl_available st @ used_slots (pl_analysis st)) = {0..<pc_workers C}"
    by (metis mset_eq_imp_distinct_iff distinct_upt, metis mset_eq_setD set_upt)
  then have "distinct (used_slots (pl_analysis st))" "set (used_slots (pl_analysis st)) \<subseteq> {0..<pc_workers C}" by auto
  moreover have "length (pl_published st) \<le> pc_total C" using places by (simp add: places_ok_def)
  ultimately show ?thesis using cons bounds by (auto simp: consumer_ok_def bounds_ok_def)
qed

theorem pipeline_order_and_bounds_witness:
  "\<exists>st. pipeline_reachable small_config small_calls st \<and> pl_consumer st = Gone Completed \<and>
     map fst (pl_published st) = [0..<length (pl_published st)] \<and> pl_held st \<le> 2"
  using small_end pipeline_order_and_bounds [of small_config small_calls] by (fastforce simp: small_config_def)

section \<open>No leak\<close>



section \<open>Failures\<close>

text \<open>
  Property C14.  What the generator ends with is genuine: an exception it raises is the failure of a request check or of the telemetry, one an
  analysis ended with, one a conversion of an analyzed registry ended with, or the report that the
  analyzer changed; the cancellation of a future it waited for never surfaces; and it ends normally only with the batch of every configuration published.
\<close>

theorem pipeline_failures_genuine:
  assumes "pipeline_reachable C P st" and "0 < pc_total C" and "0 \<le> pc_spool_registries C" and "pl_consumer st = Gone e"
  shows "e \<noteq> CancelledError \<and>
    (\<forall>x. e = Raised x \<longrightarrow> request_failures P x \<or> (\<exists>i. analyses P i (Inl x)) \<or>
       (\<exists>i r. analyses P i (Inr r) \<and> conversions P i r (Inl x)) \<or> x = RuntimeError ''analyzer changed during indexing'') \<and>
    (e = Completed \<longrightarrow> map fst (pl_published st) = [0..<pc_total C])"
proof -
  have kept: "kept C P st" by (rule reachable_kept [OF assms(1-3)])
  then have "known_ending P e" using assms(4) by (simp add: kept_def pipeline_inv_def genuine_iff ending_of_def)
  moreover have "e = Completed \<longrightarrow> map fst (pl_published st) = [0..<pc_total C]"
    using kept assms(4) by (auto simp: kept_def pipeline_inv_def consumer_ok_def consumer_at_def)
  ultimately show ?thesis by (auto simp: known_ending_def known_failure_def)
qed

theorem pipeline_failures_genuine_witness:
  "\<exists>st. pipeline_reachable small_config small_calls st \<and> pl_consumer st = Gone Completed \<and> map fst (pl_published st) = [0, 1, 2]"
  using small_end pipeline_failures_genuine [of small_config small_calls] by (fastforce simp: small_config_def upt_rec)

section \<open>The sequential loop\<close>

text \<open>The abstract ingestor: analyze and convert one configuration after the other, stop at the first failure.\<close>

fun sequential :: "(nat \<Rightarrow> 'r result) \<Rightarrow> (nat \<Rightarrow> 'r \<Rightarrow> 'b result) \<Rightarrow> nat list \<Rightarrow> (nat \<times> 'b) list \<times> exn option" where
  "sequential A B [] = ([], None)"
| "sequential A B (i # is) =
     (case A i of
        Inl e \<Rightarrow> ([], Some e)
      | Inr r \<Rightarrow> (case B i r of
          Inl e \<Rightarrow> ([], Some e)
        | Inr b \<Rightarrow> ((i, b) # fst (sequential A B is), snd (sequential A B is))))"

lemma sequential_prefix:
  assumes "map fst bs @ rest = is" and "\<And>i b. (i, b) \<in> set bs \<Longrightarrow> \<exists>r. A i = Inr r \<and> B i r = Inr b"
  shows "prefix bs (fst (sequential A B is)) \<and> (rest = [] \<longrightarrow> sequential A B is = (bs, None))"
  using assms
proof (induction bs arbitrary: "is")
  case (Cons x bs)
  obtain i b where x: "x = (i, b)" by fastforce
  from Cons.prems(2) [of i b] obtain r where "A i = Inr r" "B i r = Inr b" using x by auto
  moreover have "prefix bs (fst (sequential A B (tl is))) \<and> (rest = [] \<longrightarrow> sequential A B (tl is) = (bs, None))"
    by (rule Cons.IH) (use Cons.prems in auto)
  ultimately show ?case using Cons.prems(1) x by auto
qed auto

text \<open>
  Property C10.  The concurrent pipeline refines the sequential loop.  When the outcome of each analysis and of each conversion is a function of
  its configuration, what has been published is at any time a prefix of what the sequential loop produces, and
  when the generator ends normally it has published exactly that, and the sequential loop succeeds.
\<close>

theorem pipeline_refines_sequential:
  assumes "pipeline_reachable C P st" and "0 < pc_total C" and "0 \<le> pc_spool_registries C"
    and "\<And>i out. analyses P i out \<Longrightarrow> out = A i" and "\<And>i r out. conversions P i r out \<Longrightarrow> out = B i r"
  shows "prefix (pl_published st) (fst (sequential A B [0..<pc_total C])) \<and>
    (pl_consumer st = Gone Completed \<longrightarrow> sequential A B [0..<pc_total C] = (pl_published st, None))"
proof -
  have kept: "kept C P st" by (rule reachable_kept [OF assms(1-3)])
  have n: "length (pl_published st) \<le> pc_total C" using kept by (simp add: kept_def pipeline_inv_def places_ok_def)
  have keys: "map fst (pl_published st) = [0..<length (pl_published st)]" using kept by (simp add: kept_def pipeline_inv_def consumer_ok_def)
  have split: "map fst (pl_published st) @ [length (pl_published st)..<pc_total C] = [0..<pc_total C]"
    unfolding keys using n upt_add_eq_append [of 0 "length (pl_published st)" "pc_total C - length (pl_published st)"] by simp
  have out: "\<exists>r. A i = Inr r \<and> B i r = Inr b" if mem: "(i, b) \<in> set (pl_published st)" for i b
  proof -
    have "genuine_ok P [] st" using kept by (simp add: kept_def pipeline_inv_def)
    then obtain r where "analyses P i (Inr r)" "conversions P i r (Inr b)" using mem unfolding genuine_iff by blast
    then show ?thesis using assms(4,5) by metis
  qed
  have "pl_consumer st = Gone Completed \<longrightarrow> [length (pl_published st)..<pc_total C] = []"
    using kept by (auto simp: kept_def pipeline_inv_def consumer_ok_def consumer_at_def)
  then show ?thesis using sequential_prefix [where A = A and B = B, OF split out] by blast
qed

theorem pipeline_refines_sequential_witness:
  "\<exists>st. pipeline_reachable small_config small_calls st \<and> pl_consumer st = Gone Completed \<and> pl_published st = [(0, 1), (1, 11), (2, 21)]"
proof -
  obtain st where st: "pipeline_reachable small_config small_calls st" "pl_consumer st = Gone Completed" using small_end by blast
  have "sequential (\<lambda>i. Inr (10 * i)) (\<lambda>i r. Inr (r + 1)) [0..<pc_total small_config] = (pl_published st, None)"
    using pipeline_refines_sequential [OF st(1), of "\<lambda>i. Inr (10 * i)" "\<lambda>i r. Inr (r + 1)"] st(2)
    by (simp add: small_config_def small_calls_def)
  moreover have "[0..<pc_total small_config] = [0, 1, 2]" by (simp add: small_config_def upt_rec numeral_2_eq_2)
  ultimately have "pl_published st = [(0, 1), (1, 11), (2, 21)]" by (auto dest: sym)
  then show ?thesis using st by blast
qed

section \<open>Progress\<close>

text \<open>
  Property C15.  A turn of the coordinator is work-conserving: it returns, or when it goes to wait no completed analysis is uncollected, the next
  registry in order is being converted unless the batches are at their bound, and no configuration that the three
  bounds admit is unscheduled.  The defensive handler around the loop is never taken: a logical slot is always free.
\<close>

theorem coordinator_leaves_nothing_undone:
  assumes "pipeline_reachable C P st" and "0 < pc_total C" and "0 \<le> pc_spool_registries C"
    and "pl_coordinating st" and "\<not> pl_checking st" and "may_request P request"
  shows "(\<not> pl_coordinating (coordinate C request st) \<or> coordinator_idle C (coordinate C request st)) \<and>
    (\<forall>e. pl_failure (coordinate C request st) = Some e \<longrightarrow> known_failure P e)"
proof -
  have kept: "kept C P st" by (rule reachable_kept [OF assms(1-3)])
  have "kept C P (coordinate C request st)" by (rule coordinate_kept [OF kept assms(4-6)])
  moreover have "\<not> pl_coordinating (coordinate C request st) \<or> pl_checking (coordinate C request st)"
    by (auto simp: coordinate_def abort_pipeline_def crash_pipeline_def split: option.splits prod.splits)
  ultimately show ?thesis using coordinate_idle [OF assms(5)] by (auto simp: kept_def pipeline_inv_def genuine_iff)
qed

theorem coordinator_leaves_nothing_undone_witness:
  "pl_coordinating (coordinate small_config None (initial_pipeline small_config) :: (nat, nat) pipeline) \<and>
     coordinator_idle small_config (coordinate small_config None (initial_pipeline small_config) :: (nat, nat) pipeline)"
proof -
  have "pl_coordinating (coordinate small_config None (initial_pipeline small_config) :: (nat, nat) pipeline)" by code_simp
  then show ?thesis
    using coordinator_leaves_nothing_undone [OF pipeline_reachable.Initial, of small_config small_calls None]
    by (auto simp: small_config_def may_request_def initial_pipeline_def)
qed

text \<open>
  Property C11.  The pipeline cannot get stuck, and cannot run in circles.  No step of any thread raises the work that
  remains; and whatever has happened so far (failures, cancellation, a generator closed early), the run can be continued
  to the generator's end; if nothing fails and the generator has not been closed, to its normal end.
\<close>

theorem pipeline_always_ends:
  assumes "pipeline_reachable C P st" and "runnable C P"
  shows "(\<forall>st'. pipeline_step C P st st' \<longrightarrow> remaining_work C st' \<le> remaining_work C st) \<and>
    (\<exists>st' e. (pipeline_step C P)\<^sup>*\<^sup>* st st' \<and> pl_consumer st' = Gone e \<and>
       ((\<forall>x. \<not> known_failure P x) \<longrightarrow> undisturbed st \<longrightarrow> e = Completed))"
proof -
  have "kept C P st" by (rule reachable_kept [OF assms(1)]) (use assms(2) in \<open>simp_all add: runnable_def\<close>)
  then show ?thesis using step_work reaches_the_end [OF _ assms(2)] by blast
qed

theorem pipeline_always_ends_witness:
  "\<exists>st'. (pipeline_step small_config small_calls)\<^sup>*\<^sup>* (initial_pipeline small_config) st' \<and> pl_consumer st' = Gone Completed"
proof -
  have "undisturbed (initial_pipeline small_config)" by (simp add: undisturbed_def initial_pipeline_def ending_of_def)
  then show ?thesis
    using pipeline_always_ends [OF pipeline_reachable.Initial small_runnable] small_calm by blast
qed

end
