(* ===== verification/StoreRows.thy ===== *)
theory StoreRows
imports Models Text "HOL-Library.Product_Lexorder"
begin

text \<open>
  The rows of \<open>storage/sqlite.py\<close>: for every kind of fact the tuple an ingestion inserts (\<open>_put_cfg_facts\<close>,
  \<open>_put_call_facts\<close>, \<open>_put_data_flow_facts\<close>, \<open>_put_summary_facts\<close>, \<open>_interprocedural_flow_row\<close>) and the object a query makes of a row
  (\<open>_row_to_...\<close>).  A \<open>row\<close> names its values by column.  The columns have the types of the schema, so a value of
  another type (a \<open>TypeError\<close> here) does not occur in a database this code wrote.  \<open>json.dumps\<close> and \<open>json.loads\<close> are
  the parameter \<open>J\<close>.
\<close>

section \<open>Values and columns\<close>

datatype sql_value = SqlNull | SqlInt int | SqlReal pyfloat | SqlText string | SqlBlob string

type_synonym row = "(string \<times> sql_value) list"

text \<open>What \<open>sqlite3\<close> does with a parameter: integers have 64 bits, a NaN is stored as NULL.\<close>

definition bind_value :: "sql_value \<Rightarrow> sql_value result" where
  "bind_value v = (case v of
     SqlInt n \<Rightarrow> if - (2 ^ 63) \<le> n \<and> n < 2 ^ 63 then Inr v else Inl OverflowError
   | SqlReal x \<Rightarrow> Inr (if x = NaN then SqlNull else v)
   | _ \<Rightarrow> Inr v)"

definition bind_row :: "row \<Rightarrow> row result" where
  "bind_row r = rmap (\<lambda>(c, v). rmap_result (Pair c) (bind_value v)) r"

definition sql_text :: "string option \<Rightarrow> sql_value" where
  "sql_text v = (case v of None \<Rightarrow> SqlNull | Some s \<Rightarrow> SqlText s)"

definition sql_int :: "int option \<Rightarrow> sql_value" where
  "sql_int v = (case v of None \<Rightarrow> SqlNull | Some n \<Rightarrow> SqlInt n)"

definition sql_bool :: "bool \<Rightarrow> sql_value" where
  "sql_bool b = SqlInt (if b then 1 else 0)"

text \<open>\<open>row[name]\<close>.\<close>

definition sql_column :: "row \<Rightarrow> string \<Rightarrow> sql_value result" where
  "sql_column row c = (case map_of row c of None \<Rightarrow> Inl IndexError | Some v \<Rightarrow> Inr v)"

definition wrong_column :: exn where
  "wrong_column = TypeError ''column type''"

definition text_column :: "row \<Rightarrow> string \<Rightarrow> string result" where
  "text_column row c = rbind (sql_column row c) (\<lambda>v. case v of SqlText s \<Rightarrow> Inr s | _ \<Rightarrow> Inl wrong_column)"

definition optional_text_column :: "row \<Rightarrow> string \<Rightarrow> string option result" where
  "optional_text_column row c = rbind (sql_column row c) (\<lambda>v. case v of
     SqlText s \<Rightarrow> Inr (Some s) | SqlNull \<Rightarrow> Inr None | _ \<Rightarrow> Inl wrong_column)"

definition int_column :: "row \<Rightarrow> string \<Rightarrow> int result" where
  "int_column row c = rbind (sql_column row c) (\<lambda>v. case v of SqlInt n \<Rightarrow> Inr n | _ \<Rightarrow> Inl wrong_column)"

definition optional_int_column :: "row \<Rightarrow> string \<Rightarrow> int option result" where
  "optional_int_column row c = rbind (sql_column row c) (\<lambda>v. case v of
     SqlInt n \<Rightarrow> Inr (Some n) | SqlNull \<Rightarrow> Inr None | _ \<Rightarrow> Inl wrong_column)"

definition real_column :: "row \<Rightarrow> string \<Rightarrow> pyfloat result" where
  "real_column row c = rbind (sql_column row c) (\<lambda>v. case v of SqlReal x \<Rightarrow> Inr x | _ \<Rightarrow> Inl wrong_column)"

text \<open>\<open>bool(row[name])\<close>.\<close>

definition bool_column :: "row \<Rightarrow> string \<Rightarrow> bool result" where
  "bool_column row c = rbind (sql_column row c) (\<lambda>v. Inr (case v of
     SqlNull \<Rightarrow> False | SqlInt n \<Rightarrow> n \<noteq> 0 | SqlReal x \<Rightarrow> x \<noteq> Finite 0 | SqlText s \<Rightarrow> s \<noteq> [] | SqlBlob b \<Rightarrow> b \<noteq> []))"

text \<open>\<open>Kind(row[name])\<close>, and with \<open>if row[name] else None\<close>.\<close>

definition enum_column :: "'e list \<Rightarrow> ('e \<Rightarrow> string) \<Rightarrow> row \<Rightarrow> string \<Rightarrow> 'e result" where
  "enum_column members value row c = rbind (text_column row c) (enum_parse members value)"

definition optional_enum_column :: "'e list \<Rightarrow> ('e \<Rightarrow> string) \<Rightarrow> row \<Rightarrow> string \<Rightarrow> 'e option result" where
  "optional_enum_column members value row c = rbind (optional_text_column row c) (\<lambda>v.
     if truthy v then rmap_result Some (enum_parse members value (the v)) else Inr None)"

section \<open>JSON columns\<close>

text \<open>\<open>json.dumps\<close> with its default separators, \<open>json.loads\<close>, and \<open>int\<close> of a text.\<close>

record json_codec =
  jc_dumps :: "json \<Rightarrow> string"
  jc_loads :: "string \<Rightarrow> json result"
  jc_int :: "string \<Rightarrow> int result"

text \<open>\<open>sort_keys=True\<close> sorts the keys at every depth.\<close>

fun sorted_json :: "json \<Rightarrow> json" where
  "sorted_json (JArr xs) = JArr (map sorted_json xs)"
| "sorted_json (JObj d) = JObj (sort_key fst (map (\<lambda>(k, v). (k, sorted_json v)) d))"
| "sorted_json j = j"

definition dump_sorted :: "json_codec \<Rightarrow> json \<Rightarrow> string" where
  "dump_sorted J j = jc_dumps J (sorted_json j)"

definition dump_strings :: "json_codec \<Rightarrow> string list \<Rightarrow> string" where
  "dump_strings J xs = jc_dumps J (JArr (map JStr xs))"

definition dump_mapping :: "json_codec \<Rightarrow> (string \<times> json) list \<Rightarrow> string" where
  "dump_mapping J d = dump_sorted J (JObj d)"

definition json_type_error :: exn where
  "json_type_error = TypeError ''json value''"

text \<open>\<open>tuple(json.loads(text))\<close>, a tuple of strings.\<close>

definition json_string_tuple :: "json \<Rightarrow> string list result" where
  "json_string_tuple j = (case j of
     JArr xs \<Rightarrow> rmap (\<lambda>x. case x of JStr s \<Rightarrow> Inr s | _ \<Rightarrow> Inl json_type_error) xs
   | JObj d \<Rightarrow> Inr (map fst d)
   | JStr s \<Rightarrow> Inr (map (\<lambda>c. [c]) s)
   | _ \<Rightarrow> Inl json_type_error)"

definition strings_column :: "json_codec \<Rightarrow> row \<Rightarrow> string \<Rightarrow> string list result" where
  "strings_column J row c = rbind (text_column row c) (\<lambda>s. rbind (jc_loads J s) json_string_tuple)"

definition json_mapping :: "json \<Rightarrow> (string \<times> json) list result" where
  "json_mapping j = (case j of JObj d \<Rightarrow> Inr d | _ \<Rightarrow> Inl json_type_error)"

definition mapping_column :: "json_codec \<Rightarrow> row \<Rightarrow> string \<Rightarrow> (string \<times> json) list result" where
  "mapping_column J row c = rbind (text_column row c) (\<lambda>s. rbind (jc_loads J s) json_mapping)"

text \<open>Spans: \<open>_span_payload\<close>, \<open>_span_json\<close>, \<open>_span_from_payload\<close>, \<open>_span_from_json\<close>, \<open>_required_span_from_json\<close>.\<close>

definition sql_span_payload :: "source_span \<Rightarrow> json" where
  "sql_span_payload s = JObj [(''path'', JStr (span_path s)), (''start_line'', JInt (start_line s)),
     (''end_line'', JInt (end_line s)), (''start_column'', JInt (start_column s)), (''end_column'', JInt (end_column s))]"

definition span_json :: "json_codec \<Rightarrow> source_span option \<Rightarrow> string option" where
  "span_json J v = (case v of None \<Rightarrow> None | Some s \<Rightarrow> Some (dump_sorted J (sql_span_payload s)))"

definition json_item :: "json \<Rightarrow> string \<Rightarrow> json result" where
  "json_item j k = (case j of JObj d \<Rightarrow> (case map_of d k of None \<Rightarrow> Inl KeyError | Some v \<Rightarrow> Inr v) | _ \<Rightarrow> Inl json_type_error)"

definition json_string :: "json \<Rightarrow> string result" where
  "json_string j = (case j of JStr s \<Rightarrow> Inr s | _ \<Rightarrow> Inl json_type_error)"

text \<open>\<open>int(value)\<close>: floats are truncated.\<close>

definition json_int :: "json_codec \<Rightarrow> json \<Rightarrow> int result" where
  "json_int J j = (case j of
     JInt n \<Rightarrow> Inr n
   | JBool b \<Rightarrow> Inr (if b then 1 else 0)
   | JFloat (Finite q) \<Rightarrow> Inr (if q < 0 then \<lceil>q\<rceil> else \<lfloor>q\<rfloor>)
   | JFloat (Infinite b) \<Rightarrow> Inl OverflowError
   | JFloat NaN \<Rightarrow> Inl (ValueError ''cannot convert float NaN to integer'')
   | JStr s \<Rightarrow> jc_int J s
   | _ \<Rightarrow> Inl json_type_error)"

definition span_from_payload :: "json_codec \<Rightarrow> json \<Rightarrow> source_span result" where
  "span_from_payload J j =
     rbind (rbind (json_item j ''path'') json_string) (\<lambda>path.
     rbind (rbind (json_item j ''start_line'') (json_int J)) (\<lambda>l1.
     rbind (rbind (json_item j ''end_line'') (json_int J)) (\<lambda>l2.
     rbind (rbind (json_item j ''start_column'') (json_int J)) (\<lambda>c1.
     rbind (rbind (json_item j ''end_column'') (json_int J)) (\<lambda>c2.
     post_init_source_span \<lparr>span_path = py_path path, start_line = l1, end_line = l2, start_column = c1, end_column = c2\<rparr>)))))"

definition span_from_json :: "json_codec \<Rightarrow> string option \<Rightarrow> source_span option result" where
  "span_from_json J v = (case v of
     None \<Rightarrow> Inr None
   | Some s \<Rightarrow> rbind (jc_loads J s) (\<lambda>j. if j = JNull then Inr None else rmap_result Some (span_from_payload J j)))"

definition span_column :: "json_codec \<Rightarrow> row \<Rightarrow> string \<Rightarrow> source_span option result" where
  "span_column J row c = rbind (optional_text_column row c) (span_from_json J)"

definition required_span_from_json :: "json_codec \<Rightarrow> string option \<Rightarrow> source_span result" where
  "required_span_from_json J v = rbind (span_from_json J v) (\<lambda>s. case s of
     None \<Rightarrow> Inl (ValueError ''required source span is missing'') | Some s \<Rightarrow> Inr s)"

definition required_span_column :: "json_codec \<Rightarrow> row \<Rightarrow> string \<Rightarrow> source_span result" where
  "required_span_column J row c = rbind (optional_text_column row c) (required_span_from_json J)"

text \<open>The expansion stack of a callsite.\<close>

definition frame_payload :: "macro_expansion_frame \<Rightarrow> json" where
  "frame_payload f = JObj [(''macro_symbol_id'', JStr (mf_macro_symbol_id f)), (''name'', JStr (mf_name f)),
     (''spelling_span'', sql_span_payload (mf_spelling_span f)), (''expansion_span'', sql_span_payload (mf_expansion_span f))]"

definition dump_stack :: "json_codec \<Rightarrow> macro_expansion_frame list \<Rightarrow> string" where
  "dump_stack J fs = dump_sorted J (JArr (map frame_payload fs))"

definition frame_from_payload :: "json_codec \<Rightarrow> json \<Rightarrow> macro_expansion_frame result" where
  "frame_from_payload J j =
     rbind (rbind (json_item j ''macro_symbol_id'') json_string) (\<lambda>macro.
     rbind (rbind (json_item j ''name'') json_string) (\<lambda>nm.
     rbind (rbind (json_item j ''spelling_span'') (span_from_payload J)) (\<lambda>spelling.
     rbind (rbind (json_item j ''expansion_span'') (span_from_payload J)) (\<lambda>expansion.
     post_init_macro_expansion_frame
       \<lparr>mf_macro_symbol_id = macro, mf_name = nm, mf_spelling_span = spelling, mf_expansion_span = expansion\<rparr>))))"

definition stack_column :: "json_codec \<Rightarrow> row \<Rightarrow> string \<Rightarrow> macro_expansion_frame list result" where
  "stack_column J row c = rbind (text_column row c) (\<lambda>s. rbind (jc_loads J s) (\<lambda>j.
     case j of JArr xs \<Rightarrow> rmap (frame_from_payload J) xs | _ \<Rightarrow> Inl json_type_error))"

section \<open>The tables\<close>

definition cfg_graph_columns :: "string list" where
  "cfg_graph_columns =
     [''project_id'', ''id'', ''function_symbol_id'', ''entry_block_id'', ''normal_exit_block_id'',
     ''exceptional_exit_block_id'', ''translation_unit_id'', ''build_configuration_id'', ''build_variant'', ''clang_major'',
     ''fact_schema_version'', ''build_options_json'']"

definition cfg_graph_row :: "json_codec \<Rightarrow> int \<Rightarrow> cfg_graph \<Rightarrow> row" where
  "cfg_graph_row J project x = zip cfg_graph_columns
     [SqlInt project, SqlText (fact_id x), SqlText (cg_function_symbol_id x), SqlText (cg_entry_block_id x),
     SqlText (cg_normal_exit_block_id x), sql_text (cg_exceptional_exit_block_id x), SqlText (translation_unit_id x),
     SqlText (build_configuration_id x), SqlText (build_variant x), SqlInt (cg_clang_major x),
     SqlInt (cg_fact_schema_version x), SqlText (dump_mapping J (cg_build_options x))]"

definition row_to_cfg_graph :: "json_codec \<Rightarrow> row \<Rightarrow> cfg_graph result" where
  "row_to_cfg_graph J row =
     rbind (text_column row ''id'') (\<lambda>i. rbind (text_column row ''function_symbol_id'') (\<lambda>function_symbol_id.
     rbind (text_column row ''entry_block_id'') (\<lambda>entry_block_id.
     rbind (text_column row ''normal_exit_block_id'') (\<lambda>normal_exit_block_id.
     rbind (optional_text_column row ''exceptional_exit_block_id'') (\<lambda>exceptional_exit_block_id.
     rbind (text_column row ''translation_unit_id'') (\<lambda>unit'.
     rbind (text_column row ''build_configuration_id'') (\<lambda>conf.
     rbind (text_column row ''build_variant'') (\<lambda>vrt. rbind (int_column row ''clang_major'') (\<lambda>clang_major.
     rbind (int_column row ''fact_schema_version'') (\<lambda>fact_schema_version.
     rbind (mapping_column J row ''build_options_json'') (\<lambda>build_options.
     post_init_cfg_graph
       \<lparr>fact_id = i, translation_unit_id = unit', build_configuration_id = conf, build_variant = vrt,
       cg_function_symbol_id = function_symbol_id, cg_entry_block_id = entry_block_id,
       cg_normal_exit_block_id = normal_exit_block_id, cg_exceptional_exit_block_id = exceptional_exit_block_id,
       cg_clang_major = clang_major, cg_fact_schema_version = fact_schema_version, cg_build_options = build_options\<rparr>)))))))))))"

definition cfg_block_columns :: "string list" where
  "cfg_block_columns =
     [''project_id'', ''id'', ''graph_id'', ''block_index'', ''role'', ''reachable'', ''terminator_kind'', ''terminator_text'',
     ''terminator_spelling_span_json'', ''terminator_expansion_span_json'', ''label_kind'', ''label_text'',
     ''translation_unit_id'', ''build_configuration_id'', ''build_variant'']"

definition cfg_block_row :: "json_codec \<Rightarrow> int \<Rightarrow> cfg_block \<Rightarrow> row" where
  "cfg_block_row J project x = zip cfg_block_columns
     [SqlInt project, SqlText (fact_id x), SqlText (cb_graph_id x), SqlInt (cb_index x),
     SqlText (cfg_block_role_value (cb_role x)), sql_bool (cb_reachable x), SqlText (cb_terminator_kind x),
     SqlText (cb_terminator_text x), sql_text (span_json J (cb_terminator_spelling_span x)),
     sql_text (span_json J (cb_terminator_expansion_span x)), SqlText (cb_label_kind x), SqlText (cb_label_text x),
     SqlText (translation_unit_id x), SqlText (build_configuration_id x), SqlText (build_variant x)]"

definition row_to_cfg_block :: "json_codec \<Rightarrow> row \<Rightarrow> cfg_block result" where
  "row_to_cfg_block J row =
     rbind (text_column row ''id'') (\<lambda>i. rbind (text_column row ''graph_id'') (\<lambda>graph_id.
     rbind (int_column row ''block_index'') (\<lambda>idx'.
     rbind (enum_column cfg_block_role_members cfg_block_role_value row ''role'') (\<lambda>role'.
     rbind (bool_column row ''reachable'') (\<lambda>reachable.
     rbind (text_column row ''terminator_kind'') (\<lambda>terminator_kind.
     rbind (text_column row ''terminator_text'') (\<lambda>terminator_text.
     rbind (span_column J row ''terminator_spelling_span_json'') (\<lambda>terminator_spelling_span.
     rbind (span_column J row ''terminator_expansion_span_json'') (\<lambda>terminator_expansion_span.
     rbind (text_column row ''label_kind'') (\<lambda>label_kind. rbind (text_column row ''label_text'') (\<lambda>label_text.
     rbind (text_column row ''translation_unit_id'') (\<lambda>unit'.
     rbind (text_column row ''build_configuration_id'') (\<lambda>conf.
     rbind (text_column row ''build_variant'') (\<lambda>vrt.
     post_init_cfg_block
       \<lparr>fact_id = i, translation_unit_id = unit', build_configuration_id = conf, build_variant = vrt, cb_graph_id = graph_id,
       cb_index = idx', cb_role = role', cb_reachable = reachable, cb_terminator_kind = terminator_kind,
       cb_terminator_text = terminator_text, cb_terminator_spelling_span = terminator_spelling_span,
       cb_terminator_expansion_span = terminator_expansion_span, cb_label_kind = label_kind, cb_label_text = label_text\<rparr>))))))))))))))"

definition cfg_element_columns :: "string list" where
  "cfg_element_columns =
     [''project_id'', ''id'', ''graph_id'', ''block_id'', ''element_index'', ''kind'', ''statement_class'', ''text'',
     ''spelling_span_json'', ''expansion_span_json'', ''metadata_json'', ''translation_unit_id'', ''build_configuration_id'',
     ''build_variant'']"

definition cfg_element_row :: "json_codec \<Rightarrow> int \<Rightarrow> cfg_element \<Rightarrow> row" where
  "cfg_element_row J project x = zip cfg_element_columns
     [SqlInt project, SqlText (fact_id x), SqlText (ce_graph_id x), SqlText (ce_block_id x), SqlInt (ce_index x),
     SqlText (ce_kind x), SqlText (ce_statement_class x), SqlText (ce_text x), sql_text (span_json J (ce_spelling_span x)),
     sql_text (span_json J (ce_expansion_span x)), SqlText (dump_mapping J (ce_metadata x)), SqlText (translation_unit_id x),
     SqlText (build_configuration_id x), SqlText (build_variant x)]"

definition row_to_cfg_element :: "json_codec \<Rightarrow> row \<Rightarrow> cfg_element result" where
  "row_to_cfg_element J row =
     rbind (text_column row ''id'') (\<lambda>i. rbind (text_column row ''graph_id'') (\<lambda>graph_id.
     rbind (text_column row ''block_id'') (\<lambda>block_id. rbind (int_column row ''element_index'') (\<lambda>idx'.
     rbind (text_column row ''kind'') (\<lambda>kind'. rbind (text_column row ''statement_class'') (\<lambda>statement_class.
     rbind (text_column row ''text'') (\<lambda>txt'. rbind (span_column J row ''spelling_span_json'') (\<lambda>spelling_span.
     rbind (span_column J row ''expansion_span_json'') (\<lambda>expansion_span.
     rbind (text_column row ''translation_unit_id'') (\<lambda>unit'.
     rbind (text_column row ''build_configuration_id'') (\<lambda>conf.
     rbind (text_column row ''build_variant'') (\<lambda>vrt.
     rbind (mapping_column J row ''metadata_json'') (\<lambda>metadata.
     post_init_cfg_element
       \<lparr>fact_id = i, translation_unit_id = unit', build_configuration_id = conf, build_variant = vrt, ce_graph_id = graph_id,
       ce_block_id = block_id, ce_index = idx', ce_kind = kind', ce_statement_class = statement_class, ce_text = txt',
       ce_spelling_span = spelling_span, ce_expansion_span = expansion_span, ce_metadata = metadata\<rparr>)))))))))))))"

definition cfg_edge_columns :: "string list" where
  "cfg_edge_columns =
     [''project_id'', ''id'', ''graph_id'', ''source_block_id'', ''target_block_id'', ''kind'', ''successor_index'',
     ''feasible'', ''translation_unit_id'', ''build_configuration_id'', ''build_variant'']"

definition cfg_edge_row :: "json_codec \<Rightarrow> int \<Rightarrow> cfg_edge \<Rightarrow> row" where
  "cfg_edge_row J project x = zip cfg_edge_columns
     [SqlInt project, SqlText (fact_id x), SqlText (cd_graph_id x), SqlText (cd_source_block_id x),
     SqlText (cd_target_block_id x), SqlText (cfg_edge_kind_value (cd_kind x)), SqlInt (cd_successor_index x),
     sql_bool (cd_feasible x), SqlText (translation_unit_id x), SqlText (build_configuration_id x), SqlText (build_variant x)]"

definition row_to_cfg_edge :: "json_codec \<Rightarrow> row \<Rightarrow> cfg_edge result" where
  "row_to_cfg_edge J row =
     rbind (text_column row ''id'') (\<lambda>i. rbind (text_column row ''graph_id'') (\<lambda>graph_id.
     rbind (text_column row ''source_block_id'') (\<lambda>source_block_id.
     rbind (text_column row ''target_block_id'') (\<lambda>target_block_id.
     rbind (enum_column cfg_edge_kind_members cfg_edge_kind_value row ''kind'') (\<lambda>kind'.
     rbind (int_column row ''successor_index'') (\<lambda>successor_index. rbind (bool_column row ''feasible'') (\<lambda>feas.
     rbind (text_column row ''translation_unit_id'') (\<lambda>unit'.
     rbind (text_column row ''build_configuration_id'') (\<lambda>conf.
     rbind (text_column row ''build_variant'') (\<lambda>vrt.
     post_init_cfg_edge
       \<lparr>fact_id = i, translation_unit_id = unit', build_configuration_id = conf, build_variant = vrt, cd_graph_id = graph_id,
       cd_source_block_id = source_block_id, cd_target_block_id = target_block_id, cd_kind = kind',
       cd_successor_index = successor_index, cd_feasible = feas\<rparr>))))))))))"

definition callsite_columns :: "string list" where
  "callsite_columns =
     [''project_id'', ''id'', ''owner_symbol_id'', ''dispatch_kind'', ''spelling_span_json'', ''expansion_span_json'',
     ''expansion_stack_json'', ''static_target_symbol_id'', ''target_set_complete'', ''unresolved_reason'', ''callee_text'',
     ''translation_unit_id'', ''build_configuration_id'', ''build_variant'']"

definition callsite_row :: "json_codec \<Rightarrow> int \<Rightarrow> call_site \<Rightarrow> row" where
  "callsite_row J project x = zip callsite_columns
     [SqlInt project, SqlText (fact_id x), SqlText (cs_owner_symbol_id x),
     SqlText (call_dispatch_kind_value (cs_dispatch_kind x)),
     SqlText (case span_json J (cs_spelling_span x) of Some s \<Rightarrow> s | None \<Rightarrow> ''null''),
     sql_text (span_json J (Some (cs_expansion_span x))), SqlText (dump_stack J (cs_expansion_stack x)),
     sql_text (cs_static_target_symbol_id x), sql_bool (cs_target_set_complete x), SqlText (cs_unresolved_reason x),
     SqlText (cs_callee_text x), SqlText (translation_unit_id x), SqlText (build_configuration_id x), SqlText (build_variant x)]"

definition row_to_callsite :: "json_codec \<Rightarrow> row \<Rightarrow> call_site result" where
  "row_to_callsite J row =
     rbind (stack_column J row ''expansion_stack_json'') (\<lambda>expansion_stack. rbind (text_column row ''id'') (\<lambda>i.
     rbind (text_column row ''owner_symbol_id'') (\<lambda>owner_symbol_id.
     rbind (enum_column call_dispatch_kind_members call_dispatch_kind_value row ''dispatch_kind'') (\<lambda>dispatch_kind.
     rbind (span_column J row ''spelling_span_json'') (\<lambda>spelling_span.
     rbind (required_span_column J row ''expansion_span_json'') (\<lambda>expansion_span.
     rbind (bool_column row ''target_set_complete'') (\<lambda>target_set_complete.
     rbind (optional_text_column row ''static_target_symbol_id'') (\<lambda>static_target_symbol_id.
     rbind (text_column row ''unresolved_reason'') (\<lambda>unresolved_reason.
     rbind (text_column row ''callee_text'') (\<lambda>callee_text.
     rbind (text_column row ''translation_unit_id'') (\<lambda>unit'.
     rbind (text_column row ''build_configuration_id'') (\<lambda>conf.
     rbind (text_column row ''build_variant'') (\<lambda>vrt.
     post_init_call_site
       \<lparr>fact_id = i, translation_unit_id = unit', build_configuration_id = conf, build_variant = vrt,
       cs_owner_symbol_id = owner_symbol_id, cs_dispatch_kind = dispatch_kind, cs_spelling_span = spelling_span,
       cs_expansion_span = expansion_span, cs_target_set_complete = target_set_complete,
       cs_static_target_symbol_id = static_target_symbol_id, cs_unresolved_reason = unresolved_reason,
       cs_callee_text = callee_text, cs_expansion_stack = expansion_stack\<rparr>)))))))))))))"

definition call_target_columns :: "string list" where
  "call_target_columns =
     [''project_id'', ''id'', ''callsite_id'', ''target_symbol_id'', ''certainty'', ''confidence'', ''confidence_reason'',
     ''derivation'', ''evidence_span_json'', ''translation_unit_id'', ''build_configuration_id'', ''build_variant'']"

definition call_target_row :: "json_codec \<Rightarrow> int \<Rightarrow> call_target \<Rightarrow> row" where
  "call_target_row J project x = zip call_target_columns
     [SqlInt project, SqlText (fact_id x), SqlText (ct_callsite_id x), SqlText (ct_target_symbol_id x),
     SqlText (call_target_certainty_value (ct_certainty x)), SqlReal (ct_confidence x), SqlText (ct_confidence_reason x),
     SqlText (ct_derivation x), sql_text (span_json J (Some (ct_evidence_span x))), SqlText (translation_unit_id x),
     SqlText (build_configuration_id x), SqlText (build_variant x)]"

definition row_to_call_target :: "json_codec \<Rightarrow> row \<Rightarrow> call_target result" where
  "row_to_call_target J row =
     rbind (text_column row ''id'') (\<lambda>i. rbind (text_column row ''callsite_id'') (\<lambda>callsite_id.
     rbind (text_column row ''target_symbol_id'') (\<lambda>target_symbol_id.
     rbind (enum_column call_target_certainty_members call_target_certainty_value row ''certainty'') (\<lambda>certainty'.
     rbind (real_column row ''confidence'') (\<lambda>confidence.
     rbind (text_column row ''confidence_reason'') (\<lambda>confidence_reason.
     rbind (text_column row ''derivation'') (\<lambda>derivation.
     rbind (required_span_column J row ''evidence_span_json'') (\<lambda>evidence_span.
     rbind (text_column row ''translation_unit_id'') (\<lambda>unit'.
     rbind (text_column row ''build_configuration_id'') (\<lambda>conf.
     rbind (text_column row ''build_variant'') (\<lambda>vrt.
     post_init_call_target
       \<lparr>fact_id = i, translation_unit_id = unit', build_configuration_id = conf, build_variant = vrt,
       ct_callsite_id = callsite_id, ct_target_symbol_id = target_symbol_id, ct_certainty = certainty',
       ct_confidence = confidence, ct_confidence_reason = confidence_reason, ct_derivation = derivation,
       ct_evidence_span = evidence_span\<rparr>)))))))))))"

definition data_flow_analysis_columns :: "string list" where
  "data_flow_analysis_columns =
     [''project_id'', ''id'', ''graph_id'', ''complete'', ''incomplete_reasons_json'', ''iteration_count'', ''max_iterations'',
     ''max_alias_targets'', ''max_access_path_depth'', ''max_locations'', ''translation_unit_id'', ''build_configuration_id'',
     ''build_variant'']"

definition data_flow_analysis_row :: "json_codec \<Rightarrow> int \<Rightarrow> data_flow_analysis \<Rightarrow> row" where
  "data_flow_analysis_row J project x = zip data_flow_analysis_columns
     [SqlInt project, SqlText (fact_id x), SqlText (df_graph_id x), sql_bool (df_complete x),
     SqlText (dump_strings J (df_incomplete_reasons x)), SqlInt (df_iteration_count x), SqlInt (df_max_iterations x),
     SqlInt (df_max_alias_targets x), SqlInt (df_max_access_path_depth x), SqlInt (df_max_locations x),
     SqlText (translation_unit_id x), SqlText (build_configuration_id x), SqlText (build_variant x)]"

definition row_to_data_flow_analysis :: "json_codec \<Rightarrow> row \<Rightarrow> data_flow_analysis result" where
  "row_to_data_flow_analysis J row =
     rbind (text_column row ''id'') (\<lambda>i. rbind (text_column row ''graph_id'') (\<lambda>graph_id.
     rbind (bool_column row ''complete'') (\<lambda>complete'.
     rbind (strings_column J row ''incomplete_reasons_json'') (\<lambda>incomplete_reasons.
     rbind (int_column row ''iteration_count'') (\<lambda>iteration_count.
     rbind (int_column row ''max_iterations'') (\<lambda>max_iterations.
     rbind (int_column row ''max_alias_targets'') (\<lambda>max_alias_targets.
     rbind (int_column row ''max_access_path_depth'') (\<lambda>max_access_path_depth.
     rbind (int_column row ''max_locations'') (\<lambda>max_locations.
     rbind (text_column row ''translation_unit_id'') (\<lambda>unit'.
     rbind (text_column row ''build_configuration_id'') (\<lambda>conf.
     rbind (text_column row ''build_variant'') (\<lambda>vrt.
     post_init_data_flow_analysis
       \<lparr>fact_id = i, translation_unit_id = unit', build_configuration_id = conf, build_variant = vrt, df_graph_id = graph_id,
       df_complete = complete', df_incomplete_reasons = incomplete_reasons, df_iteration_count = iteration_count,
       df_max_iterations = max_iterations, df_max_alias_targets = max_alias_targets,
       df_max_access_path_depth = max_access_path_depth, df_max_locations = max_locations\<rparr>))))))))))))"

definition memory_location_columns :: "string list" where
  "memory_location_columns =
     [''project_id'', ''id'', ''analysis_id'', ''graph_id'', ''kind'', ''name'', ''type_name'', ''declaration_symbol_id'',
     ''base_location_id'', ''access_path_json'', ''is_volatile'', ''is_atomic'', ''translation_unit_id'',
     ''build_configuration_id'', ''build_variant'']"

definition memory_location_row :: "json_codec \<Rightarrow> int \<Rightarrow> memory_location \<Rightarrow> row" where
  "memory_location_row J project x = zip memory_location_columns
     [SqlInt project, SqlText (fact_id x), SqlText (ml_analysis_id x), SqlText (ml_graph_id x),
     SqlText (memory_location_kind_value (ml_kind x)), SqlText (ml_name x), SqlText (ml_type_name x),
     sql_text (ml_declaration_symbol_id x), sql_text (ml_base_location_id x), SqlText (dump_strings J (ml_access_path x)),
     sql_bool (ml_is_volatile x), sql_bool (ml_is_atomic x), SqlText (translation_unit_id x),
     SqlText (build_configuration_id x), SqlText (build_variant x)]"

definition row_to_memory_location :: "json_codec \<Rightarrow> row \<Rightarrow> memory_location result" where
  "row_to_memory_location J row =
     rbind (text_column row ''id'') (\<lambda>i. rbind (text_column row ''analysis_id'') (\<lambda>analysis_id.
     rbind (text_column row ''graph_id'') (\<lambda>graph_id.
     rbind (enum_column memory_location_kind_members memory_location_kind_value row ''kind'') (\<lambda>kind'.
     rbind (text_column row ''name'') (\<lambda>nm. rbind (text_column row ''type_name'') (\<lambda>type_name.
     rbind (optional_text_column row ''declaration_symbol_id'') (\<lambda>declaration_symbol_id.
     rbind (optional_text_column row ''base_location_id'') (\<lambda>base_location_id.
     rbind (strings_column J row ''access_path_json'') (\<lambda>access_path.
     rbind (bool_column row ''is_volatile'') (\<lambda>is_volatile. rbind (bool_column row ''is_atomic'') (\<lambda>is_atomic.
     rbind (text_column row ''translation_unit_id'') (\<lambda>unit'.
     rbind (text_column row ''build_configuration_id'') (\<lambda>conf.
     rbind (text_column row ''build_variant'') (\<lambda>vrt.
     post_init_memory_location
       \<lparr>fact_id = i, translation_unit_id = unit', build_configuration_id = conf, build_variant = vrt,
       ml_analysis_id = analysis_id, ml_graph_id = graph_id, ml_kind = kind', ml_name = nm, ml_type_name = type_name,
       ml_declaration_symbol_id = declaration_symbol_id, ml_base_location_id = base_location_id, ml_access_path = access_path,
       ml_is_volatile = is_volatile, ml_is_atomic = is_atomic\<rparr>))))))))))))))"

definition data_access_columns :: "string list" where
  "data_access_columns =
     [''project_id'', ''id'', ''analysis_id'', ''graph_id'', ''block_id'', ''cfg_element_id'', ''location_id'', ''kind'',
     ''sequence'', ''span_json'', ''expression'', ''pointee_symbol_ids_json'', ''points_to_complete'', ''translation_unit_id'',
     ''build_configuration_id'', ''build_variant'']"

definition data_access_row :: "json_codec \<Rightarrow> int \<Rightarrow> data_access \<Rightarrow> row" where
  "data_access_row J project x = zip data_access_columns
     [SqlInt project, SqlText (fact_id x), SqlText (da_analysis_id x), SqlText (da_graph_id x), SqlText (da_block_id x),
     sql_text (da_cfg_element_id x), SqlText (da_location_id x), SqlText (data_access_kind_value (da_kind x)),
     SqlInt (da_sequence x), sql_text (span_json J (da_span x)), SqlText (da_expression x),
     SqlText (dump_strings J (da_pointee_symbol_ids x)), sql_bool (da_points_to_complete x), SqlText (translation_unit_id x),
     SqlText (build_configuration_id x), SqlText (build_variant x)]"

definition row_to_data_access :: "json_codec \<Rightarrow> row \<Rightarrow> data_access result" where
  "row_to_data_access J row =
     rbind (text_column row ''id'') (\<lambda>i. rbind (text_column row ''analysis_id'') (\<lambda>analysis_id.
     rbind (text_column row ''graph_id'') (\<lambda>graph_id. rbind (text_column row ''block_id'') (\<lambda>block_id.
     rbind (text_column row ''location_id'') (\<lambda>location_id.
     rbind (enum_column data_access_kind_members data_access_kind_value row ''kind'') (\<lambda>kind'.
     rbind (int_column row ''sequence'') (\<lambda>seq'.
     rbind (optional_text_column row ''cfg_element_id'') (\<lambda>cfg_element_id.
     rbind (span_column J row ''span_json'') (\<lambda>span'. rbind (text_column row ''expression'') (\<lambda>expression.
     rbind (strings_column J row ''pointee_symbol_ids_json'') (\<lambda>pointee_symbol_ids.
     rbind (bool_column row ''points_to_complete'') (\<lambda>points_to_complete.
     rbind (text_column row ''translation_unit_id'') (\<lambda>unit'.
     rbind (text_column row ''build_configuration_id'') (\<lambda>conf.
     rbind (text_column row ''build_variant'') (\<lambda>vrt.
     post_init_data_access
       \<lparr>fact_id = i, translation_unit_id = unit', build_configuration_id = conf, build_variant = vrt,
       da_analysis_id = analysis_id, da_graph_id = graph_id, da_block_id = block_id, da_location_id = location_id,
       da_kind = kind', da_sequence = seq', da_cfg_element_id = cfg_element_id, da_span = span', da_expression = expression,
       da_pointee_symbol_ids = pointee_symbol_ids, da_points_to_complete = points_to_complete\<rparr>)))))))))))))))"

definition data_flow_evidence_columns :: "string list" where
  "data_flow_evidence_columns =
     [''project_id'', ''id'', ''analysis_id'', ''graph_id'', ''relation'', ''certainty'', ''reason'', ''source_access_id'',
     ''target_access_id'', ''source_location_id'', ''target_location_id'', ''evidence_span_json'', ''translation_unit_id'',
     ''build_configuration_id'', ''build_variant'']"

definition data_flow_evidence_row :: "json_codec \<Rightarrow> int \<Rightarrow> data_flow_evidence \<Rightarrow> row" where
  "data_flow_evidence_row J project x = zip data_flow_evidence_columns
     [SqlInt project, SqlText (fact_id x), SqlText (de_analysis_id x), SqlText (de_graph_id x),
     SqlText (data_flow_relation_value (de_relation x)), SqlText (data_flow_certainty_value (de_certainty x)),
     SqlText (de_reason x), sql_text (de_source_access_id x), sql_text (de_target_access_id x),
     sql_text (de_source_location_id x), sql_text (de_target_location_id x), sql_text (span_json J (de_evidence_span x)),
     SqlText (translation_unit_id x), SqlText (build_configuration_id x), SqlText (build_variant x)]"

definition row_to_data_flow_evidence :: "json_codec \<Rightarrow> row \<Rightarrow> data_flow_evidence result" where
  "row_to_data_flow_evidence J row =
     rbind (text_column row ''id'') (\<lambda>i. rbind (text_column row ''analysis_id'') (\<lambda>analysis_id.
     rbind (text_column row ''graph_id'') (\<lambda>graph_id.
     rbind (enum_column data_flow_relation_members data_flow_relation_value row ''relation'') (\<lambda>rel.
     rbind (enum_column data_flow_certainty_members data_flow_certainty_value row ''certainty'') (\<lambda>certainty'.
     rbind (text_column row ''reason'') (\<lambda>why.
     rbind (optional_text_column row ''source_access_id'') (\<lambda>source_access_id.
     rbind (optional_text_column row ''target_access_id'') (\<lambda>target_access_id.
     rbind (optional_text_column row ''source_location_id'') (\<lambda>source_location_id.
     rbind (optional_text_column row ''target_location_id'') (\<lambda>target_location_id.
     rbind (span_column J row ''evidence_span_json'') (\<lambda>evidence_span.
     rbind (text_column row ''translation_unit_id'') (\<lambda>unit'.
     rbind (text_column row ''build_configuration_id'') (\<lambda>conf.
     rbind (text_column row ''build_variant'') (\<lambda>vrt.
     post_init_data_flow_evidence
       \<lparr>fact_id = i, translation_unit_id = unit', build_configuration_id = conf, build_variant = vrt,
       de_analysis_id = analysis_id, de_graph_id = graph_id, de_relation = rel, de_certainty = certainty', de_reason = why,
       de_source_access_id = source_access_id, de_target_access_id = target_access_id,
       de_source_location_id = source_location_id, de_target_location_id = target_location_id, de_evidence_span = evidence_span\<rparr>))))))))))))))"

definition function_summary_columns :: "string list" where
  "function_summary_columns =
     [''project_id'', ''id'', ''function_symbol_id'', ''graph_id'', ''analysis_id'', ''parameter_modes_json'',
     ''parameter_location_ids_json'', ''local_complete'', ''local_incomplete_reasons_json'', ''complete'',
     ''incomplete_reasons_json'', ''recursive'', ''iteration_count'', ''max_scc_iterations'', ''max_scc_size'',
     ''max_summary_effects'', ''solution_hash'', ''translation_unit_id'', ''build_configuration_id'', ''build_variant'']"

definition function_summary_row :: "json_codec \<Rightarrow> int \<Rightarrow> function_summary \<Rightarrow> row" where
  "function_summary_row J project x = zip function_summary_columns
     [SqlInt project, SqlText (fact_id x), SqlText (fs_function_symbol_id x), SqlText (fs_graph_id x),
     SqlText (fs_analysis_id x), SqlText (dump_strings J (fs_parameter_modes x)),
     SqlText (dump_strings J (fs_parameter_location_ids x)), sql_bool (fs_local_complete x),
     SqlText (dump_strings J (fs_local_incomplete_reasons x)), sql_bool (fs_complete x),
     SqlText (dump_strings J (fs_incomplete_reasons x)), sql_bool (fs_recursive x), SqlInt (fs_iteration_count x),
     SqlInt (fs_max_scc_iterations x), SqlInt (fs_max_scc_size x), SqlInt (fs_max_summary_effects x),
     SqlText (fs_solution_hash x), SqlText (translation_unit_id x), SqlText (build_configuration_id x),
     SqlText (build_variant x)]"

definition row_to_function_summary :: "json_codec \<Rightarrow> row \<Rightarrow> function_summary result" where
  "row_to_function_summary J row =
     rbind (text_column row ''id'') (\<lambda>i. rbind (text_column row ''function_symbol_id'') (\<lambda>function_symbol_id.
     rbind (text_column row ''graph_id'') (\<lambda>graph_id. rbind (text_column row ''analysis_id'') (\<lambda>analysis_id.
     rbind (strings_column J row ''parameter_modes_json'') (\<lambda>parameter_modes.
     rbind (strings_column J row ''parameter_location_ids_json'') (\<lambda>parameter_location_ids.
     rbind (bool_column row ''local_complete'') (\<lambda>local_complete.
     rbind (strings_column J row ''local_incomplete_reasons_json'') (\<lambda>local_incomplete_reasons.
     rbind (bool_column row ''complete'') (\<lambda>complete'.
     rbind (strings_column J row ''incomplete_reasons_json'') (\<lambda>incomplete_reasons.
     rbind (bool_column row ''recursive'') (\<lambda>recr.
     rbind (int_column row ''iteration_count'') (\<lambda>iteration_count.
     rbind (int_column row ''max_scc_iterations'') (\<lambda>max_scc_iterations.
     rbind (int_column row ''max_scc_size'') (\<lambda>max_scc_size.
     rbind (int_column row ''max_summary_effects'') (\<lambda>max_summary_effects.
     rbind (text_column row ''solution_hash'') (\<lambda>solution_hash.
     rbind (text_column row ''translation_unit_id'') (\<lambda>unit'.
     rbind (text_column row ''build_configuration_id'') (\<lambda>conf.
     rbind (text_column row ''build_variant'') (\<lambda>vrt.
     post_init_function_summary
       \<lparr>fact_id = i, translation_unit_id = unit', build_configuration_id = conf, build_variant = vrt,
       fs_function_symbol_id = function_symbol_id, fs_graph_id = graph_id, fs_analysis_id = analysis_id,
       fs_parameter_modes = parameter_modes, fs_parameter_location_ids = parameter_location_ids,
       fs_local_complete = local_complete, fs_local_incomplete_reasons = local_incomplete_reasons, fs_complete = complete',
       fs_incomplete_reasons = incomplete_reasons, fs_recursive = recr, fs_iteration_count = iteration_count,
       fs_max_scc_iterations = max_scc_iterations, fs_max_scc_size = max_scc_size,
       fs_max_summary_effects = max_summary_effects, fs_solution_hash = solution_hash\<rparr>)))))))))))))))))))"

definition summary_effect_columns :: "string list" where
  "summary_effect_columns =
     [''project_id'', ''id'', ''summary_id'', ''kind'', ''location_kind'', ''certainty'', ''reason'', ''parameter_index'',
     ''access_path_json'', ''location_id'', ''source_access_id'', ''is_local'', ''via_callsite_id'', ''target_symbol_id'',
     ''translation_unit_id'', ''build_configuration_id'', ''build_variant'']"

definition summary_effect_row :: "json_codec \<Rightarrow> int \<Rightarrow> summary_effect \<Rightarrow> row" where
  "summary_effect_row J project x = zip summary_effect_columns
     [SqlInt project, SqlText (fact_id x), SqlText (se_summary_id x), SqlText (summary_effect_kind_value (se_kind x)),
     SqlText (memory_location_kind_value (se_location_kind x)), SqlText (data_flow_certainty_value (se_certainty x)),
     SqlText (se_reason x), sql_int (se_parameter_index x), SqlText (dump_strings J (se_access_path x)),
     sql_text (se_location_id x), sql_text (se_source_access_id x), sql_bool (se_is_local x), sql_text (se_via_callsite_id x),
     sql_text (se_target_symbol_id x), SqlText (translation_unit_id x), SqlText (build_configuration_id x),
     SqlText (build_variant x)]"

definition row_to_summary_effect :: "json_codec \<Rightarrow> row \<Rightarrow> summary_effect result" where
  "row_to_summary_effect J row =
     rbind (text_column row ''id'') (\<lambda>i. rbind (text_column row ''summary_id'') (\<lambda>summary_id.
     rbind (enum_column summary_effect_kind_members summary_effect_kind_value row ''kind'') (\<lambda>kind'.
     rbind (enum_column memory_location_kind_members memory_location_kind_value row ''location_kind'') (\<lambda>location_kind.
     rbind (enum_column data_flow_certainty_members data_flow_certainty_value row ''certainty'') (\<lambda>certainty'.
     rbind (text_column row ''reason'') (\<lambda>why.
     rbind (optional_int_column row ''parameter_index'') (\<lambda>parameter_index.
     rbind (strings_column J row ''access_path_json'') (\<lambda>access_path.
     rbind (optional_text_column row ''location_id'') (\<lambda>location_id.
     rbind (optional_text_column row ''source_access_id'') (\<lambda>source_access_id.
     rbind (bool_column row ''is_local'') (\<lambda>is_local.
     rbind (optional_text_column row ''via_callsite_id'') (\<lambda>via_callsite_id.
     rbind (optional_text_column row ''target_symbol_id'') (\<lambda>target_symbol_id.
     rbind (text_column row ''translation_unit_id'') (\<lambda>unit'.
     rbind (text_column row ''build_configuration_id'') (\<lambda>conf.
     rbind (text_column row ''build_variant'') (\<lambda>vrt.
     post_init_summary_effect
       \<lparr>fact_id = i, translation_unit_id = unit', build_configuration_id = conf, build_variant = vrt,
       se_summary_id = summary_id, se_kind = kind', se_location_kind = location_kind, se_certainty = certainty',
       se_reason = why, se_parameter_index = parameter_index, se_access_path = access_path, se_location_id = location_id,
       se_source_access_id = source_access_id, se_is_local = is_local, se_via_callsite_id = via_callsite_id,
       se_target_symbol_id = target_symbol_id\<rparr>))))))))))))))))"

definition summary_return_origin_columns :: "string list" where
  "summary_return_origin_columns =
     [''project_id'', ''id'', ''summary_id'', ''kind'', ''certainty'', ''reason'', ''location_kind'', ''parameter_index'',
     ''access_path_json'', ''location_id'', ''callsite_id'', ''is_local'', ''via_callsite_id'', ''target_symbol_id'',
     ''translation_unit_id'', ''build_configuration_id'', ''build_variant'']"

definition summary_return_origin_row :: "json_codec \<Rightarrow> int \<Rightarrow> summary_return_origin \<Rightarrow> row" where
  "summary_return_origin_row J project x = zip summary_return_origin_columns
     [SqlInt project, SqlText (fact_id x), SqlText (so_summary_id x), SqlText (summary_return_origin_kind_value (so_kind x)),
     SqlText (data_flow_certainty_value (so_certainty x)), SqlText (so_reason x),
     sql_text (map_option memory_location_kind_value (so_location_kind x)), sql_int (so_parameter_index x),
     SqlText (dump_strings J (so_access_path x)), sql_text (so_location_id x), sql_text (so_callsite_id x),
     sql_bool (so_is_local x), sql_text (so_via_callsite_id x), sql_text (so_target_symbol_id x),
     SqlText (translation_unit_id x), SqlText (build_configuration_id x), SqlText (build_variant x)]"

definition row_to_summary_return_origin :: "json_codec \<Rightarrow> row \<Rightarrow> summary_return_origin result" where
  "row_to_summary_return_origin J row =
     rbind (text_column row ''id'') (\<lambda>i. rbind (text_column row ''summary_id'') (\<lambda>summary_id.
     rbind (enum_column summary_return_origin_kind_members summary_return_origin_kind_value row ''kind'') (\<lambda>kind'.
     rbind (enum_column data_flow_certainty_members data_flow_certainty_value row ''certainty'') (\<lambda>certainty'.
     rbind (text_column row ''reason'') (\<lambda>why.
     rbind (optional_enum_column memory_location_kind_members memory_location_kind_value row ''location_kind'') (\<lambda>location_kind.
     rbind (optional_int_column row ''parameter_index'') (\<lambda>parameter_index.
     rbind (strings_column J row ''access_path_json'') (\<lambda>access_path.
     rbind (optional_text_column row ''location_id'') (\<lambda>location_id.
     rbind (optional_text_column row ''callsite_id'') (\<lambda>callsite_id.
     rbind (bool_column row ''is_local'') (\<lambda>is_local.
     rbind (optional_text_column row ''via_callsite_id'') (\<lambda>via_callsite_id.
     rbind (optional_text_column row ''target_symbol_id'') (\<lambda>target_symbol_id.
     rbind (text_column row ''translation_unit_id'') (\<lambda>unit'.
     rbind (text_column row ''build_configuration_id'') (\<lambda>conf.
     rbind (text_column row ''build_variant'') (\<lambda>vrt.
     post_init_summary_return_origin
       \<lparr>fact_id = i, translation_unit_id = unit', build_configuration_id = conf, build_variant = vrt,
       so_summary_id = summary_id, so_kind = kind', so_certainty = certainty', so_reason = why,
       so_location_kind = location_kind, so_parameter_index = parameter_index, so_access_path = access_path,
       so_location_id = location_id, so_callsite_id = callsite_id, so_is_local = is_local,
       so_via_callsite_id = via_callsite_id, so_target_symbol_id = target_symbol_id\<rparr>))))))))))))))))"

definition call_argument_binding_columns :: "string list" where
  "call_argument_binding_columns =
     [''project_id'', ''id'', ''caller_summary_id'', ''callsite_id'', ''argument_index'', ''location_id'', ''location_kind'',
     ''parameter_index'', ''access_path_json'', ''writeback_candidate'', ''complete'', ''incomplete_reason'',
     ''translation_unit_id'', ''build_configuration_id'', ''build_variant'']"

definition call_argument_binding_row :: "json_codec \<Rightarrow> int \<Rightarrow> call_argument_binding \<Rightarrow> row" where
  "call_argument_binding_row J project x = zip call_argument_binding_columns
     [SqlInt project, SqlText (fact_id x), SqlText (ab_caller_summary_id x), SqlText (ab_callsite_id x),
     SqlInt (ab_argument_index x), sql_text (ab_location_id x), SqlText (memory_location_kind_value (ab_location_kind x)),
     sql_int (ab_parameter_index x), SqlText (dump_strings J (ab_access_path x)), sql_bool (ab_writeback_candidate x),
     sql_bool (ab_complete x), SqlText (ab_incomplete_reason x), SqlText (translation_unit_id x),
     SqlText (build_configuration_id x), SqlText (build_variant x)]"

definition row_to_call_argument_binding :: "json_codec \<Rightarrow> row \<Rightarrow> call_argument_binding result" where
  "row_to_call_argument_binding J row =
     rbind (text_column row ''id'') (\<lambda>i. rbind (text_column row ''caller_summary_id'') (\<lambda>caller_summary_id.
     rbind (text_column row ''callsite_id'') (\<lambda>callsite_id.
     rbind (int_column row ''argument_index'') (\<lambda>argument_index.
     rbind (optional_text_column row ''location_id'') (\<lambda>location_id.
     rbind (enum_column memory_location_kind_members memory_location_kind_value row ''location_kind'') (\<lambda>location_kind.
     rbind (optional_int_column row ''parameter_index'') (\<lambda>parameter_index.
     rbind (strings_column J row ''access_path_json'') (\<lambda>access_path.
     rbind (bool_column row ''writeback_candidate'') (\<lambda>writeback_candidate.
     rbind (bool_column row ''complete'') (\<lambda>complete'.
     rbind (text_column row ''incomplete_reason'') (\<lambda>incomplete_reason.
     rbind (text_column row ''translation_unit_id'') (\<lambda>unit'.
     rbind (text_column row ''build_configuration_id'') (\<lambda>conf.
     rbind (text_column row ''build_variant'') (\<lambda>vrt.
     post_init_call_argument_binding
       \<lparr>fact_id = i, translation_unit_id = unit', build_configuration_id = conf, build_variant = vrt,
       ab_caller_summary_id = caller_summary_id, ab_callsite_id = callsite_id, ab_argument_index = argument_index,
       ab_location_id = location_id, ab_location_kind = location_kind, ab_parameter_index = parameter_index,
       ab_access_path = access_path, ab_writeback_candidate = writeback_candidate, ab_complete = complete',
       ab_incomplete_reason = incomplete_reason\<rparr>))))))))))))))"

definition call_result_binding_columns :: "string list" where
  "call_result_binding_columns =
     [''project_id'', ''id'', ''caller_summary_id'', ''callsite_id'', ''location_id'', ''definition_access_id'',
     ''translation_unit_id'', ''build_configuration_id'', ''build_variant'']"

definition call_result_binding_row :: "json_codec \<Rightarrow> int \<Rightarrow> call_result_binding \<Rightarrow> row" where
  "call_result_binding_row J project x = zip call_result_binding_columns
     [SqlInt project, SqlText (fact_id x), SqlText (rb_caller_summary_id x), SqlText (rb_callsite_id x),
     SqlText (rb_location_id x), SqlText (rb_definition_access_id x), SqlText (translation_unit_id x),
     SqlText (build_configuration_id x), SqlText (build_variant x)]"

definition row_to_call_result_binding :: "json_codec \<Rightarrow> row \<Rightarrow> call_result_binding result" where
  "row_to_call_result_binding J row =
     rbind (text_column row ''id'') (\<lambda>i. rbind (text_column row ''caller_summary_id'') (\<lambda>caller_summary_id.
     rbind (text_column row ''callsite_id'') (\<lambda>callsite_id.
     rbind (text_column row ''location_id'') (\<lambda>location_id.
     rbind (text_column row ''definition_access_id'') (\<lambda>definition_access_id.
     rbind (text_column row ''translation_unit_id'') (\<lambda>unit'.
     rbind (text_column row ''build_configuration_id'') (\<lambda>conf.
     rbind (text_column row ''build_variant'') (\<lambda>vrt.
     post_init_call_result_binding
       \<lparr>fact_id = i, translation_unit_id = unit', build_configuration_id = conf, build_variant = vrt,
       rb_caller_summary_id = caller_summary_id, rb_callsite_id = callsite_id, rb_location_id = location_id,
       rb_definition_access_id = definition_access_id\<rparr>))))))))"

definition interprocedural_flow_columns :: "string list" where
  "interprocedural_flow_columns =
     [''project_id'', ''id'', ''kind'', ''caller_summary_id'', ''callee_summary_id'', ''callsite_id'', ''target_symbol_id'',
     ''target_certainty'', ''certainty'', ''reason'', ''argument_index'', ''caller_location_id'', ''callee_location_id'',
     ''caller_access_id'', ''translation_unit_id'', ''build_configuration_id'', ''build_variant'']"

definition interprocedural_flow_row :: "json_codec \<Rightarrow> int \<Rightarrow> interprocedural_flow \<Rightarrow> row" where
  "interprocedural_flow_row J project x = zip interprocedural_flow_columns
     [SqlInt project, SqlText (fact_id x), SqlText (interprocedural_flow_kind_value (fl_kind x)),
     SqlText (fl_caller_summary_id x), SqlText (fl_callee_summary_id x), SqlText (fl_callsite_id x),
     SqlText (fl_target_symbol_id x), SqlText (call_target_certainty_value (fl_target_certainty x)),
     SqlText (data_flow_certainty_value (fl_certainty x)), SqlText (fl_reason x), sql_int (fl_argument_index x),
     sql_text (fl_caller_location_id x), sql_text (fl_callee_location_id x), sql_text (fl_caller_access_id x),
     SqlText (translation_unit_id x), SqlText (build_configuration_id x), SqlText (build_variant x)]"

definition row_to_interprocedural_flow :: "json_codec \<Rightarrow> row \<Rightarrow> interprocedural_flow result" where
  "row_to_interprocedural_flow J row =
     rbind (text_column row ''id'') (\<lambda>i.
     rbind (enum_column interprocedural_flow_kind_members interprocedural_flow_kind_value row ''kind'') (\<lambda>kind'.
     rbind (text_column row ''caller_summary_id'') (\<lambda>caller_summary_id.
     rbind (text_column row ''callee_summary_id'') (\<lambda>callee_summary_id.
     rbind (text_column row ''callsite_id'') (\<lambda>callsite_id.
     rbind (text_column row ''target_symbol_id'') (\<lambda>target_symbol_id.
     rbind (enum_column call_target_certainty_members call_target_certainty_value row ''target_certainty'') (\<lambda>target_certainty.
     rbind (enum_column data_flow_certainty_members data_flow_certainty_value row ''certainty'') (\<lambda>certainty'.
     rbind (text_column row ''reason'') (\<lambda>why.
     rbind (optional_int_column row ''argument_index'') (\<lambda>argument_index.
     rbind (optional_text_column row ''caller_location_id'') (\<lambda>caller_location_id.
     rbind (optional_text_column row ''callee_location_id'') (\<lambda>callee_location_id.
     rbind (optional_text_column row ''caller_access_id'') (\<lambda>caller_access_id.
     rbind (text_column row ''translation_unit_id'') (\<lambda>unit'.
     rbind (text_column row ''build_configuration_id'') (\<lambda>conf.
     rbind (text_column row ''build_variant'') (\<lambda>vrt.
     post_init_interprocedural_flow
       \<lparr>fact_id = i, translation_unit_id = unit', build_configuration_id = conf, build_variant = vrt, fl_kind = kind',
       fl_caller_summary_id = caller_summary_id, fl_callee_summary_id = callee_summary_id, fl_callsite_id = callsite_id,
       fl_target_symbol_id = target_symbol_id, fl_target_certainty = target_certainty, fl_certainty = certainty',
       fl_reason = why, fl_argument_index = argument_index, fl_caller_location_id = caller_location_id,
       fl_callee_location_id = callee_location_id, fl_caller_access_id = caller_access_id\<rparr>))))))))))))))))"

section \<open>What an ingestion inserts\<close>

text \<open>The statements of \<open>_put_..._facts\<close>, in order: the table and the rows.  Summary effects and return origins that are not local go to the payloads.\<close>

definition put_cfg_facts ::
    "json_codec \<Rightarrow> int \<Rightarrow> cfg_graph list \<Rightarrow> cfg_block list \<Rightarrow> cfg_element list \<Rightarrow> cfg_edge list \<Rightarrow> (string \<times> row list) list" where
  "put_cfg_facts J project graphs blocks elements edges =
     [(''cfg_graphs'', map (cfg_graph_row J project) graphs), (''cfg_blocks'', map (cfg_block_row J project) blocks),
      (''cfg_elements'', map (cfg_element_row J project) elements), (''cfg_edges'', map (cfg_edge_row J project) edges)]"

definition put_call_facts :: "json_codec \<Rightarrow> int \<Rightarrow> call_site list \<Rightarrow> call_target list \<Rightarrow> (string \<times> row list) list" where
  "put_call_facts J project sites targets =
     [(''callsites'', map (callsite_row J project) sites), (''call_targets'', map (call_target_row J project) targets)]"

definition location_order :: "memory_location list \<Rightarrow> memory_location list" where
  "location_order ls = sort_key (\<lambda>l. (length (ml_access_path l), fact_id l)) ls"

definition put_data_flow_facts ::
    "json_codec \<Rightarrow> int \<Rightarrow> data_flow_analysis list \<Rightarrow> memory_location list \<Rightarrow> data_access list \<Rightarrow> data_flow_evidence list
      \<Rightarrow> (string \<times> row list) list" where
  "put_data_flow_facts J project analyses locations accesses evidence =
     [(''data_flow_analyses'', map (data_flow_analysis_row J project) analyses),
      (''memory_locations'', map (memory_location_row J project) (location_order locations)),
      (''data_accesses'', map (data_access_row J project) accesses),
      (''data_flow_evidence'', map (data_flow_evidence_row J project) evidence)]"

definition put_summary_facts ::
    "json_codec \<Rightarrow> int \<Rightarrow> function_summary list \<Rightarrow> summary_effect list \<Rightarrow> summary_return_origin list \<Rightarrow>
      call_argument_binding list \<Rightarrow> call_result_binding list \<Rightarrow> interprocedural_flow list \<Rightarrow> (string \<times> row list) list" where
  "put_summary_facts J project summaries effects origins arguments results flows =
     [(''function_summaries'', map (function_summary_row J project) summaries),
      (''summary_effects'', map (summary_effect_row J project) (filter se_is_local effects)),
      (''summary_return_origins'', map (summary_return_origin_row J project) (filter so_is_local origins)),
      (''call_argument_bindings'', map (call_argument_binding_row J project) arguments),
      (''call_result_bindings'', map (call_result_binding_row J project) results),
      (''interprocedural_flows'', map (interprocedural_flow_row J project) flows)]"

end
