(* ===== verification/StoreRoundtrip.thy ===== *)
theory StoreRoundtrip
imports StoreRows "HOL-Library.Multiset"
begin

text \<open>
  What an ingestion inserts is read back: for every kind of fact, the object made of a stored row is the
  fact that was written, with the keys of its JSON dictionaries in order.
\<close>

section \<open>The JSON codec\<close>

text \<open>The documented behaviour of \<open>json\<close>: what is dumped is loaded, if keys are not repeated.\<close>

fun proper_json :: "json \<Rightarrow> bool" where
  "proper_json (JArr xs) \<longleftrightarrow> list_all proper_json xs"
| "proper_json (JObj d) \<longleftrightarrow> distinct (map fst d) \<and> list_all (\<lambda>(k, v). proper_json v) d"
| "proper_json j \<longleftrightarrow> True"

definition json_law :: "json_codec \<Rightarrow> bool" where
  "json_law J \<longleftrightarrow> (\<forall>j. proper_json j \<longrightarrow> jc_loads J (jc_dumps J j) = Inr j) \<and> jc_dumps J JNull = ''null''"

lemma distinct_sort_key: "distinct (map f (sort_key g xs)) \<longleftrightarrow> distinct (map f xs)"
  by (rule mset_eq_imp_distinct_iff) simp

lemma proper_sorted: "proper_json j \<Longrightarrow> proper_json (sorted_json j)"
proof (induction j rule: sorted_json.induct)
  case (2 d)
  then show ?case
    by (fastforce simp: list_all_iff comp_def split_def distinct_sort_key)
qed (auto simp: list_all_iff)

lemma loads_sorted: "json_law J \<Longrightarrow> proper_json j \<Longrightarrow> jc_loads J (dump_sorted J j) = Inr (sorted_json j)"
  by (simp add: json_law_def dump_sorted_def proper_sorted)

lemma rmap_map: "rmap f (map g xs) = rmap (\<lambda>x. f (g x)) xs"
  by (induction xs) simp_all

lemma rmap_Inr: "(\<And>x. x \<in> set xs \<Longrightarrow> f x = Inr (g x)) \<Longrightarrow> rmap f xs = Inr (map g xs)"
  by (induction xs) (simp_all add: rbind_def)

lemma strings_loaded: "json_law J \<Longrightarrow> rbind (jc_loads J (dump_strings J xs)) json_string_tuple = Inr xs"
proof -
  assume "json_law J"
  moreover have "proper_json (JArr (map JStr xs))" by (simp add: list_all_iff)
  ultimately have "jc_loads J (dump_strings J xs) = Inr (JArr (map JStr xs))" unfolding json_law_def dump_strings_def by blast
  then show ?thesis using rmap_Inr [of xs "\<lambda>x. Inr x" "\<lambda>x. x"] by (simp add: json_string_tuple_def rmap_map rbind_def)
qed

text \<open>A dictionary as it comes back.\<close>

definition sorted_mapping :: "(string \<times> json) list \<Rightarrow> (string \<times> json) list" where
  "sorted_mapping d = sort_key fst (map (\<lambda>(k, v). (k, sorted_json v)) d)"

lemma mapping_loaded:
  "json_law J \<Longrightarrow> proper_json (JObj d) \<Longrightarrow> rbind (jc_loads J (dump_mapping J d)) json_mapping = Inr (sorted_mapping d)"
  by (simp add: dump_mapping_def loads_sorted json_mapping_def sorted_mapping_def rbind_def del: proper_json.simps)

section \<open>Spans\<close>

definition storable_span :: "source_span \<Rightarrow> bool" where
  "storable_span s \<longleftrightarrow> post_init_source_span s = Inr s \<and> py_path (span_path s) = span_path s"

lemma proper_span: "proper_json (sql_span_payload s)"
  by (simp add: sql_span_payload_def)

lemma sorted_span:
  "sorted_json (sql_span_payload s) = JObj [(''end_column'', JInt (end_column s)), (''end_line'', JInt (end_line s)),
     (''path'', JStr (span_path s)), (''start_column'', JInt (start_column s)), (''start_line'', JInt (start_line s))]"
  by (simp add: sql_span_payload_def sort_key_def less_list_code less_eq_list_code)

lemma span_loaded: "storable_span s \<Longrightarrow> span_from_payload J (sorted_json (sql_span_payload s)) = Inr s"
  by (cases s) (simp add: sorted_span span_from_payload_def json_item_def json_string_def json_int_def storable_span_def rbind_def)

lemma span_json_loaded:
  "json_law J \<Longrightarrow> (\<And>s. v = Some s \<Longrightarrow> storable_span s) \<Longrightarrow> span_from_json J (span_json J v) = Inr v"
proof (cases v)
  case (Some s)
  assume "json_law J" "\<And>s. v = Some s \<Longrightarrow> storable_span s"
  moreover have "sorted_json (sql_span_payload s) \<noteq> JNull" by (simp add: sorted_span)
  ultimately show ?thesis using Some
    by (simp add: span_from_json_def span_json_def loads_sorted proper_span span_loaded rbind_def rmap_result_def)
qed (simp add: span_from_json_def span_json_def)

lemma required_span_loaded: "json_law J \<Longrightarrow> storable_span s \<Longrightarrow> required_span_from_json J (span_json J (Some s)) = Inr s"
  using span_json_loaded [of J "Some s"] by (simp add: required_span_from_json_def rbind_def)

definition storable_frame :: "macro_expansion_frame \<Rightarrow> bool" where
  "storable_frame f \<longleftrightarrow> post_init_macro_expansion_frame f = Inr f \<and> storable_span (mf_spelling_span f) \<and> storable_span (mf_expansion_span f)"

lemma sorted_frame:
  "sorted_json (frame_payload f) = JObj [(''expansion_span'', sorted_json (sql_span_payload (mf_expansion_span f))),
     (''macro_symbol_id'', JStr (mf_macro_symbol_id f)), (''name'', JStr (mf_name f)),
     (''spelling_span'', sorted_json (sql_span_payload (mf_spelling_span f)))]"
  by (simp add: frame_payload_def sort_key_def less_list_code less_eq_list_code)

lemma frame_loaded: "storable_frame f \<Longrightarrow> frame_from_payload J (sorted_json (frame_payload f)) = Inr f"
  by (cases f) (simp add: sorted_frame frame_from_payload_def json_item_def json_string_def span_loaded storable_frame_def rbind_def)

lemma stack_loaded:
  assumes "json_law J" and "list_all storable_frame fs"
  shows "rbind (jc_loads J (dump_stack J fs)) (\<lambda>j. case j of JArr xs \<Rightarrow> rmap (frame_from_payload J) xs | _ \<Rightarrow> Inl json_type_error) = Inr fs"
proof -
  have "proper_json (JArr (map frame_payload fs))" by (simp add: list_all_iff frame_payload_def proper_span)
  then have "jc_loads J (dump_stack J fs) = Inr (JArr (map (\<lambda>f. sorted_json (frame_payload f)) fs))"
    using loads_sorted [OF assms(1)] by (simp add: dump_stack_def comp_def)
  moreover have "rmap (\<lambda>f. frame_from_payload J (sorted_json (frame_payload f))) fs = Inr (map (\<lambda>f. f) fs)"
    by (rule rmap_Inr) (use assms(2) in \<open>simp add: list_all_iff frame_loaded\<close>)
  ultimately show ?thesis by (simp add: rmap_map rbind_def)
qed

section \<open>Columns\<close>

lemma bind_row_same:
  assumes "bind_row r = Inr stored" and "list_all (\<lambda>(c, v). v \<noteq> SqlReal NaN) r"
  shows "stored = r"
  using assms
proof (induction r arbitrary: stored)
  case (Cons x r)
  obtain c v where x: "x = (c, v)" by fastforce
  obtain rest where rest: "bind_row r = Inr rest" and b: "rmap_result (Pair c) (bind_value v) # [] = [Inr (hd stored)]" and s: "stored = hd stored # rest"
    using Cons.prems(1) x by (auto simp: bind_row_def rbind_eq_Inr)
  have "bind_value v = Inr v \<or> isl (bind_value v)" using Cons.prems(2) x by (auto simp: bind_value_def split: sql_value.splits)
  then have "hd stored = (c, v)" using b by (auto simp: rmap_result_def rbind_def split: sum.splits)
  then show ?case using Cons.IH [OF rest] Cons.prems(2) s x by simp
qed (simp add: bind_row_def)

text \<open>The value written is the value read.\<close>

lemma text_value: "(case sql_text v of SqlText s \<Rightarrow> Inr (Some s) | SqlNull \<Rightarrow> Inr None | _ \<Rightarrow> Inl wrong_column) = Inr v"
  by (cases v) (simp_all add: sql_text_def)

lemma int_value: "(case sql_int v of SqlInt s \<Rightarrow> Inr (Some s) | SqlNull \<Rightarrow> Inr None | _ \<Rightarrow> Inl wrong_column) = Inr v"
  by (cases v) (simp_all add: sql_int_def)

lemma bool_value:
  "(case sql_bool b of SqlNull \<Rightarrow> False | SqlInt n \<Rightarrow> n \<noteq> 0 | SqlReal x \<Rightarrow> x \<noteq> Finite 0 | SqlText s \<Rightarrow> s \<noteq> [] | SqlBlob s \<Rightarrow> s \<noteq> []) = b"
  by (simp add: sql_bool_def)

lemma null_span_loaded:
  "json_law J \<Longrightarrow> (\<And>s. v = Some s \<Longrightarrow> storable_span s) \<Longrightarrow>
     span_from_json J (Some (case span_json J v of Some s \<Rightarrow> s | None \<Rightarrow> ''null'')) = Inr v"
proof (cases v)
  case None
  assume law: "json_law J"
  have "proper_json JNull" by simp
  then have "jc_loads J (jc_dumps J JNull) = Inr JNull" using law unfolding json_law_def by blast
  then show ?thesis using None law by (simp add: json_law_def span_from_json_def span_json_def rbind_def)
next
  case (Some s)
  assume "json_law J" "\<And>s. v = Some s \<Longrightarrow> storable_span s"
  then show ?thesis using span_json_loaded [of J v] Some by (simp add: span_json_def)
qed

lemma optional_enum_value:
  assumes "\<And>e. enum_parse members value (value e) = Inr e" and "\<And>e. value e \<noteq> []"
  shows "(if truthy (map_option value v) then rmap_result Some (enum_parse members value (the (map_option value v))) else Inr None) = Inr v"
  using assms by (cases v) (simp_all add: truthy_def rmap_result_def rbind_def)

lemma location_kind_nonempty: "memory_location_kind_value e \<noteq> []"
  by (cases e) simp_all

lemmas column_defs = text_column_def int_column_def enum_column_def bool_column_def span_column_def optional_text_column_def
  optional_int_column_def real_column_def optional_enum_column_def strings_column_def mapping_column_def required_span_column_def
  stack_column_def sql_column_def

lemmas column_values = text_value int_value bool_value span_json_loaded null_span_loaded required_span_loaded strings_loaded
  mapping_loaded stack_loaded optional_enum_value location_kind_nonempty
  index_profile.parse_value cfg_block_role.parse_value cfg_edge_kind.parse_value call_dispatch_kind.parse_value
  call_target_certainty.parse_value memory_location_kind.parse_value data_access_kind.parse_value data_flow_relation.parse_value
  data_flow_certainty.parse_value summary_effect_kind.parse_value summary_return_origin_kind.parse_value
  interprocedural_flow_kind.parse_value

section \<open>Facts\<close>

lemma cfg_graph_stored:
  assumes "json_law J" and "post_init_cfg_graph x = Inr x" and "proper_json (JObj (cg_build_options x))"
  shows "row_to_cfg_graph J (cfg_graph_row J project x) = Inr (x\<lparr>cg_build_options := sorted_mapping (cg_build_options x)\<rparr>)"
  using assms
  by (cases x) (simp add: row_to_cfg_graph_def cfg_graph_row_def cfg_graph_columns_def column_defs rbind_simps column_values
    post_init_cfg_graph_def del: proper_json.simps split: if_splits)

lemma cfg_block_stored:
  assumes "json_law J" and "post_init_cfg_block x = Inr x" and "\<And>s. cb_terminator_spelling_span x = Some s \<Longrightarrow> storable_span s" and "\<And>s. cb_terminator_expansion_span x = Some s \<Longrightarrow> storable_span s"
  shows "row_to_cfg_block J (cfg_block_row J project x) = Inr x"
  using assms
  by (cases x) (simp add: row_to_cfg_block_def cfg_block_row_def cfg_block_columns_def column_defs rbind_simps column_values
     del: proper_json.simps)

lemma cfg_element_stored:
  assumes "json_law J" and "post_init_cfg_element x = Inr x" and "\<And>s. ce_spelling_span x = Some s \<Longrightarrow> storable_span s" and "\<And>s. ce_expansion_span x = Some s \<Longrightarrow> storable_span s" and "proper_json (JObj (ce_metadata x))"
  shows "row_to_cfg_element J (cfg_element_row J project x) = Inr (x\<lparr>ce_metadata := sorted_mapping (ce_metadata x)\<rparr>)"
  using assms
  by (cases x) (simp add: row_to_cfg_element_def cfg_element_row_def cfg_element_columns_def column_defs rbind_simps column_values
    post_init_cfg_element_def del: proper_json.simps split: if_splits)

lemma cfg_edge_stored:
  assumes "json_law J" and "post_init_cfg_edge x = Inr x"
  shows "row_to_cfg_edge J (cfg_edge_row J project x) = Inr x"
  using assms
  by (cases x) (simp add: row_to_cfg_edge_def cfg_edge_row_def cfg_edge_columns_def column_defs rbind_simps column_values
     del: proper_json.simps)

lemma callsite_stored:
  assumes "json_law J" and "post_init_call_site x = Inr x" and "\<And>s. cs_spelling_span x = Some s \<Longrightarrow> storable_span s" and "storable_span (cs_expansion_span x)" and "list_all storable_frame (cs_expansion_stack x)"
  shows "row_to_callsite J (callsite_row J project x) = Inr x"
  using assms
  by (cases x) (simp add: row_to_callsite_def callsite_row_def callsite_columns_def column_defs rbind_simps column_values
     del: proper_json.simps)

lemma call_target_stored:
  assumes "json_law J" and "post_init_call_target x = Inr x" and "storable_span (ct_evidence_span x)"
  shows "row_to_call_target J (call_target_row J project x) = Inr x"
  using assms
  by (cases x) (simp add: row_to_call_target_def call_target_row_def call_target_columns_def column_defs rbind_simps column_values
     del: proper_json.simps)

lemma data_flow_analysis_stored:
  assumes "json_law J" and "post_init_data_flow_analysis x = Inr x"
  shows "row_to_data_flow_analysis J (data_flow_analysis_row J project x) = Inr x"
  using assms
  by (cases x) (simp add: row_to_data_flow_analysis_def data_flow_analysis_row_def data_flow_analysis_columns_def column_defs rbind_simps column_values
     del: proper_json.simps)

lemma memory_location_stored:
  assumes "json_law J" and "post_init_memory_location x = Inr x"
  shows "row_to_memory_location J (memory_location_row J project x) = Inr x"
  using assms
  by (cases x) (simp add: row_to_memory_location_def memory_location_row_def memory_location_columns_def column_defs rbind_simps column_values
     del: proper_json.simps)

lemma data_access_stored:
  assumes "json_law J" and "post_init_data_access x = Inr x" and "\<And>s. da_span x = Some s \<Longrightarrow> storable_span s"
  shows "row_to_data_access J (data_access_row J project x) = Inr x"
  using assms
  by (cases x) (simp add: row_to_data_access_def data_access_row_def data_access_columns_def column_defs rbind_simps column_values
     del: proper_json.simps)

lemma data_flow_evidence_stored:
  assumes "json_law J" and "post_init_data_flow_evidence x = Inr x" and "\<And>s. de_evidence_span x = Some s \<Longrightarrow> storable_span s"
  shows "row_to_data_flow_evidence J (data_flow_evidence_row J project x) = Inr x"
  using assms
  by (cases x) (simp add: row_to_data_flow_evidence_def data_flow_evidence_row_def data_flow_evidence_columns_def column_defs rbind_simps column_values
     del: proper_json.simps)

lemma function_summary_stored:
  assumes "json_law J" and "post_init_function_summary x = Inr x"
  shows "row_to_function_summary J (function_summary_row J project x) = Inr x"
  using assms
  by (cases x) (simp add: row_to_function_summary_def function_summary_row_def function_summary_columns_def column_defs rbind_simps column_values
     del: proper_json.simps)

lemma summary_effect_stored:
  assumes "json_law J" and "post_init_summary_effect x = Inr x"
  shows "row_to_summary_effect J (summary_effect_row J project x) = Inr x"
  using assms
  by (cases x) (simp add: row_to_summary_effect_def summary_effect_row_def summary_effect_columns_def column_defs rbind_simps column_values
     del: proper_json.simps)

lemma summary_return_origin_stored:
  assumes "json_law J" and "post_init_summary_return_origin x = Inr x"
  shows "row_to_summary_return_origin J (summary_return_origin_row J project x) = Inr x"
  using assms
  by (cases x) (simp add: row_to_summary_return_origin_def summary_return_origin_row_def summary_return_origin_columns_def column_defs rbind_simps column_values
     del: proper_json.simps)

lemma call_argument_binding_stored:
  assumes "json_law J" and "post_init_call_argument_binding x = Inr x"
  shows "row_to_call_argument_binding J (call_argument_binding_row J project x) = Inr x"
  using assms
  by (cases x) (simp add: row_to_call_argument_binding_def call_argument_binding_row_def call_argument_binding_columns_def column_defs rbind_simps column_values
     del: proper_json.simps)

lemma call_result_binding_stored:
  assumes "json_law J" and "post_init_call_result_binding x = Inr x"
  shows "row_to_call_result_binding J (call_result_binding_row J project x) = Inr x"
  using assms
  by (cases x) (simp add: row_to_call_result_binding_def call_result_binding_row_def call_result_binding_columns_def column_defs rbind_simps column_values
     del: proper_json.simps)

lemma interprocedural_flow_stored:
  assumes "json_law J" and "post_init_interprocedural_flow x = Inr x"
  shows "row_to_interprocedural_flow J (interprocedural_flow_row J project x) = Inr x"
  using assms
  by (cases x) (simp add: row_to_interprocedural_flow_def interprocedural_flow_row_def interprocedural_flow_columns_def column_defs rbind_simps column_values
     del: proper_json.simps)

end
