(* ===== verification/StoreCodec.thy ===== *)
theory StoreCodec
imports StoreRoundtrip
begin

text \<open>
  A concrete document codec that satisfies the law of \<open>json\<close> the round trips of the store rely on: a prefix
  code, tags followed by lengths.  It shows that the hypotheses on the parameter \<open>J\<close> can hold.
\<close>

definition unary :: "nat \<Rightarrow> string" where
  "unary n = replicate n CHR ''1'' @ ''0''"

definition signed :: "int \<Rightarrow> string" where
  "signed n = (if n < 0 then CHR ''-'' else CHR ''+'') # unary (nat \<bar>n\<bar>)"

fun encode_json :: "json \<Rightarrow> string" where
  "encode_json JNull = ''null''"
| "encode_json (JBool b) = (if b then ''t'' else ''f'')"
| "encode_json (JInt n) = CHR ''i'' # signed n"
| "encode_json (JFloat (Finite q)) = CHR ''q'' # signed (fst (quotient_of q)) @ signed (snd (quotient_of q))"
| "encode_json (JFloat (Infinite b)) = CHR ''y'' # (if b then ''t'' else ''f'')"
| "encode_json (JFloat NaN) = ''z''"
| "encode_json (JStr s) = CHR ''s'' # unary (length s) @ s"
| "encode_json (JArr xs) = CHR ''a'' # unary (length xs) @ concat (map encode_json xs)"
| "encode_json (JObj d) = CHR ''o'' # unary (length d) @ concat (map (\<lambda>(k, v). unary (length k) @ k @ encode_json v) d)"

definition read_unary :: "string \<Rightarrow> nat \<times> string" where
  "read_unary s = (length (takeWhile (\<lambda>c. c = CHR ''1'') s), tl (dropWhile (\<lambda>c. c = CHR ''1'') s))"

definition read_signed :: "string \<Rightarrow> int \<times> string" where
  "read_signed s = (let (n, r) = read_unary (tl s) in (if hd s = CHR ''-'' then - int n else int n, r))"

definition read_text :: "string \<Rightarrow> string \<times> string" where
  "read_text s = (let (n, r) = read_unary s in (take n r, drop n r))"

primrec read_many :: "(string \<Rightarrow> ('a \<times> string) option) \<Rightarrow> nat \<Rightarrow> string \<Rightarrow> ('a list \<times> string) option" where
  "read_many p 0 s = Some ([], s)"
| "read_many p (Suc n) s = (case p s of None \<Rightarrow> None | Some (x, r) \<Rightarrow>
     map_option (\<lambda>(xs, r'). (x # xs, r')) (read_many p n r))"

definition read_item :: "(string \<Rightarrow> (json \<times> string) option) \<Rightarrow> string \<Rightarrow> ((string \<times> json) \<times> string) option" where
  "read_item p s = (let (k, r) = read_text s in map_option (\<lambda>(v, r'). ((k, v), r')) (p r))"

definition decode_step :: "(string \<Rightarrow> (json \<times> string) option) \<Rightarrow> string \<Rightarrow> (json \<times> string) option" where
  "decode_step p s = (case s of
     [] \<Rightarrow> None
   | c # r \<Rightarrow>
       if c = CHR ''n'' then Some (JNull, drop 3 r)
       else if c = CHR ''t'' then Some (JBool True, r)
       else if c = CHR ''f'' then Some (JBool False, r)
       else if c = CHR ''i'' then Some (map_prod JInt id (read_signed r))
       else if c = CHR ''q'' then
         let (a, r1) = read_signed r; (b, r2) = read_signed r1 in Some (JFloat (Finite (Fract a b)), r2)
       else if c = CHR ''y'' then Some (JFloat (Infinite (hd r = CHR ''t'')), tl r)
       else if c = CHR ''z'' then Some (JFloat NaN, r)
       else if c = CHR ''s'' then Some (map_prod JStr id (read_text r))
       else if c = CHR ''a'' then let (n, r1) = read_unary r in map_option (map_prod JArr id) (read_many p n r1)
       else if c = CHR ''o'' then let (n, r1) = read_unary r in map_option (map_prod JObj id) (read_many (read_item p) n r1)
       else None)"

primrec decode_json :: "nat \<Rightarrow> string \<Rightarrow> (json \<times> string) option" where
  "decode_json 0 = (\<lambda>s. None)"
| "decode_json (Suc n) = decode_step (decode_json n)"

definition sample_codec :: json_codec where
  "sample_codec = \<lparr>jc_dumps = encode_json,
     jc_loads = (\<lambda>s. case decode_json (length s) s of Some (j, []) \<Rightarrow> Inr j | _ \<Rightarrow> Inl (ValueError ''malformed'')),
     jc_int = (\<lambda>s. Inl (ValueError ''invalid literal''))\<rparr>"

lemma read_unary [simp]: "read_unary (unary n @ r) = (n, r)"
  by (induction n) (simp_all add: read_unary_def unary_def)

lemma read_signed [simp]: "read_signed (signed n @ r) = (n, r)"
  by (simp add: read_signed_def signed_def)

lemma read_text [simp]: "read_text (unary (length s) @ s @ r) = (s, r)"
  by (simp add: read_text_def)

lemma read_many:
  "(\<And>x r. x \<in> set xs \<Longrightarrow> p (f x @ r) = Some (x, r)) \<Longrightarrow> read_many p (length xs) (concat (map f xs) @ r) = Some (xs, r)"
  by (induction xs) simp_all

lemma length_in_concat: "x \<in> set xs \<Longrightarrow> length (f x) \<le> length (concat (map f xs))"
  by (induction xs) auto

lemma decode_step_simps [simp]:
  "decode_step p (CHR ''n'' # r) = Some (JNull, drop 3 r)" "decode_step p (CHR ''t'' # r) = Some (JBool True, r)"
  "decode_step p (CHR ''f'' # r) = Some (JBool False, r)" "decode_step p (CHR ''i'' # r) = Some (map_prod JInt id (read_signed r))"
  "decode_step p (CHR ''q'' # r) = (let (a, r1) = read_signed r; (b, r2) = read_signed r1 in Some (JFloat (Finite (Fract a b)), r2))"
  "decode_step p (CHR ''y'' # r) = Some (JFloat (Infinite (hd r = CHR ''t'')), tl r)" "decode_step p (CHR ''z'' # r) = Some (JFloat NaN, r)"
  "decode_step p (CHR ''s'' # r) = Some (map_prod JStr id (read_text r))"
  "decode_step p (CHR ''a'' # r) = (let (n, r1) = read_unary r in map_option (map_prod JArr id) (read_many p n r1))"
  "decode_step p (CHR ''o'' # r) = (let (n, r1) = read_unary r in map_option (map_prod JObj id) (read_many (read_item p) n r1))"
  by (simp_all add: decode_step_def)

lemma fract_quotient: "Fract (fst (quotient_of q)) (snd (quotient_of q)) = q"
  using quotient_of_div [of q "fst (quotient_of q)" "snd (quotient_of q)"] by (simp add: Fract_of_int_quotient)

lemma decode_leaf: "n \<noteq> 0 \<Longrightarrow> decode_json n s = decode_step (decode_json (n - 1)) s"
  by (cases n) simp_all

lemma decode_array:
  assumes "\<And>x r'. x \<in> set xs \<Longrightarrow> decode_json m (encode_json x @ r') = Some (x, r')"
  shows "decode_json (Suc m) (encode_json (JArr xs) @ r) = Some (JArr xs, r)"
proof -
  have "read_many (decode_json m) (length xs) (concat (map encode_json xs) @ r) = Some (xs, r)" by (rule read_many) (rule assms)
  then show ?thesis by simp
qed

lemma decode_object:
  assumes "\<And>k v r'. (k, v) \<in> set d \<Longrightarrow> decode_json m (encode_json v @ r') = Some (v, r')"
  shows "decode_json (Suc m) (encode_json (JObj d) @ r) = Some (JObj d, r)"
proof -
  let ?f = "\<lambda>(k, v). unary (length k) @ k @ encode_json v"
  have "read_many (read_item (decode_json m)) (length d) (concat (map ?f d) @ r) = Some (d, r)"
  proof (rule read_many)
    show "read_item (decode_json m) (?f x @ r') = Some (x, r')" if "x \<in> set d" for x r'
      using assms [of "fst x" "snd x" r'] that by (cases x) (simp add: read_item_def)
  qed
  then show ?thesis by simp
qed

lemma decode_encoded: "length (encode_json j) \<le> n \<Longrightarrow> decode_json n (encode_json j @ r) = Some (j, r)"
proof (induction j arbitrary: n r rule: encode_json.induct)
  case 1
  then show ?case by (simp add: decode_leaf)
next
  case (2 b)
  then show ?case by (cases b) (simp_all add: decode_leaf)
next
  case (3 i)
  then show ?case by (simp add: decode_leaf)
next
  case (4 q)
  then show ?case by (simp add: decode_leaf fract_quotient)
next
  case (5 b)
  then show ?case by (cases b) (simp_all add: decode_leaf)
next
  case 6
  then show ?case by (simp add: decode_leaf)
next
  case (7 s)
  then show ?case by (simp add: decode_leaf)
next
  case (8 xs)
  obtain m where n: "n = Suc m" and len: "length (concat (map encode_json xs)) \<le> m" using 8(2) by (cases n) (simp_all del: length_concat)
  show ?case unfolding n
    by (rule decode_array, rule 8(1)) (use len length_in_concat [of _ xs encode_json] le_trans in blast)+
next
  case (9 d)
  let ?f = "\<lambda>(k, v). unary (length k) @ k @ encode_json v"
  obtain m where n: "n = Suc m" and len: "length (concat (map ?f d)) \<le> m" using 9(2) by (cases n) (simp_all del: length_concat)
  show ?case unfolding n
  proof (rule decode_object)
    fix k v r' assume kv: "(k, v) \<in> set d"
    have "length (?f (k, v)) \<le> m" using len length_in_concat [OF kv, of ?f] by linarith
    then show "decode_json m (encode_json v @ r') = Some (v, r')" using 9(1) [OF kv refl, of m r'] by simp
  qed
qed

lemma sample_codec_law: "json_law sample_codec"
proof -
  have "jc_loads sample_codec (jc_dumps sample_codec j) = Inr j" for j
    using decode_encoded [of j "length (encode_json j)" "[]"] by (simp add: sample_codec_def)
  then show ?thesis by (simp add: json_law_def sample_codec_def)
qed

end
