(* ===== verification/StoreSpec.thy ===== *)
theory StoreSpec
imports StoreCodec
begin

text \<open>
  The round trip of every stored fact as one property.
\<close>

datatype stored_fact =
    GraphFact cfg_graph
  | BlockFact cfg_block
  | ElementFact cfg_element
  | EdgeFact cfg_edge
  | SiteFact call_site
  | TargetFact call_target
  | AnalysisFact data_flow_analysis
  | LocationFact memory_location
  | AccessFact data_access
  | EvidenceFact data_flow_evidence
  | SummaryFact function_summary
  | EffectFact summary_effect
  | OriginFact summary_return_origin
  | ArgumentFact call_argument_binding
  | ResultFact call_result_binding
  | FlowFact interprocedural_flow

text \<open>The row inserted for a fact, and the fact made of a row of its table.\<close>

fun fact_row :: "json_codec \<Rightarrow> int \<Rightarrow> stored_fact \<Rightarrow> row" where
  "fact_row J project (GraphFact x) = cfg_graph_row J project x"
| "fact_row J project (BlockFact x) = cfg_block_row J project x"
| "fact_row J project (ElementFact x) = cfg_element_row J project x"
| "fact_row J project (EdgeFact x) = cfg_edge_row J project x"
| "fact_row J project (SiteFact x) = callsite_row J project x"
| "fact_row J project (TargetFact x) = call_target_row J project x"
| "fact_row J project (AnalysisFact x) = data_flow_analysis_row J project x"
| "fact_row J project (LocationFact x) = memory_location_row J project x"
| "fact_row J project (AccessFact x) = data_access_row J project x"
| "fact_row J project (EvidenceFact x) = data_flow_evidence_row J project x"
| "fact_row J project (SummaryFact x) = function_summary_row J project x"
| "fact_row J project (EffectFact x) = summary_effect_row J project x"
| "fact_row J project (OriginFact x) = summary_return_origin_row J project x"
| "fact_row J project (ArgumentFact x) = call_argument_binding_row J project x"
| "fact_row J project (ResultFact x) = call_result_binding_row J project x"
| "fact_row J project (FlowFact x) = interprocedural_flow_row J project x"

fun read_fact :: "json_codec \<Rightarrow> stored_fact \<Rightarrow> row \<Rightarrow> stored_fact result" where
  "read_fact J (GraphFact x) row = rmap_result GraphFact (row_to_cfg_graph J row)"
| "read_fact J (BlockFact x) row = rmap_result BlockFact (row_to_cfg_block J row)"
| "read_fact J (ElementFact x) row = rmap_result ElementFact (row_to_cfg_element J row)"
| "read_fact J (EdgeFact x) row = rmap_result EdgeFact (row_to_cfg_edge J row)"
| "read_fact J (SiteFact x) row = rmap_result SiteFact (row_to_callsite J row)"
| "read_fact J (TargetFact x) row = rmap_result TargetFact (row_to_call_target J row)"
| "read_fact J (AnalysisFact x) row = rmap_result AnalysisFact (row_to_data_flow_analysis J row)"
| "read_fact J (LocationFact x) row = rmap_result LocationFact (row_to_memory_location J row)"
| "read_fact J (AccessFact x) row = rmap_result AccessFact (row_to_data_access J row)"
| "read_fact J (EvidenceFact x) row = rmap_result EvidenceFact (row_to_data_flow_evidence J row)"
| "read_fact J (SummaryFact x) row = rmap_result SummaryFact (row_to_function_summary J row)"
| "read_fact J (EffectFact x) row = rmap_result EffectFact (row_to_summary_effect J row)"
| "read_fact J (OriginFact x) row = rmap_result OriginFact (row_to_summary_return_origin J row)"
| "read_fact J (ArgumentFact x) row = rmap_result ArgumentFact (row_to_call_argument_binding J row)"
| "read_fact J (ResultFact x) row = rmap_result ResultFact (row_to_call_result_binding J row)"
| "read_fact J (FlowFact x) row = rmap_result FlowFact (row_to_interprocedural_flow J row)"

text \<open>A fact the constructors accept, with proper spans and dictionaries; and how its dictionaries come back.\<close>

fun storable_fact :: "stored_fact \<Rightarrow> bool" where
  "storable_fact (GraphFact x) \<longleftrightarrow> post_init_cfg_graph x = Inr x \<and>
     proper_json (JObj (cg_build_options x))"
| "storable_fact (BlockFact x) \<longleftrightarrow> post_init_cfg_block x = Inr x \<and>
     pred_option storable_span (cb_terminator_spelling_span x) \<and>
     pred_option storable_span (cb_terminator_expansion_span x)"
| "storable_fact (ElementFact x) \<longleftrightarrow> post_init_cfg_element x = Inr x \<and>
     pred_option storable_span (ce_spelling_span x) \<and>
     pred_option storable_span (ce_expansion_span x) \<and>
     proper_json (JObj (ce_metadata x))"
| "storable_fact (EdgeFact x) \<longleftrightarrow> post_init_cfg_edge x = Inr x"
| "storable_fact (SiteFact x) \<longleftrightarrow> post_init_call_site x = Inr x \<and>
     pred_option storable_span (cs_spelling_span x) \<and>
     storable_span (cs_expansion_span x) \<and>
     list_all storable_frame (cs_expansion_stack x)"
| "storable_fact (TargetFact x) \<longleftrightarrow> post_init_call_target x = Inr x \<and>
     storable_span (ct_evidence_span x)"
| "storable_fact (AnalysisFact x) \<longleftrightarrow> post_init_data_flow_analysis x = Inr x"
| "storable_fact (LocationFact x) \<longleftrightarrow> post_init_memory_location x = Inr x"
| "storable_fact (AccessFact x) \<longleftrightarrow> post_init_data_access x = Inr x \<and>
     pred_option storable_span (da_span x)"
| "storable_fact (EvidenceFact x) \<longleftrightarrow> post_init_data_flow_evidence x = Inr x \<and>
     pred_option storable_span (de_evidence_span x)"
| "storable_fact (SummaryFact x) \<longleftrightarrow> post_init_function_summary x = Inr x"
| "storable_fact (EffectFact x) \<longleftrightarrow> post_init_summary_effect x = Inr x"
| "storable_fact (OriginFact x) \<longleftrightarrow> post_init_summary_return_origin x = Inr x"
| "storable_fact (ArgumentFact x) \<longleftrightarrow> post_init_call_argument_binding x = Inr x"
| "storable_fact (ResultFact x) \<longleftrightarrow> post_init_call_result_binding x = Inr x"
| "storable_fact (FlowFact x) \<longleftrightarrow> post_init_interprocedural_flow x = Inr x"

fun as_read :: "stored_fact \<Rightarrow> stored_fact" where
  "as_read (GraphFact x) = GraphFact (x\<lparr>cg_build_options := sorted_mapping (cg_build_options x)\<rparr>)"
| "as_read (ElementFact x) = ElementFact (x\<lparr>ce_metadata := sorted_mapping (ce_metadata x)\<rparr>)"
| "as_read f = f"

lemma row_without_nan: "storable_fact f \<Longrightarrow> list_all (\<lambda>(c, v). v \<noteq> SqlReal NaN) (fact_row J project f)"
proof -
  have plain: "sql_text v \<noteq> SqlReal x" "sql_int w \<noteq> SqlReal x" "sql_bool b \<noteq> SqlReal x" for v w b x
    by (cases v; cases w; simp add: sql_text_def sql_int_def sql_bool_def)+
  assume "storable_fact f"
  then show ?thesis
  proof (cases f)
    case (TargetFact t)
    then have "ct_confidence t \<noteq> NaN" using \<open>storable_fact f\<close> by (auto simp: post_init_call_target_def in_unit_interval_def split: if_splits)
    then show ?thesis using TargetFact by (simp add: call_target_row_def call_target_columns_def plain)
  qed (simp_all add: plain cfg_graph_row_def cfg_graph_columns_def cfg_block_row_def cfg_block_columns_def cfg_element_row_def cfg_element_columns_def cfg_edge_row_def cfg_edge_columns_def callsite_row_def callsite_columns_def data_flow_analysis_row_def data_flow_analysis_columns_def memory_location_row_def memory_location_columns_def data_access_row_def data_access_columns_def data_flow_evidence_row_def data_flow_evidence_columns_def function_summary_row_def function_summary_columns_def summary_effect_row_def summary_effect_columns_def summary_return_origin_row_def summary_return_origin_columns_def call_argument_binding_row_def call_argument_binding_columns_def call_result_binding_row_def call_result_binding_columns_def interprocedural_flow_row_def interprocedural_flow_columns_def)
qed

lemmas facts_stored = cfg_graph_stored cfg_block_stored cfg_element_stored cfg_edge_stored callsite_stored call_target_stored data_flow_analysis_stored memory_location_stored data_access_stored data_flow_evidence_stored function_summary_stored summary_effect_stored summary_return_origin_stored call_argument_binding_stored call_result_binding_stored interprocedural_flow_stored


definition use_span :: source_span where
  "use_span = \<lparr>span_path = ''/a.cpp'', start_line = 1, end_line = 1, start_column = 2, end_column = 3\<rparr>"

definition macro_span :: source_span where
  "macro_span = \<lparr>span_path = ''/b.h'', start_line = 1, end_line = 1, start_column = 2, end_column = 3\<rparr>"

definition sample_site :: call_site where
  "sample_site = \<lparr>fact_id = ''s'', translation_unit_id = ''u'', build_configuration_id = ''c'', build_variant = ''v'',
     cs_owner_symbol_id = ''f'', cs_dispatch_kind = CALL_VIRTUAL, cs_spelling_span = None,
     cs_expansion_span = use_span,
     cs_target_set_complete = True, cs_static_target_symbol_id = Some ''g'', cs_unresolved_reason = [], cs_callee_text = ''g'',
     cs_expansion_stack = [\<lparr>mf_macro_symbol_id = ''m'', mf_name = ''M'',
       mf_spelling_span = macro_span, mf_expansion_span = use_span\<rparr>]\<rparr>"


end
