(* ===== verification/StorePayload.thy ===== *)
theory StorePayload
imports StoreRows Identity
begin

text \<open>
  The compact payloads of propagated summary facts in \<open>storage/sqlite.py\<close>: \<open>_encode_summary_payload\<close>,
  \<open>_decode_summary_payload\<close>, the spool that collects encoded payloads (\<open>_SummaryPayloadSpool\<close>) and the grouping
  of solver output (\<open>_propagated_summary_groups\<close>, \<open>_ordered_summary_groups\<close>, \<open>_write_summary_solution_groups\<close>).  The
  JSON text, \<open>zlib\<close> and SHA-256 are the parameter \<open>Z\<close>; a check for cancellation only aborts and is left out.
  The row batchers (\<open>_ingestion_row_batches\<close>, \<open>_write_summary_solution_rows_batched\<close>) are at the end.
\<close>

section \<open>Limits\<close>

definition SUMMARY_PAYLOAD_ENCODING :: string where "SUMMARY_PAYLOAD_ENCODING = ''zlib-json-v1''"
definition MAX_SUMMARY_PAYLOAD_COMPRESSED_BYTES :: int where "MAX_SUMMARY_PAYLOAD_COMPRESSED_BYTES = 16 * 1024 * 1024"
definition MAX_SUMMARY_PAYLOAD_UNCOMPRESSED_BYTES :: int where "MAX_SUMMARY_PAYLOAD_UNCOMPRESSED_BYTES = 64 * 1024 * 1024"
definition MAX_SUMMARY_PAYLOAD_RECORDS :: int where "MAX_SUMMARY_PAYLOAD_RECORDS = 65536"

text \<open>
  What \<open>decompress(payload, limit)\<close> returned, what it left, what \<open>flush\<close> returned and the state after; \<open>None\<close> is a
  \<open>zlib.error\<close>.
\<close>

record inflation =
  in_raw :: string
  in_tail :: string
  in_flushed :: string
  in_eof :: bool
  in_unused :: string

record payload_codec =
  pd_dumps :: "json \<Rightarrow> string"
  pd_loads :: "string \<Rightarrow> json result"
  pd_compress :: "string \<Rightarrow> string"
  pd_stream :: "string list \<Rightarrow> string"
  pd_inflate :: "string \<Rightarrow> int \<Rightarrow> inflation option"
  pd_digest :: "string \<Rightarrow> string"

record payload =
  sp_effect_count :: int
  sp_origin_count :: int
  sp_raw_size :: int
  sp_hash :: string
  sp_bytes :: string

section \<open>Encoding\<close>

definition json_option :: "string option \<Rightarrow> json" where
  "json_option v = (case v of None \<Rightarrow> JNull | Some s \<Rightarrow> JStr s)"

definition json_index :: "int option \<Rightarrow> json" where
  "json_index v = (case v of None \<Rightarrow> JNull | Some n \<Rightarrow> JInt n)"

definition effect_record :: "summary_effect \<Rightarrow> json" where
  "effect_record e = JArr
     [JStr (fact_id e), JStr (summary_effect_kind_value (se_kind e)), JStr (memory_location_kind_value (se_location_kind e)),
      JStr (data_flow_certainty_value (se_certainty e)), JStr (se_reason e), json_index (se_parameter_index e),
      JArr (map JStr (se_access_path e)), json_option (se_location_id e), json_option (se_source_access_id e),
      json_option (se_via_callsite_id e), json_option (se_target_symbol_id e), JStr (translation_unit_id e),
      JStr (build_configuration_id e), JStr (build_variant e)]"

definition origin_record :: "summary_return_origin \<Rightarrow> json" where
  "origin_record r = JArr
     [JStr (fact_id r), JStr (summary_return_origin_kind_value (so_kind r)), JStr (data_flow_certainty_value (so_certainty r)),
      JStr (so_reason r), json_option (map_option memory_location_kind_value (so_location_kind r)),
      json_index (so_parameter_index r), JArr (map JStr (so_access_path r)), json_option (so_location_id r),
      json_option (so_callsite_id r), json_option (so_via_callsite_id r), json_option (so_target_symbol_id r),
      JStr (translation_unit_id r), JStr (build_configuration_id r), JStr (build_variant r)]"

text \<open>The 1 MiB pieces fed to \<open>compressobj\<close> when the caller can cancel.\<close>

function byte_chunks :: "nat \<Rightarrow> string \<Rightarrow> string list" where
  "byte_chunks n s = (if s = [] \<or> n = 0 then [] else take n s # byte_chunks n (drop n s))"
  by pat_completeness auto
termination by (relation "measure (\<lambda>(n, s). length s)") auto

declare byte_chunks.simps [simp del]

definition encode_summary_payload ::
    "payload_codec \<Rightarrow> bool \<Rightarrow> string \<Rightarrow> summary_effect list \<Rightarrow> summary_return_origin list \<Rightarrow> payload result" where
  "encode_summary_payload Z cancellable summary_id effects origins =
     (if int (length effects + length origins) > MAX_SUMMARY_PAYLOAD_RECORDS
      then Inl (SummaryPayloadError ''summary payload record limit exceeded'')
      else if list_ex (\<lambda>e. se_is_local e \<or> se_summary_id e \<noteq> summary_id) effects
      then Inl (SummaryPayloadError ''summary payload contains an invalid propagated effect'')
      else if list_ex (\<lambda>r. so_is_local r \<or> so_summary_id r \<noteq> summary_id) origins
      then Inl (SummaryPayloadError ''summary payload contains an invalid propagated origin'')
      else let raw = utf8 (pd_dumps Z (JArr [JArr (map effect_record effects), JArr (map origin_record origins)])) in
        if int (length raw) > MAX_SUMMARY_PAYLOAD_UNCOMPRESSED_BYTES
        then Inl (SummaryPayloadError ''summary payload decompressed-size limit exceeded'')
        else let compressed = (if cancellable then pd_stream Z (byte_chunks 1048576 raw) else pd_compress Z raw) in
          if int (length compressed) > MAX_SUMMARY_PAYLOAD_COMPRESSED_BYTES
          then Inl (SummaryPayloadError ''summary payload compressed-size limit exceeded'')
          else Inr \<lparr>sp_effect_count = int (length effects), sp_origin_count = int (length origins),
            sp_raw_size = int (length raw), sp_hash = pd_digest Z raw, sp_bytes = compressed\<rparr>)"

section \<open>Decoding\<close>

definition payload_record :: "json \<Rightarrow> nat \<Rightarrow> json list result" where
  "payload_record j n = (case j of
     JArr xs \<Rightarrow> if length xs = n then Inr xs else Inl (SummaryPayloadError ''summary payload record has an invalid shape'')
   | _ \<Rightarrow> Inl (SummaryPayloadError ''summary payload record has an invalid shape''))"

definition payload_string :: "json \<Rightarrow> string result" where
  "payload_string j = (case j of JStr s \<Rightarrow> Inr s
     | _ \<Rightarrow> Inl (SummaryPayloadError ''summary payload string field has an invalid type''))"

definition payload_optional_string :: "json \<Rightarrow> string option result" where
  "payload_optional_string j = (if j = JNull then Inr None else rmap_result Some (payload_string j))"

definition payload_optional_index :: "json \<Rightarrow> int option result" where
  "payload_optional_index j = (case j of
     JNull \<Rightarrow> Inr None
   | JInt n \<Rightarrow> if n < 0 then Inl (SummaryPayloadError ''summary payload index has an invalid value'') else Inr (Some n)
   | _ \<Rightarrow> Inl (SummaryPayloadError ''summary payload index has an invalid value''))"

definition payload_string_tuple :: "json \<Rightarrow> string list result" where
  "payload_string_tuple j = (case j of
     JArr xs \<Rightarrow> if list_all (\<lambda>x. case x of JStr s \<Rightarrow> True | _ \<Rightarrow> False) xs
                then rmap payload_string xs
                else Inl (SummaryPayloadError ''summary payload access path has an invalid shape'')
   | _ \<Rightarrow> Inl (SummaryPayloadError ''summary payload access path has an invalid shape''))"

definition payload_enum :: "'e list \<Rightarrow> ('e \<Rightarrow> string) \<Rightarrow> json \<Rightarrow> 'e result" where
  "payload_enum members value j = rbind (payload_string j) (enum_parse members value)"

definition effect_from_payload :: "string \<Rightarrow> json \<Rightarrow> summary_effect result" where
  "effect_from_payload summary_id j =
     rbind (payload_record j 14) (\<lambda>v.
     rbind (payload_string (v ! 0)) (\<lambda>i.
     rbind (payload_enum summary_effect_kind_members summary_effect_kind_value (v ! 1)) (\<lambda>kind'.
     rbind (payload_enum memory_location_kind_members memory_location_kind_value (v ! 2)) (\<lambda>location_kind.
     rbind (payload_enum data_flow_certainty_members data_flow_certainty_value (v ! 3)) (\<lambda>certainty.
     rbind (payload_string (v ! 4)) (\<lambda>why.
     rbind (payload_optional_index (v ! 5)) (\<lambda>parameter.
     rbind (payload_string_tuple (v ! 6)) (\<lambda>path.
     rbind (payload_optional_string (v ! 7)) (\<lambda>location.
     rbind (payload_optional_string (v ! 8)) (\<lambda>source.
     rbind (payload_optional_string (v ! 9)) (\<lambda>via.
     rbind (payload_optional_string (v ! 10)) (\<lambda>target.
     rbind (payload_string (v ! 11)) (\<lambda>unit'.
     rbind (payload_string (v ! 12)) (\<lambda>conf.
     rbind (payload_string (v ! 13)) (\<lambda>vrt.
     post_init_summary_effect
       \<lparr>fact_id = i, translation_unit_id = unit', build_configuration_id = conf, build_variant = vrt,
        se_summary_id = summary_id, se_kind = kind', se_location_kind = location_kind, se_certainty = certainty,
        se_reason = why, se_parameter_index = parameter, se_access_path = path, se_location_id = location,
        se_source_access_id = source, se_is_local = False, se_via_callsite_id = via, se_target_symbol_id = target\<rparr>)))))))))))))))"

definition origin_from_payload :: "string \<Rightarrow> json \<Rightarrow> summary_return_origin result" where
  "origin_from_payload summary_id j =
     rbind (payload_record j 14) (\<lambda>v.
     rbind (payload_optional_string (v ! 4)) (\<lambda>location_text.
     rbind (payload_string (v ! 0)) (\<lambda>i.
     rbind (payload_enum summary_return_origin_kind_members summary_return_origin_kind_value (v ! 1)) (\<lambda>kind'.
     rbind (payload_enum data_flow_certainty_members data_flow_certainty_value (v ! 2)) (\<lambda>certainty.
     rbind (payload_string (v ! 3)) (\<lambda>why.
     rbind (if truthy location_text
            then rmap_result Some (enum_parse memory_location_kind_members memory_location_kind_value (the location_text))
            else Inr None) (\<lambda>location_kind.
     rbind (payload_optional_index (v ! 5)) (\<lambda>parameter.
     rbind (payload_string_tuple (v ! 6)) (\<lambda>path.
     rbind (payload_optional_string (v ! 7)) (\<lambda>location.
     rbind (payload_optional_string (v ! 8)) (\<lambda>callsite.
     rbind (payload_optional_string (v ! 9)) (\<lambda>via.
     rbind (payload_optional_string (v ! 10)) (\<lambda>target.
     rbind (payload_string (v ! 11)) (\<lambda>unit'.
     rbind (payload_string (v ! 12)) (\<lambda>conf.
     rbind (payload_string (v ! 13)) (\<lambda>vrt.
     post_init_summary_return_origin
       \<lparr>fact_id = i, translation_unit_id = unit', build_configuration_id = conf, build_variant = vrt,
        so_summary_id = summary_id, so_kind = kind', so_certainty = certainty, so_reason = why, so_location_kind = location_kind,
        so_parameter_index = parameter, so_access_path = path, so_location_id = location, so_callsite_id = callsite,
        so_is_local = False, so_via_callsite_id = via, so_target_symbol_id = target\<rparr>))))))))))))))))"

text \<open>The stored columns.\<close>

record payload_row =
  pr_encoding :: sql_value
  pr_effect_count :: sql_value
  pr_origin_count :: sql_value
  pr_raw_size :: sql_value
  pr_hash :: sql_value
  pr_payload :: sql_value

definition payload_error :: "string \<Rightarrow> 'a result" where
  "payload_error message = Inl (SummaryPayloadError message)"

text \<open>The validated document of a payload.\<close>

definition inflate_payload :: "payload_codec \<Rightarrow> int \<Rightarrow> sql_value \<Rightarrow> string \<Rightarrow> json result" where
  "inflate_payload Z raw_size hash_column bytes =
     (case pd_inflate Z bytes (MAX_SUMMARY_PAYLOAD_UNCOMPRESSED_BYTES + 1) of
        None \<Rightarrow> Inl (ValueError ''zlib error'')
      | Some z \<Rightarrow>
          if in_tail z \<noteq> [] \<or> int (length (in_raw z)) > MAX_SUMMARY_PAYLOAD_UNCOMPRESSED_BYTES
          then payload_error ''summary payload decompressed-size limit exceeded''
          else let raw = in_raw z @ in_flushed z in
            if int (length raw) > MAX_SUMMARY_PAYLOAD_UNCOMPRESSED_BYTES
            then payload_error ''summary payload decompressed-size limit exceeded''
            else if \<not> in_eof z \<or> in_unused z \<noteq> []
            then payload_error ''summary payload compression stream is malformed''
            else if int (length raw) \<noteq> raw_size
            then payload_error ''summary payload decompressed size does not match metadata''
            else if SqlText (pd_digest Z raw) \<noteq> hash_column
            then payload_error ''summary payload hash does not match its contents''
            else pd_loads Z raw)"

definition document_facts ::
    "string \<Rightarrow> int \<Rightarrow> int \<Rightarrow> json \<Rightarrow> (summary_effect list \<times> summary_return_origin list) result" where
  "document_facts summary_id effect_count origin_count document =
     (case document of
        JArr [JArr es, JArr os] \<Rightarrow>
          if int (length es) \<noteq> effect_count \<or> int (length os) \<noteq> origin_count
          then payload_error ''summary payload record counts do not match metadata''
          else rbind (rmap (effect_from_payload summary_id) es) (\<lambda>effects.
               rbind (rmap (origin_from_payload summary_id) os) (\<lambda>origins. Inr (effects, origins)))
      | JArr [a, b] \<Rightarrow> payload_error ''summary payload record groups have an invalid shape''
      | _ \<Rightarrow> payload_error ''summary payload document has an invalid shape'')"

text \<open>The handler around the whole body: decoding and validation errors become one.\<close>

definition malformed :: "'a result \<Rightarrow> 'a result" where
  "malformed r = (case r of
     Inl (ValueError m) \<Rightarrow> payload_error ''summary payload is malformed''
   | Inl (TypeError m) \<Rightarrow> payload_error ''summary payload is malformed''
   | _ \<Rightarrow> r)"

definition decode_summary_payload ::
    "payload_codec \<Rightarrow> string \<Rightarrow> payload_row \<Rightarrow> (summary_effect list \<times> summary_return_origin list) result" where
  "decode_summary_payload Z summary_id row = malformed
     (if pr_encoding row \<noteq> SqlText SUMMARY_PAYLOAD_ENCODING
      then payload_error ''unsupported summary payload encoding''
      else case (pr_effect_count row, pr_origin_count row) of
        (SqlInt effect_count, SqlInt origin_count) \<Rightarrow>
          if effect_count < 0 \<or> origin_count < 0
          then payload_error ''summary payload has invalid record counts''
          else if effect_count + origin_count > MAX_SUMMARY_PAYLOAD_RECORDS
          then payload_error ''summary payload record limit exceeded''
          else (case pr_raw_size row of
            SqlInt raw_size \<Rightarrow>
              if \<not> (0 \<le> raw_size \<and> raw_size \<le> MAX_SUMMARY_PAYLOAD_UNCOMPRESSED_BYTES)
              then payload_error ''summary payload decompressed-size limit exceeded''
              else (case pr_payload row of
                SqlBlob bytes \<Rightarrow>
                  if int (length bytes) > MAX_SUMMARY_PAYLOAD_COMPRESSED_BYTES
                  then payload_error ''summary payload compressed-size limit exceeded''
                  else rbind (inflate_payload Z raw_size (pr_hash row) bytes) (document_facts summary_id effect_count origin_count)
              | _ \<Rightarrow> payload_error ''summary payload compressed-size limit exceeded'')
          | _ \<Rightarrow> payload_error ''summary payload decompressed-size limit exceeded'')
      | _ \<Rightarrow> payload_error ''summary payload has invalid record counts'')"

definition payload_columns :: "payload \<Rightarrow> payload_row" where
  "payload_columns p = \<lparr>pr_encoding = SqlText SUMMARY_PAYLOAD_ENCODING, pr_effect_count = SqlInt (sp_effect_count p),
     pr_origin_count = SqlInt (sp_origin_count p), pr_raw_size = SqlInt (sp_raw_size p), pr_hash = SqlText (sp_hash p),
     pr_payload = SqlBlob (sp_bytes p)\<rparr>"

section \<open>The spool\<close>

text \<open>
  \<open>_SummaryPayloadSpool\<close>: an encoding runs in an executor and is collected when four are pending or at the end; a future is the
  result it will have.  The file is its bytes and its position.  After \<open>finish\<close> the executor takes no more work.
\<close>

record spool =
  sl_file :: string
  sl_position :: nat
  sl_records :: "(string \<times> payload \<times> nat \<times> nat) list"
  sl_pending :: "(string \<times> payload result) list"
  sl_finished :: bool

definition new_spool :: spool where
  "new_spool = \<lparr>sl_file = [], sl_position = 0, sl_records = [], sl_pending = [], sl_finished = False\<rparr>"

definition write_at :: "nat \<Rightarrow> string \<Rightarrow> string \<Rightarrow> string" where
  "write_at n bytes file = take n file @ bytes @ drop (n + length bytes) file"

definition drain_one :: "spool \<Rightarrow> spool \<times> exn option" where
  "drain_one s = (case sl_pending s of
     [] \<Rightarrow> (s, Some IndexError)
   | (summary_id, Inl e) # rest \<Rightarrow> (s\<lparr>sl_pending := rest\<rparr>, Some e)
   | (summary_id, Inr p) # rest \<Rightarrow>
       (s\<lparr>sl_pending := rest, sl_file := write_at (sl_position s) (sp_bytes p) (sl_file s),
          sl_position := sl_position s + length (sp_bytes p),
          sl_records := sl_records s @ [(summary_id, p, sl_position s, length (sp_bytes p))]\<rparr>, None))"

definition spool_add ::
    "payload_codec \<Rightarrow> bool \<Rightarrow> string \<Rightarrow> summary_effect list \<Rightarrow> summary_return_origin list \<Rightarrow> spool \<Rightarrow> spool \<times> exn option" where
  "spool_add Z cancellable summary_id effects origins s =
     (let es = filter (\<lambda>e. \<not> se_is_local e) effects; os = filter (\<lambda>r. \<not> so_is_local r) origins in
      if es = [] \<and> os = [] then (s, None)
      else if sl_finished s then (s, Some (RuntimeError ''cannot schedule new futures after shutdown''))
      else let s1 = s\<lparr>sl_pending := sl_pending s @ [(summary_id, encode_summary_payload Z cancellable summary_id es os)]\<rparr> in
        if 4 \<le> length (sl_pending s1) then drain_one s1 else (s1, None))"

function spool_finish :: "spool \<Rightarrow> spool \<times> exn option" where
  "spool_finish s = (if sl_pending s = [] then (s\<lparr>sl_finished := True\<rparr>, None)
     else case drain_one s of (s1, Some e) \<Rightarrow> (s1, Some e) | (s1, None) \<Rightarrow> spool_finish s1)"
  by pat_completeness auto
termination
  by (relation "measure (\<lambda>s. length (sl_pending s))")
    (auto simp: drain_one_def split: list.splits prod.splits sum.splits)

declare spool_finish.simps [simp del]

text \<open>\<open>sorted(self._records)\<close> compares whole records; the metadata is part of the key.\<close>

definition record_key :: "string \<times> payload \<times> nat \<times> nat \<Rightarrow> string \<times> int \<times> int \<times> int \<times> string \<times> nat \<times> nat" where
  "record_key r = (case r of (summary_id, p, offset, n) \<Rightarrow>
     (summary_id, sp_effect_count p, sp_origin_count p, sp_raw_size p, sp_hash p, offset, n))"

definition spool_row :: "spool \<Rightarrow> string \<times> payload \<times> nat \<times> nat \<Rightarrow> (string \<times> payload_row) result" where
  "spool_row s r = (case r of (summary_id, p, offset, n) \<Rightarrow>
     let bytes = take n (drop offset (sl_file s)) in
     if length bytes \<noteq> n then payload_error ''summary payload spool was truncated''
     else Inr (summary_id, payload_columns (p\<lparr>sp_bytes := bytes\<rparr>)))"

definition spool_rows :: "(string \<Rightarrow> bool) option \<Rightarrow> spool \<Rightarrow> (string \<times> payload_row) list result" where
  "spool_rows wanted s = (case spool_finish s of
     (s1, Some e) \<Rightarrow> Inl e
   | (s1, None) \<Rightarrow> rmap (spool_row s1)
       (filter (\<lambda>r. case wanted of None \<Rightarrow> True | Some p \<Rightarrow> p (fst r)) (sort_key record_key (sl_records s1))))"

section \<open>Grouping solver output\<close>

text \<open>An item is an effect or an origin; \<open>owner\<close>, \<open>ident\<close> and \<open>local\<close> read its fields.\<close>

fun adjacent_groups :: "('a \<Rightarrow> string) \<Rightarrow> string option \<Rightarrow> 'a list \<Rightarrow> 'a list \<Rightarrow> (string \<times> 'a list) list" where
  "adjacent_groups owner current acc [] = (case current of None \<Rightarrow> [] | Some c \<Rightarrow> [(c, acc)])"
| "adjacent_groups owner current acc (x # xs) =
     (case current of
        None \<Rightarrow> adjacent_groups owner (Some (owner x)) (acc @ [x]) xs
      | Some c \<Rightarrow> if owner x \<noteq> c then (c, acc) # adjacent_groups owner (Some (owner x)) [x] xs
                  else adjacent_groups owner (Some (owner x)) (acc @ [x]) xs)"

definition propagated_groups ::
    "('a \<Rightarrow> string) \<Rightarrow> ('a \<Rightarrow> string) \<Rightarrow> ('a \<Rightarrow> bool) \<Rightarrow> string set \<Rightarrow> 'a list \<Rightarrow> (string \<times> 'a list) list" where
  "propagated_groups owner ident is_loc selected items = adjacent_groups owner None []
     (sort_key (\<lambda>x. (owner x, ident x)) (filter (\<lambda>x. \<not> is_loc x \<and> owner x \<in> selected) items))"

text \<open>What the generator yields before it raises, if it does.\<close>

fun ordered_groups ::
    "('a \<Rightarrow> string) \<Rightarrow> ('a \<Rightarrow> string) \<Rightarrow> (string \<times> string) option \<Rightarrow> string option \<Rightarrow> 'a list \<Rightarrow> 'a list
      \<Rightarrow> (string \<times> 'a list) list \<times> exn option" where
  "ordered_groups owner ident previous current acc [] = ((case current of None \<Rightarrow> [] | Some c \<Rightarrow> [(c, acc)]), None)"
| "ordered_groups owner ident previous current acc (x # xs) =
     (if (case previous of None \<Rightarrow> False | Some k \<Rightarrow> (owner x, ident x) < k)
      then ([], Some (SummaryPayloadError ''stored propagated summaries are not ordered''))
      else case current of
        None \<Rightarrow> ordered_groups owner ident (Some (owner x, ident x)) (Some (owner x)) (acc @ [x]) xs
      | Some c \<Rightarrow> if owner x \<noteq> c
          then apfst (Cons (c, acc)) (ordered_groups owner ident (Some (owner x, ident x)) (Some (owner x)) [x] xs)
          else ordered_groups owner ident (Some (owner x, ident x)) (Some (owner x)) (acc @ [x]) xs)"

text \<open>The merge of the two group streams, one payload per summary.\<close>

fun merge_groups ::
    "(string \<times> 'a list) list \<Rightarrow> (string \<times> 'b list) list \<Rightarrow> (string \<times> 'a list \<times> 'b list) list" where
  "merge_groups [] [] = []"
| "merge_groups ((i, es) # gs) [] = (i, es, []) # merge_groups gs []"
| "merge_groups [] ((j, os) # hs) = (j, [], os) # merge_groups [] hs"
| "merge_groups ((i, es) # gs) ((j, os) # hs) =
     (if i = j then (i, es, os) # merge_groups gs hs
      else if i < j then (i, es, []) # merge_groups gs ((j, os) # hs)
      else (j, [], os) # merge_groups ((i, es) # gs) hs)"

definition write_payload ::
    "payload_codec \<Rightarrow> string \<times> summary_effect list \<times> summary_return_origin list \<Rightarrow> (string \<times> payload_row) list result" where
  "write_payload Z g = (case g of (summary_id, effects, origins) \<Rightarrow>
     if effects = [] \<and> origins = [] then Inr []
     else rmap_result (\<lambda>p. [(summary_id, payload_columns p)]) (encode_summary_payload Z False summary_id effects origins))"

definition put_summary_solution_payloads ::
    "payload_codec \<Rightarrow> string set \<Rightarrow> summary_effect list \<Rightarrow> summary_return_origin list \<Rightarrow> (string \<times> payload_row) list result" where
  "put_summary_solution_payloads Z selected effects origins = rmap_result concat (rmap (write_payload Z)
     (merge_groups (propagated_groups se_summary_id fact_id se_is_local selected effects)
       (propagated_groups so_summary_id fact_id so_is_local selected origins)))"

section \<open>Batches of rows\<close>

definition INSERT_BATCH_ROWS :: int where "INSERT_BATCH_ROWS = 512"
definition INSERT_BATCH_BYTES :: nat where "INSERT_BATCH_BYTES = 1024 * 1024"
definition SUMMARY_PAYLOAD_WRITE_BATCH_SIZE :: nat where "SUMMARY_PAYLOAD_WRITE_BATCH_SIZE = 64"
definition SUMMARY_PAYLOAD_WRITE_BATCH_BYTES :: nat where "SUMMARY_PAYLOAD_WRITE_BATCH_BYTES = 16 * 1024 * 1024"

text \<open>An estimate of a row, and the loop of \<open>_ingestion_row_batches\<close> with its pending rows and their bytes.\<close>

definition value_bytes :: "sql_value \<Rightarrow> nat" where
  "value_bytes v = (case v of SqlText s \<Rightarrow> length s * 4 | SqlBlob b \<Rightarrow> length b | _ \<Rightarrow> 8)"

definition row_bytes :: "sql_value list \<Rightarrow> nat" where
  "row_bytes r = sum_list (map value_bytes r)"

definition row_limit :: "int \<Rightarrow> int \<Rightarrow> nat" where
  "row_limit variables columns = nat (max 1 (min INSERT_BATCH_ROWS (variables div columns)))"

fun row_batches :: "nat \<Rightarrow> sql_value list list \<Rightarrow> nat \<Rightarrow> sql_value list list \<Rightarrow> sql_value list list list" where
  "row_batches limit pend n [] = (if pend = [] then [] else [pend])"
| "row_batches limit pend n (r # rs) =
     (let flush = pend \<noteq> [] \<and> n + row_bytes r > INSERT_BATCH_BYTES;
          pend1 = (if flush then [] else pend) @ [r];
          n1 = (if flush then 0 else n) + row_bytes r;
          more = (if limit \<le> length pend1 \<or> INSERT_BATCH_BYTES \<le> n1
                  then pend1 # row_batches limit [] 0 rs else row_batches limit pend1 n1 rs) in
      if flush then pend # more else more)"

definition ingestion_row_batches :: "int \<Rightarrow> int \<Rightarrow> sql_value list list \<Rightarrow> sql_value list list list" where
  "ingestion_row_batches variables columns rows = row_batches (row_limit variables columns) [] 0 rows"

text \<open>The batches \<open>_write_summary_solution_rows_batched\<close> writes before it returns or raises.\<close>

fun payload_batches ::
    "(string \<times> payload_row) list \<Rightarrow> nat \<Rightarrow> (string \<times> payload_row) list \<Rightarrow> (string \<times> payload_row) list list \<times> exn option" where
  "payload_batches batch n [] = ((if batch = [] then [] else [batch]), None)"
| "payload_batches batch n (r # rs) = (case pr_payload (snd r) of
     SqlBlob bytes \<Rightarrow>
       if batch \<noteq> [] \<and> (SUMMARY_PAYLOAD_WRITE_BATCH_SIZE \<le> length batch \<or> n + length bytes > SUMMARY_PAYLOAD_WRITE_BATCH_BYTES)
       then apfst (Cons batch) (payload_batches [r] (length bytes) rs)
       else payload_batches (batch @ [r]) (n + length bytes) rs
   | _ \<Rightarrow> ([], Some (TypeError ''summary payload row requires encoded bytes'')))"

definition write_summary_solution_rows_batched ::
    "(string \<times> payload_row) list \<Rightarrow> (string \<times> payload_row) list list \<times> exn option" where
  "write_summary_solution_rows_batched rows = payload_batches [] 0 rows"

end
