(* ===== verification/StorePayloadLemmas.thy ===== *)
theory StorePayloadLemmas
imports StorePayload StoreCodec
begin

text \<open>
  Lemmas on the payloads of propagated summary facts: the records inside them, what encoding and decoding accept, and
  the groups and batches of the writer.
\<close>

section \<open>Records\<close>

definition payload_law :: "payload_codec \<Rightarrow> bool" where
  "payload_law Z \<longleftrightarrow>
     (\<forall>j. proper_json j \<longrightarrow> pd_loads Z (utf8 (pd_dumps Z j)) = Inr j) \<and>
     (\<forall>raw limit. int (length raw) < limit \<longrightarrow> pd_inflate Z (pd_compress Z raw) limit =
        Some \<lparr>in_raw = raw, in_tail = [], in_flushed = [], in_eof = True, in_unused = []\<rparr>) \<and>
     (\<forall>chunks limit. int (length (concat chunks)) < limit \<longrightarrow> pd_inflate Z (pd_stream Z chunks) limit =
        Some \<lparr>in_raw = concat chunks, in_tail = [], in_flushed = [], in_eof = True, in_unused = []\<rparr>)"

lemma concat_chunks: "0 < n \<Longrightarrow> concat (byte_chunks n s) = s"
proof (induction n s rule: byte_chunks.induct)
  case (1 n s)
  then show ?case by (subst byte_chunks.simps) simp
qed

lemma payload_option_read: "payload_optional_string (json_option v) = Inr v"
  by (cases v) (simp_all add: payload_optional_string_def json_option_def payload_string_def rmap_result_def rbind_simps)

lemma payload_index_read: "\<not> negative_index v \<Longrightarrow> payload_optional_index (json_index v) = Inr v"
  by (cases v) (simp_all add: payload_optional_index_def json_index_def negative_index_def)

lemma payload_tuple_read: "payload_string_tuple (JArr (map JStr xs)) = Inr xs"
  using rmap_Inr [of xs "\<lambda>x. payload_string (JStr x)" "\<lambda>x. x"]
  by (simp add: payload_string_tuple_def list_all_iff payload_string_def rmap_map)

lemma payload_enum_read:
  "enum_parse members value (value e) = Inr e \<Longrightarrow> payload_enum members value (JStr (value e)) = Inr e"
  by (simp add: payload_enum_def payload_string_def rbind_simps)

lemmas payload_reads = payload_option_read payload_index_read payload_tuple_read payload_enum_read
  summary_effect_kind.parse_value summary_return_origin_kind.parse_value memory_location_kind.parse_value
  data_flow_certainty.parse_value

lemma effect_read:
  assumes "post_init_summary_effect e = Inr e" and "\<not> se_is_local e" and "se_summary_id e = summary_id"
  shows "effect_from_payload summary_id (effect_record e) = Inr e"
proof -
  have "\<not> negative_index (se_parameter_index e)" using assms(1) by (auto simp: post_init_summary_effect_def split: if_splits)
  then show ?thesis using assms
    by (cases e) (simp add: effect_from_payload_def effect_record_def payload_record_def payload_string_def payload_reads rbind_simps)
qed

lemma origin_read:
  assumes "post_init_summary_return_origin r = Inr r" and "\<not> so_is_local r" and "so_summary_id r = summary_id"
  shows "origin_from_payload summary_id (origin_record r) = Inr r"
proof -
  have "\<not> negative_index (so_parameter_index r)" using assms(1) by (auto simp: post_init_summary_return_origin_def split: if_splits)
  then show ?thesis using assms
    by (cases r) (simp add: origin_from_payload_def origin_record_def payload_record_def payload_string_def payload_reads rbind_simps
        optional_enum_value location_kind_nonempty)
qed

lemma proper_records: "proper_json (effect_record e)" "proper_json (origin_record r)"
  by (simp_all add: effect_record_def origin_record_def json_option_def json_index_def list_all_iff split: option.splits)

section \<open>Payloads\<close>

lemma encode_Inr:
  assumes "encode_summary_payload Z cancellable summary_id effects origins = Inr p"
  shows "sp_effect_count p = int (length effects)" "sp_origin_count p = int (length origins)"
    "int (length effects + length origins) \<le> MAX_SUMMARY_PAYLOAD_RECORDS"
    "\<forall>e \<in> set effects. \<not> se_is_local e \<and> se_summary_id e = summary_id"
    "\<forall>r \<in> set origins. \<not> so_is_local r \<and> so_summary_id r = summary_id"
    "sp_raw_size p \<le> MAX_SUMMARY_PAYLOAD_UNCOMPRESSED_BYTES" "int (length (sp_bytes p)) \<le> MAX_SUMMARY_PAYLOAD_COMPRESSED_BYTES"
  using assms by (auto simp: encode_summary_payload_def Let_def list_ex_iff split: if_splits)

lemma payload_decoded:
  assumes law: "payload_law Z" and enc: "encode_summary_payload Z cancellable summary_id effects origins = Inr p"
    and es: "\<forall>e \<in> set effects. post_init_summary_effect e = Inr e" and os: "\<forall>r \<in> set origins. post_init_summary_return_origin r = Inr r"
  shows "decode_summary_payload Z summary_id (payload_columns p) = Inr (effects, origins)"
proof -
  let ?doc = "JArr [JArr (map effect_record effects), JArr (map origin_record origins)]"
  define raw where "raw = utf8 (pd_dumps Z ?doc)"
  note known = encode_Inr [OF enc]
  have p: "sp_raw_size p = int (length raw)" "sp_hash p = pd_digest Z raw"
    "sp_bytes p = (if cancellable then pd_stream Z (byte_chunks 1048576 raw) else pd_compress Z raw)"
    using enc by (auto simp: encode_summary_payload_def Let_def raw_def split: if_splits)
  have "proper_json ?doc" by (simp add: list_all_iff proper_records)
  then have loads: "pd_loads Z raw = Inr ?doc" using law unfolding payload_law_def raw_def by blast
  have short: "int (length raw) < MAX_SUMMARY_PAYLOAD_UNCOMPRESSED_BYTES + 1" using known(6) p(1) by simp
  have "concat (byte_chunks 1048576 raw) = raw" by (rule concat_chunks) simp
  then have "pd_inflate Z (sp_bytes p) (MAX_SUMMARY_PAYLOAD_UNCOMPRESSED_BYTES + 1) =
      Some \<lparr>in_raw = raw, in_tail = [], in_flushed = [], in_eof = True, in_unused = []\<rparr>"
    using law short unfolding payload_law_def p(3) by (metis (full_types))
  then have inflated: "inflate_payload Z (sp_raw_size p) (SqlText (sp_hash p)) (sp_bytes p) = Inr ?doc"
    using short p loads by (simp add: inflate_payload_def)
  have "rmap (effect_from_payload summary_id) (map effect_record effects) = Inr (map (\<lambda>e. e) effects)"
    unfolding rmap_map by (rule rmap_Inr) (use known(4) es effect_read in blast)
  moreover have "rmap (origin_from_payload summary_id) (map origin_record origins) = Inr (map (\<lambda>r. r) origins)"
    unfolding rmap_map by (rule rmap_Inr) (use known(5) os origin_read in blast)
  ultimately have "document_facts summary_id (sp_effect_count p) (sp_origin_count p) ?doc = Inr (effects, origins)"
    using known(1,2) by (simp add: document_facts_def rbind_simps)
  then show ?thesis
    using known inflated p(1) by (simp add: decode_summary_payload_def payload_columns_def rbind_simps malformed_def)
qed

lemma malformed_Inr: "malformed r = Inr x \<longleftrightarrow> r = Inr x"
  by (auto simp: malformed_def payload_error_def split: sum.splits exn.splits)

lemma rmap_set: "rmap f xs = Inr ys \<Longrightarrow> length ys = length xs \<and> (\<forall>y \<in> set ys. \<exists>x \<in> set xs. f x = Inr y)"
proof (induction xs arbitrary: ys)
  case (Cons x xs)
  then obtain z zs where "f x = Inr z" "rmap f xs = Inr zs" "ys = z # zs" by (auto simp: rbind_eq_Inr)
  then show ?case using Cons.IH [of zs] by auto
qed simp

lemma effect_from_payload_Inr:
  assumes "effect_from_payload summary_id j = Inr e"
  shows "\<not> se_is_local e \<and> se_summary_id e = summary_id \<and> post_init_summary_effect e = Inr e"
proof -
  have keeps: "post_init_summary_effect x = Inr e \<Longrightarrow> e = x" for x by (auto simp: post_init_summary_effect_def split: if_splits)
  show ?thesis using assms unfolding effect_from_payload_def
    by (auto simp: rbind_eq_Inr dest: keeps)
qed

lemma origin_from_payload_Inr:
  assumes "origin_from_payload summary_id j = Inr r"
  shows "\<not> so_is_local r \<and> so_summary_id r = summary_id \<and> post_init_summary_return_origin r = Inr r"
proof -
  have keeps: "post_init_summary_return_origin x = Inr r \<Longrightarrow> r = x" for x by (auto simp: post_init_summary_return_origin_def split: if_splits)
  show ?thesis using assms unfolding origin_from_payload_def
    by (auto simp: rbind_eq_Inr dest: keeps)
qed

lemma document_facts_Inr:
  assumes "document_facts summary_id m n j = Inr (effects, origins)"
  shows "int (length effects) = m \<and> int (length origins) = n \<and>
    (\<forall>e \<in> set effects. \<not> se_is_local e \<and> se_summary_id e = summary_id \<and> post_init_summary_effect e = Inr e) \<and>
    (\<forall>r \<in> set origins. \<not> so_is_local r \<and> so_summary_id r = summary_id \<and> post_init_summary_return_origin r = Inr r)"
proof -
  obtain es os where "int (length es) = m" "int (length os) = n" "rmap (effect_from_payload summary_id) es = Inr effects"
    "rmap (origin_from_payload summary_id) os = Inr origins"
    using assms by (auto simp: document_facts_def payload_error_def rbind_eq_Inr split: json.splits list.splits if_splits)
  then show ?thesis using rmap_set effect_from_payload_Inr origin_from_payload_Inr by (metis (no_types, lifting))
qed

lemma inflate_Inr:
  assumes "inflate_payload Z n h bytes = Inr j"
  shows "\<exists>raw. int (length raw) = n \<and> n \<le> MAX_SUMMARY_PAYLOAD_UNCOMPRESSED_BYTES \<and> h = SqlText (pd_digest Z raw) \<and> pd_loads Z raw = Inr j"
proof -
  obtain z where "pd_inflate Z bytes (MAX_SUMMARY_PAYLOAD_UNCOMPRESSED_BYTES + 1) = Some z"
    using assms by (auto simp: inflate_payload_def split: option.splits)
  then show ?thesis using assms
    by (intro exI [of _ "in_raw z @ in_flushed z"]) (auto simp: inflate_payload_def Let_def payload_error_def split: if_splits)
qed

definition payload_agrees :: "payload_codec \<Rightarrow> payload_row \<Rightarrow> summary_effect list \<Rightarrow> summary_return_origin list \<Rightarrow> bool" where
  "payload_agrees Z row effects origins \<longleftrightarrow> pr_encoding row = SqlText SUMMARY_PAYLOAD_ENCODING \<and>
     pr_effect_count row = SqlInt (int (length effects)) \<and> pr_origin_count row = SqlInt (int (length origins)) \<and>
     int (length effects + length origins) \<le> MAX_SUMMARY_PAYLOAD_RECORDS \<and>
     (\<exists>raw. pr_raw_size row = SqlInt (int (length raw)) \<and> int (length raw) \<le> MAX_SUMMARY_PAYLOAD_UNCOMPRESSED_BYTES \<and>
        pr_hash row = SqlText (pd_digest Z raw)) \<and>
     (\<exists>bytes. pr_payload row = SqlBlob bytes \<and> int (length bytes) \<le> MAX_SUMMARY_PAYLOAD_COMPRESSED_BYTES)"

lemma decode_agrees:
  assumes "decode_summary_payload Z summary_id row = Inr (effects, origins)"
  shows "payload_agrees Z row effects origins \<and>
    (\<forall>e \<in> set effects. \<not> se_is_local e \<and> se_summary_id e = summary_id \<and> post_init_summary_effect e = Inr e) \<and>
    (\<forall>r \<in> set origins. \<not> so_is_local r \<and> so_summary_id r = summary_id \<and> post_init_summary_return_origin r = Inr r)"
proof -
  obtain m n k bytes j where row: "pr_encoding row = SqlText SUMMARY_PAYLOAD_ENCODING" "pr_effect_count row = SqlInt m"
    "pr_origin_count row = SqlInt n" "m + n \<le> MAX_SUMMARY_PAYLOAD_RECORDS" "pr_raw_size row = SqlInt k" "pr_payload row = SqlBlob bytes"
    "int (length bytes) \<le> MAX_SUMMARY_PAYLOAD_COMPRESSED_BYTES" "inflate_payload Z k (pr_hash row) bytes = Inr j"
    "document_facts summary_id m n j = Inr (effects, origins)"
    using assms by (auto simp: decode_summary_payload_def malformed_Inr payload_error_def rbind_eq_Inr not_less split: if_splits sql_value.splits)
  from inflate_Inr [OF row(8)] document_facts_Inr [OF row(9)] row(1-7) show ?thesis by (auto simp: payload_agrees_def)
qed

section \<open>Groups\<close>

lemma adjacent_Some:
  "adjacent_groups owner (Some c) acc xs =
     (c, acc @ takeWhile (\<lambda>x. owner x = c) xs) # adjacent_groups owner None [] (dropWhile (\<lambda>x. owner x = c) xs)"
  by (induction xs arbitrary: acc) simp_all

lemma adjacent_Cons:
  "adjacent_groups owner None [] (x # xs) =
     (owner x, x # takeWhile (\<lambda>y. owner y = owner x) xs) # adjacent_groups owner None [] (dropWhile (\<lambda>y. owner y = owner x) xs)"
  using adjacent_Some [of owner "owner x" "[x]" xs] by simp

lemma takeWhile_least:
  assumes "sorted (map f xs)" and "\<forall>x \<in> set xs. k \<le> f x"
  shows "takeWhile (\<lambda>x. f x = k) xs = filter (\<lambda>x. f x = k) xs"
  using assms
proof (induction xs)
  case (Cons x xs)
  show ?case
  proof (cases "f x = k")
    case False
    then have "k < f x" using Cons.prems(2) by (auto simp: order_less_le)
    then have "\<forall>y \<in> set xs. f y \<noteq> k" using Cons.prems(1) by auto
    then show ?thesis using False by (simp add: filter_empty_conv)
  qed (use Cons in auto)
qed simp

lemma dropWhile_least:
  assumes "sorted (map f xs)" and "\<forall>x \<in> set xs. k \<le> f x"
  shows "dropWhile (\<lambda>x. f x = k) xs = filter (\<lambda>x. f x \<noteq> k) xs"
  using assms
proof (induction xs)
  case (Cons x xs)
  show ?case
  proof (cases "f x = k")
    case False
    then have "k < f x" using Cons.prems(2) by (auto simp: order_less_le)
    then have "\<forall>y \<in> set xs. f y \<noteq> k" using Cons.prems(1) by auto
    then show ?thesis using False by (simp add: filter_id_conv)
  qed (use Cons in auto)
qed simp

text \<open>The groups of a list sorted by owner: one per owner, in order, with all its items.\<close>

lemma adjacent_groups_spec:
  "sorted (map owner xs) \<Longrightarrow>
     sorted_wrt (<) (map fst (adjacent_groups owner None [] xs)) \<and>
     set (map fst (adjacent_groups owner None [] xs)) = owner ` set xs \<and>
     (\<forall>(k, g) \<in> set (adjacent_groups owner None [] xs). g = filter (\<lambda>x. owner x = k) xs)"
proof (induction "length xs" arbitrary: xs rule: less_induct)
  case less
  show ?case
  proof (cases xs)
    case (Cons x ys)
    have sorted: "sorted (map owner ys)" "\<forall>y \<in> set ys. owner x \<le> owner y" using less.prems Cons by auto
    define rest where "rest = filter (\<lambda>y. owner y \<noteq> owner x) ys"
    have groups: "adjacent_groups owner None [] xs = (owner x, filter (\<lambda>y. owner y = owner x) xs) # adjacent_groups owner None [] rest"
      using Cons adjacent_Cons [of owner x ys] takeWhile_least [OF sorted] dropWhile_least [OF sorted] by (simp add: rest_def)
    have "length rest < length xs" using Cons by (simp add: rest_def le_imp_less_Suc)
    moreover have "sorted (map owner rest)" using sorted(1) by (simp add: rest_def sorted_filter)
    ultimately have IH: "sorted_wrt (<) (map fst (adjacent_groups owner None [] rest))"
      "set (map fst (adjacent_groups owner None [] rest)) = owner ` set rest"
      "\<forall>(k, g) \<in> set (adjacent_groups owner None [] rest). g = filter (\<lambda>x. owner x = k) rest"
      using less.hyps by blast+
    have above: "\<forall>y \<in> set rest. owner x < owner y" using sorted(2) by (auto simp: rest_def order_less_le)
    have "filter (\<lambda>y. owner y = k) rest = filter (\<lambda>y. owner y = k) xs" if "k \<noteq> owner x" for k
    proof -
      have "(\<lambda>y. owner y = k \<and> owner y \<noteq> owner x) = (\<lambda>y. owner y = k)" using that by auto
      then show ?thesis using that Cons by (simp add: rest_def conj_commute)
    qed
    moreover have "k \<noteq> owner x" if "(k, g) \<in> set (adjacent_groups owner None [] rest)" for k g
    proof -
      have "k \<in> owner ` set rest" using that IH(2) by force
      then show ?thesis using above by auto
    qed
    moreover have "g = filter (\<lambda>x. owner x = k) rest" if "(k, g) \<in> set (adjacent_groups owner None [] rest)" for k g
      using that IH(3) by auto
    ultimately have content: "g = filter (\<lambda>x. owner x = k) xs" if "(k, g) \<in> set (adjacent_groups owner None [] rest)" for k g
      using that by metis
    have "sorted_wrt (<) (owner x # map fst (adjacent_groups owner None [] rest))" using IH(1) above unfolding sorted_wrt.simps IH(2) by blast
    moreover have "owner ` set xs = insert (owner x) (owner ` set rest)" using Cons by (auto simp: rest_def)
    moreover have "set (map fst (adjacent_groups owner None [] xs)) = insert (owner x) (owner ` set rest)"
      by (simp only: groups list.map fst_conv list.set IH(2))
    ultimately show ?thesis using content by (auto simp: groups)
  qed simp
qed

text \<open>A group of the writer: all propagated facts of one summary, sorted by identifier.\<close>

definition propagated_of :: "('a \<Rightarrow> string) \<Rightarrow> ('a \<Rightarrow> string) \<Rightarrow> ('a \<Rightarrow> bool) \<Rightarrow> string \<Rightarrow> 'a list \<Rightarrow> 'a list" where
  "propagated_of owner ident is_loc k items = sort_key ident (filter (\<lambda>x. \<not> is_loc x \<and> owner x = k) items)"

lemma sort_key_pair_group:
  "filter (\<lambda>x. owner x = k) (sort_key (\<lambda>x. (owner x, ident x)) xs) = sort_key ident (filter (\<lambda>x. owner x = k) xs)"
proof (rule properties_for_sort_key [symmetric])
  let ?ys = "filter (\<lambda>x. owner x = k) (sort_key (\<lambda>x. (owner x, ident x)) xs)"
  show "mset ?ys = mset (filter (\<lambda>x. owner x = k) xs)" by simp
  show "filter (\<lambda>x. ident y = ident x) ?ys = filter (\<lambda>x. ident y = ident x) (filter (\<lambda>x. owner x = k) xs)" if "y \<in> set ?ys" for y
  proof -
    have both: "filter (\<lambda>x. ident y = ident x) (filter (\<lambda>x. owner x = k) zs) = filter (\<lambda>x. (owner x, ident x) = (k, ident y)) zs" for zs
      by (simp add: conj_commute eq_commute)
    show ?thesis unfolding both by (rule sort_key_stable)
  qed
  have "sorted (map (\<lambda>x. (owner x, ident x)) ?ys)" by (rule sorted_filter) simp
  then show "sorted (map ident ?ys)"
    unfolding sorted_map by (rule sorted_wrt_mono_rel [rotated]) (auto simp: less_eq_prod_def)
qed

lemma propagated_groups_spec:
  assumes "groups = propagated_groups owner ident is_loc selected items"
  shows "sorted_wrt (<) (map fst groups)"
    "set (map fst groups) = {k \<in> selected. propagated_of owner ident is_loc k items \<noteq> []}"
    "\<forall>(k, g) \<in> set groups. g = propagated_of owner ident is_loc k items"
proof -
  define chosen where "chosen = filter (\<lambda>x. \<not> is_loc x \<and> owner x \<in> selected) items"
  let ?xs = "sort_key (\<lambda>x. (owner x, ident x)) chosen"
  have "sorted (map (\<lambda>x. (owner x, ident x)) ?xs)" by simp
  then have "sorted (map owner ?xs)" unfolding sorted_map by (rule sorted_wrt_mono_rel [rotated]) (auto simp: less_eq_prod_def)
  note spec = adjacent_groups_spec [OF this]
  have groups: "groups = adjacent_groups owner None [] ?xs" using assms by (simp add: propagated_groups_def chosen_def)
  show "sorted_wrt (<) (map fst groups)" using spec groups by simp
  have empty: "propagated_of owner ident is_loc k items \<noteq> [] \<longleftrightarrow> (\<exists>x \<in> set items. \<not> is_loc x \<and> owner x = k)" for k
    by (auto simp: propagated_of_def filter_empty_conv simp flip: set_empty)
  have "set (map fst groups) = owner ` set ?xs" using spec groups by blast
  then show "set (map fst groups) = {k \<in> selected. propagated_of owner ident is_loc k items \<noteq> []}"
    unfolding empty by (auto simp: chosen_def)
  have "g = propagated_of owner ident is_loc k items" if "(k, g) \<in> set groups" for k g
  proof -
    have "g = filter (\<lambda>x. owner x = k) ?xs" using spec groups that by auto
    moreover have "k \<in> owner ` set ?xs" using \<open>set (map fst groups) = owner ` set ?xs\<close> that by force
    then have "k \<in> selected" by (auto simp: chosen_def)
    then have "filter (\<lambda>x. owner x = k) chosen = filter (\<lambda>x. \<not> is_loc x \<and> owner x = k) items"
      unfolding chosen_def filter_filter by (intro filter_cong) auto
    ultimately show ?thesis by (simp add: sort_key_pair_group propagated_of_def)
  qed
  then show "\<forall>(k, g) \<in> set groups. g = propagated_of owner ident is_loc k items" by blast
qed

lemma merge_groups_keys:
  "sorted_wrt (<) (map fst gs) \<Longrightarrow> sorted_wrt (<) (map fst hs) \<Longrightarrow>
     sorted_wrt (<) (map fst (merge_groups gs hs)) \<and> set (map fst (merge_groups gs hs)) = fst ` set gs \<union> fst ` set hs"
proof (induction gs hs rule: merge_groups.induct)
  case (4 i es gs j os hs)
  show ?case
  proof (cases i j rule: linorder_cases)
    case less
    then show ?thesis using 4 by auto
  next
    case equal
    then show ?thesis using 4 by auto
  next
    case greater
    then show ?thesis using 4 by auto
  qed
qed auto

lemma merge_groups_keys_set:
  assumes "sorted_wrt (<) (map fst gs)" and "sorted_wrt (<) (map fst hs)" and "(k, es, os) \<in> set (merge_groups gs hs)"
  shows "k \<in> fst ` set gs \<or> k \<in> fst ` set hs"
  using merge_groups_keys [OF assms(1,2)] assms(3) by force

lemma map_of_below: "\<forall>x \<in> fst ` set xs. k < x \<Longrightarrow> map_of xs (k :: string) = None"
  by (auto simp: map_of_eq_None_iff)

lemma merge_groups_content:
  "sorted_wrt (<) (map fst gs) \<Longrightarrow> sorted_wrt (<) (map fst hs) \<Longrightarrow> (k, es, os) \<in> set (merge_groups gs hs) \<Longrightarrow>
     es = (case map_of gs k of None \<Rightarrow> [] | Some g \<Rightarrow> g) \<and> os = (case map_of hs k of None \<Rightarrow> [] | Some h \<Rightarrow> h)"
proof (induction gs hs rule: merge_groups.induct)
  case (2 i e gs)
  have "k \<noteq> i" if "(k, es, os) \<in> set (merge_groups gs [])" using merge_groups_keys_set [OF _ _ that] 2(2) by auto
  then show ?case using 2 by auto
next
  case (3 j o' hs)
  have "k \<noteq> j" if "(k, es, os) \<in> set (merge_groups [] hs)" using merge_groups_keys_set [OF _ _ that] 3(3) by auto
  then show ?case using 3 by auto
next
  case (4 i e gs j o' hs)
  let ?gs = "(i, e) # gs" and ?hs = "(j, o') # hs"
  have gs: "sorted_wrt (<) (map fst gs)" "\<forall>x \<in> fst ` set gs. i < x" and hs: "sorted_wrt (<) (map fst hs)" "\<forall>x \<in> fst ` set hs. j < x"
    using 4(4,5) by auto
  show ?case
  proof (cases i j rule: linorder_cases)
    case less
    then have "\<forall>x \<in> fst ` set ?hs. i < x" using hs(2) by auto
    moreover have "k \<noteq> i" if "(k, es, os) \<in> set (merge_groups gs ?hs)"
      using merge_groups_keys_set [OF gs(1) 4(5) that] gs(2) calculation by auto
    ultimately show ?thesis using 4(2) less gs(1) 4(5,6) map_of_below [of ?hs i] by auto
  next
    case equal
    have "k \<noteq> i" if "(k, es, os) \<in> set (merge_groups gs hs)"
      using merge_groups_keys_set [OF gs(1) hs(1) that] gs(2) hs(2) equal by auto
    then show ?thesis using 4(1) equal gs(1) hs(1) 4(6) by auto
  next
    case greater
    then have "\<forall>x \<in> fst ` set ?gs. j < x" using gs(2) by auto
    moreover have "k \<noteq> j" if "(k, es, os) \<in> set (merge_groups ?gs hs)"
      using merge_groups_keys_set [OF 4(4) hs(1) that] hs(2) calculation by auto
    moreover have "\<not> i < j" "i \<noteq> j" using greater by auto
    ultimately show ?thesis using 4(3) greater hs(1) 4(4,6) map_of_below [of ?gs j] by auto
  qed
qed simp

text \<open>The groups that are written: one per selected summary that has propagated facts.\<close>

definition solution_groups ::
    "string set \<Rightarrow> summary_effect list \<Rightarrow> summary_return_origin list \<Rightarrow> (string \<times> summary_effect list \<times> summary_return_origin list) list" where
  "solution_groups selected effects origins =
     merge_groups (propagated_groups se_summary_id fact_id se_is_local selected effects)
       (propagated_groups so_summary_id fact_id so_is_local selected origins)"

lemma solution_groups_spec:
  assumes "groups = solution_groups selected effects origins"
  shows "sorted_wrt (<) (map fst groups)"
    "set (map fst groups) = {k \<in> selected. propagated_of se_summary_id fact_id se_is_local k effects \<noteq> [] \<or>
       propagated_of so_summary_id fact_id so_is_local k origins \<noteq> []}"
    "(k, es, os) \<in> set groups \<Longrightarrow> es = propagated_of se_summary_id fact_id se_is_local k effects \<and>
       os = propagated_of so_summary_id fact_id so_is_local k origins"
proof -
  define gs where "gs = propagated_groups se_summary_id fact_id se_is_local selected effects"
  define hs where "hs = propagated_groups so_summary_id fact_id so_is_local selected origins"
  note g = propagated_groups_spec [OF gs_def] and h = propagated_groups_spec [OF hs_def]
  have groups: "groups = merge_groups gs hs" using assms by (simp add: solution_groups_def gs_def hs_def)
  show "sorted_wrt (<) (map fst groups)" using merge_groups_keys [OF g(1) h(1)] groups by simp
  show keys: "set (map fst groups) = {k \<in> selected. propagated_of se_summary_id fact_id se_is_local k effects \<noteq> [] \<or>
       propagated_of so_summary_id fact_id so_is_local k origins \<noteq> []}"
    using merge_groups_keys [OF g(1) h(1)] g(2) h(2) groups by auto
  show "es = propagated_of se_summary_id fact_id se_is_local k effects \<and>
       os = propagated_of so_summary_id fact_id so_is_local k origins" if "(k, es, os) \<in> set groups"
  proof -
    have "k \<in> set (map fst groups)" using that by force
    then have k: "k \<in> selected" using keys by blast
    have lookup: "(case map_of xs k of None \<Rightarrow> [] | Some g \<Rightarrow> g) = f k"
      if "set (map fst xs) = {k \<in> selected. f k \<noteq> []}" and "\<forall>(k, g) \<in> set xs. g = f k"
      for xs :: "(string \<times> 'x list) list" and f
    proof (cases "map_of xs k")
      case None
      then have "k \<notin> set (map fst xs)" by (simp add: map_of_eq_None_iff)
      then have "f k = []" using that(1) k by blast
      then show ?thesis using None by simp
    next
      case (Some g)
      then show ?thesis using that(2) map_of_SomeD by fastforce
    qed
    show ?thesis using merge_groups_content [OF g(1) h(1)] that groups lookup [OF g(2,3)] lookup [OF h(2,3)] by simp
  qed
qed

lemma write_payload_Inr:
  assumes "write_payload Z (k, es, os) = Inr rows"
  shows "if es = [] \<and> os = [] then rows = []
    else \<exists>p. encode_summary_payload Z False k es os = Inr p \<and> rows = [(k, payload_columns p)]"
  using assms by (auto simp: write_payload_def rmap_result_def rbind_eq_Inr split: if_splits)

text \<open>Writing the groups in order: the keys of the rows are the keys of the groups, and each row encodes its group.\<close>

lemma write_payloads:
  assumes "\<forall>(k, es, os) \<in> set groups. es \<noteq> [] \<or> os \<noteq> []" and "rmap_result concat (rmap (write_payload Z) groups) = Inr rows"
  shows "map fst rows = map fst groups \<and> (\<forall>(k, row) \<in> set rows. \<exists>es os p. (k, es, os) \<in> set groups \<and>
    encode_summary_payload Z False k es os = Inr p \<and> row = payload_columns p)"
  using assms
proof (induction groups arbitrary: rows)
  case (Cons g groups)
  obtain k es os where g: "g = (k, es, os)" by (cases g)
  obtain r rs where r: "write_payload Z g = Inr r" "rmap_result concat (rmap (write_payload Z) groups) = Inr rs" "rows = r @ rs"
    using Cons.prems(2) by (auto simp: rmap_result_def rbind_eq_Inr)
  obtain p where p: "encode_summary_payload Z False k es os = Inr p" "r = [(k, payload_columns p)]"
    using write_payload_Inr [of Z k es os r] r(1) Cons.prems(1) g by (auto split: if_splits)
  have IH: "map fst rs = map fst groups" "\<forall>(k, row) \<in> set rs. \<exists>es os p. (k, es, os) \<in> set groups \<and>
    encode_summary_payload Z False k es os = Inr p \<and> row = payload_columns p"
    using Cons.IH [OF _ r(2)] Cons.prems(1) by auto
  have "\<exists>es os p. (a, es, os) \<in> set (g # groups) \<and> encode_summary_payload Z False a es os = Inr p \<and> b = payload_columns p"
    if "(a, b) \<in> set rs" for a b
    using IH(2) that by (force simp: case_prod_beta)
  then show ?case using IH(1) p r(3) g by auto
qed (simp add: rmap_result_def rbind_simps)

end
