(* ===== verification/StoreSpool.thy ===== *)
theory StoreSpool
imports StorePayloadLemmas
begin

text \<open>
  Lemmas on the payload spool (\<open>_SummaryPayloadSpool\<close>) and on the row batchers.
\<close>

section \<open>A run of the spool\<close>

text \<open>The calls of a client: \<open>add\<close> for every group, then \<open>rows\<close>.\<close>

fun spool_adds ::
    "payload_codec \<Rightarrow> bool \<Rightarrow> (string \<times> summary_effect list \<times> summary_return_origin list) list \<Rightarrow> spool \<Rightarrow> spool \<times> exn option" where
  "spool_adds Z c [] s = (s, None)"
| "spool_adds Z c ((k, es, os) # gs) s = (case spool_add Z c k es os s of
     (s1, Some e) \<Rightarrow> (s1, Some e) | (s1, None) \<Rightarrow> spool_adds Z c gs s1)"

definition spool_run ::
    "payload_codec \<Rightarrow> bool \<Rightarrow> (string \<Rightarrow> bool) option \<Rightarrow> (string \<times> summary_effect list \<times> summary_return_origin list) list
      \<Rightarrow> (string \<times> payload_row) list result" where
  "spool_run Z c wanted gs = (case spool_adds Z c gs new_spool of (s, Some e) \<Rightarrow> Inl e | (s, None) \<Rightarrow> spool_rows wanted s)"

text \<open>The same without executor, file and index: encode in order, the first error wins.\<close>

definition propagated_part ::
    "string \<times> summary_effect list \<times> summary_return_origin list \<Rightarrow> string \<times> summary_effect list \<times> summary_return_origin list" where
  "propagated_part g = (case g of (k, es, os) \<Rightarrow> (k, filter (\<lambda>e. \<not> se_is_local e) es, filter (\<lambda>r. \<not> so_is_local r) os))"

definition encode_group ::
    "payload_codec \<Rightarrow> bool \<Rightarrow> string \<times> summary_effect list \<times> summary_return_origin list \<Rightarrow> string \<times> payload result" where
  "encode_group Z c g = (case g of (k, es, os) \<Rightarrow> (k, encode_summary_payload Z c k es os))"

definition has_facts :: "string \<times> summary_effect list \<times> summary_return_origin list \<Rightarrow> bool" where
  "has_facts g \<longleftrightarrow> fst (snd g) \<noteq> [] \<or> snd (snd g) \<noteq> []"

definition encodings ::
    "payload_codec \<Rightarrow> bool \<Rightarrow> (string \<times> summary_effect list \<times> summary_return_origin list) list \<Rightarrow> (string \<times> payload result) list" where
  "encodings Z c gs = map (encode_group Z c) (filter has_facts (map propagated_part gs))"

definition await :: "string \<times> payload result \<Rightarrow> (string \<times> payload) result" where
  "await x = rmap_result (Pair (fst x)) (snd x)"

text \<open>The file holds the recorded payloads one after the other.\<close>

definition file_placed :: "spool \<Rightarrow> bool" where
  "file_placed s \<longleftrightarrow> sl_position s = length (sl_file s) \<and>
     (\<forall>(k, p, offset, n) \<in> set (sl_records s). n = length (sp_bytes p) \<and> offset + n \<le> length (sl_file s) \<and>
        take n (drop offset (sl_file s)) = sp_bytes p)"

definition recorded :: "spool \<Rightarrow> (string \<times> payload) list" where
  "recorded s = map (\<lambda>(k, p, offset, n). (k, p)) (sl_records s)"

lemma placed_new: "file_placed new_spool" "recorded new_spool = []" "sl_pending new_spool = []" "\<not> sl_finished new_spool"
  by (simp_all add: file_placed_def recorded_def new_spool_def)

lemma drain_placed:
  assumes "file_placed s" and "sl_pending s = x # rest"
  shows "drain_one s = (case await x of
      Inl e \<Rightarrow> (s\<lparr>sl_pending := rest\<rparr>, Some e)
    | Inr kp \<Rightarrow> (fst (drain_one s), None))"
    "await x = Inr kp \<Longrightarrow> file_placed (fst (drain_one s)) \<and> recorded (fst (drain_one s)) = recorded s @ [kp] \<and>
       sl_pending (fst (drain_one s)) = rest \<and> sl_finished (fst (drain_one s)) = sl_finished s"
proof -
  obtain k r where x: "x = (k, r)" by (cases x)
  show "drain_one s = (case await x of Inl e \<Rightarrow> (s\<lparr>sl_pending := rest\<rparr>, Some e) | Inr kp \<Rightarrow> (fst (drain_one s), None))"
    using assms x by (cases r) (simp_all add: drain_one_def await_def rmap_result_def)
  assume kp: "await x = Inr kp"
  then obtain p where p: "r = Inr p" "kp = (k, p)" using x by (cases r) (auto simp: await_def rmap_result_def)
  have "file_placed (fst (drain_one s))"
    using assms p x by (auto simp: drain_one_def file_placed_def write_at_def)
  then show "file_placed (fst (drain_one s)) \<and> recorded (fst (drain_one s)) = recorded s @ [kp] \<and>
       sl_pending (fst (drain_one s)) = rest \<and> sl_finished (fst (drain_one s)) = sl_finished s"
    using assms p x by (simp add: drain_one_def recorded_def)
qed

lemma finish_placed:
  "file_placed s \<Longrightarrow> case rmap await (sl_pending s) of
     Inl e \<Rightarrow> snd (spool_finish s) = Some e
   | Inr ps \<Rightarrow> (\<exists>s1. spool_finish s = (s1, None) \<and> file_placed s1 \<and> recorded s1 = recorded s @ ps)"
proof (induction "length (sl_pending s)" arbitrary: s)
  case 0
  then show ?case by (subst spool_finish.simps) (simp add: file_placed_def recorded_def)
next
  case (Suc n)
  then obtain x rest where x: "sl_pending s = x # rest" by (cases "sl_pending s") auto
  note drained = drain_placed [OF Suc.prems x]
  show ?case
  proof (cases "await x")
    case (Inl e)
    then show ?thesis using x drained(1) by (subst spool_finish.simps) simp
  next
    case (Inr kp)
    have step: "drain_one s = (fst (drain_one s), None)" using drained(1) Inr by simp
    have fin: "spool_finish s = spool_finish (fst (drain_one s))"
      using x by (subst spool_finish.simps, subst step) simp
    have "case rmap await rest of
       Inl e \<Rightarrow> snd (spool_finish s) = Some e
     | Inr ps \<Rightarrow> (\<exists>s1. spool_finish s = (s1, None) \<and> file_placed s1 \<and> recorded s1 = recorded (fst (drain_one s)) @ ps)"
      using Suc.hyps(1) [of "fst (drain_one s)"] Suc.hyps(2) x drained(2) [OF Inr] fin by (cases "rmap await rest") simp_all
    then show ?thesis using x Inr drained(2) [OF Inr] by (cases "rmap await rest") (simp_all add: rbind_simps)
  qed
qed

text \<open>A run of \<open>add\<close> from a file_placed spool: the pending encodings are drained in order, and an error is the first one.\<close>

lemma adds_placed:
  "file_placed s \<Longrightarrow> \<not> sl_finished s \<Longrightarrow> (case spool_adds Z c gs s of
     (s1, Some e) \<Rightarrow> rmap await (sl_pending s @ encodings Z c gs) = Inl e
   | (s1, None) \<Rightarrow> file_placed s1 \<and> (\<exists>ps rest. sl_pending s @ encodings Z c gs = ps @ rest \<and> sl_pending s1 = rest \<and>
       (\<exists>kps. rmap await ps = Inr kps \<and> recorded s1 = recorded s @ kps)))"
proof (induction gs arbitrary: s)
  case Nil
  then show ?case by (simp add: encodings_def)
next
  case (Cons g gs)
  obtain k es os where g: "g = (k, es, os)" by (cases g)
  show ?case
  proof (cases "has_facts (propagated_part g)")
    case False
    then have add: "spool_add Z c k es os s = (s, None)" using g by (auto simp: spool_add_def has_facts_def propagated_part_def)
    have enc: "encodings Z c (g # gs) = encodings Z c gs" using False by (simp add: encodings_def)
    have "spool_adds Z c (g # gs) s = spool_adds Z c gs s" using add by (simp add: g)
    then show ?thesis using Cons.IH [OF Cons.prems] unfolding enc by simp
  next
    case True
    define x where "x = encode_group Z c (propagated_part g)"
    define s1 where "s1 = s\<lparr>sl_pending := sl_pending s @ [x]\<rparr>"
    have enc: "encodings Z c (g # gs) = x # encodings Z c gs" using True by (simp add: encodings_def x_def)
    have s1: "file_placed s1" "\<not> sl_finished s1" "recorded s1 = recorded s" using Cons.prems by (simp_all add: s1_def file_placed_def recorded_def)
    have add: "spool_add Z c k es os s = (if 4 \<le> length (sl_pending s1) then drain_one s1 else (s1, None))"
      using True g Cons.prems(2)
      by (auto simp: spool_add_def has_facts_def propagated_part_def s1_def x_def encode_group_def Let_def)
    show ?thesis
    proof (cases "4 \<le> length (sl_pending s1)")
      case False
      then have "spool_adds Z c (g # gs) s = spool_adds Z c gs s1" using add by (simp add: g)
      moreover have "sl_pending s1 @ encodings Z c gs = sl_pending s @ encodings Z c (g # gs)" by (simp add: enc s1_def)
      ultimately show ?thesis using Cons.IH [OF s1(1,2)] by (simp only: s1(3))
    next
      case full: True
      obtain y rest where y: "sl_pending s1 = y # rest" using full by (cases "sl_pending s1") auto
      have whole: "sl_pending s @ encodings Z c (g # gs) = y # rest @ encodings Z c gs"
        using y enc by (simp add: s1_def)
      note drained = drain_placed [OF s1(1) y]
      show ?thesis
      proof (cases "await y")
        case (Inl e)
        then show ?thesis using add full g drained(1) unfolding whole by simp
      next
        case (Inr kp)
        define s2 where "s2 = fst (drain_one s1)"
        have add2: "spool_add Z c k es os s = (s2, None)" using add full drained(1) Inr by (simp add: s2_def)
        have s2: "file_placed s2" "\<not> sl_finished s2" "recorded s2 = recorded s @ [kp]" "sl_pending s2 = rest"
          using drained(2) [OF Inr] s1 by (simp_all add: s2_def)
        obtain s3 r where s3: "spool_adds Z c gs s2 = (s3, r)" by (cases "spool_adds Z c gs s2")
        show ?thesis
        proof (cases r)
          case (Some e)
          then show ?thesis using Cons.IH [OF s2(1,2)] s3 add2 g Inr unfolding whole by (simp add: s2(4) rbind_simps)
        next
          case None
          then obtain ps rest' kps where "file_placed s3" "rest @ encodings Z c gs = ps @ rest'" "sl_pending s3 = rest'"
            "rmap await ps = Inr kps" "recorded s3 = (recorded s @ [kp]) @ kps"
            using Cons.IH [OF s2(1,2)] s3 s2(3,4) by auto
          then show ?thesis using s3 add2 g Inr None unfolding whole
            by (auto simp: rbind_simps intro!: exI [of _ "y # ps"])
        qed
      qed
    qed
  qed
qed

lemma rmap_append_result: "rmap f (xs @ ys) = rbind (rmap f xs) (\<lambda>a. rmap_result (append a) (rmap f ys))"
  proof (induction xs)
  case Nil
  then show ?case by (cases "rmap f ys") (simp_all add: rmap_result_def)
next
  case (Cons x xs)
  then show ?case by (cases "f x"; cases "rmap f xs"; cases "rmap f ys") (simp_all add: rmap_result_def)
qed

text \<open>Reading the records back.\<close>

lemma spool_row_placed:
  assumes "file_placed s" and "(k, p, offset, n) \<in> set (sl_records s)"
  shows "spool_row s (k, p, offset, n) = Inr (k, payload_columns p)"
proof -
  have "take n (drop offset (sl_file s)) = sp_bytes p" "n = length (sp_bytes p)" using assms by (auto simp: file_placed_def)
  moreover from this have "length (take n (drop offset (sl_file s))) = n" by simp
  moreover have "p\<lparr>sp_bytes := sp_bytes p\<rparr> = p" by simp
  ultimately show ?thesis by (simp add: spool_row_def Let_def del: length_take)
qed

definition chosen_id :: "(string \<Rightarrow> bool) option \<Rightarrow> string \<Rightarrow> bool" where
  "chosen_id wanted k = (case wanted of None \<Rightarrow> True | Some p \<Rightarrow> p k)"

lemma sorted_records:
  assumes "distinct (map fst (recorded s))"
  shows "map (\<lambda>(k, p, offset, n). (k, p)) (sort_key record_key (sl_records s)) = sort_key fst (recorded s)"
proof (rule sort_key_inj_key_eq [symmetric])
  let ?f = "\<lambda>(k, p, offset, n). (k, p)"
  show "mset (recorded s) = mset (map ?f (sort_key record_key (sl_records s)))" by (simp add: recorded_def)
  show "inj_on fst (set (recorded s))" using assms by (simp add: distinct_map)
  have "sorted (map record_key (sort_key record_key (sl_records s)))" by simp
  then have "sorted_wrt (\<lambda>x y. fst (?f x) \<le> fst (?f y)) (sort_key record_key (sl_records s))"
    unfolding sorted_map by (rule sorted_wrt_mono_rel [rotated]) (auto simp: record_key_def less_eq_prod_def)
  then show "sorted (map fst (map ?f (sort_key record_key (sl_records s))))" by (simp add: sorted_map sorted_wrt_map)
qed

lemma rows_placed:
  assumes "file_placed s" and "distinct (map fst (recorded s))"
  shows "rmap (spool_row s) (filter (\<lambda>r. case wanted of None \<Rightarrow> True | Some p \<Rightarrow> p (fst r)) (sort_key record_key (sl_records s))) =
    Inr (map (\<lambda>(k, p). (k, payload_columns p)) (filter (\<lambda>kp. chosen_id wanted (fst kp)) (sort_key fst (recorded s))))"
proof -
  let ?f = "\<lambda>(k, p, offset, n). (k, p)"
  let ?xs = "filter (\<lambda>r. case wanted of None \<Rightarrow> True | Some p \<Rightarrow> p (fst r)) (sort_key record_key (sl_records s))"
  have same: "(\<lambda>r. case wanted of None \<Rightarrow> True | Some p \<Rightarrow> p (fst r)) = (\<lambda>kp. chosen_id wanted (fst kp)) \<circ> ?f"
    by (auto simp: chosen_id_def fun_eq_iff split: option.split)
  have "rmap (spool_row s) ?xs = Inr (map (\<lambda>(k, p, offset, n). (k, payload_columns p)) ?xs)"
    by (rule rmap_Inr) (use spool_row_placed [OF assms(1)] in auto)
  also have "map (\<lambda>(k, p, offset, n). (k, payload_columns p)) ?xs = map (\<lambda>(k, p). (k, payload_columns p)) (map ?f ?xs)"
    by (simp add: case_prod_beta)
  also have "map ?f ?xs = filter (\<lambda>kp. chosen_id wanted (fst kp)) (map ?f (sort_key record_key (sl_records s)))"
    unfolding same filter_map ..
  finally show ?thesis using sorted_records [OF assms(2)] by simp
qed

lemma await_keys: "rmap await xs = Inr kps \<Longrightarrow> map fst kps = map fst xs"
  by (induction xs arbitrary: kps) (auto simp: rbind_eq_Inr await_def rmap_result_def)

lemma encodings_keys: "distinct (map fst gs) \<Longrightarrow> distinct (map fst (encodings Z c gs))"
proof -
  have "map fst (encodings Z c gs) = map fst (filter (has_facts \<circ> propagated_part) gs)"
    by (simp add: encodings_def filter_map comp_def encode_group_def propagated_part_def case_prod_beta)
  then show "distinct (map fst gs) \<Longrightarrow> distinct (map fst (encodings Z c gs))" by (simp add: distinct_map_filter)
qed

lemma spool_run_encodings:
  assumes "distinct (map fst gs)"
  shows "spool_run Z c wanted gs = rmap_result
    (\<lambda>kps. map (\<lambda>(k, p). (k, payload_columns p)) (filter (\<lambda>kp. chosen_id wanted (fst kp)) (sort_key fst kps)))
    (rmap await (encodings Z c gs))"
proof -
  obtain s r where s: "spool_adds Z c gs new_spool = (s, r)" by (cases "spool_adds Z c gs new_spool")
  note run = adds_placed [OF placed_new(1,4), of Z c gs, unfolded s placed_new append_Nil, simplified]
  show ?thesis
  proof (cases r)
    case (Some e)
    then show ?thesis using run s by (simp add: spool_run_def rmap_result_def)
  next
    case None
    obtain ps rest kps where split: "file_placed s" "encodings Z c gs = ps @ rest" "sl_pending s = rest" "rmap await ps = Inr kps" "recorded s = kps"
      using run None by auto
    note fin = finish_placed [OF split(1)]
    have all: "rmap await (encodings Z c gs) = rmap_result (append kps) (rmap await (sl_pending s))"
      unfolding split(2,3) rmap_append_result split(4) by simp
    show ?thesis
    proof (cases "rmap await (sl_pending s)")
      case (Inl e)
      then have "snd (spool_finish s) = Some e" using fin by simp
      then have "spool_rows wanted s = Inl e" by (cases "spool_finish s") (simp add: spool_rows_def)
      then show ?thesis using s None all Inl by (simp add: spool_run_def rmap_result_def)
    next
      case (Inr qs)
      then obtain s1 where s1: "spool_finish s = (s1, None)" "file_placed s1" "recorded s1 = kps @ qs" using fin split(5) by auto
      have "map fst (recorded s1) = map fst (encodings Z c gs)" using await_keys [of "encodings Z c gs" "kps @ qs"] all Inr s1(3) by (simp add: rmap_result_def)
      then have "distinct (map fst (recorded s1))" using encodings_keys [OF assms] by simp
      then show ?thesis using rows_placed [OF s1(2), of wanted] s1 s None all Inr by (simp add: spool_run_def spool_rows_def rmap_result_def)
    qed
  qed
qed

section \<open>Batches\<close>

definition good_batch :: "nat \<Rightarrow> sql_value list list \<Rightarrow> bool" where
  "good_batch limit b \<longleftrightarrow> b \<noteq> [] \<and> length b \<le> limit \<and> (sum_list (map row_bytes b) \<le> INSERT_BATCH_BYTES \<or> length b = 1)"

lemma row_batches_Cons:
  fixes r rs pend n limit
  defines "flush \<equiv> pend \<noteq> [] \<and> n + row_bytes r > INSERT_BATCH_BYTES"
  defines "pend1 \<equiv> (if flush then [] else pend) @ [r]"
  defines "n1 \<equiv> (if flush then 0 else n) + row_bytes r"
  shows "row_batches limit pend n (r # rs) = (if flush then [pend] else []) @
    (if limit \<le> length pend1 \<or> INSERT_BATCH_BYTES \<le> n1 then pend1 # row_batches limit [] 0 rs else row_batches limit pend1 n1 rs)"
  unfolding row_batches.simps Let_def flush_def pend1_def n1_def by simp

lemma row_batches_ok:
  assumes "0 < limit"
  shows "n = sum_list (map row_bytes pend) \<Longrightarrow> length pend < limit \<Longrightarrow> n < INSERT_BATCH_BYTES \<Longrightarrow>
    concat (row_batches limit pend n rows) = pend @ rows \<and> list_all (good_batch limit) (row_batches limit pend n rows)"
proof (induction rows arbitrary: pend n)
  case Nil
  then show ?case by (simp add: good_batch_def)
next
  case (Cons r rs)
  define flush where "flush \<longleftrightarrow> pend \<noteq> [] \<and> n + row_bytes r > INSERT_BATCH_BYTES"
  define pend1 where "pend1 = (if flush then [] else pend) @ [r]"
  define n1 where "n1 = (if flush then 0 else n) + row_bytes r"
  have n1: "n1 = sum_list (map row_bytes pend1)" using Cons.prems(1) by (simp add: n1_def pend1_def)
  have fits: "n1 \<le> INSERT_BATCH_BYTES \<or> length pend1 = 1" by (auto simp: n1_def pend1_def flush_def)
  have short: "length pend1 \<le> limit" using Cons.prems(2) assms by (simp add: pend1_def)
  have good: "good_batch limit pend1" using n1 fits short by (simp add: good_batch_def pend1_def)
  have whole: "(if flush then pend else []) @ pend1 @ rs = pend @ r # rs" by (simp add: pend1_def)
  have first: "flush \<Longrightarrow> good_batch limit pend" using Cons.prems by (simp add: good_batch_def flush_def)
  have "0 < INSERT_BATCH_BYTES" by (simp add: INSERT_BATCH_BYTES_def)
  then have again: "concat (row_batches limit [] 0 rs) = rs" "list_all (good_batch limit) (row_batches limit [] 0 rs)"
    using Cons.IH [of 0 "[]"] assms by simp_all
  define tail where "tail = (if limit \<le> length pend1 \<or> INSERT_BATCH_BYTES \<le> n1
    then pend1 # row_batches limit [] 0 rs else row_batches limit pend1 n1 rs)"
  have tail: "concat tail = pend1 @ rs \<and> list_all (good_batch limit) tail"
  proof (cases "limit \<le> length pend1 \<or> INSERT_BATCH_BYTES \<le> n1")
    case True
    then show ?thesis using again good by (simp add: tail_def)
  next
    case False
    then show ?thesis using Cons.IH [OF n1] by (simp add: tail_def)
  qed
  have "row_batches limit pend n (r # rs) = (if flush then [pend] else []) @ tail"
    unfolding tail_def n1_def pend1_def flush_def by (rule row_batches_Cons)
  then show ?case using tail whole first by auto
qed

definition blob_bytes :: "string \<times> payload_row \<Rightarrow> nat" where
  "blob_bytes r = (case pr_payload (snd r) of SqlBlob bytes \<Rightarrow> length bytes | _ \<Rightarrow> 0)"

definition has_blob :: "string \<times> payload_row \<Rightarrow> bool" where
  "has_blob r \<longleftrightarrow> (case pr_payload (snd r) of SqlBlob bytes \<Rightarrow> True | _ \<Rightarrow> False) \<and> blob_bytes r \<le> SUMMARY_PAYLOAD_WRITE_BATCH_BYTES"

definition good_payload_batch :: "(string \<times> payload_row) list \<Rightarrow> bool" where
  "good_payload_batch b \<longleftrightarrow> b \<noteq> [] \<and> length b \<le> SUMMARY_PAYLOAD_WRITE_BATCH_SIZE \<and>
     sum_list (map blob_bytes b) \<le> SUMMARY_PAYLOAD_WRITE_BATCH_BYTES"

lemma payload_batches_ok:
  "list_all has_blob rows \<Longrightarrow> n = sum_list (map blob_bytes batch) \<Longrightarrow> batch = [] \<or> good_payload_batch batch \<Longrightarrow>
    \<exists>bs. payload_batches batch n rows = (bs, None) \<and> concat bs = batch @ rows \<and> list_all good_payload_batch bs"
proof (induction rows arbitrary: batch n)
  case Nil
  then show ?case by (cases "batch = []") auto
next
  case (Cons r rs)
  obtain bytes where blob: "pr_payload (snd r) = SqlBlob bytes" "blob_bytes r = length bytes" "length bytes \<le> SUMMARY_PAYLOAD_WRITE_BATCH_BYTES"
    using Cons.prems(1) by (auto simp: has_blob_def blob_bytes_def split: sql_value.splits)
  have rs: "list_all has_blob rs" using Cons.prems(1) by simp
  have size: "1 \<le> SUMMARY_PAYLOAD_WRITE_BATCH_SIZE" by (simp add: SUMMARY_PAYLOAD_WRITE_BATCH_SIZE_def)
  show ?case
  proof (cases "batch \<noteq> [] \<and> (SUMMARY_PAYLOAD_WRITE_BATCH_SIZE \<le> length batch \<or> n + length bytes > SUMMARY_PAYLOAD_WRITE_BATCH_BYTES)")
    case True
    have "good_payload_batch [r]" using blob size by (simp add: good_payload_batch_def)
    then obtain bs where "payload_batches [r] (length bytes) rs = (bs, None)" "concat bs = r # rs" "list_all good_payload_batch bs"
      using Cons.IH [OF rs, of "length bytes" "[r]"] blob(2) by auto
    then show ?thesis using True Cons.prems(3) blob(1) by auto
  next
    case False
    have "good_payload_batch (batch @ [r])" using False Cons.prems(2,3) blob size by (auto simp: good_payload_batch_def)
    then obtain bs where "payload_batches (batch @ [r]) (n + length bytes) rs = (bs, None)" "concat bs = batch @ r # rs"
      "list_all good_payload_batch bs"
      using Cons.IH [OF rs, of "n + length bytes" "batch @ [r]"] Cons.prems(2) blob(2) by auto
    then show ?thesis using False blob(1) by (intro exI [of _ bs]) auto
  qed
qed

lemma spool_run_blobs:
  assumes "distinct (map fst gs)" and "spool_run Z c wanted gs = Inr rows"
  shows "list_all has_blob rows"
proof -
  obtain kps where kps: "rmap await (encodings Z c gs) = Inr kps"
    and rows: "rows = map (\<lambda>(k, p). (k, payload_columns p)) (filter (\<lambda>kp. chosen_id wanted (fst kp)) (sort_key fst kps))"
    using assms(2) unfolding spool_run_encodings [OF assms(1)] by (auto simp: rmap_result_def rbind_eq_Inr)
  have small: "length (sp_bytes p) \<le> SUMMARY_PAYLOAD_WRITE_BATCH_BYTES" if kp: "(k, p) \<in> set kps" for k p
  proof -
    obtain x where x: "x \<in> set (encodings Z c gs)" "await x = Inr (k, p)" using bspec [OF conjunct2 [OF rmap_set [OF kps]] kp] by blast
    obtain g where "x = encode_group Z c g" using x(1) by (auto simp: encodings_def)
    then have "encode_summary_payload Z c (fst g) (fst (snd g)) (snd (snd g)) = Inr p"
      using x(2) by (cases g) (auto simp: encode_group_def await_def rmap_result_def rbind_eq_Inr)
    then have "int (length (sp_bytes p)) \<le> MAX_SUMMARY_PAYLOAD_COMPRESSED_BYTES" by (rule encode_Inr)
    then show ?thesis by (simp add: MAX_SUMMARY_PAYLOAD_COMPRESSED_BYTES_def SUMMARY_PAYLOAD_WRITE_BATCH_BYTES_def)
  qed
  have blob: "has_blob (k, payload_columns p)" if "(k, p) \<in> set kps" for k p
    using small [OF that] by (simp add: has_blob_def blob_bytes_def payload_columns_def)
  show ?thesis unfolding rows list_all_iff using blob by auto
qed

end
