(* ===== verification/StorePayloadSpec.thy ===== *)
theory StorePayloadSpec
imports StoreSpool
begin

text \<open>
  What the store promises of propagated summary facts: a payload that is accepted agrees with its metadata and its
  limits, what the solver produced for a summary is in its one payload, the spool changes
  nothing but the memory that is used, and batches lose no row and keep their bounds.
\<close>

section \<open>A concrete codec\<close>

text \<open>The prefix code of documents, no compression and the text as its own digest: the law on \<open>Z\<close> can hold.\<close>

fun un_utf8 :: "string \<Rightarrow> string" where
  "un_utf8 [] = []"
| "un_utf8 [c] = [c]"
| "un_utf8 (c # d # r) =
     (if (of_char c :: nat) < 128 then c # un_utf8 (d # r)
      else char_of (((of_char c :: nat) - 192) * 64 + (of_char d - 128)) # un_utf8 r)"

definition plain_payloads :: payload_codec where
  "plain_payloads = \<lparr>pd_dumps = encode_json, pd_loads = (\<lambda>s. jc_loads sample_codec (un_utf8 s)), pd_compress = id, pd_stream = concat,
     pd_inflate = (\<lambda>bytes limit. Some \<lparr>in_raw = take (nat limit) bytes, in_tail = drop (nat limit) bytes, in_flushed = [],
       in_eof = (int (length bytes) < limit), in_unused = []\<rparr>),
     pd_digest = id\<rparr>"

lemma un_utf8_char: "un_utf8 (utf8_char c @ r) = c # un_utf8 r"
proof (cases "(of_char c :: nat) < 128")
  case True
  then show ?thesis by (cases r) (simp_all add: utf8_char_def)
next
  case False
  have n: "(of_char c :: nat) < 256" by (rule nat_of_char_less_256)
  have bytes: "(192 + (of_char c :: nat) div 64) mod 256 = 192 + of_char c div 64" "(128 + (of_char c :: nat) mod 64) mod 256 = 128 + of_char c mod 64"
    using n by (intro mod_less, linarith)+
  have whole: "(of_char c :: nat) div 64 * 64 + of_char c mod 64 = of_char c" by simp
  show ?thesis using False bytes whole by (simp add: utf8_char_def Let_def del: div_mult_mod_eq)
qed

lemma un_utf8: "un_utf8 (utf8 s) = s"
  by (induction s) (simp_all add: utf8_def un_utf8_char)

lemma plain_payloads_law: "payload_law plain_payloads"
  using sample_codec_law by (auto simp: payload_law_def json_law_def plain_payloads_def un_utf8 sample_codec_def)

section \<open>Properties\<close>

definition valid_facts :: "summary_effect list \<Rightarrow> summary_return_origin list \<Rightarrow> bool" where
  "valid_facts effects origins \<longleftrightarrow> list_all (\<lambda>e. post_init_summary_effect e = Inr e) effects \<and>
     list_all (\<lambda>r. post_init_summary_return_origin r = Inr r) origins"

definition sample_effect :: summary_effect where
  "sample_effect = \<lparr>fact_id = ''e'', translation_unit_id = ''u'', build_configuration_id = ''c'', build_variant = ''v'',
     se_summary_id = ''s'', se_kind = EFFECT_READ, se_location_kind = LOC_GLOBAL, se_certainty = CERTAIN,
     se_reason = ''propagated'', se_parameter_index = None, se_access_path = [''x''], se_location_id = Some ''m'',
     se_source_access_id = None, se_is_local = False, se_via_callsite_id = Some ''k'', se_target_symbol_id = Some ''t''\<rparr>"

definition sample_origin :: summary_return_origin where
  "sample_origin = \<lparr>fact_id = ''r'', translation_unit_id = ''u'', build_configuration_id = ''c'', build_variant = ''v'',
     so_summary_id = ''s'', so_kind = ORIGIN_LOCATION, so_certainty = CERTAIN, so_reason = ''propagated'', so_location_kind = Some LOC_GLOBAL,
     so_parameter_index = None, so_access_path = [], so_location_id = Some ''m'', so_callsite_id = None,
     so_is_local = False, so_via_callsite_id = Some ''k'', so_target_symbol_id = Some ''t''\<rparr>"

lemma sample_facts_valid: "valid_facts [sample_effect] [sample_origin]"
  by code_simp

lemma utf8_length: "length (utf8 s) \<le> 2 * length s"
proof (induction s)
  case (Cons c s)
  have "length (utf8_char c) \<le> 2" by (simp add: utf8_char_def Let_def)
  then show ?case using Cons by (simp add: utf8_def)
qed (simp add: utf8_def)

lemma plain_encoded:
  assumes "length effects + length origins \<le> 65536" and "length (encode_json (JArr [JArr (map effect_record effects), JArr (map origin_record origins)])) \<le> 1000000"
    and "\<forall>e \<in> set effects. \<not> se_is_local e \<and> se_summary_id e = k" and "\<forall>r \<in> set origins. \<not> so_is_local r \<and> so_summary_id r = k"
  shows "\<exists>p. encode_summary_payload plain_payloads cancellable k effects origins = Inr p"
proof -
  define raw where "raw = utf8 (encode_json (JArr [JArr (map effect_record effects), JArr (map origin_record origins)]))"
  have raw: "length raw \<le> 2000000"
    using utf8_length [of "encode_json (JArr [JArr (map effect_record effects), JArr (map origin_record origins)])"] assms(2) unfolding raw_def by linarith
  have "concat (byte_chunks 1048576 raw) = raw" by (rule concat_chunks) simp
  then have "length (if cancellable then concat (byte_chunks 1048576 raw) else raw) \<le> 2000000" using raw by simp
  then show ?thesis using raw assms(1,3,4) unfolding raw_def
    by (auto simp: encode_summary_payload_def plain_payloads_def Let_def list_ex_iff MAX_SUMMARY_PAYLOAD_RECORDS_def
        MAX_SUMMARY_PAYLOAD_UNCOMPRESSED_BYTES_def MAX_SUMMARY_PAYLOAD_COMPRESSED_BYTES_def simp del: encode_json.simps)
qed

lemma sample_lengths:
  "length (encode_json (JArr [JArr (map effect_record [sample_effect]), JArr (map origin_record [sample_origin])])) \<le> 1000000"
  "length (encode_json (JArr [JArr (map effect_record [sample_effect]), JArr (map origin_record [])])) \<le> 1000000"
  by (simp_all add: effect_record_def origin_record_def sample_effect_def sample_origin_def json_option_def json_index_def unary_def)

lemma sample_encoded: "\<exists>p. encode_summary_payload plain_payloads cancellable ''s'' [sample_effect] [sample_origin] = Inr p"
  by (rule plain_encoded [OF _ sample_lengths(1)]) (simp_all add: sample_effect_def sample_origin_def)


lemma sample_effect_encoded: "\<exists>p. encode_summary_payload plain_payloads False ''s'' [sample_effect] [] = Inr p"
  by (rule plain_encoded [OF _ sample_lengths(2)]) (simp_all add: sample_effect_def)


text \<open>
  Property C23.  Storing solver output: if \<open>_put_summary_solution_payloads\<close> succeeds, the rows are in strictly ascending
  order of summary, there is a row exactly for each selected summary with a propagated effect or origin, and each
  row decodes to all the propagated effects and origins of its summary, sorted by identifier.
\<close>

theorem solution_payloads_complete:
  assumes "payload_law Z" and "valid_facts effects origins" and "put_summary_solution_payloads Z selected effects origins = Inr rows"
  shows "sorted_wrt (<) (map fst rows) \<and>
    fst ` set rows = {k \<in> selected. propagated_of se_summary_id fact_id se_is_local k effects \<noteq> [] \<or>
      propagated_of so_summary_id fact_id so_is_local k origins \<noteq> []} \<and>
    (\<forall>(k, row) \<in> set rows. decode_summary_payload Z k row =
      Inr (propagated_of se_summary_id fact_id se_is_local k effects, propagated_of so_summary_id fact_id so_is_local k origins))"
proof -
  define groups where "groups = solution_groups selected effects origins"
  note g = solution_groups_spec [OF groups_def]
  have nonempty: "es \<noteq> [] \<or> os \<noteq> []" if "(k, es, os) \<in> set groups" for k es os
  proof -
    have "k \<in> set (map fst groups)" using that by force
    then show ?thesis using g(3) [OF that] unfolding g(2) by simp
  qed
  have "rmap_result concat (rmap (write_payload Z) groups) = Inr rows"
    using assms(3) by (simp add: put_summary_solution_payloads_def groups_def solution_groups_def)
  then have rows: "map fst rows = map fst groups" "\<forall>(k, row) \<in> set rows. \<exists>es os p. (k, es, os) \<in> set groups \<and>
      encode_summary_payload Z False k es os = Inr p \<and> row = payload_columns p"
    using write_payloads [of groups Z rows] nonempty by blast+
  have "decode_summary_payload Z k row =
      Inr (propagated_of se_summary_id fact_id se_is_local k effects, propagated_of so_summary_id fact_id so_is_local k origins)"
    if row: "(k, row) \<in> set rows" for k row
  proof -
    obtain es os p where p: "(k, es, os) \<in> set groups" "encode_summary_payload Z False k es os = Inr p" "row = payload_columns p"
      using rows(2) row by blast
    have "decode_summary_payload Z k row = Inr (es, os)" unfolding p(3)
      by (rule payload_decoded [OF assms(1) p(2)]) (use g(3) [OF p(1)] assms(2) in \<open>auto simp: propagated_of_def valid_facts_def list_all_iff\<close>)
    then show ?thesis using g(3) [OF p(1)] by simp
  qed
  moreover have "fst ` set rows = set (map fst groups)" using rows(1) by (metis set_map)
  ultimately show ?thesis using g(1,2) rows(1) by auto
qed

theorem solution_payloads_complete_witness:
  "\<exists>rows. put_summary_solution_payloads plain_payloads {''s''} [sample_effect] [sample_origin] = Inr rows \<and>
     sorted_wrt (<) (map fst rows) \<and> fst ` set rows = {''s''}"
proof -
  let ?eg = "propagated_groups se_summary_id fact_id se_is_local {''s''} [sample_effect]"
  let ?og = "propagated_groups so_summary_id fact_id so_is_local {''s''} [sample_origin]"
  have "?eg = [(''s'', [sample_effect])]" "?og = [(''s'', [sample_origin])]"
    by (simp_all add: propagated_groups_def sample_effect_def sample_origin_def)
  then have "\<exists>rows. put_summary_solution_payloads plain_payloads {''s''} [sample_effect] [sample_origin] = Inr rows"
    using sample_encoded [of False] by (auto simp: put_summary_solution_payloads_def write_payload_def rmap_result_def)
  then obtain rows where "put_summary_solution_payloads plain_payloads {''s''} [sample_effect] [sample_origin] = Inr rows" ..
  moreover have "propagated_of se_summary_id fact_id se_is_local ''s'' [sample_effect] \<noteq> []"
    by (simp add: propagated_of_def sample_effect_def)
  ultimately show ?thesis
    using solution_payloads_complete [OF plain_payloads_law sample_facts_valid, of "{''s''}" rows] by auto
qed

text \<open>
  Property C25.  The spool is transparent.  For distinct summaries, adding every group and reading the rows back (through
  two executor threads' worth of pending encodings, a file and an offset index) gives exactly the encodings of the
  non-empty propagated parts, sorted by summary and restricted to the wanted ones; and if encodings fail, the error
  of the first one in order is raised, so no payload is dropped or misplaced.
\<close>

theorem spool_is_transparent:
  assumes "distinct (map fst groups)"
  shows "spool_run Z cancellable wanted groups = rmap_result
    (\<lambda>kps. map (\<lambda>(k, p). (k, payload_columns p)) (filter (\<lambda>kp. chosen_id wanted (fst kp)) (sort_key fst kps)))
    (rmap await (encodings Z cancellable groups))"
  using assms by (rule spool_run_encodings)

theorem spool_is_transparent_witness:
  "distinct (map fst [(''t'', [], []), (''s'', [sample_effect], [sample_origin])]) \<and>
   spool_run plain_payloads True None [(''t'', [], []), (''s'', [sample_effect], [sample_origin])] = rmap_result
    (\<lambda>kps. map (\<lambda>(k, p). (k, payload_columns p)) (filter (\<lambda>kp. chosen_id None (fst kp)) (sort_key fst kps)))
    (rmap await (encodings plain_payloads True [(''t'', [], []), (''s'', [sample_effect], [sample_origin])]))"
  by (rule conjI [OF _ spool_is_transparent]) simp_all

text \<open>
  Property C26.  Batches keep every row once, in order, and are never empty: an ingestion batch has at most the row limit
  that the number of SQL variables allows and at most \<open>_INSERT_BATCH_BYTES\<close> unless it is one oversize row, and what
  the spool produced is written in batches of at most 64 rows and 16 MiB without an error.
\<close>

theorem batches_lossless_bounded:
  assumes "distinct (map fst groups)" and "spool_run Z cancellable wanted groups = Inr payload_rows"
  shows "concat (ingestion_row_batches variables columns rows) = rows \<and>
    list_all (good_batch (row_limit variables columns)) (ingestion_row_batches variables columns rows) \<and>
    (\<exists>batches. write_summary_solution_rows_batched payload_rows = (batches, None) \<and>
       concat batches = payload_rows \<and> list_all good_payload_batch batches)"
proof -
  have "0 < row_limit variables columns" by (simp add: row_limit_def)
  moreover from this have "0 < INSERT_BATCH_BYTES" by (simp add: INSERT_BATCH_BYTES_def)
  ultimately show ?thesis
    using row_batches_ok [of "row_limit variables columns" 0 "[]" rows] payload_batches_ok [OF spool_run_blobs [OF assms], of 0 "[]"]
    by (simp add: ingestion_row_batches_def write_summary_solution_rows_batched_def)
qed

theorem batches_lossless_bounded_witness:
  "concat (ingestion_row_batches 32766 8 [[SqlInt 1], [SqlText ''a'']]) = [[SqlInt 1], [SqlText ''a'']]"
proof -
  have "encodings plain_payloads True [(''s'', [sample_effect], [sample_origin])] =
      [(''s'', encode_summary_payload plain_payloads True ''s'' [sample_effect] [sample_origin])]"
    by (simp add: encodings_def encode_group_def propagated_part_def has_facts_def sample_effect_def sample_origin_def)
  then have "\<exists>rows. spool_run plain_payloads True None [(''s'', [sample_effect], [sample_origin])] = Inr rows"
    using sample_encoded [of True] spool_run_encodings [of "[(''s'', [sample_effect], [sample_origin])]" plain_payloads True None]
    by (auto simp: await_def rmap_result_def)
  then show ?thesis using batches_lossless_bounded [of "[(''s'', [sample_effect], [sample_origin])]"] by auto
qed

end
