(* ===== verification/Spec2Isabelle.thy ===== *)
theory Spec2Isabelle
imports SolverSpec NativeStream NativeSession BatchClosure Overrides RetrievalSpec PipelineSpec
  StoreSpec StorePayloadSpec
begin

text \<open>
  cpp-context-engine indexes C++ projects and answers questions about them: a native clang analyzer is run
  for every configuration of a compilation database, its facts are checked and converted to batches of
  domain objects, summaries are propagated along the call graph, and a hybrid retriever packs
  source excerpts for a query.  This development models the parts of \<open>src/src/cpp_context_engine\<close> that carry that logic and
  proves what makes each of them correct.

  \<^bold>\<open>Conventions.\<close>  \<^verbatim>\<open>Prelude\<close> holds the exceptions (\<open>exn\<close>), the result type \<open>exn + 'a\<close> with \<open>rbind\<close>, \<open>rmap\<close> and \<open>rfold\<close>,
  and the Python built-ins the sources use.  A \<open>str\<close> is a string of code points below 256, decoded file text a list of
  code points, a \<open>dict\<close> an association list in insertion order, an \<open>int\<close> an \<open>int\<close>, a float the
  rational it denotes (with the rounding, where a result depends on it, a parameter).  A raise is \<open>Inl\<close>.
  Code that is not in the repository is a parameter: SHA-256 and BLAKE2 digests (\<open>H\<close>), \<open>json.loads\<close>, \<open>zlib\<close>, \<open>marshal\<close>,
  the file system (\<open>fs\<close>), the searches, graph and store behind the retriever.  A check for cancellation that can only
  abort a call is left out.

  \<^bold>\<open>Parts.\<close>
  \<^item> \<open>models.py\<close>: \<^verbatim>\<open>Models\<close>, the enumerations (one locale \<open>str_enum\<close>, interpreted by each), spans, build scopes and the fact dataclasses with
    their validation.  \<^verbatim>\<open>Identity\<close>: the stable identifiers.
  \<^item> \<open>analysis/interprocedural.py\<close>: \<^verbatim>\<open>Tarjan\<close> (\<open>_tarjan\<close>; the fuel is the number of vertices plus one, enough because no vertex is entered
    twice), \<^verbatim>\<open>Interprocedural\<close> (\<open>_solve_variant\<close> and its inner functions, \<open>solve_interprocedural\<close>), \<^verbatim>\<open>CallGraph\<close>,
    \<^verbatim>\<open>SolverProofs\<close>, \<^verbatim>\<open>SolverLoop\<close>, \<^verbatim>\<open>Streaming\<close>; the properties are in \<^verbatim>\<open>SolverSpec\<close>: completeness is sound and closed under
    calls, streaming emits what the retained mode returns, components come callees first.
  \<^item> \<open>ingestion/telemetry.py\<close>: \<^verbatim>\<open>Telemetry\<close>, event validation, the child-process payload and the idle gate against its abstract
    specification.
  \<^item> \<open>source_paths.py\<close>, \<open>storage/source.py\<close>: \<^verbatim>\<open>Text\<close> (UTF-8, lines, path arithmetic) and \<^verbatim>\<open>SourcePaths\<close> (boundary and span reader).
  \<^item> \<open>ingestion/compilation_database.py\<close>: \<^verbatim>\<open>CompilationDb\<close>.
  \<^item> \<open>ingestion/native.py\<close>: \<^verbatim>\<open>NativeWire\<close> (typed fields, chunked symbol text, resource budgets), \<^verbatim>\<open>NativeStream\<close> (the JSON-lines
    decoder, plain and gzip), \<^verbatim>\<open>NativeRegistry\<close> (the spool files), \<^verbatim>\<open>NativeSession\<close> (handshake, request and response state machine),
    \<^verbatim>\<open>BuilderCore\<close>, \<^verbatim>\<open>BuilderCfg\<close>, \<^verbatim>\<open>BuilderFlow\<close>, \<^verbatim>\<open>BuilderBatch\<close> (\<open>_FactBatchBuilder\<close>) with the consistency theorems in \<^verbatim>\<open>FlowConsistency\<close>,
    \<^verbatim>\<open>SummaryConsistency\<close> and \<^verbatim>\<open>BatchClosure\<close>, and \<^verbatim>\<open>Overrides\<close> (\<open>_add_indexed_override_candidates\<close>).
  \<^item> \<open>NativeClangIngestor.iter_configuration_batches\<close>: \<^verbatim>\<open>Pipeline\<close>, a step relation with one step per critical section of the
    coordinator and the generator and per start and end of a submitted callable; \<^verbatim>\<open>PipelineInv\<close>, \<^verbatim>\<open>PipelineStep\<close>, \<^verbatim>\<open>PipelineKeep\<close>, \<^verbatim>\<open>PipelineSafe\<close> (the
    invariant and its preservation), \<^verbatim>\<open>PipelineLive\<close> and \<^verbatim>\<open>PipelineEnd\<close> (a measure of the remaining work), with the properties in
    \<^verbatim>\<open>PipelineSpec\<close>: refinement of the sequential loop, progress, bounds, no leaked registry.
  \<^item> \<open>storage/sqlite.py\<close>: \<^verbatim>\<open>StoreRows\<close> (the tuples an ingestion inserts and the objects made of rows, with the sixteen round
    trips in \<^verbatim>\<open>StoreRoundtrip\<close>, \<^verbatim>\<open>StoreCodec\<close> an instance of the JSON parameter and the property in \<^verbatim>\<open>StoreSpec\<close>); \<^verbatim>\<open>StorePayload\<close>
    (compact payloads of propagated summary facts, grouping, the spool and the row batchers), \<^verbatim>\<open>StorePayloadLemmas\<close>, \<^verbatim>\<open>StoreSpool\<close>
    (the spool against encoding in order) and the properties in \<^verbatim>\<open>StorePayloadSpec\<close>.
  \<^item> \<open>retrieval/hybrid.py\<close>: \<^verbatim>\<open>Retrieval\<close> (the whole operation), \<^verbatim>\<open>RetrievalPack\<close> (budgets and order of the packer), \<^verbatim>\<open>RetrievalExpand\<close>
    (provenance and budgets of the expansion), \<^verbatim>\<open>RetrievalFuse\<close> (reciprocal-rank fusion against its specification),
    \<^verbatim>\<open>RetrievalErrors\<close> (what a failing adapter can do), with the properties in \<^verbatim>\<open>RetrievalSpec\<close>.

  \<^bold>\<open>How the parts meet.\<close>  A configuration of the compilation database is analyzed in a session; the session's facts go
  through the wire readers into a registry; the builder reads the registry and yields a batch; the pipeline runs sessions and
  builders (its two callables, parameters there) concurrently and publishes the batches in order; the override candidates and
  the solver complete the merged batches; their facts become rows and the solver's propagated facts payloads, from which they
  are read back; the retriever reads symbols through the source boundary.

  \<^bold>\<open>Not modelled.\<close>  The rest of \<open>storage/sqlite.py\<close> (schema, migrations, transactions, queries) is SQL against an embedded
  database, and \<open>api\<close>, \<open>mcp\<close>, \<open>summary_input.py\<close> and \<open>search/sqlite.py\<close> are queries over such databases; \<open>ingestion/clang.py\<close>
  drives a live libclang AST; \<open>ingestion/indexer.py\<close> and \<open>ingestion/deep.py\<close> sequence processes and transactions; \<open>config.py\<close> reads the
  environment; \<open>search/vector.py\<close> is numpy; \<open>llm\<close> and the hosted embedding provider are HTTP clients; \<open>cli.py\<close> and \<open>runtime.py\<close>
  are wiring; \<open>kicad_canary.py\<close> and \<open>benchmark.py\<close> run and measure processes.
\<close>

end
